(* ===== verification/Go_Base.thy ===== *)
theory Go_Base
  imports Main "HOL-Library.Char_ord" "HOL-Library.List_Lexorder" "HOL-Library.Word"
begin

text \<open>
  Shared prelude of the development: results of fallible Go code as sums, the
  byte strings of Go as \<^typ>\<open>string\<close> (one \<^typ>\<open>char\<close> per byte), the functions of
  \<^verbatim>\<open>strings\<close>, \<^verbatim>\<open>strconv\<close>, \<^verbatim>\<open>encoding/hex\<close> and
  \<^verbatim>\<open>encoding/base64\<close> that the modelled packages call, and the generic lemmas
  about them that the components share. Letter case is folded on ASCII letters.
\<close>

named_theorems go_simps \<open>rewrite rules of the Go library functions\<close>
named_theorems res_elims \<open>case rules for results of fallible operations\<close>

type_synonym bytes = string
type_synonym ('e, 'a) result = "'e + 'a"

section \<open>Results\<close>

definition res_bind :: "('e, 'a) result \<Rightarrow> ('a \<Rightarrow> ('e, 'b) result) \<Rightarrow> ('e, 'b) result" where
  "res_bind r f = (case r of Inl e \<Rightarrow> Inl e | Inr x \<Rightarrow> f x)"

definition guard_res :: "bool \<Rightarrow> 'e \<Rightarrow> ('e, unit) result" where
  "guard_res ok e = (if ok then Inr () else Inl e)"

lemma res_bind_simps [simp]:
  "res_bind (Inl e) f = Inl e"
  "res_bind (Inr x) f = f x"
  by (simp_all add: res_bind_def)

lemma res_bind_Inr_iff: "res_bind r f = Inr y \<longleftrightarrow> (\<exists>x. r = Inr x \<and> f x = Inr y)"
  by (cases r) simp_all

lemma res_bind_InrE [res_elims, elim!]:
  assumes "res_bind r f = Inr y"
  obtains x where "r = Inr x" and "f x = Inr y"
  using assms by (auto simp: res_bind_Inr_iff)

lemma guard_res_Inr_iff [simp]: "guard_res ok e = Inr u \<longleftrightarrow> ok"
  by (simp add: guard_res_def)

lemma guard_res_Inl_iff [simp]: "guard_res ok e = Inl e' \<longleftrightarrow> \<not> ok \<and> e' = e"
  by (auto simp: guard_res_def)

lemma guard_res_bind [simp]:
  "res_bind (guard_res ok e) f = (if ok then f () else Inl e)"
  by (simp add: guard_res_def)

section \<open>Package strings\<close>

definition has_prefix :: "string \<Rightarrow> string \<Rightarrow> bool" where
  "has_prefix s p \<longleftrightarrow> take (length p) s = p"

definition has_suffix :: "string \<Rightarrow> string \<Rightarrow> bool" where
  "has_suffix s p \<longleftrightarrow> has_prefix (rev s) (rev p)"

definition trim_prefix :: "string \<Rightarrow> string \<Rightarrow> string" where
  "trim_prefix s p = (if has_prefix s p then drop (length p) s else s)"

definition trim_suffix :: "string \<Rightarrow> string \<Rightarrow> string" where
  "trim_suffix s p = (if has_suffix s p then take (length s - length p) s else s)"

definition trim_char :: "char \<Rightarrow> string \<Rightarrow> string" where
  "trim_char c s = rev (dropWhile (\<lambda>x. x = c) (rev (dropWhile (\<lambda>x. x = c) s)))"

definition lower_char :: "char \<Rightarrow> char" where
  "lower_char c = (let n = (of_char c :: nat) in if 65 \<le> n \<and> n \<le> 90 then char_of (n + 32) else c)"

definition upper_char :: "char \<Rightarrow> char" where
  "upper_char c = (let n = (of_char c :: nat) in if 97 \<le> n \<and> n \<le> 122 then char_of (n - 32) else c)"

definition to_lower :: "string \<Rightarrow> string" where
  "to_lower s = map lower_char s"

definition to_upper :: "string \<Rightarrow> string" where
  "to_upper s = map upper_char s"

definition equal_fold :: "string \<Rightarrow> string \<Rightarrow> bool" where
  "equal_fold s t \<longleftrightarrow> to_lower s = to_lower t"

text \<open>\<^verbatim>\<open>strings.Split\<close> on one character, and its inverse \<^verbatim>\<open>strings.Join\<close>.\<close>

fun split_on :: "char \<Rightarrow> string \<Rightarrow> string list" where
  "split_on c [] = [[]]"
| "split_on c (x # xs) =
     (if x = c then [] # split_on c xs
      else (case split_on c xs of [] \<Rightarrow> [[x]] | y # ys \<Rightarrow> (x # y) # ys))"

fun join_with :: "string \<Rightarrow> string list \<Rightarrow> string" where
  "join_with sep [] = []"
| "join_with sep [x] = x"
| "join_with sep (x # y # ys) = x @ sep @ join_with sep (y # ys)"

text \<open>\<^verbatim>\<open>strings.FieldsFunc\<close> for one separator character: the non-empty parts.\<close>

definition fields_on :: "char \<Rightarrow> string \<Rightarrow> string list" where
  "fields_on c s = filter (\<lambda>p. p \<noteq> []) (split_on c s)"

text \<open>\<^verbatim>\<open>strings.IndexByte\<close>, with \<^term>\<open>None\<close> for minus one.\<close>

fun index_of :: "'a \<Rightarrow> 'a list \<Rightarrow> nat option" where
  "index_of c [] = None"
| "index_of c (x # xs) = (if x = c then Some 0 else map_option Suc (index_of c xs))"

lemma index_of_nth: "distinct xs \<Longrightarrow> n < length xs \<Longrightarrow> index_of (xs ! n) xs = Some n"
  by (induction xs arbitrary: n) (auto simp: nth_Cons split: nat.splits)

lemma index_of_Some: "index_of c xs = Some n \<Longrightarrow> n < length xs \<and> xs ! n = c"
  by (induction xs arbitrary: n) (auto split: if_splits)

lemma index_of_None: "index_of c xs = None \<longleftrightarrow> c \<notin> set xs"
  by (induction xs) auto

lemma has_prefix_append [simp]: "has_prefix (p @ s) p"
  by (simp add: has_prefix_def)

lemma has_prefix_Nil [simp]: "has_prefix s []"
  by (simp add: has_prefix_def)

lemma has_prefix_iff: "has_prefix s p \<longleftrightarrow> (\<exists>r. s = p @ r)"
  by (metis append_take_drop_id has_prefix_append has_prefix_def)

lemma has_suffix_iff: "has_suffix s p \<longleftrightarrow> (\<exists>r. s = r @ p)"
  unfolding has_suffix_def has_prefix_iff by (metis rev_append rev_rev_ident)

lemma has_prefix_trans: "has_prefix s p \<Longrightarrow> has_prefix p q \<Longrightarrow> has_prefix s q"
  by (auto simp: has_prefix_iff)

lemma trim_prefix_append [simp]: "trim_prefix (p @ s) p = s"
  by (simp add: trim_prefix_def)

lemma trim_prefix_inverse: "has_prefix s p \<Longrightarrow> p @ trim_prefix s p = s"
  by (auto simp: trim_prefix_def has_prefix_iff)

lemma trim_suffix_append [simp]: "trim_suffix (s @ p) p = s"
  by (auto simp: trim_suffix_def has_suffix_iff)

lemma has_suffix_append [simp]: "has_suffix (s @ p) p"
  by (auto simp: has_suffix_iff)

lemma split_on_not_Nil [simp]: "split_on c s \<noteq> []"
  by (induction s) (auto split: list.splits)

lemma split_on_no_sep: "p \<in> set (split_on c s) \<Longrightarrow> c \<notin> set p"
proof (induction s arbitrary: p)
  case (Cons x xs)
  then show ?case by (cases "split_on c xs") (auto split: if_splits)
qed simp

lemma split_on_part: "c \<notin> set p \<Longrightarrow> split_on c (p @ c # s) = p # split_on c s"
  by (induction p) auto

lemma split_on_single: "c \<notin> set p \<Longrightarrow> split_on c p = [p]"
  by (induction p) auto

lemma split_on_join:
  assumes "ps \<noteq> []" and "\<And>p. p \<in> set ps \<Longrightarrow> c \<notin> set p"
  shows "split_on c (join_with [c] ps) = ps"
  using assms by (induction "[c]" ps rule: join_with.induct) (auto simp: split_on_single split_on_part)

lemma join_split_on: "join_with [c] (split_on c s) = s"
proof (induction s)
  case (Cons x xs)
  show ?case
  proof (cases "split_on c xs")
    case (Cons y ys)
    with Cons.IH show ?thesis by (cases ys) auto
  qed (use split_on_not_Nil in blast)
qed simp

lemma length_to_lower [simp]: "length (to_lower s) = length s"
  by (simp add: to_lower_def)

lemma to_lower_append [simp]: "to_lower (s @ t) = to_lower s @ to_lower t"
  by (simp add: to_lower_def)

lemma lower_char_idem [simp]: "lower_char (lower_char c) = lower_char c"
proof (cases "65 \<le> (of_char c :: nat) \<and> (of_char c :: nat) \<le> 90")
  case True
  then have "(of_char (char_of (of_char c + 32 :: nat)) :: nat) = of_char c + 32"
    by (simp add: of_char_of)
  with True show ?thesis by (simp add: lower_char_def Let_def)
qed (auto simp: lower_char_def Let_def)

lemma to_lower_idem [simp]: "to_lower (to_lower s) = to_lower s"
  by (simp add: to_lower_def)

lemma equal_fold_lower [simp]: "equal_fold (to_lower s) t = equal_fold s t"
  by (simp add: equal_fold_def)

section \<open>Package strconv\<close>

definition digit_char :: "nat \<Rightarrow> char" where
  "digit_char n = char_of (48 + n)"

fun nat_dec :: "nat \<Rightarrow> string" where
  "nat_dec n = (if n < 10 then [digit_char n] else nat_dec (n div 10) @ [digit_char (n mod 10)])"

declare nat_dec.simps [simp del]

definition itoa :: "int \<Rightarrow> string" where
  "itoa i = (if i < 0 then CHR ''-'' # nat_dec (nat (- i)) else nat_dec (nat i))"

definition dec_nat :: "string \<Rightarrow> nat" where
  "dec_nat s = foldl (\<lambda>a c. 10 * a + (of_char c - 48)) 0 s"

lemma of_digit_char: "n < 10 \<Longrightarrow> (of_char (digit_char n) :: nat) = 48 + n"
  by (simp add: digit_char_def of_char_of)

lemma dec_nat_snoc: "dec_nat (s @ [c]) = 10 * dec_nat s + (of_char c - 48)"
  by (simp add: dec_nat_def)

lemma dec_nat_inverse: "dec_nat (nat_dec n) = n"
proof (induction n rule: nat_dec.induct)
  case (1 n)
  show ?case
  proof (cases "n < 10")
    case True
    then show ?thesis by (simp add: nat_dec.simps [of n] dec_nat_def of_digit_char)
  next
    case False
    with "1.IH" show ?thesis
      by (simp add: nat_dec.simps [of n] dec_nat_snoc of_digit_char)
  qed
qed

lemma nat_dec_inj: "nat_dec m = nat_dec n \<longleftrightarrow> m = n"
  by (metis dec_nat_inverse)

lemma nat_dec_digits: "c \<in> set (nat_dec n) \<Longrightarrow> 48 \<le> (of_char c :: nat) \<and> (of_char c :: nat) \<le> 57"
proof (induction n rule: nat_dec.induct)
  case (1 n)
  have m: "n mod 10 < 10" by simp
  from 1 show ?case
    by (cases "n < 10") (auto simp: nat_dec.simps [of n] of_digit_char of_digit_char [OF m])
qed

lemma nat_dec_not_minus: "nat_dec n \<noteq> CHR ''-'' # s"
proof
  assume "nat_dec n = CHR ''-'' # s"
  then have "CHR ''-'' \<in> set (nat_dec n)" by simp
  then show False using nat_dec_digits [of "CHR ''-''" n] by simp
qed

lemma itoa_inj: "itoa i = itoa j \<longleftrightarrow> i = j"
  using nat_dec_not_minus [of "nat i"] nat_dec_not_minus [of "nat j"]
  by (auto simp: itoa_def nat_dec_inj split: if_splits) (metis nat_dec_not_minus)+

lemma nat_dec_nonempty [simp]: "nat_dec n \<noteq> []"
  by (subst nat_dec.simps) simp

section \<open>Package encoding/hex\<close>

definition hex_alphabet :: string where
  "hex_alphabet = ''0123456789abcdef''"

definition hex_char :: "nat \<Rightarrow> char" where
  "hex_char n = hex_alphabet ! n"

text \<open>The value of one hexadecimal digit, both cases accepted as \<^verbatim>\<open>hex.DecodeString\<close> does.\<close>

definition hex_val :: "char \<Rightarrow> nat option" where
  "hex_val c = (let n = (of_char c :: nat) in
     if 48 \<le> n \<and> n \<le> 57 then Some (n - 48)
     else if 97 \<le> n \<and> n \<le> 102 then Some (n - 87)
     else if 65 \<le> n \<and> n \<le> 70 then Some (n - 55)
     else None)"

fun hex_encode :: "bytes \<Rightarrow> string" where
  "hex_encode [] = []"
| "hex_encode (c # cs) =
     hex_char (of_char c div 16) # hex_char (of_char c mod 16) # hex_encode cs"

fun hex_decode :: "string \<Rightarrow> bytes option" where
  "hex_decode [] = Some []"
| "hex_decode [c] = None"
| "hex_decode (a # b # cs) =
     (case (hex_val a, hex_val b, hex_decode cs) of
        (Some x, Some y, Some r) \<Rightarrow> Some (char_of (16 * x + y) # r)
      | _ \<Rightarrow> None)"

lemma all_below_upt: "(\<forall>n \<in> set [0..<k]. P n) \<Longrightarrow> n < k \<Longrightarrow> P n"
  by simp

lemma hex_val_char: "n < 16 \<Longrightarrow> hex_val (hex_char n) = Some n"
  by (rule all_below_upt [where k = 16]) code_simp

lemma of_char_less_256: "(of_char c :: nat) < 256"
  by (metis nat_of_char_less_256)

lemma hex_char_div [simp]: "hex_val (hex_char (of_char c div 16)) = Some (of_char c div 16)"
proof (rule hex_val_char)
  show "(of_char c :: nat) div 16 < 16"
    using of_char_less_256 [of c] by linarith
qed

lemma hex_char_mod [simp]: "hex_val (hex_char (of_char c mod 16)) = Some (of_char c mod 16)"
  by (rule hex_val_char) simp

lemma hex_decode_encode: "hex_decode (hex_encode s) = Some s"
  by (induction s) auto

lemma length_hex_encode [simp]: "length (hex_encode s) = 2 * length s"
  by (induction s) auto

lemma hex_no_comma: "CHR '','' \<notin> set (hex_encode s)"
proof (induction s)
  case (Cons x s)
  have "\<forall>n \<in> set [0..<16]. hex_char n \<noteq> CHR '',''" by code_simp
  then have "CHR '','' \<noteq> hex_char n" if "n < 16" for n using that by force
  then have "CHR '','' \<noteq> hex_char (of_char x div 16)" "CHR '','' \<noteq> hex_char (of_char x mod 16)"
    using of_char_less_256 [of x] less_mult_imp_div_less [of "of_char x" 16 16] by auto
  with Cons show ?case by (simp add: Let_def)
qed simp

lemma hex_encode_inj: "hex_encode s = hex_encode t \<longleftrightarrow> s = t"
  by (metis hex_decode_encode option.inject)

section \<open>Package encoding/base64, StdEncoding\<close>

definition b64_alphabet :: string where
  "b64_alphabet = ''ABCDEFGHIJKLMNOPQRSTUVWXYZabcdefghijklmnopqrstuvwxyz0123456789+/''"

definition b64_char :: "nat \<Rightarrow> char" where
  "b64_char n = b64_alphabet ! n"

definition b64_val :: "char \<Rightarrow> nat option" where
  "b64_val c = index_of c b64_alphabet"

fun b64_encode :: "bytes \<Rightarrow> string" where
  "b64_encode [] = []"
| "b64_encode [a] = (let x = of_char a in
     [b64_char (x div 4), b64_char (x mod 4 * 16), CHR ''='', CHR ''=''])"
| "b64_encode [a, b] = (let x = of_char a; y = of_char b in
     [b64_char (x div 4), b64_char (x mod 4 * 16 + y div 16), b64_char (y mod 16 * 4), CHR ''=''])"
| "b64_encode (a # b # c # r) = (let x = of_char a; y = of_char b; z = of_char c in
     b64_char (x div 4) # b64_char (x mod 4 * 16 + y div 16) #
     b64_char (y mod 16 * 4 + z div 64) # b64_char (z mod 64) # b64_encode r)"

text \<open>
  Go's decoder skips carriage returns and line feeds, wants groups of four characters,
  accepts padding in the last group only, and does not check the unused bits of a padded
  group (it is not the strict encoding).
\<close>

fun b64_groups :: "string \<Rightarrow> bytes option" where
  "b64_groups [] = Some []"
| "b64_groups (a # b # c # d # r) =
     (case (b64_val a, b64_val b) of
        (Some x, Some y) \<Rightarrow>
          (if c = CHR ''='' \<and> d = CHR ''='' \<and> r = [] then Some [char_of (x * 4 + y div 16)]
           else (case b64_val c of
              None \<Rightarrow> None
            | Some z \<Rightarrow>
                (if d = CHR ''='' \<and> r = []
                 then Some [char_of (x * 4 + y div 16), char_of (y mod 16 * 16 + z div 4)]
                 else (case (b64_val d, b64_groups r) of
                    (Some w, Some t) \<Rightarrow>
                      Some (char_of (x * 4 + y div 16) # char_of (y mod 16 * 16 + z div 4)
                            # char_of (z mod 4 * 64 + w) # t)
                  | _ \<Rightarrow> None))))
      | _ \<Rightarrow> None)"
| "b64_groups _ = None"

definition b64_decode :: "string \<Rightarrow> bytes option" where
  "b64_decode s = b64_groups (filter (\<lambda>c. c \<noteq> CHR 0x0A \<and> c \<noteq> CHR 0x0D) s)"

lemma b64_alphabet_distinct: "distinct b64_alphabet"
  by code_simp

lemma b64_val_char: "n < 64 \<Longrightarrow> b64_val (b64_char n) = Some n"
  unfolding b64_val_def b64_char_def
  by (rule index_of_nth [OF b64_alphabet_distinct]) (simp add: b64_alphabet_def)

lemma b64_char_plain:
  assumes "n < 64"
  shows "b64_char n \<noteq> CHR ''=''" and "b64_char n \<noteq> CHR 0x0A" and "b64_char n \<noteq> CHR 0x0D"
proof -
  have len: "length b64_alphabet = 64" by (simp add: b64_alphabet_def)
  have "b64_char n \<in> set b64_alphabet"
    unfolding b64_char_def by (rule nth_mem) (simp add: len assms)
  moreover have "list_all (\<lambda>c. c \<noteq> CHR ''='' \<and> c \<noteq> CHR 0x0A \<and> c \<noteq> CHR 0x0D) b64_alphabet"
    by (simp add: b64_alphabet_def)
  ultimately show "b64_char n \<noteq> CHR ''=''" "b64_char n \<noteq> CHR 0x0A" "b64_char n \<noteq> CHR 0x0D"
    by (auto simp: list_all_iff)
qed

lemma pack_div: "c < k \<Longrightarrow> (a * k + c) div k = (a::nat)"
  by simp

lemma pack_mod: "c < k \<Longrightarrow> (a * k + c) mod k = (c::nat)"
  by simp

lemma b64_bits:
  fixes a b c :: char
  defines "x \<equiv> (of_char a :: nat)" and "y \<equiv> (of_char b :: nat)" and "z \<equiv> (of_char c :: nat)"
  shows "x div 4 < 64" and "x mod 4 * 16 < 64" and "x mod 4 * 16 + y div 16 < 64"
    and "y mod 16 * 4 < 64" and "y mod 16 * 4 + z div 64 < 64" and "z mod 64 < 64"
    and "(x mod 4 * 16 + y div 16) div 16 = x mod 4"
    and "(x mod 4 * 16 + y div 16) mod 16 = y div 16"
    and "(y mod 16 * 4 + z div 64) div 4 = y mod 16"
    and "(y mod 16 * 4 + z div 64) mod 4 = z div 64"
    and "y div 16 mod 16 = y div 16" and "z div 64 mod 4 = z div 64"
proof -
  have xyz: "x < 256" "y < 256" "z < 256"
    by (simp_all add: x_def y_def z_def)
  have y: "y div 16 < 16" and z: "z div 64 < 4" and x: "x mod 4 < 4" and y': "y mod 16 < 16"
    using xyz by auto
  show "x div 4 < 64" "x mod 4 * 16 < 64" "y mod 16 * 4 < 64" "z mod 64 < 64"
    "x mod 4 * 16 + y div 16 < 64" "y mod 16 * 4 + z div 64 < 64"
    using xyz x y y' z by linarith+
  show "(x mod 4 * 16 + y div 16) div 16 = x mod 4" "(x mod 4 * 16 + y div 16) mod 16 = y div 16"
    using y by (simp_all only: pack_div pack_mod)
  show "(y mod 16 * 4 + z div 64) div 4 = y mod 16" "(y mod 16 * 4 + z div 64) mod 4 = z div 64"
    using z by (simp_all only: pack_div pack_mod)
  show "y div 16 mod 16 = y div 16" "z div 64 mod 4 = z div 64"
    using y z by simp_all
qed

lemmas b64_rules = Let_def b64_val_char b64_char_plain b64_bits of_char_less_256

lemma b64_encode_plain: "c \<in> set (b64_encode s) \<Longrightarrow> c \<noteq> CHR 0x0A \<and> c \<noteq> CHR 0x0D"
  by (induction s rule: b64_encode.induct)
    (auto simp: b64_rules)

lemma b64_groups_encode: "b64_groups (b64_encode s) = Some s"
proof (induction s rule: b64_encode.induct)
  case (4 a b c r)
  then show ?case
    by (simp add: b64_rules)
qed (simp_all add: b64_rules)

lemma b64_decode_encode: "b64_decode (b64_encode s) = Some s"
proof -
  have "filter (\<lambda>c. c \<noteq> CHR 0x0A \<and> c \<noteq> CHR 0x0D) (b64_encode s) = b64_encode s"
    using b64_encode_plain by (auto intro: filter_True)
  then show ?thesis by (simp add: b64_decode_def b64_groups_encode)
qed

lemma b64_encode_inj: "b64_encode s = b64_encode t \<longleftrightarrow> s = t"
  by (metis b64_decode_encode option.inject)

section \<open>Digests\<close>

text \<open>
  A SHA-256 digest is a value of \<^typ>\<open>256 word\<close>; \<open>sum_bytes\<close> is the Go array
  \<^verbatim>\<open>[32]byte\<close>, most significant byte first. The hash function itself is a parameter
  of the definitions that use it.
\<close>

type_synonym sha256 = "bytes \<Rightarrow> 256 word"

definition word_bytes :: "nat \<Rightarrow> 'a::len word \<Rightarrow> bytes" where
  "word_bytes n w = map (\<lambda>i. char_of (unat w div 256 ^ (n - 1 - i))) [0..<n]"

definition sum_bytes :: "256 word \<Rightarrow> bytes" where
  "sum_bytes w = word_bytes 32 w"

lemma length_word_bytes [simp]: "length (word_bytes n w) = n"
  by (simp add: word_bytes_def)

lemma length_sum_bytes [simp]: "length (sum_bytes w) = 32"
  by (simp add: sum_bytes_def)

fun bytes_nat :: "nat \<Rightarrow> bytes \<Rightarrow> nat" where
  "bytes_nat a [] = a"
| "bytes_nat a (c # cs) = bytes_nat (a * 256 + of_char c) cs"

lemma bytes_nat_append: "bytes_nat a (xs @ [c]) = bytes_nat a xs * 256 + of_char c"
  by (induction xs arbitrary: a) simp_all

lemma bytes_nat_digits:
  "bytes_nat 0 (map (\<lambda>i. char_of (u div 256 ^ (n - 1 - i))) [0..<n]) = u mod 256 ^ n" for u :: nat
proof (induction n arbitrary: u)
  case (Suc n)
  have step: "map (\<lambda>i. char_of (u div 256 ^ (Suc n - 1 - i))) [0..<n]
      = map (\<lambda>i. char_of ((u div 256) div 256 ^ (n - 1 - i))) [0..<n]"
  proof (rule map_cong [OF refl])
    fix i assume "i \<in> set [0..<n]"
    then have "Suc n - 1 - i = Suc (n - 1 - i)" by auto
    then show "(char_of (u div 256 ^ (Suc n - 1 - i)) :: char) = char_of ((u div 256) div 256 ^ (n - 1 - i))"
      by (simp only: power_Suc div_mult2_eq)
  qed
  have "bytes_nat 0 (map (\<lambda>i. char_of (u div 256 ^ (Suc n - 1 - i))) [0..<Suc n])
      = (u div 256) mod 256 ^ n * 256 + u mod 256"
    by (simp only: upt_Suc_append zero_le map_append list.map bytes_nat_append step Suc.IH) simp
  then show ?case by (simp only: power_Suc mod_mult2_eq mult.commute)
qed simp

lemma word_bytes_inj:
  fixes v w :: "'a::len word"
  assumes "LENGTH('a) \<le> 8 * n"
  shows "word_bytes n v = word_bytes n w \<longleftrightarrow> v = w"
proof
  have bound: "unat u < 256 ^ n" for u :: "'a word"
  proof -
    have "unat u < 2 ^ LENGTH('a)" by (rule unsigned_less)
    also have "\<dots> \<le> 2 ^ (8 * n)" using assms by (intro power_increasing) auto
    also have "\<dots> = (256 :: nat) ^ n" by (simp add: power_mult)
    finally show ?thesis .
  qed
  assume "word_bytes n v = word_bytes n w"
  then have "bytes_nat 0 (word_bytes n v) = bytes_nat 0 (word_bytes n w)" by simp
  then have "unat v = unat w"
    unfolding word_bytes_def bytes_nat_digits by (simp only: bound [THEN mod_less])
  then show "v = w" by (simp add: word_unat_eq_iff)
qed simp

lemma sum_bytes_inj: "sum_bytes v = sum_bytes w \<longleftrightarrow> v = w"
  unfolding sum_bytes_def by (rule word_bytes_inj) simp

end
