(* ===== verification/Object_Store.thy ===== *)
theory Object_Store
  imports Go_Base "HOL-Library.AList"
begin

text \<open>
  Remote object storage: the interface \<^verbatim>\<open>backend.Backend\<close> with its errors
  (\<^verbatim>\<open>internal/backend/backend.go\<close>) and the in-process store
  (\<^verbatim>\<open>internal/backend/memory/memory.go\<close>). The interface is a record of operations
  over a store state; the locale \<^verbatim>\<open>object_store\<close> states what a client may rely on
  (conditional puts decide on the current ETag and a refused put changes nothing), and the
  memory store is proved to provide it. The ETag is a function of the SHA-256 digest, which is
  a parameter.
\<close>

section \<open>Errors\<close>

datatype backend_error =
    ErrNotFound
  | ErrPrecondition
  | ErrAlreadyExists
  | ErrUnauthorized
  | ErrAccessDenied
  | ErrCredentialRejected
  | Refusal (ref_code: string) (ref_credential: bool)
  | APIAnswer (aa_code: string) (aa_err: "backend_error option")
  | BackendOther string

text \<open>\<^verbatim>\<open>(*Refusal).Is\<close>.\<close>

definition refusal_is :: "bool \<Rightarrow> backend_error \<Rightarrow> bool" where
  "refusal_is credential target =
     (case target of
        ErrUnauthorized \<Rightarrow> True
      | ErrAccessDenied \<Rightarrow> \<not> credential
      | ErrCredentialRejected \<Rightarrow> credential
      | _ \<Rightarrow> False)"

text \<open>\<^verbatim>\<open>errors.Is\<close> on these errors: equality, \<^verbatim>\<open>Refusal.Is\<close>, \<^verbatim>\<open>APIAnswer.Unwrap\<close>.\<close>

fun errors_is :: "backend_error \<Rightarrow> backend_error \<Rightarrow> bool" where
  "errors_is (Refusal c cr) t = (Refusal c cr = t \<or> refusal_is cr t)"
| "errors_is (APIAnswer c (Some e)) t = (APIAnswer c (Some e) = t \<or> errors_is e t)"
| "errors_is e t = (e = t)"

fun backend_error_text :: "backend_error \<Rightarrow> string" where
  "backend_error_text ErrNotFound = ''backend: not found''"
| "backend_error_text ErrPrecondition = ''backend: precondition failed''"
| "backend_error_text ErrAlreadyExists = ''backend: already exists''"
| "backend_error_text ErrUnauthorized = ''backend: unauthorized''"
| "backend_error_text ErrAccessDenied = ''backend: access denied''"
| "backend_error_text ErrCredentialRejected = ''backend: credential rejected''"
| "backend_error_text (Refusal c cr) =
     (if cr then ''backend: credential rejected ('' @ c @ '')''
      else ''backend: access denied ('' @ c @ '')'')"
| "backend_error_text (APIAnswer c None) = ''backend: endpoint answered '' @ c"
| "backend_error_text (APIAnswer c (Some e)) =
     ''backend: endpoint answered '' @ c @ '' ('' @ backend_error_text e @ '')''"
| "backend_error_text (BackendOther s) = s"

text \<open>
  A storage refusal always counts as unauthorized and is exactly one of a scope refusal
  (access denied) and a rejected credential, so a caller can tell the two apart.
\<close>
theorem refusal_classification:
  "errors_is (Refusal c cr) ErrUnauthorized
   \<and> (errors_is (Refusal c cr) ErrAccessDenied \<longleftrightarrow> \<not> errors_is (Refusal c cr) ErrCredentialRejected)
   \<and> \<not> errors_is (Refusal c cr) ErrNotFound \<and> \<not> errors_is (Refusal c cr) ErrPrecondition
   \<and> \<not> errors_is (Refusal c cr) ErrAlreadyExists"
  by (cases cr) (simp_all add: refusal_is_def)

section \<open>The interface\<close>

record object_meta =
  om_key :: string
  om_etag :: string
  om_size :: int

record put_options =
  po_if_match :: string
  po_if_none_match :: bool
  po_content_type :: string

record 's backend =
  be_put :: "string \<Rightarrow> bytes \<Rightarrow> put_options \<Rightarrow> 's \<Rightarrow> (backend_error, object_meta) result \<times> 's"
  be_get :: "string \<Rightarrow> 's \<Rightarrow> (backend_error, bytes \<times> object_meta) result"
  be_head :: "string \<Rightarrow> 's \<Rightarrow> (backend_error, object_meta) result"
  be_delete :: "string \<Rightarrow> 's \<Rightarrow> (backend_error, unit) result \<times> 's"
  be_list :: "string \<Rightarrow> 's \<Rightarrow> (backend_error, object_meta list) result"

text \<open>The errors the engine retries on: the write lost a race, and nothing was written.\<close>

definition lost_race :: "backend_error \<Rightarrow> bool" where
  "lost_race e \<longleftrightarrow> errors_is e ErrPrecondition \<or> errors_is e ErrAlreadyExists"

text \<open>
  What a client relies on. \<open>obj s k\<close> is the object under a key (its bytes and its ETag).
\<close>

locale object_store =
  fixes B :: "'s backend"
    and obj :: "'s \<Rightarrow> string \<Rightarrow> (bytes \<times> string) option"
    and sinv :: "'s \<Rightarrow> bool"
  assumes get_Inr: "be_get B k s = Inr (d, m) \<Longrightarrow> obj s k = Some (d, om_etag m)"
    and get_missing: "be_get B k s = Inl e \<Longrightarrow> errors_is e ErrNotFound \<Longrightarrow> obj s k = None"
    and head_Inr: "be_head B k s = Inr m \<Longrightarrow> \<exists>d. obj s k = Some (d, om_etag m)"
    and head_missing: "be_head B k s = Inl e \<Longrightarrow> errors_is e ErrNotFound \<Longrightarrow> obj s k = None"
    and put_Inr: "be_put B k d po s = (Inr m, s') \<Longrightarrow>
        obj s' = (obj s)(k \<mapsto> (d, om_etag m))
        \<and> (po_if_none_match po \<longrightarrow> obj s k = None)
        \<and> (po_if_match po \<noteq> [] \<longrightarrow> (\<exists>d0. obj s k = Some (d0, po_if_match po)))"
    and put_refused: "be_put B k d po s = (Inl e, s') \<Longrightarrow> lost_race e \<Longrightarrow> obj s' = obj s"
    and list_keys: "be_list B p s = Inr ms \<Longrightarrow> om_key ` set ms = {k. has_prefix k p \<and> obj s k \<noteq> None}"
    and etag_nonempty: "sinv s \<Longrightarrow> obj s k = Some (d, t) \<Longrightarrow> t \<noteq> []"
    and put_sinv: "sinv s \<Longrightarrow> sinv (snd (be_put B k d po s))"
begin

lemma put_then_get:
  assumes "be_put B k d po s = (Inr m, s')"
  shows "obj s' k = Some (d, om_etag m)" and "k' \<noteq> k \<Longrightarrow> obj s' k' = obj s k'"
  using put_Inr [OF assms] by auto

lemma create_only:
  assumes "be_put B k d po s = (Inr m, s')" and "po_if_none_match po"
  shows "obj s k = None"
  using put_Inr [OF assms(1)] assms(2) by simp

text \<open>Of two writers that hold the same ETag, the second one loses once the first has written.\<close>

lemma swap_excludes:
  assumes first: "be_put B k d1 po1 s = (Inr m1, s1)" and new: "om_etag m1 \<noteq> t"
    and second: "be_put B k d2 po2 s1 = (r, s2)" and po2: "po_if_match po2 = t" "t \<noteq> []"
  shows "\<exists>e. r = Inl e"
proof (cases r)
  case (Inr m2)
  with second have "be_put B k d2 po2 s1 = (Inr m2, s2)" by simp
  from put_Inr [OF this] po2 obtain d0 where "obj s1 k = Some (d0, t)" by auto
  with put_then_get(1) [OF first] new show ?thesis by simp
qed simp

end

section \<open>The memory store\<close>

record stored_object =
  ob_data :: bytes
  ob_etag :: string

type_synonym mem_store = "(string \<times> stored_object) list"

definition mem_new :: mem_store where
  "mem_new = []"

text \<open>\<^verbatim>\<open>etagOf\<close>: the first eight bytes of the digest in hexadecimal.\<close>

definition etag_of :: "sha256 \<Rightarrow> bytes \<Rightarrow> string" where
  "etag_of sha b = hex_encode (take 8 (sum_bytes (sha b)))"

definition mem_put ::
  "sha256 \<Rightarrow> string \<Rightarrow> bytes \<Rightarrow> put_options \<Rightarrow> mem_store
   \<Rightarrow> (backend_error, object_meta) result \<times> mem_store" where
  "mem_put sha k b po s =
     (let cur = map_of s k in
      if po_if_none_match po \<and> cur \<noteq> None then (Inl ErrAlreadyExists, s)
      else if po_if_match po \<noteq> [] \<and>
              (case cur of None \<Rightarrow> True | Some c \<Rightarrow> ob_etag c \<noteq> po_if_match po)
      then (Inl ErrPrecondition, s)
      else let et = etag_of sha b in
        (Inr \<lparr>om_key = k, om_etag = et, om_size = int (length b)\<rparr>,
         AList.update k \<lparr>ob_data = b, ob_etag = et\<rparr> s))"

definition object_head :: "string \<Rightarrow> stored_object \<Rightarrow> object_meta" where
  "object_head k o' = \<lparr>om_key = k, om_etag = ob_etag o', om_size = int (length (ob_data o'))\<rparr>"

definition mem_get :: "string \<Rightarrow> mem_store \<Rightarrow> (backend_error, bytes \<times> object_meta) result" where
  "mem_get k s = (case map_of s k of
     None \<Rightarrow> Inl ErrNotFound
   | Some o' \<Rightarrow> Inr (ob_data o', object_head k o'))"

definition mem_head :: "string \<Rightarrow> mem_store \<Rightarrow> (backend_error, object_meta) result" where
  "mem_head k s = (case map_of s k of
     None \<Rightarrow> Inl ErrNotFound
   | Some o' \<Rightarrow> Inr (object_head k o'))"

definition mem_delete :: "string \<Rightarrow> mem_store \<Rightarrow> (backend_error, unit) result \<times> mem_store" where
  "mem_delete k s = (case map_of s k of
     None \<Rightarrow> (Inl ErrNotFound, s)
   | Some _ \<Rightarrow> (Inr (), AList.delete k s))"

definition mem_list :: "string \<Rightarrow> mem_store \<Rightarrow> (backend_error, object_meta list) result" where
  "mem_list p s = Inr (map (\<lambda>(k, o'). object_head k o')
     (filter (\<lambda>(k, _). has_prefix k p) (AList.clearjunk s)))"

definition mem_backend :: "sha256 \<Rightarrow> mem_store backend" where
  "mem_backend sha = \<lparr>be_put = mem_put sha, be_get = mem_get, be_head = mem_head,
     be_delete = mem_delete, be_list = mem_list\<rparr>"

text \<open>What the store holds, as the interface sees it; entries carry the ETag of their bytes.\<close>

definition mem_obj :: "mem_store \<Rightarrow> string \<Rightarrow> (bytes \<times> string) option" where
  "mem_obj s k = map_option (\<lambda>o'. (ob_data o', ob_etag o')) (map_of s k)"

definition mem_ok :: "sha256 \<Rightarrow> mem_store \<Rightarrow> bool" where
  "mem_ok sha s \<longleftrightarrow> (\<forall>(k, o') \<in> set s. ob_etag o' = etag_of sha (ob_data o'))"

lemma etag_of_nonempty [simp]: "etag_of sha b \<noteq> []"
proof -
  have "length (etag_of sha b) = 16" by (simp add: etag_of_def)
  then show ?thesis by auto
qed

lemma mem_ok_new [simp]: "mem_ok sha mem_new"
  by (simp add: mem_ok_def mem_new_def)

lemma mem_ok_lookup: "mem_ok sha s \<Longrightarrow> map_of s k = Some o' \<Longrightarrow> ob_etag o' = etag_of sha (ob_data o')"
  by (auto simp: mem_ok_def dest: map_of_SomeD)

lemma alist_update_set: "set (AList.update k v al) \<subseteq> insert (k, v) (set al)"
  by (induction al) auto

lemma mem_ok_put: "mem_ok sha s \<Longrightarrow> mem_ok sha (snd (mem_put sha k b po s))"
  using alist_update_set [of k "\<lparr>ob_data = b, ob_etag = etag_of sha b\<rparr>" s]
  by (fastforce simp: mem_ok_def mem_put_def Let_def)

lemma mem_put_Inr:
  assumes "mem_put sha k d po s = (Inr m, s')"
  shows "m = \<lparr>om_key = k, om_etag = etag_of sha d, om_size = int (length d)\<rparr>"
    and "s' = AList.update k \<lparr>ob_data = d, ob_etag = etag_of sha d\<rparr> s"
    and "po_if_none_match po \<Longrightarrow> map_of s k = None"
    and "po_if_match po \<noteq> [] \<Longrightarrow> \<exists>c. map_of s k = Some c \<and> ob_etag c = po_if_match po"
  using assms by (auto simp: mem_put_def Let_def split: if_splits option.splits)

lemma mem_put_Inl: "mem_put sha k d po s = (Inl e, s') \<Longrightarrow> s' = s \<and> lost_race e"
  by (auto simp: mem_put_def Let_def lost_race_def split: if_splits)

lemma mem_list_keys:
  assumes "mem_list p s = Inr ms"
  shows "om_key ` set ms = {k. has_prefix k p \<and> mem_obj s k \<noteq> None}"
proof -
  have "om_key ` set ms = {k \<in> fst ` set (AList.clearjunk s). has_prefix k p}"
    using assms by (force simp: mem_list_def object_head_def)
  also have "fst ` set (AList.clearjunk s) = {k. map_of s k \<noteq> None}"
    unfolding dom_map_of_conv_image_fst [symmetric] AList.map_of_clearjunk dom_def ..
  finally show ?thesis by (auto simp: mem_obj_def)
qed

lemmas mem_backend_simps = mem_backend_def backend.simps

interpretation mem: object_store "mem_backend sha" mem_obj "mem_ok sha"
proof unfold_locales
  fix k s d m
  assume "be_get (mem_backend sha) k s = Inr (d, m)"
  then show "mem_obj s k = Some (d, om_etag m)"
    by (auto simp: mem_backend_simps mem_get_def mem_obj_def object_head_def split: option.splits)
next
  fix k s e
  assume "be_get (mem_backend sha) k s = Inl e"
  then show "mem_obj s k = None"
    by (auto simp: mem_backend_simps mem_get_def mem_obj_def split: option.splits)
next
  fix k s m
  assume "be_head (mem_backend sha) k s = Inr m"
  then show "\<exists>d. mem_obj s k = Some (d, om_etag m)"
    by (auto simp: mem_backend_simps mem_head_def mem_obj_def object_head_def split: option.splits)
next
  fix k s e
  assume "be_head (mem_backend sha) k s = Inl e"
  then show "mem_obj s k = None"
    by (auto simp: mem_backend_simps mem_head_def mem_obj_def split: option.splits)
next
  fix k d po s m s'
  assume "be_put (mem_backend sha) k d po s = (Inr m, s')"
  then have "mem_put sha k d po s = (Inr m, s')" by (simp add: mem_backend_simps)
  note p = mem_put_Inr [OF this]
  show "mem_obj s' = (mem_obj s)(k \<mapsto> (d, om_etag m)) \<and>
      (po_if_none_match po \<longrightarrow> mem_obj s k = None) \<and>
      (po_if_match po \<noteq> [] \<longrightarrow> (\<exists>d0. mem_obj s k = Some (d0, po_if_match po)))"
    using p(3,4) by (auto simp: p(1,2) mem_obj_def update_conv' fun_eq_iff)
next
  fix k d po s e s'
  assume "be_put (mem_backend sha) k d po s = (Inl e, s')"
  then show "mem_obj s' = mem_obj s"
    using mem_put_Inl [of sha k d po s e s'] by (simp add: mem_backend_simps)
next
  fix p s ms
  assume "be_list (mem_backend sha) p s = Inr ms"
  then show "om_key ` set ms = {k. has_prefix k p \<and> mem_obj s k \<noteq> None}"
    using mem_list_keys by (simp add: mem_backend_simps)
next
  fix s k d t
  assume "mem_ok sha s" "mem_obj s k = Some (d, t)"
  then show "t \<noteq> []" by (auto simp: mem_obj_def mem_ok_lookup)
next
  fix s k d po
  assume "mem_ok sha s"
  then show "mem_ok sha (snd (be_put (mem_backend sha) k d po s))"
    by (simp add: mem_backend_simps mem_ok_put)
qed

section \<open>The keyring object's name\<close>

text \<open>\<^verbatim>\<open>ObjectName\<close> and \<^verbatim>\<open>ObjectKey\<close> of \<^verbatim>\<open>internal/keyring\<close>.\<close>

definition keyring_object_name :: string where
  "keyring_object_name = ''keyring.v1.json''"

definition keyring_object_key :: "string \<Rightarrow> string" where
  "keyring_object_key prefix = (let p = trim_char CHR ''/'' prefix in
     if p = [] then keyring_object_name else p @ ''/'' @ keyring_object_name)"

end
