(* ===== verification/Schema.thy ===== *)
theory Schema
  imports Go_Base "HOL-Library.AList"
begin

text \<open>
  The versioned data contracts of \<^verbatim>\<open>internal/schema\<close>: configuration, enrolment record,
  remote manifest, snapshot envelope and local state, with the validators every loader runs.
  A Go struct is a record; a Go map with string keys is a map; a pointer that may be nil is an
  option. Validators that fill defaults in place return the updated document with the error.
\<close>

datatype schema_error =
    NilDocument
  | UnsupportedVersion int
  | MissingIdentity
  | MissingStorageType
  | UnsupportedEncryption string
  | UnsupportedPolicy string
  | BadKeyGeneration
  | MissingAnchor
  | UseNormalDecode
  | MissingVersion
  | NoMigrationPath int

section \<open>Configuration (config.go)\<close>

record hop_config =
  hop_url :: string

record restore_config =
  active_agent_policy :: string

record storage_config =
  st_type :: string
  st_endpoint :: string
  st_region :: string
  st_bucket :: string
  st_prefix :: string
  st_credential_ref :: string

record project_config =
  pc_id :: string
  pc_local_root :: string

record config =
  cf_schema_version :: int
  cf_profile_id :: string
  cf_device_id :: string
  cf_remote_profile_required :: bool
  cf_storage :: storage_config
  cf_encryption_type :: string
  cf_agents :: "string \<rightharpoonup> bool"
  cf_projects :: "project_config list"
  cf_restore :: restore_config
  cf_hop :: hop_config

definition ConfigSchemaVersion :: int where "ConfigSchemaVersion = 1"

definition ActiveAgentStrict :: string where "ActiveAgentStrict = ''strict''"
definition ActiveAgentScoped :: string where "ActiveAgentScoped = ''scoped''"
definition ActiveAgentOff :: string where "ActiveAgentOff = ''off''"
definition ActiveAgentFork :: string where "ActiveAgentFork = ''fork''"
definition DefaultActiveAgentPolicy :: string where "DefaultActiveAgentPolicy = ActiveAgentFork"

definition StorageS3 :: string where "StorageS3 = ''s3''"
definition StorageHop :: string where "StorageHop = ''hop''"

definition EncryptionPassphrase :: string where "EncryptionPassphrase = ''age-scrypt''"
definition EncryptionRootKey :: string where "EncryptionRootKey = ''root-key''"

lemmas schema_strings =
  ActiveAgentStrict_def ActiveAgentScoped_def ActiveAgentOff_def ActiveAgentFork_def
  DefaultActiveAgentPolicy_def StorageS3_def StorageHop_def
  EncryptionPassphrase_def EncryptionRootKey_def

definition known_encryption :: "string \<Rightarrow> bool" where
  "known_encryption t \<longleftrightarrow> t = EncryptionPassphrase \<or> t = EncryptionRootKey"

definition known_policy :: "string \<Rightarrow> bool" where
  "known_policy p \<longleftrightarrow> p = ActiveAgentStrict \<or> p = ActiveAgentScoped \<or> p = ActiveAgentOff \<or> p = ActiveAgentFork"

definition validate_config :: "config option \<Rightarrow> schema_error option \<times> config option" where
  "validate_config copt = (case copt of None \<Rightarrow> (Some NilDocument, None) | Some c \<Rightarrow>
     if cf_schema_version c \<noteq> ConfigSchemaVersion
     then (Some (UnsupportedVersion (cf_schema_version c)), Some c)
     else if cf_profile_id c = [] \<or> cf_device_id c = [] then (Some MissingIdentity, Some c)
     else if st_type (cf_storage c) = [] then (Some MissingStorageType, Some c)
     else let c1 = (if cf_encryption_type c = [] then c\<lparr>cf_encryption_type := EncryptionPassphrase\<rparr> else c) in
       if \<not> known_encryption (cf_encryption_type c1)
       then (Some (UnsupportedEncryption (cf_encryption_type c1)), Some c1)
       else let c2 = (if active_agent_policy (cf_restore c1) = []
                      then c1\<lparr>cf_restore := (cf_restore c1)\<lparr>active_agent_policy := DefaultActiveAgentPolicy\<rparr>\<rparr>
                      else c1) in
         if \<not> known_policy (active_agent_policy (cf_restore c2))
         then (Some (UnsupportedPolicy (active_agent_policy (cf_restore c2))), Some c2)
         else (None, Some c2))"

text \<open>\<open>capable\<close> stands for the catalog's list of agents with the sync capability.\<close>

definition default_enabled_agents :: "string list \<Rightarrow> (string \<rightharpoonup> bool)" where
  "default_enabled_agents capable = (\<lambda>k. if k \<in> set capable then Some True else None)"

definition default_config :: "string list \<Rightarrow> string \<Rightarrow> string \<Rightarrow> config" where
  "default_config capable profile device = \<lparr>
     cf_schema_version = ConfigSchemaVersion, cf_profile_id = profile, cf_device_id = device,
     cf_remote_profile_required = False,
     cf_storage = \<lparr>st_type = ''s3'', st_endpoint = [], st_region = ''auto'', st_bucket = ''reinstate'',
                   st_prefix = [], st_credential_ref = []\<rparr>,
     cf_encryption_type = ''age-scrypt'',
     cf_agents = default_enabled_agents capable,
     cf_projects = [],
     cf_restore = \<lparr>active_agent_policy = DefaultActiveAgentPolicy\<rparr>,
     cf_hop = \<lparr>hop_url = []\<rparr>\<rparr>"

definition config_valid :: "config \<Rightarrow> bool" where
  "config_valid c \<longleftrightarrow> cf_schema_version c = ConfigSchemaVersion \<and> cf_profile_id c \<noteq> [] \<and> cf_device_id c \<noteq> []
     \<and> st_type (cf_storage c) \<noteq> [] \<and> known_encryption (cf_encryption_type c)
     \<and> known_policy (active_agent_policy (cf_restore c))"

lemma known_encryption_simps [simp]:
  "known_encryption EncryptionPassphrase" "known_encryption EncryptionRootKey" "\<not> known_encryption []"
  by (simp_all add: known_encryption_def schema_strings)

lemma known_policy_simps [simp]:
  "known_policy ActiveAgentFork" "known_policy DefaultActiveAgentPolicy" "\<not> known_policy []"
  by (simp_all add: known_policy_def schema_strings)

lemma validate_config_valid: "config_valid c \<Longrightarrow> validate_config (Some c) = (None, Some c)"
  by (auto simp: validate_config_def config_valid_def Let_def)

lemma validate_config_accepts:
  "validate_config (Some c) = (None, d) \<Longrightarrow> \<exists>c'. d = Some c' \<and> config_valid c'"
  by (auto simp: validate_config_def config_valid_def Let_def split: if_splits)

text \<open>
  Configuration validation is total and idempotent: when it accepts a document, the returned
  document has a known encryption model and a known active-agent policy (defaults filled in),
  keeps every other field, and validates again to itself.
\<close>
theorem validate_config_idempotent:
  assumes "validate_config (Some c) = (None, d)"
  shows "\<exists>c'. d = Some c' \<and> config_valid c' \<and> validate_config (Some c') = (None, Some c')
     \<and> c' = c\<lparr>cf_encryption_type := cf_encryption_type c', cf_restore := cf_restore c'\<rparr>
     \<and> (cf_encryption_type c \<noteq> [] \<longrightarrow> cf_encryption_type c' = cf_encryption_type c)
     \<and> (active_agent_policy (cf_restore c) \<noteq> [] \<longrightarrow> cf_restore c' = cf_restore c)"
proof -
  from validate_config_accepts [OF assms] obtain c' where c': "d = Some c'" "config_valid c'"
    by blast
  moreover from assms c' have "c' = c\<lparr>cf_encryption_type := cf_encryption_type c', cf_restore := cf_restore c'\<rparr>
     \<and> (cf_encryption_type c \<noteq> [] \<longrightarrow> cf_encryption_type c' = cf_encryption_type c)
     \<and> (active_agent_policy (cf_restore c) \<noteq> [] \<longrightarrow> cf_restore c' = cf_restore c)"
    by (auto simp: validate_config_def Let_def split: if_splits)
  ultimately show ?thesis using validate_config_valid by blast
qed

theorem validate_config_idempotent_witness:
  "\<exists>c'. snd (validate_config (Some (default_config [''claude''] ''p'' ''d''))) = Some c' \<and> config_valid c'"
proof -
  let ?c = "default_config [''claude''] ''p'' ''d''"
  have "validate_config (Some ?c) = (None, snd (validate_config (Some ?c)))"
    by (simp add: validate_config_def default_config_def ConfigSchemaVersion_def known_encryption_def
        known_policy_def schema_strings Let_def)
  from validate_config_idempotent [OF this] show ?thesis by blast
qed

section \<open>Enrolment record (account.go)\<close>

definition AccountSchemaVersion :: int where "AccountSchemaVersion = 2"

record account =
  ac_schema_version :: int
  ac_profile_id :: string
  ac_device_id :: string
  ac_key_generation :: int
  ac_key_recipient :: string
  ac_account_key :: string
  ac_control_plane_key_generation :: int
  ac_control_plane_confirmed_at :: string
  ac_recovery_code_confirmed :: bool
  ac_enrolled_via :: string
  ac_enrolled_at :: string

definition validate_account :: "account option \<Rightarrow> schema_error option" where
  "validate_account aopt = (case aopt of None \<Rightarrow> Some NilDocument | Some a \<Rightarrow>
     if ac_schema_version a \<noteq> AccountSchemaVersion then Some (UnsupportedVersion (ac_schema_version a))
     else if ac_profile_id a = [] \<or> ac_device_id a = [] then Some MissingIdentity
     else if ac_key_generation a < 1 then Some BadKeyGeneration
     else if ac_key_recipient a = [] \<or> ac_account_key a = [] then Some MissingAnchor
     else None)"

lemma validate_account_None:
  "validate_account (Some a) = None \<longleftrightarrow>
     ac_schema_version a = AccountSchemaVersion \<and> ac_profile_id a \<noteq> [] \<and> ac_device_id a \<noteq> []
     \<and> 1 \<le> ac_key_generation a \<and> ac_key_recipient a \<noteq> [] \<and> ac_account_key a \<noteq> []"
  by (auto simp: validate_account_def split: if_splits)

section \<open>Manifest, envelope (manifest.go, envelope.go)\<close>

definition ManifestSchemaVersion :: int where "ManifestSchemaVersion = 1"

record manifest_session =
  ms_agent :: string
  ms_session_id :: string
  ms_snapshot_id :: string
  ms_project_id :: string
  ms_updated_at :: string

record manifest =
  mf_schema_version :: int
  mf_revision :: string
  mf_sessions :: "(string \<times> manifest_session) list"
  mf_updated_at :: string

definition new_manifest :: "string \<Rightarrow> manifest" where
  "new_manifest revision = \<lparr>mf_schema_version = ManifestSchemaVersion, mf_revision = revision,
     mf_sessions = [], mf_updated_at = []\<rparr>"

definition EnvelopeSchemaVersion :: int where "EnvelopeSchemaVersion = 1"
definition EnvelopeKind :: string where "EnvelopeKind = ''reinstate-session-snapshot''"

record envelope_file =
  ef_path :: string
  ef_mode :: int
  ef_size :: int
  ef_sha256 :: string

record envelope =
  en_schema_version :: int
  en_kind :: string
  en_snapshot_id :: string
  en_parent_revision :: string
  en_agent :: string
  en_adapter_schema :: int
  en_source_agent_ver :: string
  en_source_platform :: string
  en_project_id :: string
  en_session_id :: string
  en_created_at :: string
  en_files :: "envelope_file list"

section \<open>Local state (state.go)\<close>

definition StateSchemaVersion :: int where "StateSchemaVersion = 1"

record session_state =
  ss_agent :: string
  ss_session_id :: string
  ss_local_revision :: string
  ss_remote_revision :: string
  ss_updated_at :: string

record local_state =
  ls_schema_version :: int
  ls_last_remote_etag :: string
  ls_last_manifest_rev :: string
  ls_sessions :: "(string \<times> session_state) list option"
  ls_updated_at :: string
  ls_verify_reported_at :: string

definition validate_state :: "local_state option \<Rightarrow> schema_error option \<times> local_state option" where
  "validate_state sopt = (case sopt of None \<Rightarrow> (Some NilDocument, None) | Some s \<Rightarrow>
     if ls_schema_version s \<noteq> StateSchemaVersion then (Some (UnsupportedVersion (ls_schema_version s)), Some s)
     else if ls_sessions s = None then (None, Some (s\<lparr>ls_sessions := Some []\<rparr>))
     else (None, Some s))"

definition new_state :: "string \<Rightarrow> local_state" where
  "new_state now = \<lparr>ls_schema_version = StateSchemaVersion, ls_last_remote_etag = [], ls_last_manifest_rev = [],
     ls_sessions = Some [], ls_updated_at = now, ls_verify_reported_at = []\<rparr>"

definition migrate_state :: "int \<Rightarrow> (schema_error, local_state) result" where
  "migrate_state v = (if v = StateSchemaVersion then Inl UseNormalDecode
     else if v = 0 then Inl MissingVersion
     else Inl (NoMigrationPath v))"

lemma new_state_valid: "validate_state (Some (new_state now)) = (None, Some (new_state now))"
  by (simp add: validate_state_def new_state_def)

lemma validate_state_sessions:
  "validate_state (Some s) = (None, Some s') \<Longrightarrow> ls_sessions s' \<noteq> None \<and> validate_state (Some s') = (None, Some s')"
  by (auto simp: validate_state_def split: if_splits)

lemma migrate_state_fails: "\<exists>e. migrate_state v = Inl e"
  by (simp add: migrate_state_def)

end
