(* ===== verification/Go_Filepath.thy ===== *)
theory Go_Filepath
  imports Go_Base
begin

text \<open>
  The lexical functions of Go's \<^verbatim>\<open>path\<close> and \<^verbatim>\<open>path/filepath\<close> for a host whose
  separator is the slash: \<open>Clean\<close>, \<open>Base\<close>, \<open>Join\<close>, \<open>IsAbs\<close>. A cleaned path is
  described by its list of components, which is what the safety lemmas speak about.
\<close>

definition slash :: char where "slash = CHR ''/''"

definition is_abs :: "string \<Rightarrow> bool" where
  "is_abs p \<longleftrightarrow> has_prefix p [slash]"

text \<open>One component added to the reversed stack of components already kept.\<close>

definition push_comp :: "bool \<Rightarrow> string list \<Rightarrow> string \<Rightarrow> string list" where
  "push_comp rooted st c =
     (if c = [] \<or> c = ''.'' then st
      else if c = ''..'' then
        (case st of
           [] \<Rightarrow> (if rooted then [] else [''..''])
         | t # ts \<Rightarrow> (if t = ''..'' then ''..'' # st else ts))
      else c # st)"

definition clean_comps :: "bool \<Rightarrow> string \<Rightarrow> string list" where
  "clean_comps rooted p = rev (foldl (push_comp rooted) [] (split_on slash p))"

definition render_path :: "bool \<Rightarrow> string list \<Rightarrow> string" where
  "render_path rooted cs =
     (if rooted then slash # join_with [slash] cs
      else if cs = [] then ''.'' else join_with [slash] cs)"

definition path_clean :: "string \<Rightarrow> string" where
  "path_clean p = (if p = [] then ''.'' else render_path (is_abs p) (clean_comps (is_abs p) p))"

definition path_base :: "string \<Rightarrow> string" where
  "path_base p =
     (if p = [] then ''.''
      else let q = rev (dropWhile (\<lambda>c. c = slash) (rev p)) in
        if q = [] then [slash] else last (split_on slash q))"

text \<open>\<^verbatim>\<open>filepath.Join\<close> of two elements: empty elements are ignored, the rest is cleaned.\<close>

definition path_join :: "string \<Rightarrow> string \<Rightarrow> string" where
  "path_join a b =
     (if a = [] \<and> b = [] then []
      else if a = [] then path_clean b
      else if b = [] then path_clean a
      else path_clean (a @ [slash] @ b))"

section \<open>Components of a cleaned path\<close>

text \<open>
  A stack of kept components: no empty and no dot component, no separator inside a component,
  and parent references only at the bottom and only for a relative path.
\<close>

definition proper_comp :: "string \<Rightarrow> bool" where
  "proper_comp c \<longleftrightarrow> c \<noteq> [] \<and> c \<noteq> ''.'' \<and> c \<noteq> ''..'' \<and> slash \<notin> set c"

definition comps_ok :: "bool \<Rightarrow> string list \<Rightarrow> bool" where
  "comps_ok rooted cs \<longleftrightarrow> (\<exists>n ds. cs = replicate n ''..'' @ ds \<and> (\<forall>d \<in> set ds. proper_comp d) \<and> (rooted \<longrightarrow> n = 0))"

lemma comps_ok_Nil [simp]: "comps_ok rooted []"
  unfolding comps_ok_def by (rule exI [of _ 0]) simp

lemma proper_comp_simps [simp]:
  "\<not> proper_comp []" "\<not> proper_comp ''.''" "\<not> proper_comp ''..''"
  by (simp_all add: proper_comp_def)

lemma comps_ok_snoc_proper: "comps_ok r cs \<Longrightarrow> proper_comp c \<Longrightarrow> comps_ok r (cs @ [c])"
  unfolding comps_ok_def
proof (elim exE conjE)
  fix n ds
  assume "proper_comp c" "cs = replicate n ''..'' @ ds" "\<forall>d \<in> set ds. proper_comp d" "r \<longrightarrow> n = 0"
  then show "\<exists>n ds. cs @ [c] = replicate n ''..'' @ ds \<and> (\<forall>d \<in> set ds. proper_comp d) \<and> (r \<longrightarrow> n = 0)"
    by (intro exI [of _ n] exI [of _ "ds @ [c]"]) auto
qed

lemma comps_ok_snoc_up:
  assumes "comps_ok False cs" and "cs = [] \<or> last cs = ''..''"
  shows "comps_ok False (cs @ [''..''])"
proof -
  from assms(1) obtain n ds where cs: "cs = replicate n ''..'' @ ds" "\<forall>d \<in> set ds. proper_comp d"
    by (auto simp: comps_ok_def)
  with assms(2) have "ds = []"
    by (cases ds rule: rev_cases) auto
  with cs have "cs @ [''..''] = replicate (Suc n) ''..'' @ []"
    by (simp add: replicate_append_same)
  then show ?thesis unfolding comps_ok_def by (metis empty_iff empty_set)
qed

lemma comps_ok_butlast: "comps_ok r cs \<Longrightarrow> comps_ok r (butlast cs)"
  unfolding comps_ok_def
proof (elim exE conjE)
  fix n ds
  assume *: "cs = replicate n ''..'' @ ds" "\<forall>d \<in> set ds. proper_comp d" "r \<longrightarrow> n = 0"
  show "\<exists>n ds. butlast cs = replicate n ''..'' @ ds \<and> (\<forall>d \<in> set ds. proper_comp d) \<and> (r \<longrightarrow> n = 0)"
  proof (cases "ds = []")
    case True
    have "butlast (replicate n ''..'') = replicate (n - 1) ''..''"
      by (cases n) (simp_all add: replicate_append_same [symmetric] butlast_append)
    with * True show ?thesis by (intro exI [of _ "n - 1"] exI [of _ "[]"]) auto
  next
    case False
    with * show ?thesis
      by (intro exI [of _ n] exI [of _ "butlast ds"]) (auto simp: butlast_append dest: in_set_butlastD)
  qed
qed

lemma comps_ok_rooted: "comps_ok True cs \<longleftrightarrow> (\<forall>c \<in> set cs. proper_comp c)"
  by (auto simp: comps_ok_def)

lemma push_comp_ok:
  assumes "comps_ok r (rev st)" and "slash \<notin> set c"
  shows "comps_ok r (rev (push_comp r st c))"
proof (cases "c = [] \<or> c = ''.''")
  case False
  show ?thesis
  proof (cases "c = ''..''")
    case True
    show ?thesis
    proof (cases st)
      case Nil
      with True assms comps_ok_snoc_up [of "[]"] show ?thesis by (auto simp: push_comp_def)
    next
      case (Cons t ts)
      with assms(1) have ts: "comps_ok r (rev ts)"
        using comps_ok_butlast [of r "rev st"] by simp
      have "t = ''..'' \<Longrightarrow> \<not> r"
        using assms(1) Cons by (cases r) (auto simp: comps_ok_rooted)
      with True Cons ts assms(1) comps_ok_snoc_up [of "rev st"] show ?thesis
        by (auto simp: push_comp_def)
    qed
  next
    case proper: False
    with False assms have "proper_comp c" by (simp add: proper_comp_def)
    with False proper assms(1) show ?thesis
      by (simp add: push_comp_def comps_ok_snoc_proper)
  qed
qed (use assms in \<open>simp add: push_comp_def\<close>)

lemma foldl_push_comp_ok:
  assumes "comps_ok r (rev st)" and "\<And>c. c \<in> set cs \<Longrightarrow> slash \<notin> set c"
  shows "comps_ok r (rev (foldl (push_comp r) st cs))"
  using assms by (induction cs arbitrary: st) (simp_all add: push_comp_ok)

lemma clean_comps_ok: "comps_ok r (clean_comps r p)"
  unfolding clean_comps_def
  using foldl_push_comp_ok [of r "[]"] split_on_no_sep by simp

text \<open>Cleaning keeps proper components and a prefix of parent references.\<close>

lemma foldl_push_proper:
  "(\<And>d. d \<in> set ds \<Longrightarrow> proper_comp d) \<Longrightarrow> foldl (push_comp r) st ds = rev ds @ st"
  by (induction ds arbitrary: st) (auto simp: push_comp_def proper_comp_def)

lemma foldl_push_ups: "foldl (push_comp False) (replicate m ''..'') (replicate n ''..'') = replicate (n + m) ''..''"
proof (induction n arbitrary: m)
  case (Suc n)
  have "push_comp False (replicate m ''..'') ''..'' = replicate (Suc m) ''..''"
    by (cases m) (simp_all add: push_comp_def)
  with Suc.IH [of "Suc m"] show ?case by simp
qed simp

lemma foldl_push_ok:
  assumes "comps_ok r cs"
  shows "foldl (push_comp r) [] cs = rev cs"
proof -
  from assms obtain n ds where cs: "cs = replicate n ''..'' @ ds" "\<forall>d \<in> set ds. proper_comp d" "r \<longrightarrow> n = 0"
    by (auto simp: comps_ok_def)
  have "foldl (push_comp r) [] (replicate n ''..'') = replicate n ''..''"
  proof (cases r)
    case False
    then show ?thesis using foldl_push_ups [of 0 n] by (simp only: replicate_0 add_0_right)
  qed (use cs(3) in simp)
  with cs show ?thesis by (simp add: foldl_push_proper)
qed

lemma comps_ok_no_slash:
  assumes "comps_ok r cs" and "c \<in> set cs"
  shows "slash \<notin> set c \<and> c \<noteq> [] \<and> c \<noteq> ''.''"
proof -
  from assms have "c = ''..'' \<or> proper_comp c"
    unfolding comps_ok_def by (metis Un_iff in_set_replicate set_append)
  then show ?thesis by (elim disjE) (simp_all add: proper_comp_def slash_def)
qed

lemma split_render:
  assumes "comps_ok r cs"
  shows "foldl (push_comp r) [] (split_on slash (render_path r cs)) = rev cs"
proof (cases "cs = []")
  case True
  then show ?thesis by (cases r) (simp_all add: render_path_def push_comp_def slash_def)
next
  case False
  then have "split_on slash (join_with [slash] cs) = cs"
    using comps_ok_no_slash [OF assms] by (intro split_on_join) auto
  then show ?thesis
    using assms False by (cases r) (simp_all add: render_path_def foldl_push_ok push_comp_def)
qed

lemma join_with_hd: "cs \<noteq> [] \<Longrightarrow> hd cs \<noteq> [] \<Longrightarrow> hd (join_with sep cs) = hd (hd cs) \<and> join_with sep cs \<noteq> []"
  by (induction sep cs rule: join_with.induct) auto

lemma is_abs_render:
  assumes "comps_ok r cs"
  shows "is_abs (render_path r cs) = r" and "render_path r cs \<noteq> []"
proof -
  have "is_abs (render_path r cs) = r \<and> render_path r cs \<noteq> []"
  proof (cases "r \<or> cs = []")
    case True
    then show ?thesis by (auto simp: render_path_def is_abs_def has_prefix_def slash_def)
  next
    case False
    then have hd_cs: "hd cs \<noteq> []" "slash \<notin> set (hd cs)" and "cs \<noteq> []"
      using comps_ok_no_slash [OF assms, of "hd cs"] by auto
    then have j: "hd (join_with [slash] cs) = hd (hd cs)" "join_with [slash] cs \<noteq> []"
      using join_with_hd [of cs "[slash]"] by auto
    from hd_cs have "hd (hd cs) \<noteq> slash"
      using hd_in_set [of "hd cs"] by metis
    with j False show ?thesis
      by (cases "join_with [slash] cs") (auto simp: render_path_def is_abs_def has_prefix_def)
  qed
  then show "is_abs (render_path r cs) = r" "render_path r cs \<noteq> []" by simp_all
qed

lemma clean_comps_render: "comps_ok r cs \<Longrightarrow> clean_comps r (render_path r cs) = cs"
  by (simp add: clean_comps_def split_render)

lemma path_clean_render: "comps_ok r cs \<Longrightarrow> path_clean (render_path r cs) = render_path r cs"
  by (simp add: path_clean_def is_abs_render clean_comps_render)

lemma path_clean_Nil [simp]: "path_clean [] = ''.''"
  by (simp add: path_clean_def)

lemma dot_render: "''.'' = render_path False []"
  by (simp add: render_path_def)

lemma path_clean_form: "\<exists>r cs. comps_ok r cs \<and> path_clean p = render_path r cs \<and> r = is_abs p"
proof (cases "p = []")
  case True
  then show ?thesis
    by (intro exI [of _ False] exI [of _ "[]"]) (simp add: render_path_def is_abs_def has_prefix_def)
next
  case False
  then show ?thesis using clean_comps_ok by (auto simp: path_clean_def)
qed

lemma path_clean_idem [simp]: "path_clean (path_clean p) = path_clean p"
  using path_clean_form [of p] path_clean_render by auto

lemma is_abs_clean [simp]: "is_abs (path_clean p) = is_abs p"
  using path_clean_form [of p] is_abs_render(1) by auto

lemma path_clean_nonempty [simp]: "path_clean p \<noteq> []"
  using path_clean_form [of p] is_abs_render(2) by (metis)

end
