(* ===== verification/Sync_Engine.thy ===== *)
theory Sync_Engine
  imports Object_Store Schema Go_Filepath
begin

text \<open>
  The sync engine of \<^verbatim>\<open>internal/sync/push.go\<close>: pushing a session as an immutable
  encrypted snapshot, advancing the session head in the encrypted manifest by compare-and-swap,
  and pulling a snapshot with validation before anything is installed.

  The store is the interface of \<^verbatim>\<open>Object_Store\<close>, passed as a record. Encryption (age,
  a third-party package), JSON encoding and SHA-256 are records of functions passed as
  parameters; a stream that decrypts is its plaintext, one that does not is an error. Other
  devices act between any two operations on the store: \<open>w_interf W i\<close> is what they did to it
  before the engine's \<open>i\<close>-th operation. The local file is read twice (hashed, then sealed), so
  \<open>open_file\<close> gives both readings.
\<close>

section \<open>Parameters and state\<close>

record codec =
  cd_encrypt :: "nat \<Rightarrow> bytes \<Rightarrow> (string, bytes) result"
  cd_decrypt :: "bytes \<Rightarrow> (string, bytes) result"

record lib =
  lb_sha256 :: sha256
  lb_manifest_json :: "manifest \<Rightarrow> bytes"
  lb_manifest_unjson :: "bytes \<Rightarrow> (string, manifest) result"
  lb_envelope_json :: "envelope \<Rightarrow> bytes"
  lb_envelope_unjson :: "bytes \<Rightarrow> (string, envelope) result"

record 's world =
  w_interf :: "nat \<Rightarrow> 's \<Rightarrow> 's"
  w_now :: "nat \<Rightarrow> string"
  w_seed :: "nat \<Rightarrow> nat"
  w_uuid :: string

record 's engine =
  eg_backend :: "'s backend option"
  eg_codec :: "codec option"
  eg_prefix :: string
  eg_platform :: string
  eg_max_payload :: int
  eg_require_remote :: bool

record push_item =
  pi_agent :: string
  pi_session_id :: string
  pi_project_id :: string
  pi_local_path :: string
  pi_relative_path :: string
  pi_base_known :: bool
  pi_base_revision :: string

record pull_item =
  pl_agent :: string
  pl_session_id :: string
  pl_snapshot_id :: string
  pl_project_id :: string

datatype sync_error =
    BackendRequired
  | KeyProviderRequired
  | MissingItemFields
  | HardExcluded
  | OpenFailed string
  | PayloadTooLarge
  | HeadMoved string string
  | RetriesExhausted
  | RemoteProfileNotFound
  | BackendErr backend_error
  | EncryptFailed string
  | DecryptFailed string
  | ManifestTooLarge
  | InvalidManifest string
  | UnsupportedManifest int
  | UpdateFailed sync_error
  | MetadataTooLarge
  | InvalidMetadata string
  | UnsupportedEnvelope int
  | UnexpectedKind string
  | SnapshotMismatch
  | AgentMismatch
  | SessionMismatch
  | ProjectMismatch
  | NotOneArtifact
  | UnsafePath
  | PathExcluded
  | InvalidPayloadSize
  | InvalidPayloadHash
  | SizeMismatch
  | HashMismatch
  | DestinationRequired
  | FileError string

text \<open>\<^verbatim>\<open>errors.Is(err, ErrConflict)\<close>, through the wrapping of a failed update.\<close>

fun is_conflict :: "sync_error \<Rightarrow> bool" where
  "is_conflict (HeadMoved a b) = True"
| "is_conflict RetriesExhausted = True"
| "is_conflict (UpdateFailed e) = is_conflict e"
| "is_conflict _ = False"

definition maxManifestBytes :: nat where "maxManifestBytes = 4194304"
definition maxMetadataBytes :: nat where "maxMetadataBytes = 1048576"
definition defaultMaxPayload :: int where "defaultMaxPayload = 34359738368"
definition maxManifestRetries :: nat where "maxManifestRetries = 4"

section \<open>Names and paths that never leave the device\<close>

definition session_key :: "string \<Rightarrow> string \<Rightarrow> string" where
  "session_key agent session = agent @ '':'' @ session"

definition credential_names :: "string list" where
  "credential_names = [''auth.json'', ''.credentials.json'', ''credentials.json'', ''oauth.json'',
     ''tokens.json'', ''token.json'', ''secrets.json'', ''secret.json'']"

definition is_credential_name :: "string \<Rightarrow> bool" where
  "is_credential_name name = (let lower = to_lower name in
     if lower = ''.env'' \<or> has_prefix lower ''.env.'' then True
     else lower \<in> set credential_names)"

definition contains_credential_path :: "string \<Rightarrow> bool" where
  "contains_credential_path p \<longleftrightarrow> list_ex is_credential_name (fields_on slash p)"

definition contains_hard_excluded_path :: "string \<Rightarrow> bool" where
  "contains_hard_excluded_path p \<longleftrightarrow>
     contains_credential_path p \<or> list_ex (\<lambda>part. equal_fold part ''handoffs'') (fields_on slash p)"

definition engine_max_payload :: "'s engine \<Rightarrow> int" where
  "engine_max_payload e = (if eg_max_payload e > 0 then eg_max_payload e else defaultMaxPayload)"

definition engine_platform :: "string \<Rightarrow> 's engine \<Rightarrow> string" where
  "engine_platform host e = (if eg_platform e \<noteq> [] then eg_platform e else host)"

definition engine_key :: "'s engine \<Rightarrow> string \<Rightarrow> string" where
  "engine_key e relative =
     (let rel = trim_prefix relative [slash]; prefix = trim_char slash (eg_prefix e) in
      if prefix = [] then rel else prefix @ [slash] @ rel)"

definition snapshot_key :: "'s engine \<Rightarrow> string \<Rightarrow> string" where
  "snapshot_key e snapshot = engine_key e (''snapshots/'' @ snapshot @ ''.age'')"

definition manifest_key :: "'s engine \<Rightarrow> string" where
  "manifest_key e = engine_key e ''manifest.age''"

section \<open>The manifest\<close>

definition load_manifest ::
  "lib \<Rightarrow> 's backend \<Rightarrow> codec \<Rightarrow> 's engine \<Rightarrow> bool \<Rightarrow> 's \<Rightarrow> (sync_error, manifest \<times> string) result" where
  "load_manifest L B cd e allow_missing s =
     (case be_get B (manifest_key e) s of
        Inl err \<Rightarrow> if errors_is err ErrNotFound
                  then (if allow_missing then Inr (new_manifest [], []) else Inl RemoteProfileNotFound)
                  else Inl (BackendErr err)
      | Inr (rc, meta) \<Rightarrow>
          (case cd_decrypt cd rc of
             Inl msg \<Rightarrow> Inl (DecryptFailed msg)
           | Inr plain \<Rightarrow>
               (let raw = take (maxManifestBytes + 1) plain in
                if maxManifestBytes < length raw then Inl ManifestTooLarge
                else case lb_manifest_unjson L raw of
                  Inl msg \<Rightarrow> Inl (InvalidManifest msg)
                | Inr mf \<Rightarrow>
                    if mf_schema_version mf \<noteq> ManifestSchemaVersion
                    then Inl (UnsupportedManifest (mf_schema_version mf))
                    else Inr (mf, om_etag meta))))"

definition manifest_put_options :: "string \<Rightarrow> put_options" where
  "manifest_put_options if_match =
     \<lparr>po_if_match = if_match, po_if_none_match = (if_match = []), po_content_type = ''application/octet-stream''\<rparr>"

definition save_manifest ::
  "lib \<Rightarrow> 's backend \<Rightarrow> codec \<Rightarrow> 's engine \<Rightarrow> nat \<Rightarrow> manifest \<Rightarrow> string \<Rightarrow> 's \<Rightarrow> (sync_error, unit) result \<times> 's" where
  "save_manifest L B cd e seed mf if_match s =
     (case cd_encrypt cd seed (lb_manifest_json L mf) of
        Inl msg \<Rightarrow> (Inl (EncryptFailed msg), s)
      | Inr cipher \<Rightarrow>
          (case be_put B (manifest_key e) cipher (manifest_put_options if_match) s of
             (Inl err, s') \<Rightarrow> (Inl (BackendErr err), s')
           | (Inr _, s') \<Rightarrow> (Inr (), s')))"

definition session_head :: "manifest \<Rightarrow> string \<Rightarrow> string" where
  "session_head mf key = (case map_of (mf_sessions mf) key of None \<Rightarrow> [] | Some ms \<Rightarrow> ms_snapshot_id ms)"

definition advance_manifest :: "manifest \<Rightarrow> string \<Rightarrow> manifest_session \<Rightarrow> string \<Rightarrow> manifest" where
  "advance_manifest mf key entry now =
     mf\<lparr>mf_sessions := AList.update key entry (mf_sessions mf),
        mf_revision := ms_snapshot_id entry, mf_updated_at := now\<rparr>"

text \<open>
  The compare-and-swap loop, with the attempts left and the number of the current one.
  Attempt \<open>i\<close> performs store operations \<open>2 i\<close> (the read) and \<open>2 i + 1\<close> (the write).
\<close>

fun update_loop ::
  "lib \<Rightarrow> 's backend \<Rightarrow> codec \<Rightarrow> 's engine \<Rightarrow> 's world \<Rightarrow> string \<Rightarrow> manifest_session \<Rightarrow> string
   \<Rightarrow> nat \<Rightarrow> nat \<Rightarrow> 's \<Rightarrow> (sync_error, unit) result \<times> 's" where
  "update_loop L B cd e W key entry expected 0 i s = (Inl RetriesExhausted, s)"
| "update_loop L B cd e W key entry expected (Suc n) i s =
     (let s1 = w_interf W (2 * i) s in
      case load_manifest L B cd e (\<not> eg_require_remote e) s1 of
        Inl err \<Rightarrow> (Inl err, s1)
      | Inr (mf, etag) \<Rightarrow>
          if session_head mf key \<noteq> expected
          then (Inl (HeadMoved expected (session_head mf key)), s1)
          else
            (case save_manifest L B cd e (w_seed W i) (advance_manifest mf key entry (w_now W i)) etag
                    (w_interf W (2 * i + 1) s1) of
               (Inl (BackendErr err), s3) \<Rightarrow>
                  if lost_race err then update_loop L B cd e W key entry expected n (Suc i) s3
                  else (Inl (BackendErr err), s3)
             | (r, s3) \<Rightarrow> (r, s3)))"

definition update_manifest ::
  "lib \<Rightarrow> 's backend \<Rightarrow> codec \<Rightarrow> 's engine \<Rightarrow> 's world \<Rightarrow> string \<Rightarrow> manifest_session \<Rightarrow> string
   \<Rightarrow> 's \<Rightarrow> (sync_error, unit) result \<times> 's" where
  "update_manifest L B cd e W key entry expected s =
     update_loop L B cd e W key entry expected maxManifestRetries 1 s"

section \<open>Push\<close>

definition push_envelope :: "lib \<Rightarrow> string \<Rightarrow> 's engine \<Rightarrow> push_item \<Rightarrow> string \<Rightarrow> string \<Rightarrow> string \<Rightarrow> bytes \<Rightarrow> envelope" where
  "push_envelope L host e item snapshot parent now content =
     \<lparr>en_schema_version = EnvelopeSchemaVersion, en_kind = EnvelopeKind, en_snapshot_id = snapshot,
      en_parent_revision = parent, en_agent = pi_agent item, en_adapter_schema = 1,
      en_source_agent_ver = [], en_source_platform = engine_platform host e,
      en_project_id = pi_project_id item, en_session_id = pi_session_id item, en_created_at = now,
      en_files = [\<lparr>ef_path = (if pi_relative_path item = [] then path_base (pi_local_path item)
                               else pi_relative_path item),
                   ef_mode = 384, ef_size = int (length content),
                   ef_sha256 = hex_encode (sum_bytes (lb_sha256 L content))\<rparr>]\<rparr>"

definition push_entry :: "push_item \<Rightarrow> string \<Rightarrow> string \<Rightarrow> manifest_session" where
  "push_entry item snapshot now =
     \<lparr>ms_agent = pi_agent item, ms_session_id = pi_session_id item, ms_snapshot_id = snapshot,
      ms_project_id = pi_project_id item, ms_updated_at = now\<rparr>"

definition snapshot_put_options :: put_options where
  "snapshot_put_options =
     \<lparr>po_if_match = [], po_if_none_match = True, po_content_type = ''application/octet-stream''\<rparr>"

definition push_refused :: "push_item \<Rightarrow> bool" where
  "push_refused item \<longleftrightarrow> is_credential_name (path_base (pi_local_path item))
     \<or> contains_hard_excluded_path (pi_relative_path item) \<or> contains_hard_excluded_path (pi_local_path item)"

text \<open>
  \<^verbatim>\<open>PushSession\<close>: the snapshot id and the error it returns (both, when only the manifest
  update failed), and the store it leaves.
\<close>

definition push_session ::
  "lib \<Rightarrow> string \<Rightarrow> 's engine \<Rightarrow> 's world \<Rightarrow> (string \<Rightarrow> (string, bytes \<times> bytes) result) \<Rightarrow> push_item \<Rightarrow> bool \<Rightarrow> 's
   \<Rightarrow> (string \<times> sync_error option) \<times> 's" where
  "push_session L host e W open_file item dry_run s =
     (case eg_backend e of None \<Rightarrow> (([], Some BackendRequired), s) | Some B \<Rightarrow>
      (case eg_codec e of None \<Rightarrow> (([], Some KeyProviderRequired), s) | Some cd \<Rightarrow>
      if pi_agent item = [] \<or> pi_session_id item = [] \<or> pi_local_path item = []
      then (([], Some MissingItemFields), s)
      else if push_refused item then (([], Some HardExcluded), s)
      else (case open_file (pi_local_path item) of Inl msg \<Rightarrow> (([], Some (OpenFailed msg)), s)
      | Inr (hashed, sealed) \<Rightarrow>
      if int (length hashed) > engine_max_payload e then (([], Some PayloadTooLarge), s)
      else let s1 = w_interf W 0 s; key = session_key (pi_agent item) (pi_session_id item) in
      (case load_manifest L B cd e (\<not> eg_require_remote e) s1 of Inl err \<Rightarrow> (([], Some err), s1)
      | Inr (current, _) \<Rightarrow>
      let parent = session_head current key in
      if pi_base_known item \<and> parent \<noteq> pi_base_revision item
      then (([], Some (HeadMoved (pi_base_revision item) parent)), s1)
      else let snapshot = w_uuid W;
               env = push_envelope L host e item snapshot parent (w_now W 0) hashed in
      if dry_run then ((snapshot, None), s1)
      else (case cd_encrypt cd (w_seed W 0) (lb_envelope_json L env @ [CHR 0x0A] @ sealed) of
        Inl msg \<Rightarrow> (([], Some (EncryptFailed msg)), s1)
      | Inr cipher \<Rightarrow>
      (case be_put B (snapshot_key e snapshot) cipher snapshot_put_options (w_interf W 1 s1) of
        (Inl err, s2) \<Rightarrow> (([], Some (BackendErr err)), s2)
      | (Inr _, s2) \<Rightarrow>
      (case update_manifest L B cd e W key (push_entry item snapshot (w_now W 1)) parent s2 of
        (Inl err, s3) \<Rightarrow> ((snapshot, Some (UpdateFailed err)), s3)
      | (Inr _, s3) \<Rightarrow> ((snapshot, None), s3))))))))"

section \<open>Pull\<close>

definition validate_envelope :: "'s engine \<Rightarrow> envelope \<Rightarrow> pull_item \<Rightarrow> (sync_error, envelope_file) result" where
  "validate_envelope e env item =
     (if en_schema_version env \<noteq> EnvelopeSchemaVersion then Inl (UnsupportedEnvelope (en_schema_version env))
      else if en_kind env \<noteq> EnvelopeKind then Inl (UnexpectedKind (en_kind env))
      else if en_snapshot_id env = [] \<or> en_snapshot_id env \<noteq> pl_snapshot_id item then Inl SnapshotMismatch
      else if pl_agent item \<noteq> [] \<and> en_agent env \<noteq> pl_agent item then Inl AgentMismatch
      else if pl_session_id item \<noteq> [] \<and> en_session_id env \<noteq> pl_session_id item then Inl SessionMismatch
      else if pl_project_id item \<noteq> [] \<and> en_project_id env \<noteq> pl_project_id item then Inl ProjectMismatch
      else case en_files env of
        [file] \<Rightarrow>
          (let clean = path_clean (ef_path file) in
           if ef_path file = [] \<or> is_abs clean \<or> clean = ''.'' \<or> clean = ''..'' \<or> has_prefix clean ''../''
           then Inl UnsafePath
           else if contains_hard_excluded_path (ef_path file) then Inl PathExcluded
           else if ef_size file < 0 \<or> ef_size file > engine_max_payload e then Inl InvalidPayloadSize
           else case hex_decode (ef_sha256 file) of
             None \<Rightarrow> Inl InvalidPayloadHash
           | Some decoded \<Rightarrow> if length decoded \<noteq> 32 then Inl InvalidPayloadHash else Inr file)
      | _ \<Rightarrow> Inl NotOneArtifact)"

text \<open>
  \<^verbatim>\<open>validatePayload\<close> copies at most one byte more than announced, then compares; the
  second component is what reached the destination writer.
\<close>

definition validate_payload :: "lib \<Rightarrow> bytes \<Rightarrow> envelope_file \<Rightarrow> sync_error option \<times> bytes" where
  "validate_payload L source file =
     (let copied = take (nat (ef_size file + 1)) source in
      if int (length copied) \<noteq> ef_size file then (Some SizeMismatch, copied)
      else if \<not> equal_fold (hex_encode (sum_bytes (lb_sha256 L copied))) (ef_sha256 file)
      then (Some HashMismatch, copied)
      else (None, copied))"

text \<open>
  The local file system as far as a pull touches it, and the installation of a payload:
  a private temporary file beside the destination, then a rename. \<open>fault step\<close> is the error
  the operating system reports for that step, if any. The deferred cleanup removes the
  temporary file unless the rename happened.
\<close>

type_synonym files = "string \<rightharpoonup> bytes"

definition write_payload_atomic ::
  "lib \<Rightarrow> (string \<Rightarrow> string option) \<Rightarrow> string \<Rightarrow> string \<Rightarrow> bytes \<Rightarrow> envelope_file \<Rightarrow> files \<Rightarrow> sync_error option \<times> files" where
  "write_payload_atomic L fault tmp dest source file fs =
     (case fault ''mkdir'' of Some m \<Rightarrow> (Some (FileError m), fs) | None \<Rightarrow>
      (case fault ''createtemp'' of Some m \<Rightarrow> (Some (FileError m), fs) | None \<Rightarrow>
      let fs1 = fs(tmp \<mapsto> []) in
      (case fault ''chmod'' of Some m \<Rightarrow> (Some (FileError m), fs1(tmp := None)) | None \<Rightarrow>
      let (verr, written) = validate_payload L source file; fs2 = fs1(tmp \<mapsto> written) in
      (case verr of Some err \<Rightarrow> (Some err, fs2(tmp := None)) | None \<Rightarrow>
      (case fault ''sync'' of Some m \<Rightarrow> (Some (FileError m), fs2(tmp := None)) | None \<Rightarrow>
      (case fault ''close'' of Some m \<Rightarrow> (Some (FileError m), fs2(tmp := None)) | None \<Rightarrow>
      (case fault ''rename'' of Some m \<Rightarrow> (Some (FileError m), fs2(tmp := None)) | None \<Rightarrow>
      (None, (fs2(tmp := None))(dest := fs2 tmp)))))))))"

text \<open>The first line of the plaintext, read through a buffer one byte larger than the limit.\<close>

definition read_meta_line :: "bytes \<Rightarrow> (sync_error, bytes \<times> bytes) result" where
  "read_meta_line plain =
     (let window = take (maxMetadataBytes + 1) plain; line = takeWhile (\<lambda>c. c \<noteq> CHR 0x0A) window in
      if length line = length window
      then (if length window = maxMetadataBytes + 1 then Inl MetadataTooLarge else Inl (InvalidMetadata ''EOF''))
      else if length line + 1 > maxMetadataBytes then Inl MetadataTooLarge
      else Inr (line, drop (length line + 1) plain))"

definition pull_artifact ::
  "lib \<Rightarrow> 's engine \<Rightarrow> (string \<Rightarrow> string option) \<Rightarrow> string \<Rightarrow> pull_item \<Rightarrow> string \<Rightarrow> bool \<Rightarrow> 's \<Rightarrow> files
   \<Rightarrow> (sync_error, envelope \<times> string) result \<times> files" where
  "pull_artifact L e fault tmp item dest_dir dry_run s fs =
     (case eg_backend e of None \<Rightarrow> (Inl BackendRequired, fs) | Some B \<Rightarrow>
      (case be_get B (snapshot_key e (pl_snapshot_id item)) s of Inl err \<Rightarrow> (Inl (BackendErr err), fs)
      | Inr (rc, _) \<Rightarrow>
      (case eg_codec e of None \<Rightarrow> (Inl (DecryptFailed ''key provider required''), fs) | Some cd \<Rightarrow>
      (case cd_decrypt cd rc of Inl msg \<Rightarrow> (Inl (DecryptFailed msg), fs)
      | Inr plain \<Rightarrow>
      (case read_meta_line plain of Inl err \<Rightarrow> (Inl err, fs)
      | Inr (line, rest) \<Rightarrow>
      (case lb_envelope_unjson L line of Inl msg \<Rightarrow> (Inl (InvalidMetadata msg), fs)
      | Inr env \<Rightarrow>
      (case validate_envelope e env item of Inl err \<Rightarrow> (Inl err, fs)
      | Inr file \<Rightarrow>
      if dry_run then
        (case validate_payload L rest file of (Some err, _) \<Rightarrow> (Inl err, fs) | (None, _) \<Rightarrow> (Inr (env, []), fs))
      else if dest_dir = [] then (Inl DestinationRequired, fs)
      else (case fault ''destdir'' of Some m \<Rightarrow> (Inl (FileError m), fs) | None \<Rightarrow>
      let dest = path_join dest_dir (path_base (ef_path file)) in
        (case write_payload_atomic L fault tmp dest rest file fs of
           (Some err, fs') \<Rightarrow> (Inl err, fs')
         | (None, fs') \<Rightarrow> (Inr (env, dest), fs'))))))))))"

text \<open>\<^verbatim>\<open>PullSession\<close> returns the installed bytes, \<^verbatim>\<open>FetchManifest\<close> the manifest.\<close>

definition pull_session ::
  "lib \<Rightarrow> 's engine \<Rightarrow> (string \<Rightarrow> string option) \<Rightarrow> string \<Rightarrow> pull_item \<Rightarrow> string \<Rightarrow> bool \<Rightarrow> 's \<Rightarrow> files
   \<Rightarrow> (sync_error, envelope \<times> bytes option) result \<times> files" where
  "pull_session L e fault tmp item dest_dir dry_run s fs =
     (case pull_artifact L e fault tmp item dest_dir dry_run s fs of
        (Inl err, fs') \<Rightarrow> (Inl err, fs')
      | (Inr (env, dest), fs') \<Rightarrow> if dry_run then (Inr (env, None), fs') else (Inr (env, fs' dest), fs'))"

definition fetch_manifest :: "lib \<Rightarrow> 's backend \<Rightarrow> codec \<Rightarrow> 's engine \<Rightarrow> 's \<Rightarrow> (sync_error, manifest) result" where
  "fetch_manifest L B cd e s =
     (case load_manifest L B cd e (\<not> eg_require_remote e) s of Inl err \<Rightarrow> Inl err | Inr (mf, _) \<Rightarrow> Inr mf)"

section \<open>What an encrypted manifest object says\<close>

definition decode_manifest :: "lib \<Rightarrow> codec \<Rightarrow> bytes \<Rightarrow> (sync_error, manifest) result" where
  "decode_manifest L cd d =
     (case cd_decrypt cd d of
        Inl msg \<Rightarrow> Inl (DecryptFailed msg)
      | Inr plain \<Rightarrow>
          if maxManifestBytes < length plain then Inl ManifestTooLarge
          else (case lb_manifest_unjson L plain of
            Inl msg \<Rightarrow> Inl (InvalidManifest msg)
          | Inr mf \<Rightarrow> if mf_schema_version mf \<noteq> ManifestSchemaVersion
                     then Inl (UnsupportedManifest (mf_schema_version mf)) else Inr mf))"

definition manifest_view :: "lib \<Rightarrow> codec \<Rightarrow> (bytes \<times> string) option \<Rightarrow> (sync_error, manifest) result" where
  "manifest_view L cd ob = (case ob of None \<Rightarrow> Inr (new_manifest []) | Some (d, _) \<Rightarrow> decode_manifest L cd d)"

lemma manifest_view_simps [simp]:
  "manifest_view L cd None = Inr (new_manifest [])"
  "manifest_view L cd (Some (d, t)) = decode_manifest L cd d"
  by (simp_all add: manifest_view_def)

text \<open>A step of the engine that swapped the manifest: the store just before the write and after it.\<close>

definition manifest_swapped ::
  "lib \<Rightarrow> codec \<Rightarrow> 's engine \<Rightarrow> string \<Rightarrow> manifest_session \<Rightarrow> string
   \<Rightarrow> (string \<Rightarrow> (bytes \<times> string) option) \<Rightarrow> (string \<Rightarrow> (bytes \<times> string) option) \<Rightarrow> bool" where
  "manifest_swapped L cd e key entry expected before after \<longleftrightarrow>
     (\<exists>mf seed now cipher t.
        manifest_view L cd (before (manifest_key e)) = Inr mf \<and> session_head mf key = expected
        \<and> cd_encrypt cd seed (lb_manifest_json L (advance_manifest mf key entry now)) = Inr cipher
        \<and> after = before(manifest_key e \<mapsto> (cipher, t)))"

lemma update_loop_Suc:
  "update_loop L B cd e W key entry expected (Suc n) i s = (Inr (), s') \<Longrightarrow>
   \<exists>mf etag. load_manifest L B cd e (\<not> eg_require_remote e) (w_interf W (2 * i) s) = Inr (mf, etag)
     \<and> session_head mf key = expected
     \<and> ((\<exists>err s3. save_manifest L B cd e (w_seed W i) (advance_manifest mf key entry (w_now W i)) etag
              (w_interf W (2 * i + 1) (w_interf W (2 * i) s)) = (Inl (BackendErr err), s3) \<and> lost_race err
            \<and> update_loop L B cd e W key entry expected n (Suc i) s3 = (Inr (), s'))
        \<or> save_manifest L B cd e (w_seed W i) (advance_manifest mf key entry (w_now W i)) etag
              (w_interf W (2 * i + 1) (w_interf W (2 * i) s)) = (Inr (), s'))"
  by (auto simp: Let_def split: sum.splits prod.splits if_splits sync_error.splits)

lemma save_manifest_lost:
  "save_manifest L B cd e seed mf t s = (Inl (BackendErr err), s') \<Longrightarrow>
   \<exists>cipher. be_put B (manifest_key e) cipher (manifest_put_options t) s = (Inl err, s')"
  by (auto simp: save_manifest_def split: sum.splits prod.splits)

context object_store
begin

lemma load_manifest_view:
  assumes "load_manifest L B cd e allow s = Inr (mf, etag)"
  shows "manifest_view L cd (obj s (manifest_key e)) = Inr mf
     \<and> (case obj s (manifest_key e) of None \<Rightarrow> etag = [] | Some (d, t) \<Rightarrow> etag = t)"
  using assms get_Inr [of "manifest_key e" s] get_missing [of "manifest_key e" s]
  by (auto simp: load_manifest_def decode_manifest_def Let_def split: sum.splits if_splits prod.splits option.splits)

lemma save_manifest_swaps:
  assumes "save_manifest L B cd e seed mf t s = (Inr (), s')"
  shows "\<exists>cipher t'. cd_encrypt cd seed (lb_manifest_json L mf) = Inr cipher
     \<and> obj s' = (obj s)(manifest_key e \<mapsto> (cipher, t'))
     \<and> (if t = [] then obj s (manifest_key e) = None else \<exists>d0. obj s (manifest_key e) = Some (d0, t))"
proof -
  from assms obtain cipher m where
    enc: "cd_encrypt cd seed (lb_manifest_json L mf) = Inr cipher"
    and put: "be_put B (manifest_key e) cipher (manifest_put_options t) s = (Inr m, s')"
    by (auto simp: save_manifest_def split: sum.splits prod.splits)
  from put_Inr [OF put] enc show ?thesis
    by (intro exI [of _ cipher] exI [of _ "om_etag m"]) (auto simp: manifest_put_options_def)
qed

text \<open>
  Every successful update is a swap of the manifest that is in the store when the write takes
  effect, whatever other devices did between the read and the write. \<open>P\<close> are the stores the
  other devices keep the system in; on those an ETag identifies the manifest bytes.
\<close>

lemma update_loop_swaps:
  assumes run: "update_loop L B cd e W key entry expected n i s = (Inr (), s')"
    and P: "P s" and P_sinv: "\<And>s. P s \<Longrightarrow> sinv s"
    and P_interf: "\<And>j s. P s \<Longrightarrow> P (w_interf W j s)"
    and P_put: "\<And>k d po err s s'. P s \<Longrightarrow> be_put B k d po s = (Inl err, s') \<Longrightarrow> lost_race err \<Longrightarrow> P s'"
    and P_etag: "\<And>s1 s2 d1 d2 t. P s1 \<Longrightarrow> P s2 \<Longrightarrow> obj s1 (manifest_key e) = Some (d1, t) \<Longrightarrow>
        obj s2 (manifest_key e) = Some (d2, t) \<Longrightarrow> d1 = d2"
  shows "\<exists>s2. P s2 \<and> manifest_swapped L cd e key entry expected (obj s2) (obj s')"
  using run P
proof (induction n arbitrary: i s)
  case (Suc n)
  let ?s1 = "w_interf W (2 * i) s" and ?s2 = "w_interf W (2 * i + 1) (w_interf W (2 * i) s)"
  have P1: "P ?s1" and P2: "P ?s2" using Suc.prems(2) P_interf by auto
  from update_loop_Suc [OF Suc.prems(1)] obtain mf etag where
    load: "load_manifest L B cd e (\<not> eg_require_remote e) ?s1 = Inr (mf, etag)"
    and head: "session_head mf key = expected"
    and rest: "(\<exists>err s3. save_manifest L B cd e (w_seed W i) (advance_manifest mf key entry (w_now W i)) etag
              ?s2 = (Inl (BackendErr err), s3) \<and> lost_race err
            \<and> update_loop L B cd e W key entry expected n (Suc i) s3 = (Inr (), s'))
        \<or> save_manifest L B cd e (w_seed W i) (advance_manifest mf key entry (w_now W i)) etag ?s2 = (Inr (), s')"
    by blast
  note view = load_manifest_view [OF load]
  from rest show ?case
  proof
    assume save: "save_manifest L B cd e (w_seed W i) (advance_manifest mf key entry (w_now W i)) etag ?s2 = (Inr (), s')"
    note sw = save_manifest_swaps [OF save]
    have same: "manifest_view L cd (obj ?s2 (manifest_key e)) = Inr mf"
    proof (cases "obj ?s1 (manifest_key e)")
      case None
      with view sw show ?thesis by auto
    next
      case (Some dt)
      then obtain d where d: "obj ?s1 (manifest_key e) = Some (d, etag)"
        using view by (cases dt) auto
      with etag_nonempty [OF P_sinv [OF P1]] have "etag \<noteq> []" by blast
      with sw obtain d0 where "obj ?s2 (manifest_key e) = Some (d0, etag)" by auto
      with d P_etag [OF P1 P2] view show ?thesis by auto
    qed
    from sw obtain cipher t' where
      "cd_encrypt cd (w_seed W i) (lb_manifest_json L (advance_manifest mf key entry (w_now W i))) = Inr cipher"
      "obj s' = (obj ?s2)(manifest_key e \<mapsto> (cipher, t'))" by blast
    with same head P2 show ?thesis unfolding manifest_swapped_def by blast
  next
    assume "\<exists>err s3. save_manifest L B cd e (w_seed W i) (advance_manifest mf key entry (w_now W i)) etag
              ?s2 = (Inl (BackendErr err), s3) \<and> lost_race err
            \<and> update_loop L B cd e W key entry expected n (Suc i) s3 = (Inr (), s')"
    then obtain err s3 where lost: "save_manifest L B cd e (w_seed W i)
        (advance_manifest mf key entry (w_now W i)) etag ?s2 = (Inl (BackendErr err), s3)" "lost_race err"
      and again: "update_loop L B cd e W key entry expected n (Suc i) s3 = (Inr (), s')" by blast
    from save_manifest_lost [OF lost(1)] lost(2) P_put [OF P2] have "P s3" by blast
    with again show ?thesis by (rule Suc.IH)
  qed
qed simp

end

end
