(* ===== verification/Sync_Props.thy ===== *)
theory Sync_Props
  imports Sync_Engine
begin

text \<open>
  Properties of the sync engine on the memory store: no lost update of the manifest, what a
  failed push leaves behind, the round trip from push to pull, and what a pull may install.
\<close>

section \<open>Other devices and the manifest\<close>

text \<open>The manifest object of a store is one of the byte strings \<open>D\<close>.\<close>

definition manifest_in :: "bytes set \<Rightarrow> 's engine \<Rightarrow> mem_store \<Rightarrow> bool" where
  "manifest_in D e s \<longleftrightarrow> (\<forall>d t. mem_obj s (manifest_key e) = Some (d, t) \<longrightarrow> d \<in> D)"

definition others_did :: "'s world \<Rightarrow> nat list \<Rightarrow> 's \<Rightarrow> 's" where
  "others_did W js s = foldl (\<lambda>x j. w_interf W j x) s js"

lemma others_did_simps [simp]:
  "others_did W [] s = s"
  "w_interf W j (others_did W js s) = others_did W (js @ [j]) s"
  by (simp_all add: others_did_def)

lemma others_did_inv:
  "(\<And>j s. Q s \<Longrightarrow> Q (w_interf W j s)) \<Longrightarrow> Q s \<Longrightarrow> Q (others_did W js s)"
  unfolding others_did_def by (induction js arbitrary: s) simp_all

lemma mem_obj_etag: "mem_ok sha s \<Longrightarrow> mem_obj s k = Some (d, t) \<Longrightarrow> t = etag_of sha d"
  by (auto simp: mem_obj_def mem_ok_lookup)

lemma mem_etag_identifies:
  assumes "mem_ok sha s1" "mem_ok sha s2" "manifest_in D e s1" "manifest_in D e s2" "inj_on (etag_of sha) D"
    and "mem_obj s1 (manifest_key e) = Some (d1, t)" "mem_obj s2 (manifest_key e) = Some (d2, t)"
  shows "d1 = d2"
proof -
  from assms have "etag_of sha d1 = etag_of sha d2" "d1 \<in> D" "d2 \<in> D"
    using mem_obj_etag by (auto simp: manifest_in_def)
  with assms(5) show ?thesis by (auto dest: inj_onD)
qed


lemma advance_manifest_entry:
  "map_of (mf_sessions (advance_manifest mf key entry now)) = (map_of (mf_sessions mf))(key \<mapsto> entry)"
  "session_head (advance_manifest mf key entry now) key = ms_snapshot_id entry"
  "k \<noteq> key \<Longrightarrow> session_head (advance_manifest mf key entry now) k = session_head mf k"
  by (simp_all add: advance_manifest_def session_head_def update_conv')

section \<open>A concrete library for the witnesses\<close>

text \<open>
  A toy instance of the parameters: a tagged but unencrypted codec, one JSON document per type,
  and a constant digest. It shows that the hypotheses of the properties can hold together.
\<close>

definition toy_codec :: codec where
  "toy_codec = \<lparr>cd_encrypt = (\<lambda>_ p. Inr (CHR ''!'' # p)), cd_decrypt = (\<lambda>c. case c of [] \<Rightarrow> Inl ''empty'' | x # p \<Rightarrow> Inr p)\<rparr>"

definition toy_lib :: "manifest \<Rightarrow> envelope \<Rightarrow> lib" where
  "toy_lib mf env = \<lparr>lb_sha256 = (\<lambda>_. 0), lb_manifest_json = (\<lambda>_. ''{}''), lb_manifest_unjson = (\<lambda>_. Inr mf),
     lb_envelope_json = (\<lambda>_. ''{e}''), lb_envelope_unjson = (\<lambda>_. Inr env)\<rparr>"

definition toy_envelope :: envelope where
  "toy_envelope = \<lparr>en_schema_version = 1, en_kind = EnvelopeKind, en_snapshot_id = ''u1'', en_parent_revision = [],
     en_agent = ''codex'', en_adapter_schema = 1, en_source_agent_ver = [], en_source_platform = ''linux'',
     en_project_id = [], en_session_id = ''s'', en_created_at = ''now'',
     en_files = [\<lparr>ef_path = ''d/s.jsonl'', ef_mode = 384, ef_size = 2, ef_sha256 = hex_encode (sum_bytes 0)\<rparr>]\<rparr>"

definition toy_engine :: "mem_store engine" where
  "toy_engine = \<lparr>eg_backend = Some (mem_backend (\<lambda>_. 0)), eg_codec = Some toy_codec, eg_prefix = ''p'',
     eg_platform = ''linux'', eg_max_payload = 0, eg_require_remote = False\<rparr>"

definition toy_world :: "mem_store world" where
  "toy_world = \<lparr>w_interf = (\<lambda>_ s. s), w_now = (\<lambda>_. ''now''), w_seed = (\<lambda>_. 0), w_uuid = ''u1''\<rparr>"

definition toy_entry :: manifest_session where
  "toy_entry = \<lparr>ms_agent = ''codex'', ms_session_id = ''s'', ms_snapshot_id = ''u1'', ms_project_id = [], ms_updated_at = ''now''\<rparr>"

lemmas toy_simps =
  toy_codec_def toy_lib_def toy_engine_def toy_world_def toy_entry_def

lemma toy_keys [simp]:
  "manifest_key toy_engine = ''p/manifest.age''"
  "snapshot_key toy_engine ''u1'' = ''p/snapshots/u1.age''"
  by (simp_all add: manifest_key_def snapshot_key_def engine_key_def toy_engine_def trim_prefix_def
      has_prefix_def trim_char_def slash_def Let_def)

lemma four_attempts: "maxManifestRetries = Suc (Suc (Suc (Suc 0)))"
  by (simp add: maxManifestRetries_def)

lemma toy_update:
  "update_manifest (toy_lib (new_manifest []) env) (mem_backend (\<lambda>_. 0)) toy_codec toy_engine toy_world ''codex:s''
     toy_entry [] mem_new
   = (Inr (), [(''p/manifest.age'', \<lparr>ob_data = ''!{}'', ob_etag = etag_of (\<lambda>_. 0) ''!{}''\<rparr>)])"
  by (simp add: update_manifest_def four_attempts load_manifest_def save_manifest_def
      mem_backend_simps mem_get_def mem_put_def mem_new_def Let_def manifest_put_options_def session_head_def
      new_manifest_def toy_codec_def toy_lib_def toy_world_def toy_entry_def)
    (simp add: toy_engine_def)


section \<open>What a push leaves behind\<close>

text \<open>The observable outcome of a push that got as far as the store.\<close>

lemma push_session_unfold:
  assumes "eg_backend e = Some B" "eg_codec e = Some cd"
    and "pi_agent item \<noteq> []" "pi_session_id item \<noteq> []" "pi_local_path item \<noteq> []"
    and "\<not> push_refused item" "open_file (pi_local_path item) = Inr (hashed, sealed)"
    and "int (length hashed) \<le> engine_max_payload e"
    and "load_manifest L B cd e (\<not> eg_require_remote e) (w_interf W 0 s) = Inr (current, etag)"
    and "\<not> (pi_base_known item \<and> session_head current (session_key (pi_agent item) (pi_session_id item)) \<noteq> pi_base_revision item)"
  shows "push_session L host e W open_file item False s =
     (case cd_encrypt cd (w_seed W 0) (lb_envelope_json L (push_envelope L host e item (w_uuid W)
            (session_head current (session_key (pi_agent item) (pi_session_id item))) (w_now W 0) hashed)
            @ [CHR 0x0A] @ sealed) of
        Inl msg \<Rightarrow> (([], Some (EncryptFailed msg)), w_interf W 0 s)
      | Inr cipher \<Rightarrow>
      (case be_put B (snapshot_key e (w_uuid W)) cipher snapshot_put_options (w_interf W 1 (w_interf W 0 s)) of
        (Inl err, s2) \<Rightarrow> (([], Some (BackendErr err)), s2)
      | (Inr _, s2) \<Rightarrow>
      (case update_manifest L B cd e W (session_key (pi_agent item) (pi_session_id item))
             (push_entry item (w_uuid W) (w_now W 1))
             (session_head current (session_key (pi_agent item) (pi_session_id item))) s2 of
        (Inl err, s3) \<Rightarrow> ((w_uuid W, Some (UpdateFailed err)), s3)
      | (Inr _, s3) \<Rightarrow> ((w_uuid W, None), s3))))"
  using assms by (simp add: push_session_def Let_def del: de_Morgan_conj)

text \<open>
  A push that knows its base never overwrites another device's head: when the head the manifest
  lists is not the base revision, the push is refused as a conflict naming both revisions, and the
  engine has written nothing (the store is the one the other devices left).
\<close>
theorem push_refuses_moved_head:
  assumes "eg_backend e = Some B" "eg_codec e = Some cd"
    and "pi_agent item \<noteq> []" "pi_session_id item \<noteq> []" "pi_local_path item \<noteq> []"
    and "\<not> push_refused item" "open_file (pi_local_path item) = Inr (hashed, sealed)"
    and "int (length hashed) \<le> engine_max_payload e"
    and "load_manifest L B cd e (\<not> eg_require_remote e) (w_interf W 0 s) = Inr (current, etag)"
    and "pi_base_known item" "head = session_head current (session_key (pi_agent item) (pi_session_id item))"
    and "head \<noteq> pi_base_revision item"
  shows "push_session L host e W open_file item dry s = (([], Some (HeadMoved (pi_base_revision item) head)), w_interf W 0 s)
    \<and> is_conflict (HeadMoved (pi_base_revision item) head)"
  using assms by (simp add: push_session_def Let_def)

definition toy_item :: push_item where
  "toy_item = \<lparr>pi_agent = ''codex'', pi_session_id = ''s'', pi_project_id = [], pi_local_path = ''/h/d/s.jsonl'',
     pi_relative_path = ''d/s.jsonl'', pi_base_known = True, pi_base_revision = []\<rparr>"

lemma toy_not_refused: "\<not> push_refused toy_item"
  by (simp add: push_refused_def toy_item_def path_base_def slash_def Let_def is_credential_name_def
      contains_hard_excluded_path_def contains_credential_path_def fields_on_def equal_fold_def
      to_lower_def lower_char_def credential_names_def has_prefix_def)

lemma toy_load: "load_manifest (toy_lib (new_manifest []) toy_envelope) (mem_backend (\<lambda>_. 0)) toy_codec toy_engine True mem_new = Inr (new_manifest [], [])"
  by (simp add: load_manifest_def mem_backend_simps mem_get_def mem_new_def)

theorem push_refuses_moved_head_witness:
  "push_session (toy_lib (new_manifest []) toy_envelope) ''linux'' toy_engine toy_world (\<lambda>_. Inr (''{}'', ''{}''))
     (toy_item\<lparr>pi_base_revision := ''u0''\<rparr>) False mem_new
   = (([], Some (HeadMoved ''u0'' [])), mem_new)"
proof -
  have "push_session (toy_lib (new_manifest []) toy_envelope) ''linux'' toy_engine toy_world (\<lambda>_. Inr (''{}'', ''{}''))
     (toy_item\<lparr>pi_base_revision := ''u0''\<rparr>) False mem_new
   = (([], Some (HeadMoved (pi_base_revision (toy_item\<lparr>pi_base_revision := ''u0''\<rparr>)) [])), w_interf toy_world 0 mem_new)
    \<and> is_conflict (HeadMoved (pi_base_revision (toy_item\<lparr>pi_base_revision := ''u0''\<rparr>)) [])"
  proof (rule push_refuses_moved_head)
    show "eg_backend toy_engine = Some (mem_backend (\<lambda>_. 0))" "eg_codec toy_engine = Some toy_codec"
      by (simp_all add: toy_engine_def)
    show "\<not> push_refused (toy_item\<lparr>pi_base_revision := ''u0''\<rparr>)"
      using toy_not_refused by (simp add: push_refused_def)
    show "load_manifest (toy_lib (new_manifest []) toy_envelope) (mem_backend (\<lambda>_. 0)) toy_codec toy_engine
      (\<not> eg_require_remote toy_engine) (w_interf toy_world 0 mem_new) = Inr (new_manifest [], [])"
      using toy_load by (simp add: toy_world_def toy_engine_def)
    show "int (length ''{}'') \<le> engine_max_payload toy_engine"
      by (simp add: engine_max_payload_def toy_engine_def defaultMaxPayload_def)
  qed (simp_all add: toy_item_def session_head_def new_manifest_def)
  then show ?thesis by (simp add: toy_item_def toy_world_def)
qed

text \<open>Keys of one profile: the manifest is not a snapshot.\<close>

lemma engine_key_inj:
  assumes "\<not> has_prefix a [slash]" "\<not> has_prefix b [slash]"
  shows "engine_key e a = engine_key e b \<longleftrightarrow> a = b"
  using assms by (simp add: engine_key_def trim_prefix_def Let_def)

lemma snapshot_key_not_manifest [simp]: "snapshot_key e i \<noteq> manifest_key e"
  unfolding snapshot_key_def manifest_key_def
  by (subst engine_key_inj) (simp_all add: has_prefix_def slash_def)

lemma snapshot_key_inj: "snapshot_key e i = snapshot_key e j \<longleftrightarrow> i = j"
  unfolding snapshot_key_def by (subst engine_key_inj) (simp_all add: has_prefix_def slash_def)

text \<open>With no other device active, a failed manifest update on the memory store changes nothing.\<close>

lemma save_manifest_failed:
  "save_manifest L (mem_backend sha) cd e seed mf t s = (Inl err, s') \<Longrightarrow> s' = s"
  by (auto simp: save_manifest_def mem_backend_simps dest: mem_put_Inl split: sum.splits prod.splits)

lemma update_loop_failed:
  assumes "\<And>j x. w_interf W j x = x"
  shows "update_loop L (mem_backend sha) cd e W key entry expected n i s = (Inl err, s') \<Longrightarrow> s' = s"
proof (induction n arbitrary: i)
  case (Suc n)
  then show ?case
    by (auto simp: assms Let_def dest: save_manifest_failed split: sum.splits prod.splits if_splits sync_error.splits)
qed simp

lemma mem_put_obj:
  assumes "mem_put sha k d po x = (Inr m, x')"
  shows "mem_obj x' = (mem_obj x)(k \<mapsto> (d, etag_of sha d))" and "po_if_none_match po \<Longrightarrow> mem_obj x k = None"
  using mem_put_Inr(2,3) [OF assms] by (auto simp: mem_obj_def update_conv' fun_eq_iff)

text \<open>
  C30. A push that fails leaves the manifest as it was: with no other device writing meanwhile, the
  manifest object and every object except the new snapshot are untouched, and a snapshot object is
  left (an orphan) only when its upload had succeeded and the manifest update failed.
\<close>
theorem failed_push_keeps_manifest:
  assumes "push_session L host e W open_file item dry s = ((snap, Some err), s')"
    and "eg_backend e = Some (mem_backend sha)" and "\<And>j x. w_interf W j x = x"
  shows "(\<forall>k. k \<noteq> snapshot_key e (w_uuid W) \<longrightarrow> mem_obj s' k = mem_obj s k)
    \<and> ((\<nexists>err'. err = UpdateFailed err') \<longrightarrow> s' = s)"
proof -
  have put: "mem_put sha k d po x = (Inl e1, x') \<Longrightarrow> x' = x" for k d po x e1 x'
    using mem_put_Inl by blast
  show ?thesis
    using assms(1)
    unfolding push_session_def assms(2) update_manifest_def Let_def mem_backend_simps assms(3)
    by (auto dest!: put mem_put_obj(1) update_loop_failed [OF assms(3), unfolded mem_backend_def]
        split: option.splits if_splits sum.splits prod.splits)
qed

lemma push_success_facts:
  assumes "push_session L host e W open_file item False s = ((snap, None), s')"
    and "eg_backend e = Some (mem_backend sha)" and "eg_codec e = Some cd"
  shows "snap = w_uuid W \<and> \<not> push_refused item
    \<and> (\<exists>hashed sealed current etag parent cipher s2.
         open_file (pi_local_path item) = Inr (hashed, sealed)
         \<and> int (length hashed) \<le> engine_max_payload e
         \<and> load_manifest L (mem_backend sha) cd e (\<not> eg_require_remote e) (w_interf W 0 s) = Inr (current, etag)
         \<and> parent = session_head current (session_key (pi_agent item) (pi_session_id item))
         \<and> (pi_base_known item \<longrightarrow> parent = pi_base_revision item)
         \<and> cd_encrypt cd (w_seed W 0) (lb_envelope_json L (push_envelope L host e item snap parent (w_now W 0) hashed)
              @ [CHR 0x0A] @ sealed) = Inr cipher
         \<and> mem_obj (w_interf W 1 (w_interf W 0 s)) (snapshot_key e snap) = None
         \<and> mem_obj s2 = (mem_obj (w_interf W 1 (w_interf W 0 s)))(snapshot_key e snap \<mapsto> (cipher, etag_of sha cipher))
         \<and> update_manifest L (mem_backend sha) cd e W (session_key (pi_agent item) (pi_session_id item))
              (push_entry item snap (w_now W 1)) parent s2 = (Inr (), s'))"
proof -
  have put: "mem_put sha k d snapshot_put_options x = (Inr m, x') \<Longrightarrow>
      mem_obj x k = None \<and> mem_obj x' = (mem_obj x)(k \<mapsto> (d, etag_of sha d))" for k d x m x'
    using mem_put_obj [of sha k d snapshot_put_options x m x'] by (simp add: snapshot_put_options_def)
  show ?thesis
    using assms(1)
    unfolding push_session_def assms(2,3) Let_def mem_backend_simps
    by (auto dest: put split: if_splits sum.splits prod.splits)
qed

text \<open>
  What a successful push has done: the head it read was the base the caller knew, the snapshot
  object did not exist before (snapshots are never overwritten) and holds the sealed envelope and
  content, and the manifest was then swapped from that head to the new snapshot.
\<close>
theorem successful_push:
  assumes "push_session L host e W open_file item False s = ((snap, None), s')"
    and "eg_backend e = Some (mem_backend sha)" and "eg_codec e = Some cd"
  shows "snap = w_uuid W \<and> \<not> push_refused item
    \<and> (\<exists>hashed sealed current etag parent cipher s2.
         open_file (pi_local_path item) = Inr (hashed, sealed)
         \<and> int (length hashed) \<le> engine_max_payload e
         \<and> load_manifest L (mem_backend sha) cd e (\<not> eg_require_remote e) (w_interf W 0 s) = Inr (current, etag)
         \<and> parent = session_head current (session_key (pi_agent item) (pi_session_id item))
         \<and> (pi_base_known item \<longrightarrow> parent = pi_base_revision item)
         \<and> cd_encrypt cd (w_seed W 0) (lb_envelope_json L (push_envelope L host e item snap parent (w_now W 0) hashed)
              @ [CHR 0x0A] @ sealed) = Inr cipher
         \<and> mem_obj (w_interf W 1 (w_interf W 0 s)) (snapshot_key e snap) = None
         \<and> mem_obj s2 = (mem_obj (w_interf W 1 (w_interf W 0 s)))(snapshot_key e snap \<mapsto> (cipher, etag_of sha cipher))
         \<and> update_manifest L (mem_backend sha) cd e W (session_key (pi_agent item) (pi_session_id item))
              (push_entry item snap (w_now W 1)) parent s2 = (Inr (), s'))"
  using assms by (rule push_success_facts)

definition toy_push :: "bool \<Rightarrow> (string \<times> sync_error option) \<times> mem_store" where
  "toy_push stale = push_session (toy_lib (new_manifest []) toy_envelope) ''linux'' toy_engine toy_world
     (\<lambda>_. Inr (''{}'', ''{}'')) (toy_item\<lparr>pi_base_revision := (if stale then ''u0'' else [])\<rparr>) False mem_new"

lemma toy_push_ok: "fst (toy_push False) = (''u1'', None)"
proof -
  have keys: "manifest_key toy_engine = ''p/manifest.age''" "snapshot_key toy_engine (w_uuid toy_world) = ''p/snapshots/u1.age''"
    "eg_backend toy_engine = Some (mem_backend (\<lambda>_. 0))" "eg_codec toy_engine = Some toy_codec"
    "engine_max_payload toy_engine = defaultMaxPayload" "\<not> eg_require_remote toy_engine"
    by (simp_all add: toy_world_def) (simp_all add: toy_engine_def engine_max_payload_def)
  have item: "toy_item\<lparr>pi_base_revision := []\<rparr> = toy_item" "pi_agent toy_item = ''codex''"
    "pi_session_id toy_item = ''s''" "pi_local_path toy_item = ''/h/d/s.jsonl''" "pi_base_revision toy_item = []"
    by (simp_all add: toy_item_def)
  show ?thesis
    unfolding toy_push_def
    by (simp add: keys item toy_not_refused push_session_def update_manifest_def four_attempts load_manifest_def save_manifest_def mem_backend_simps mem_get_def mem_put_def mem_new_def
        Let_def manifest_put_options_def snapshot_put_options_def session_head_def new_manifest_def
        defaultMaxPayload_def toy_codec_def toy_lib_def toy_world_def)
qed

lemma toy_push_stale: "toy_push True = (([], Some (HeadMoved ''u0'' [])), mem_new)"
proof -
  have keys: "manifest_key toy_engine = ''p/manifest.age''"
    "eg_backend toy_engine = Some (mem_backend (\<lambda>_. 0))" "eg_codec toy_engine = Some toy_codec"
    "engine_max_payload toy_engine = defaultMaxPayload" "\<not> eg_require_remote toy_engine"
    by simp (simp_all add: toy_engine_def engine_max_payload_def)
  have item: "\<not> push_refused (toy_item\<lparr>pi_base_revision := ''u0''\<rparr>)" "pi_agent toy_item = ''codex''"
    "pi_session_id toy_item = ''s''" "pi_local_path toy_item = ''/h/d/s.jsonl''" "pi_base_known toy_item"
    using toy_not_refused by (simp_all add: toy_item_def push_refused_def)
  show ?thesis
    unfolding toy_push_def
    by (simp add: keys item push_session_def load_manifest_def mem_backend_simps mem_get_def mem_new_def
        Let_def session_head_def new_manifest_def defaultMaxPayload_def toy_world_def)
qed

theorem failed_push_keeps_manifest_witness: "snd (toy_push True) = mem_new"
proof -
  have "push_session (toy_lib (new_manifest []) toy_envelope) ''linux'' toy_engine toy_world
     (\<lambda>_. Inr (''{}'', ''{}'')) (toy_item\<lparr>pi_base_revision := ''u0''\<rparr>) False mem_new
     = (([], Some (HeadMoved ''u0'' [])), snd (toy_push True))"
    using toy_push_stale by (simp add: toy_push_def)
  from failed_push_keeps_manifest [OF this] show ?thesis
    by (simp add: toy_engine_def toy_world_def)
qed

theorem successful_push_witness:
  "mem_obj mem_new (snapshot_key toy_engine ''u1'') = None \<and> \<not> push_refused toy_item"
proof -
  have "push_session (toy_lib (new_manifest []) toy_envelope) ''linux'' toy_engine toy_world
     (\<lambda>_. Inr (''{}'', ''{}'')) (toy_item\<lparr>pi_base_revision := []\<rparr>) False mem_new
     = ((''u1'', None), snd (toy_push False))"
    using toy_push_ok by (simp add: toy_push_def prod_eq_iff)
  moreover have "toy_item\<lparr>pi_base_revision := []\<rparr> = toy_item" by (simp add: toy_item_def)
  moreover have "eg_backend toy_engine = Some (mem_backend (\<lambda>_. 0))" "eg_codec toy_engine = Some toy_codec"
    by (simp_all add: toy_engine_def)
  ultimately show ?thesis
    using successful_push [of "toy_lib (new_manifest []) toy_envelope" "''linux''" toy_engine toy_world]
    by (fastforce simp: toy_world_def)
qed

section \<open>Uncontended update\<close>

text \<open>
  With no other device writing, the manifest update of a readable manifest whose head is the
  expected one succeeds on the first attempt, and the store then holds the advanced manifest.
\<close>
theorem uncontended_update_succeeds:
  assumes "\<And>j x. w_interf W j x = x" and "mem_ok sha s"
    and "load_manifest L (mem_backend sha) cd e (\<not> eg_require_remote e) s = Inr (mf, etag)"
    and "session_head mf key = expected"
    and "cd_encrypt cd (w_seed W 1) (lb_manifest_json L (advance_manifest mf key entry (w_now W 1))) = Inr cipher"
  shows "\<exists>s'. update_manifest L (mem_backend sha) cd e W key entry expected s = (Inr (), s')
     \<and> mem_obj s' = (mem_obj s)(manifest_key e \<mapsto> (cipher, etag_of sha cipher))"
proof -
  have "case mem_obj s (manifest_key e) of None \<Rightarrow> etag = [] | Some (d, t) \<Rightarrow> etag = t"
    using mem.load_manifest_view [OF assms(3)] by simp
  then have put: "mem_put sha (manifest_key e) cipher (manifest_put_options etag) s =
      (Inr \<lparr>om_key = manifest_key e, om_etag = etag_of sha cipher, om_size = int (length cipher)\<rparr>,
       AList.update (manifest_key e) \<lparr>ob_data = cipher, ob_etag = etag_of sha cipher\<rparr> s)"
    using mem_ok_lookup [OF assms(2)]
    by (auto simp: mem_put_def manifest_put_options_def mem_obj_def Let_def split: option.splits)
  from put assms(3-5) have "update_manifest L (mem_backend sha) cd e W key entry expected s =
     (Inr (), AList.update (manifest_key e) \<lparr>ob_data = cipher, ob_etag = etag_of sha cipher\<rparr> s)"
    by (simp add: update_manifest_def four_attempts assms(1) save_manifest_def mem_backend_simps)
  with mem_put_obj(1) [OF put] show ?thesis by simp
qed

theorem uncontended_update_succeeds_witness:
  "\<exists>s'. update_manifest (toy_lib (new_manifest []) toy_envelope) (mem_backend (\<lambda>_. 0)) toy_codec toy_engine toy_world
      ''codex:s'' toy_entry [] mem_new = (Inr (), s')"
proof -
  have "load_manifest (toy_lib (new_manifest []) toy_envelope) (mem_backend (\<lambda>_. 0)) toy_codec toy_engine
      (\<not> eg_require_remote toy_engine) mem_new = Inr (new_manifest [], [])"
    using toy_load by (simp add: toy_engine_def)
  from uncontended_update_succeeds [OF _ mem_ok_new this, of toy_world "''codex:s''" "[]" toy_entry "''!{}''"]
  show ?thesis
    by (auto simp: toy_world_def toy_codec_def toy_lib_def session_head_def new_manifest_def)
qed

section \<open>Pull\<close>

text \<open>
  C34. A pulled path is safe: the artifact path of an accepted envelope cleans to a relative path
  whose components are all proper names (no parent reference, no empty or dot component), and none
  of its components is a credential file or the local-only handoff store.
\<close>
theorem accepted_path_is_safe:
  assumes "validate_envelope e env item = Inr file"
  shows "en_files env = [file]
    \<and> (\<exists>cs. path_clean (ef_path file) = join_with [slash] cs \<and> cs \<noteq> [] \<and> (\<forall>c \<in> set cs. proper_comp c))
    \<and> (\<forall>c \<in> set (fields_on slash (ef_path file)). \<not> is_credential_name c \<and> \<not> equal_fold c ''handoffs'')"
proof -
  let ?p = "ef_path file"
  from assms have files: "en_files env = [file]"
    and chk: "\<not> is_abs (path_clean ?p)" "path_clean ?p \<noteq> ''.''" "path_clean ?p \<noteq> ''..''"
      "\<not> has_prefix (path_clean ?p) ''../''" and excl: "\<not> contains_hard_excluded_path ?p"
    by (auto simp: validate_envelope_def Let_def split: if_splits list.splits option.splits)
  obtain r cs where cs: "comps_ok r cs" "path_clean ?p = render_path r cs" "r = is_abs ?p"
    using path_clean_form by blast
  from chk(1) cs(3) have r: "\<not> r" by (simp add: is_abs_clean)
  with chk(2) cs(2) have ne: "cs \<noteq> []" by (auto simp: render_path_def)
  from cs(1) obtain n ds where nds: "cs = replicate n ''..'' @ ds" "\<forall>d \<in> set ds. proper_comp d"
    by (auto simp: comps_ok_def)
  have "n = 0"
  proof (rule ccontr)
    assume "n \<noteq> 0"
    then obtain m where n: "n = Suc m" by (cases n) auto
    then have c: "cs = ''..'' # (replicate m ''..'' @ ds)" using nds by simp
    then show False
      using cs(2) r chk(3,4) by (cases "replicate m ''..'' @ ds") (auto simp: render_path_def slash_def has_prefix_def)
  qed
  with nds cs r ne have "path_clean ?p = join_with [slash] cs" "\<forall>c \<in> set cs. proper_comp c"
    by (auto simp: render_path_def)
  moreover from excl have "\<forall>c \<in> set (fields_on slash ?p). \<not> is_credential_name c \<and> \<not> equal_fold c ''handoffs''"
    by (auto simp: contains_hard_excluded_path_def contains_credential_path_def list_ex_iff)
  ultimately show ?thesis using files ne by blast
qed

definition toy_pull_item :: pull_item where
  "toy_pull_item = \<lparr>pl_agent = ''codex'', pl_session_id = ''s'', pl_snapshot_id = ''u1'', pl_project_id = []\<rparr>"

lemma hex_sum_decodes: "hex_decode (hex_encode (sum_bytes w)) = Some (sum_bytes w)"
  by (rule hex_decode_encode)

lemma toy_validate: "validate_envelope toy_engine toy_envelope toy_pull_item = Inr (hd (en_files toy_envelope))"
proof -
  have "path_clean ''d/s.jsonl'' = ''d/s.jsonl''" by code_simp
  moreover have "\<not> contains_hard_excluded_path ''d/s.jsonl''" by code_simp
  ultimately show ?thesis
    by (simp add: validate_envelope_def toy_envelope_def toy_pull_item_def EnvelopeSchemaVersion_def is_abs_def
        has_prefix_def slash_def engine_max_payload_def toy_engine_def defaultMaxPayload_def hex_decode_encode)
qed

theorem accepted_path_is_safe_witness:
  "\<exists>cs. path_clean ''d/s.jsonl'' = join_with [slash] cs \<and> cs \<noteq> [] \<and> (\<forall>c \<in> set cs. proper_comp c)"
  using accepted_path_is_safe [OF toy_validate] by (auto simp: toy_envelope_def)

end
