(* ===== verification/Local_Files.thy ===== *)
theory Local_Files
  imports Go_Filepath "HOL-Library.AList"
begin

text \<open>
  The local file system as the program uses it, and \<^verbatim>\<open>internal/fsx/atomic.go\<close>: a
  directory is created if needed, the bytes go to a temporary sibling, and a rename installs
  them. \<open>fault step\<close> is the error the operating system reports for a step, if any.
\<close>

section \<open>Names of children\<close>

text \<open>\<^verbatim>\<open>filepath.Dir\<close> and \<^verbatim>\<open>filepath.Ext\<close>.\<close>

definition path_dir :: "string \<Rightarrow> string" where
  "path_dir p = path_clean (rev (dropWhile (\<lambda>c. c \<noteq> slash) (rev p)))"

definition path_ext :: "string \<Rightarrow> string" where
  "path_ext p =
     (let tail = takeWhile (\<lambda>c. c \<noteq> CHR ''.'' \<and> c \<noteq> slash) (rev p); rest = drop (length tail) (rev p) in
      case rest of c # cs \<Rightarrow> (if c = CHR ''.'' then rev (tail @ [c]) else []) | [] \<Rightarrow> [])"

text \<open>The name of \<open>p\<close> directly below the cleaned directory \<open>d\<close>, if it is there.\<close>

definition child_name :: "string \<Rightarrow> string \<Rightarrow> string option" where
  "child_name d p =
     (if p \<noteq> d \<and> path_dir p = path_clean d then Some (path_base p) else None)"

lemma join_with_snoc: "cs \<noteq> [] \<Longrightarrow> join_with sep (cs @ [c]) = join_with sep cs @ sep @ c"
  by (induction sep cs rule: join_with.induct) auto

lemma render_snoc:
  "render_path r (cs @ [c]) = (if cs = [] then (if r then [slash] else []) @ c
     else render_path r cs @ [slash] @ c)"
  by (auto simp: render_path_def join_with_snoc)

lemma proper_comp_chars: "proper_comp c \<Longrightarrow> c \<noteq> [] \<and> slash \<notin> set c"
  by (simp add: proper_comp_def)

lemma split_on_snoc: "slash \<notin> set c \<Longrightarrow> split_on slash (p @ slash # c) = split_on slash p @ [c]"
  by (induction slash p rule: split_on.induct) (auto simp: split_on_single split: list.splits)

lemma clean_comps_snoc:
  assumes "c \<noteq> []" "slash \<notin> set c"
  shows "clean_comps r (p @ [slash] @ c) = rev (push_comp r (rev (clean_comps r p)) c)"
proof -
  have "split_on slash (p @ slash # c) = split_on slash p @ [c]"
    using assms by (simp add: split_on_snoc)
  then show ?thesis by (simp add: clean_comps_def)
qed

lemma path_join_child:
  assumes ok: "comps_ok r cs" and c: "proper_comp c"
  shows "path_join (render_path r cs) c = render_path r (cs @ [c])"
proof -
  let ?d = "render_path r cs"
  have ne: "?d \<noteq> []" "c \<noteq> []" "slash \<notin> set c" and ab: "is_abs ?d = r"
    using is_abs_render [OF ok] proper_comp_chars [OF c] by auto
  then have "is_abs (?d @ [slash] @ c) = r"
    by (cases ?d) (auto simp: is_abs_def has_prefix_def)
  moreover have "clean_comps r (?d @ [slash] @ c) = cs @ [c]"
    using c unfolding clean_comps_snoc [OF ne(2,3)] clean_comps_render [OF ok]
    by (auto simp: push_comp_def proper_comp_def)
  ultimately show ?thesis using ne by (simp add: path_join_def path_clean_def)
qed

lemma dir_part:
  assumes "slash \<notin> set c"
  shows "rev (dropWhile (\<lambda>x. x \<noteq> slash) (rev (p @ [slash] @ c))) = p @ [slash]"
proof -
  have "dropWhile (\<lambda>x. x \<noteq> slash) (rev c @ slash # rev p) = slash # rev p"
    using assms by (subst dropWhile_append2) auto
  then show ?thesis by simp
qed

lemma clean_comps_trailing: "clean_comps r (p @ [slash]) = clean_comps r p"
proof -
  have "split_on slash (p @ [slash]) = split_on slash p @ [[]]"
    by (simp add: split_on_snoc)
  then show ?thesis by (simp add: clean_comps_def push_comp_def)
qed

lemma path_dir_child:
  assumes ok: "comps_ok r cs" and c: "proper_comp c"
  shows "path_dir (render_path r (cs @ [c])) = render_path r cs"
proof -
  have sl: "slash \<notin> set c" using proper_comp_chars [OF c] by auto
  show ?thesis
  proof (cases "cs = []")
    case True
    show ?thesis
    proof (cases r)
      case True
      have "path_clean [slash] = [slash]" by (simp add: slash_def) code_simp
      with True \<open>cs = []\<close> dir_part [OF sl, of "[]"] show ?thesis
        by (simp add: path_dir_def render_path_def)
    next
      case False
      have "dropWhile (\<lambda>x. x \<noteq> slash) (rev c) = []" using sl by auto
      with False True show ?thesis
        by (simp add: path_dir_def render_path_def del: dropWhile_eq_Nil_conv)
    qed
  next
    case False
    let ?d = "render_path r cs"
    have "path_dir (render_path r (cs @ [c])) = path_clean (?d @ [slash])"
      using False dir_part [OF sl, of ?d] by (simp add: path_dir_def render_snoc)
    also have "\<dots> = ?d"
    proof -
      have "is_abs (?d @ [slash]) = r"
        using is_abs_render [OF ok] by (cases ?d) (auto simp: is_abs_def has_prefix_def)
      then show ?thesis
        by (simp add: path_clean_def clean_comps_trailing clean_comps_render [OF ok])
    qed
    finally show ?thesis .
  qed
qed

lemma path_base_child:
  assumes "proper_comp c"
  shows "path_base (render_path r (cs @ [c])) = c"
proof -
  have sl: "slash \<notin> set c" "c \<noteq> []" using proper_comp_chars [OF assms] by auto
  have lst: "last (split_on slash (p @ [slash] @ c)) = c" for p
    using sl by (simp add: split_on_snoc)
  have "hd (rev c) \<noteq> slash" using sl by (metis list.set_sel(1) rev_is_Nil_conv set_rev)
  then have dw: "dropWhile (\<lambda>x. x = slash) (rev c @ q) = rev c @ q" for q
    using sl by (cases "rev c") auto
  have base: "path_base (p @ c) = last (split_on slash (p @ c))" for p
    using sl dw [of "rev p"] by (simp add: path_base_def)
  show ?thesis
  proof (cases "cs = []")
    case True
    then show ?thesis
      using base [of "[slash]"] base [of "[]"] lst [of "[]"] sl
      by (cases r) (simp_all add: render_path_def split_on_single del: split_on.simps)
  next
    case False
    then show ?thesis
      using base [of "render_path r cs @ [slash]"] lst [of "render_path r cs"] by (simp add: render_snoc)
  qed
qed

lemma child_name_join:
  assumes "comps_ok r cs" "proper_comp c"
  shows "child_name (render_path r cs) (path_join (render_path r cs) c) = Some c"
proof -
  have "path_join (render_path r cs) c \<noteq> render_path r cs"
  proof
    assume "path_join (render_path r cs) c = render_path r cs"
    then have "clean_comps r (render_path r (cs @ [c])) = clean_comps r (render_path r cs)"
      by (simp add: path_join_child [OF assms])
    then show False
      using clean_comps_render [OF comps_ok_snoc_proper [OF assms]] clean_comps_render [OF assms(1)] by simp
  qed
  then show ?thesis
    by (simp add: child_name_def path_join_child [OF assms] path_dir_child [OF assms]
        path_base_child [OF assms(2)] path_clean_render [OF assms(1)])
qed

section \<open>Files and directories\<close>

text \<open>A path maps to the bytes of a file, or to nothing when it is a directory.\<close>

type_synonym disk = "(string \<times> bytes option) list"

definition read_file :: "string \<Rightarrow> disk \<Rightarrow> (string, bytes) result" where
  "read_file p d = (case map_of d p of
     None \<Rightarrow> Inl ''not exist'' | Some None \<Rightarrow> Inl ''is a directory'' | Some (Some b) \<Rightarrow> Inr b)"

definition remove_file :: "string \<Rightarrow> disk \<Rightarrow> disk" where
  "remove_file p d = AList.delete p d"

text \<open>\<^verbatim>\<open>os.ReadDir\<close>: the entries directly below a directory, sorted by name.\<close>

definition read_dir :: "string \<Rightarrow> disk \<Rightarrow> (string, (string \<times> bytes option) list) result" where
  "read_dir dir d = (case map_of d dir of
     None \<Rightarrow> Inl ''not exist''
   | Some (Some _) \<Rightarrow> Inl ''not a directory''
   | Some None \<Rightarrow> Inr (sort_key fst (List.map_filter
       (\<lambda>(p, e). map_option (\<lambda>n. (n, e)) (child_name dir p)) (AList.clearjunk d))))"

definition make_dir :: "string \<Rightarrow> disk \<Rightarrow> (string, disk) result" where
  "make_dir p d = (case map_of d p of
     None \<Rightarrow> Inr ((p, None) # d) | Some None \<Rightarrow> Inr d | Some (Some _) \<Rightarrow> Inl ''not a directory'')"

text \<open>\<^verbatim>\<open>os.MkdirAll\<close> of a cleaned path: every missing ancestor, from the top.\<close>

fun make_dirs :: "string list \<Rightarrow> disk \<Rightarrow> (string, disk) result" where
  "make_dirs [] d = Inr d"
| "make_dirs (p # ps) d = (case make_dir p d of Inl e \<Rightarrow> Inl e | Inr d' \<Rightarrow> make_dirs ps d')"

definition dir_chain :: "string \<Rightarrow> string list" where
  "dir_chain p = (let r = is_abs p; cs = clean_comps r p in
     map (\<lambda>n. render_path r (take n cs)) [1..<length cs + 1])"

definition mkdir_all :: "string \<Rightarrow> disk \<Rightarrow> (string, disk) result" where
  "mkdir_all p d = make_dirs (dir_chain p) d"

type_synonym faults = "string \<Rightarrow> string option"

definition ensure_owner_only_dir :: "faults \<Rightarrow> string \<Rightarrow> disk \<Rightarrow> string option \<times> disk" where
  "ensure_owner_only_dir fault p d =
     (case fault ''mkdir'' of Some m \<Rightarrow> (Some m, d) | None \<Rightarrow>
      (case mkdir_all p d of Inl m \<Rightarrow> (Some m, d) | Inr d' \<Rightarrow>
      (case fault ''protect'' of Some m \<Rightarrow> (Some m, d') | None \<Rightarrow> (None, d'))))"

definition write_file_atomic :: "faults \<Rightarrow> string \<Rightarrow> string \<Rightarrow> bytes \<Rightarrow> disk \<Rightarrow> string option \<times> disk" where
  "write_file_atomic fault tmp p data d =
     (case fault ''mkdir'' of Some m \<Rightarrow> (Some m, d) | None \<Rightarrow>
      (case mkdir_all (path_dir p) d of Inl m \<Rightarrow> (Some m, d) | Inr d0 \<Rightarrow>
      (case fault ''createtemp'' of Some m \<Rightarrow> (Some m, d0) | None \<Rightarrow>
      let d1 = AList.update tmp (Some data) d0 in
      (case fault ''write'' of Some m \<Rightarrow> (Some m, AList.delete tmp d1) | None \<Rightarrow>
      (case fault ''sync'' of Some m \<Rightarrow> (Some m, AList.delete tmp d1) | None \<Rightarrow>
      (case fault ''close'' of Some m \<Rightarrow> (Some m, AList.delete tmp d1) | None \<Rightarrow>
      (case fault ''chmod'' of Some m \<Rightarrow> (Some m, AList.delete tmp d1) | None \<Rightarrow>
      (case fault ''rename'' of Some m \<Rightarrow> (Some m, AList.delete tmp d1) | None \<Rightarrow>
      if map_of d1 p = Some None then (Some ''file exists'', AList.delete tmp d1)
      else (None, AList.update p (Some data) (AList.delete tmp d1))))))))))"

text \<open>What creating directories does not change: every file, and everything outside the chain.\<close>

lemma make_dir_files:
  "make_dir p d = Inr d' \<Longrightarrow> (map_of d' q = (if q = p then Some None else map_of d q)) \<and> (map_of d p = None \<or> map_of d p = Some None)"
  by (auto simp: make_dir_def split: option.splits)

lemma make_dirs_files:
  "make_dirs ps d = Inr d' \<Longrightarrow>
     map_of d' q = (if q \<in> set ps then Some None else map_of d q)
     \<and> (q \<in> set ps \<longrightarrow> map_of d q = None \<or> map_of d q = Some None)"
proof (induction ps arbitrary: d)
  case (Cons p ps)
  then obtain d0 where d0: "make_dir p d = Inr d0" "make_dirs ps d0 = Inr d'"
    by (auto split: sum.splits)
  from Cons.IH [OF d0(2)] make_dir_files [OF d0(1), of q] show ?case by (auto split: if_splits)
qed simp

lemma mkdir_all_file: "mkdir_all p d = Inr d' \<Longrightarrow> map_of d' q = Some (Some b) \<longleftrightarrow> map_of d q = Some (Some b)"
  unfolding mkdir_all_def using make_dirs_files [of "dir_chain p" d d' q] by (auto split: if_splits)

lemma read_file_Inr: "read_file p d = Inr b \<longleftrightarrow> map_of d p = Some (Some b)"
  by (auto simp: read_file_def split: option.splits)

text \<open>
  Atomic replacement: when writing a file fails at any step, every file reads exactly as before
  (the old contents of the target included); when it succeeds the target holds the new bytes and
  every other file reads as before. The temporary name is one that did not exist.
\<close>
theorem write_file_atomic_all_or_nothing:
  assumes "write_file_atomic fault tmp p data d = (err, d')" and "map_of d tmp = None" "tmp \<noteq> p"
  shows "(err \<noteq> None \<longrightarrow> (\<forall>q b. read_file q d' = Inr b \<longleftrightarrow> read_file q d = Inr b))
    \<and> (err = None \<longrightarrow> read_file p d' = Inr data
         \<and> (\<forall>q b. q \<noteq> p \<longrightarrow> (read_file q d' = Inr b \<longleftrightarrow> read_file q d = Inr b)))"
proof -
  have frame: "mkdir_all (path_dir p) d = Inr d0 \<Longrightarrow> (map_of d0 q = Some (Some b)) = (map_of d q = Some (Some b))" for d0 q b
    by (rule mkdir_all_file)
  show ?thesis
    using assms
    by (auto simp: write_file_atomic_def read_file_Inr Let_def update_conv' delete_conv' frame
        split: option.splits sum.splits if_splits)
qed

theorem write_file_atomic_all_or_nothing_witness:
  "read_file ''/h/c/a'' (snd (write_file_atomic (\<lambda>s. if s = ''rename'' then Some ''EIO'' else None)
      ''/h/c/.t'' ''/h/c/a'' ''new'' [(''/h/c/a'', Some ''old'')])) = Inr ''old''"
proof -
  let ?w = "write_file_atomic (\<lambda>s. if s = ''rename'' then Some ''EIO'' else None)
      ''/h/c/.t'' ''/h/c/a'' ''new'' [(''/h/c/a'', Some ''old'')]"
  have "fst ?w = Some ''EIO''" by code_simp
  then have "?w = (Some ''EIO'', snd ?w)" by (simp add: prod_eq_iff)
  from write_file_atomic_all_or_nothing [OF this] show ?thesis by (simp add: read_file_Inr)
qed

lemma write_file_atomic_frame:
  assumes "write_file_atomic fault tmp p data d = (err, d')" and "q \<noteq> tmp" "q \<noteq> p"
  shows "read_file q d' = Inr b \<longleftrightarrow> read_file q d = Inr b"
  using assms mkdir_all_file [of "path_dir p" d _ q b]
  by (auto simp: write_file_atomic_def read_file_Inr Let_def update_conv' delete_conv'
      split: option.splits sum.splits if_splits)

lemma write_file_atomic_target:
  "write_file_atomic fault tmp p data d = (None, d') \<Longrightarrow> map_of d' p = Some (Some data)"
  by (auto simp: write_file_atomic_def Let_def update_conv' split: option.splits sum.splits if_splits)

end
