(* ===== verification/Sync_Plan.thy ===== *)
theory Sync_Plan
  imports Sync_Engine Local_Files
begin

text \<open>
  Planning and conflict records: \<^verbatim>\<open>internal/sync/plan.go\<close> and
  \<^verbatim>\<open>internal/sync/conflict.go\<close>. A conflict record is one JSON file under
  \<^verbatim>\<open><home>/conflicts\<close>; JSON is a pair of parameters.
\<close>

section \<open>Planning\<close>

record sync_plan =
  sp_push :: "push_item list"
  sp_pull :: "pull_item list"

record adapter_session =
  as_id :: string
  as_agent :: string
  as_project_id :: string
  as_title :: string
  as_updated_at :: int
  as_size_bytes :: int
  as_path :: string
  as_relative_path :: string

definition detect_conflict :: "string \<Rightarrow> string \<Rightarrow> string \<Rightarrow> bool" where
  "detect_conflict localRev remoteRev baseRev =
     (if remoteRev = [] \<or> localRev = [] then False
      else if localRev = remoteRev then False
      else if baseRev \<noteq> [] \<and> localRev \<noteq> baseRev \<and> remoteRev \<noteq> baseRev then True
      else localRev \<noteq> remoteRev)"

definition manifest_session_lookup :: "manifest option \<Rightarrow> string \<Rightarrow> string \<Rightarrow> manifest_session option" where
  "manifest_session_lookup m agent sid =
     (case m of None \<Rightarrow> None | Some mf \<Rightarrow> map_of (mf_sessions mf) (session_key agent sid))"

definition from_adapter_sessions :: "adapter_session list \<Rightarrow> push_item list" where
  "from_adapter_sessions ss = map (\<lambda>s.
     \<lparr>pi_agent = as_agent s, pi_session_id = as_id s, pi_project_id = as_project_id s,
      pi_local_path = as_path s, pi_relative_path = as_relative_path s,
      pi_base_known = False, pi_base_revision = []\<rparr>) ss"

text \<open>
  Conflict detection is symmetric in the two sides and does not depend on the base revision:
  it reports a conflict exactly when both revisions are known and differ, also when only one side
  has moved past the base.
\<close>
theorem detect_conflict_ignores_base:
  "detect_conflict l r b \<longleftrightarrow> l \<noteq> [] \<and> r \<noteq> [] \<and> l \<noteq> r"
  by (auto simp: detect_conflict_def)

section \<open>Conflict records\<close>

record conflict =
  cf_id :: string
  cf_agent :: string
  cf_session_id :: string
  cf_project_id :: string
  cf_local_revision :: string
  cf_remote_revision :: string
  cf_remote_snapshot :: string
  cf_created_at :: string

datatype resolution = KeepLocal | KeepRemote | KeepBoth | OtherResolution string

fun resolution_text :: "resolution \<Rightarrow> string" where
  "resolution_text KeepLocal = ''keep-local''"
| "resolution_text KeepRemote = ''keep-remote''"
| "resolution_text KeepBoth = ''keep-both''"
| "resolution_text (OtherResolution s) = s"

record conflict_json =
  cj_marshal :: "conflict \<Rightarrow> bytes"
  cj_unmarshal :: "bytes \<Rightarrow> (string, conflict) result"

definition same_divergence :: "conflict \<Rightarrow> conflict \<Rightarrow> bool" where
  "same_divergence c d \<longleftrightarrow> cf_agent c = cf_agent d \<and> cf_session_id c = cf_session_id d
     \<and> cf_local_revision c = cf_local_revision d \<and> cf_remote_snapshot c = cf_remote_snapshot d"

definition conflict_dir :: "string \<Rightarrow> string" where
  "conflict_dir home = path_join home ''conflicts''"

definition conflict_path :: "string \<Rightarrow> string \<Rightarrow> string" where
  "conflict_path home i = path_join (conflict_dir home) (i @ ''.json'')"

fun decode_conflicts :: "conflict_json \<Rightarrow> (string \<times> bytes option) list \<Rightarrow> (string, conflict list) result" where
  "decode_conflicts J [] = Inr []"
| "decode_conflicts J ((name, e) # es) =
     (case e of None \<Rightarrow> decode_conflicts J es
      | Some b \<Rightarrow>
          if path_ext name \<noteq> ''.json'' then decode_conflicts J es
          else (case cj_unmarshal J b of Inl m \<Rightarrow> Inl m
          | Inr c \<Rightarrow> (case decode_conflicts J es of Inl m \<Rightarrow> Inl m | Inr cs \<Rightarrow> Inr (c # cs))))"

definition list_conflicts :: "conflict_json \<Rightarrow> string \<Rightarrow> disk \<Rightarrow> (string, conflict list) result" where
  "list_conflicts J home d =
     (case read_dir (conflict_dir home) d of
        Inl m \<Rightarrow> if m = ''not exist'' then Inr [] else Inl m
      | Inr es \<Rightarrow> decode_conflicts J es)"

definition save_conflict ::
  "conflict_json \<Rightarrow> faults \<Rightarrow> string \<Rightarrow> nat \<Rightarrow> string \<Rightarrow> string \<Rightarrow> conflict \<Rightarrow> disk \<Rightarrow> string option \<times> disk" where
  "save_conflict J fault tmp nano now home c d =
     (let write = (\<lambda>c.
        (let c' = (if cf_created_at c = [] then c\<lparr>cf_created_at := now\<rparr> else c) in
         case ensure_owner_only_dir fault (conflict_dir home) d of
           (Some m, d1) \<Rightarrow> (Some m, d1)
         | (None, d1) \<Rightarrow> write_file_atomic fault tmp (conflict_path home (cf_id c')) (cj_marshal J c' @ [CHR 0x0A]) d1)) in
      if cf_id c = [] then
        (case list_conflicts J home d of Inl m \<Rightarrow> (Some m, d)
         | Inr existing \<Rightarrow>
             if list_ex (\<lambda>e. same_divergence e c) existing then (None, d)
             else write (c\<lparr>cf_id := ''c-'' @ nat_dec nano\<rparr>))
      else write c)"

definition get_conflict :: "conflict_json \<Rightarrow> string \<Rightarrow> string \<Rightarrow> disk \<Rightarrow> (string, conflict) result" where
  "get_conflict J home i d =
     (case read_file (conflict_path home i) d of Inl m \<Rightarrow> Inl m
      | Inr raw \<Rightarrow> (case cj_unmarshal J raw of Inl m \<Rightarrow> Inl m
      | Inr c \<Rightarrow> if cf_id c \<noteq> i then Inl ''conflict identity mismatch'' else Inr c))"

text \<open>\<^verbatim>\<open>Resolve\<close>: the resolution executor is a callback that may itself change files.\<close>

definition resolve_conflict ::
  "conflict_json \<Rightarrow> faults \<Rightarrow> string \<Rightarrow> string \<Rightarrow> string \<Rightarrow> string \<Rightarrow> resolution
   \<Rightarrow> (conflict \<Rightarrow> resolution \<Rightarrow> disk \<Rightarrow> string option \<times> disk) option \<Rightarrow> disk \<Rightarrow> string option \<times> disk" where
  "resolve_conflict J fault tmp now home i how apply d =
     (if how \<noteq> KeepLocal \<and> how \<noteq> KeepRemote \<and> how \<noteq> KeepBoth then (Some ''invalid resolution'', d)
      else case get_conflict J home i d of Inl m \<Rightarrow> (Some m, d)
      | Inr c \<Rightarrow> (case apply of None \<Rightarrow> (Some ''resolution executor required'', d)
      | Some f \<Rightarrow> (case f c how d of (Some m, d1) \<Rightarrow> (Some m, d1)
      | (None, d1) \<Rightarrow>
        (case write_file_atomic fault tmp
               (path_join (conflict_dir home) (i @ ''.'' @ resolution_text how @ ''.resolved''))
               (now @ [CHR 0x0A]) d1 of (Some m, d2) \<Rightarrow> (Some m, d2)
      | (None, d2) \<Rightarrow>
        (case fault ''remove'' of Some m \<Rightarrow> (Some m, d2)
      | None \<Rightarrow> if map_of d2 (conflict_path home i) = None then (Some ''not exist'', d2)
                else (None, remove_file (conflict_path home i) d2))))))"

section \<open>Where a record lives\<close>

lemma comps_of: obtains cs where "comps_ok (is_abs p) cs" "path_clean p = render_path (is_abs p) cs" "clean_comps (is_abs p) p = cs"
proof
  show "comps_ok (is_abs p) (clean_comps (is_abs p) p)" by (rule clean_comps_ok)
  show "path_clean p = render_path (is_abs p) (clean_comps (is_abs p) p)"
  proof (cases "p = []")
    case True
    have "render_path (is_abs []) (clean_comps (is_abs []) []) = ''.''" by code_simp
    with True show ?thesis by simp
  qed (simp add: path_clean_def)
qed simp

text \<open>A name with a fixed suffix is a child whatever directories an id may name before it.\<close>

lemma split_on_append: "split_on c (u @ c # v) = split_on c u @ split_on c v"
  by (induction c u rule: split_on.induct) (auto split: list.splits)

lemma split_on_suffix:
  "c \<notin> set s \<Longrightarrow> \<exists>as a. c \<notin> set a \<and> split_on c (i @ s) = as @ [a @ s]"
proof (induction i)
  case Nil
  then show ?case by (intro exI [of _ "[]"]) (simp add: split_on_single)
next
  case (Cons x i)
  then obtain as a where h: "c \<notin> set a" "split_on c (i @ s) = as @ [a @ s]" by blast
  show ?case
  proof (cases "x = c")
    case True
    with h show ?thesis by (intro exI [of _ "[] # as"] exI [of _ a]) simp
  next
    case False
    show ?thesis
    proof (cases as)
      case Nil
      with h False show ?thesis by (intro exI [of _ "[]"] exI [of _ "x # a"]) simp
    next
      case (Cons b bs)
      with h False show ?thesis by (intro exI [of _ "(x # b) # bs"] exI [of _ a]) simp
    qed
  qed
qed

lemma join_suffixed:
  assumes d: "comps_ok r cs" and s: "slash \<notin> set s" "2 < length s"
  shows "\<exists>ds a. proper_comp (a @ s) \<and> path_join (render_path r cs) (i @ s) = render_path r (ds @ [a @ s])"
proof -
  let ?p = "render_path r cs @ [slash] @ i @ s"
  from split_on_suffix [OF s(1)] obtain as a where
    a: "slash \<notin> set a" "split_on slash (i @ s) = as @ [a @ s]" by blast
  then have sp: "split_on slash ?p = (split_on slash (render_path r cs) @ as) @ [a @ s]"
    by (simp add: split_on_append)
  have pc: "proper_comp (a @ s)"
    using a(1) s by (auto simp: proper_comp_def dest: arg_cong [where f = length])
  then have "clean_comps r ?p = rev (foldl (push_comp r) [] (split_on slash (render_path r cs) @ as)) @ [a @ s]"
    unfolding clean_comps_def sp by (simp add: push_comp_def proper_comp_def)
  moreover have "is_abs ?p = r"
    using is_abs_render [OF d] by (cases "render_path r cs") (auto simp: is_abs_def has_prefix_def)
  moreover have "path_join (render_path r cs) (i @ s) = path_clean ?p" "?p \<noteq> []"
    using is_abs_render [OF d] s by (auto simp: path_join_def)
  ultimately have "path_join (render_path r cs) (i @ s)
      = render_path r (rev (foldl (push_comp r) [] (split_on slash (render_path r cs) @ as)) @ [a @ s])"
    by (simp add: path_clean_def)
  with pc show ?thesis by blast
qed

lemma join_base:
  assumes "comps_ok r cs" "slash \<notin> set s" "2 < length s"
  shows "has_suffix (path_base (path_join (render_path r cs) (i @ s))) s"
proof -
  from join_suffixed [OF assms] obtain ds a where
    "proper_comp (a @ s)" "path_join (render_path r cs) (i @ s) = render_path r (ds @ [a @ s])" by blast
  then show ?thesis by (simp add: path_base_child)
qed

lemma conflict_dir_form:
  obtains r cs where "comps_ok r cs" "conflict_dir home = render_path r cs"
proof -
  have "\<exists>q. conflict_dir home = path_clean q" by (auto simp: conflict_dir_def path_join_def)
  then show thesis using path_clean_form that by metis
qed

definition audit_path :: "string \<Rightarrow> string \<Rightarrow> resolution \<Rightarrow> string" where
  "audit_path home i how = path_join (conflict_dir home) (i @ ''.'' @ resolution_text how @ ''.resolved'')"

lemma audit_not_record: "audit_path home i how \<noteq> conflict_path home j"
proof
  assume eq: "audit_path home i how = conflict_path home j"
  obtain r cs where d: "comps_ok r cs" "conflict_dir home = render_path r cs" by (rule conflict_dir_form)
  have "has_suffix (path_base (audit_path home i how)) ''.resolved''"
    using join_base [OF d(1), of "''.resolved''" "i @ ''.'' @ resolution_text how"]
    by (simp add: audit_path_def d(2) slash_def)
  moreover have "has_suffix (path_base (conflict_path home j)) ''.json''"
    using join_base [OF d(1), of "''.json''" j] by (simp add: conflict_path_def d(2) slash_def)
  ultimately show False using eq by (auto simp: has_suffix_iff)
qed

section \<open>Resolution keeps the record until it is done\<close>

lemma resolve_cases:
  "resolve_conflict J fault tmp now home i how (Some f) d = (err, d') \<Longrightarrow>
     (err \<noteq> None \<and> d' = d)
     \<or> (\<exists>c e1 d1. get_conflict J home i d = Inr c \<and> how \<in> {KeepLocal, KeepRemote, KeepBoth} \<and> f c how d = (e1, d1)
        \<and> ((e1 \<noteq> None \<and> err = e1 \<and> d' = d1)
           \<or> (e1 = None \<and> (\<exists>e2 d2. write_file_atomic fault tmp (audit_path home i how) (now @ [CHR 0x0A]) d1 = (e2, d2)
              \<and> ((err \<noteq> None \<and> d' = d2)
                 \<or> (err = None \<and> e2 = None \<and> d' = remove_file (conflict_path home i) d2))))))"
  by (auto simp: resolve_conflict_def audit_path_def split: if_splits sum.splits option.splits prod.splits)

text \<open>
  A resolution that fails, at any step, preserves the conflict record: its file reads after the
  call exactly as before (the executor itself leaves the record alone).
\<close>
theorem failed_resolution_keeps_record:
  assumes "resolve_conflict J fault tmp now home i how (Some f) d = (Some m, d')"
    and "\<And>c h x. map_of (snd (f c h x)) (conflict_path home i) = map_of x (conflict_path home i)"
    and "tmp \<noteq> conflict_path home i"
  shows "read_file (conflict_path home i) d' = Inr b \<longleftrightarrow> read_file (conflict_path home i) d = Inr b"
proof -
  have exec: "f c h x = (e, y) \<Longrightarrow> read_file (conflict_path home i) y = Inr b \<longleftrightarrow> read_file (conflict_path home i) x = Inr b"
    for c h x e y using assms(2) [of c h x] by (simp add: read_file_Inr)
  have wr: "write_file_atomic fault tmp (audit_path home i how) data x = (e, y) \<Longrightarrow>
      read_file (conflict_path home i) y = Inr b \<longleftrightarrow> read_file (conflict_path home i) x = Inr b" for data x e y
    using write_file_atomic_frame assms(3) audit_not_record by metis
  from resolve_cases [OF assms(1)] show ?thesis
    by (elim disjE exE conjE) (metis exec wr option.distinct(1))+
qed

text \<open>
  A resolution that succeeds ran the executor on the stored record under a valid strategy, left
  the audit file with the time of the resolution, and removed the record.
\<close>
theorem successful_resolution:
  assumes "resolve_conflict J fault tmp now home i how (Some f) d = (None, d')"
  shows "how \<in> {KeepLocal, KeepRemote, KeepBoth}
    \<and> (\<exists>c d1. get_conflict J home i d = Inr c \<and> cf_id c = i \<and> f c how d = (None, d1))
    \<and> get_conflict J home i d' = Inl ''not exist''
    \<and> read_file (path_join (conflict_dir home) (i @ ''.'' @ resolution_text how @ ''.resolved'')) d' = Inr (now @ [CHR 0x0A])"
proof -
  from resolve_cases [OF assms] obtain c d1 d2 where
    h: "get_conflict J home i d = Inr c" "how \<in> {KeepLocal, KeepRemote, KeepBoth}" "f c how d = (None, d1)"
      "write_file_atomic fault tmp (audit_path home i how) (now @ [CHR 0x0A]) d1 = (None, d2)"
      "d' = remove_file (conflict_path home i) d2" by auto
  have "cf_id c = i" using h(1) by (auto simp: get_conflict_def split: sum.splits if_splits)
  moreover have "get_conflict J home i d' = Inl ''not exist''"
    by (simp add: h(5) get_conflict_def read_file_def remove_file_def delete_conv')
  moreover have "map_of d' (audit_path home i how) = Some (Some (now @ [CHR 0x0A]))"
    using write_file_atomic_target [OF h(4)] audit_not_record [of home i how i]
    by (simp add: h(5) remove_file_def delete_conv')
  ultimately show ?thesis using h by (auto simp: read_file_Inr audit_path_def)
qed

section \<open>Saving is idempotent\<close>

definition listed_record :: "(string \<times> bytes option) list \<Rightarrow> bytes \<Rightarrow> bool" where
  "listed_record es b \<longleftrightarrow> (\<exists>n. (n, Some b) \<in> set es \<and> path_ext n = ''.json'')"

lemma listed_record_simps [simp]:
  "\<not> listed_record [] b"
  "listed_record ((n, e) # es) b \<longleftrightarrow> e = Some b \<and> path_ext n = ''.json'' \<or> listed_record es b"
  by (auto simp: listed_record_def)

lemma decode_conflicts_ok:
  "(\<exists>cs. decode_conflicts J es = Inr cs) \<longleftrightarrow> (\<forall>b. listed_record es b \<longrightarrow> (\<exists>c. cj_unmarshal J b = Inr c))"
proof (induction es)
  case (Cons x es)
  obtain n e where "x = (n, e)" by (cases x)
  with Cons show ?case
    by (cases "decode_conflicts J es"; cases e; cases "path_ext n = ''.json''"; cases "cj_unmarshal J (the e)") auto
qed simp

lemma decode_conflicts_set:
  "decode_conflicts J es = Inr cs \<Longrightarrow> c \<in> set cs \<longleftrightarrow> (\<exists>b. listed_record es b \<and> cj_unmarshal J b = Inr c)"
proof (induction es arbitrary: cs)
  case (Cons x es)
  obtain n e where "x = (n, e)" by (cases x)
  with Cons show ?case
    by (cases "decode_conflicts J es"; cases e; cases "path_ext n = ''.json''"; cases "cj_unmarshal J (the e)") auto
qed simp

lemma read_dir_entries:
  assumes "read_dir dir d = Inr es"
  shows "(n, e) \<in> set es \<longleftrightarrow> (\<exists>p. map_of d p = Some e \<and> child_name dir p = Some n)"
proof -
  have "set (AList.clearjunk d) = {(p, e). map_of d p = Some e}"
    using map_of_eq_Some_iff [OF distinct_clearjunk, of d] by (auto simp: map_of_clearjunk)
  with assms show ?thesis
    by (force simp: read_dir_def List.map_filter_def split: option.splits)
qed

text \<open>The records a directory holds, as a relation on the disk.\<close>

definition record_in :: "string \<Rightarrow> disk \<Rightarrow> bytes \<Rightarrow> bool" where
  "record_in dir d b \<longleftrightarrow> (\<exists>p n. map_of d p = Some (Some b) \<and> child_name dir p = Some n \<and> path_ext n = ''.json'')"

lemma list_conflicts_dir:
  assumes "map_of d (conflict_dir home) = Some None"
  shows "(\<exists>cs. list_conflicts J home d = Inr cs) \<longleftrightarrow>
      (\<forall>b. record_in (conflict_dir home) d b \<longrightarrow> (\<exists>c. cj_unmarshal J b = Inr c))"
    and "list_conflicts J home d = Inr cs \<Longrightarrow>
      c \<in> set cs \<longleftrightarrow> (\<exists>b. record_in (conflict_dir home) d b \<and> cj_unmarshal J b = Inr c)"
proof -
  obtain es where es: "read_dir (conflict_dir home) d = Inr es"
    using assms by (simp add: read_dir_def)
  have same: "listed_record es b \<longleftrightarrow> record_in (conflict_dir home) d b" for b
    using read_dir_entries [OF es] by (auto simp: listed_record_def record_in_def)
  show "(\<exists>cs. list_conflicts J home d = Inr cs) \<longleftrightarrow>
      (\<forall>b. record_in (conflict_dir home) d b \<longrightarrow> (\<exists>c. cj_unmarshal J b = Inr c))"
    using decode_conflicts_ok [of J es] by (simp add: list_conflicts_def es same)
  show "list_conflicts J home d = Inr cs \<Longrightarrow>
      c \<in> set cs \<longleftrightarrow> (\<exists>b. record_in (conflict_dir home) d b \<and> cj_unmarshal J b = Inr c)"
    using decode_conflicts_set [of J es cs c] by (simp add: list_conflicts_def es same)
qed

text \<open>On a disk every file lies in a directory.\<close>

definition disk_ok :: "disk \<Rightarrow> bool" where
  "disk_ok d \<longleftrightarrow> (\<forall>p e. map_of d p = Some e \<longrightarrow> path_dir p = p \<or> map_of d (path_clean (path_dir p)) = Some None)"

lemma list_conflicts_no_dir:
  assumes "list_conflicts J home d = Inr cs" "disk_ok d" "map_of d (conflict_dir home) \<noteq> Some None"
  shows "\<not> record_in (conflict_dir home) d b"
proof
  assume "record_in (conflict_dir home) d b"
  then obtain p n where p: "map_of d p = Some (Some b)" "child_name (conflict_dir home) p = Some n"
    by (auto simp: record_in_def)
  obtain r cs where "comps_ok r cs" "conflict_dir home = render_path r cs" by (rule conflict_dir_form)
  with p have "path_dir p = conflict_dir home" "p \<noteq> conflict_dir home"
    by (auto simp: child_name_def path_clean_render split: if_splits)
  with p assms(2,3) show False
    using \<open>comps_ok r cs\<close> \<open>conflict_dir home = render_path r cs\<close> path_clean_render by (metis disk_ok_def)
qed

lemma conflict_dir_comps:
  obtains r cs where "comps_ok r (cs @ [''conflicts''])" "conflict_dir home = render_path r (cs @ [''conflicts''])"
proof -
  obtain r cs where d: "comps_ok r cs" "(if home = [] then ''.'' else path_clean home) = render_path r cs"
    using path_clean_form [of home] by (cases "home = []") (auto simp: dot_render intro: that)
  have pc: "proper_comp ''conflicts''" by (simp add: proper_comp_def slash_def)
  have "path_join home ''conflicts'' = render_path (is_abs home) (clean_comps (is_abs home) home @ [''conflicts''])"
  proof (cases "home = []")
    case True
    have "path_clean ''conflicts'' = ''conflicts''" "clean_comps False [] = []" by code_simp+
    with True show ?thesis by (simp add: path_join_def render_path_def is_abs_def has_prefix_def)
  next
    case False
    have "clean_comps (is_abs home) (home @ [slash] @ ''conflicts'') = clean_comps (is_abs home) home @ [''conflicts'']"
      using pc by (subst clean_comps_snoc) (auto simp: push_comp_def slash_def)
    moreover have "is_abs (home @ [slash] @ ''conflicts'') = is_abs home"
      using False by (cases home) (auto simp: is_abs_def has_prefix_def)
    ultimately show ?thesis using False by (simp add: path_join_def path_clean_def)
  qed
  then show thesis
    using that [of "is_abs home" "clean_comps (is_abs home) home"]
      comps_ok_snoc_proper [OF clean_comps_ok pc] by (simp add: conflict_dir_def)
qed

lemma ensure_conflict_dir:
  assumes "ensure_owner_only_dir fault (conflict_dir home) d = (None, d0)"
  shows "map_of d0 (conflict_dir home) = Some None"
    and "map_of d0 q = Some (Some b) \<longleftrightarrow> map_of d q = Some (Some b)"
proof -
  have mk: "mkdir_all (conflict_dir home) d = Inr d0"
    using assms by (auto simp: ensure_owner_only_dir_def split: option.splits sum.splits)
  obtain r cs where c: "comps_ok r (cs @ [''conflicts''])" "conflict_dir home = render_path r (cs @ [''conflicts''])"
    by (rule conflict_dir_comps)
  have "is_abs (conflict_dir home) = r" "clean_comps r (conflict_dir home) = cs @ [''conflicts'']"
    using is_abs_render [OF c(1)] clean_comps_render [OF c(1)] c(2) by simp_all
  then have "dir_chain (conflict_dir home) = map (\<lambda>n. render_path r (take n (cs @ [''conflicts'']))) [1..<Suc (Suc (length cs))]"
    by (simp add: dir_chain_def)
  then have "conflict_dir home \<in> set (dir_chain (conflict_dir home))"
    by (auto simp: c(2) intro!: image_eqI [of _ _ "Suc (length cs)"])
  with make_dirs_files [of _ d d0] mk show "map_of d0 (conflict_dir home) = Some None"
    by (simp add: mkdir_all_def)
  show "map_of d0 q = Some (Some b) \<longleftrightarrow> map_of d q = Some (Some b)"
    using mkdir_all_file [OF mk] by simp
qed

lemma write_file_atomic_dirs:
  assumes "write_file_atomic fault tmp p data d = (None, d')" and "map_of d q = Some None" "q \<noteq> tmp"
  shows "map_of d' q = Some None"
proof -
  have "mkdir_all (path_dir p) d = Inr d0 \<Longrightarrow> map_of d0 q = Some None" for d0
    using make_dirs_files [of _ d d0 q] assms(2) by (auto simp: mkdir_all_def)
  with assms show ?thesis
    by (auto simp: write_file_atomic_def Let_def update_conv' delete_conv'
        split: option.splits sum.splits if_splits)
qed

lemma save_conflict_writes:
  assumes "save_conflict J fault tmp nano now home c d = (None, d1)" "cf_id c = []"
  shows "\<exists>existing. list_conflicts J home d = Inr existing
     \<and> (if list_ex (\<lambda>e. same_divergence e c) existing then d1 = d
        else \<exists>d0 r. r = c\<lparr>cf_id := ''c-'' @ nat_dec nano, cf_created_at := (if cf_created_at c = [] then now else cf_created_at c)\<rparr>
          \<and> ensure_owner_only_dir fault (conflict_dir home) d = (None, d0)
          \<and> write_file_atomic fault tmp (conflict_path home (''c-'' @ nat_dec nano)) (cj_marshal J r @ [CHR 0x0A]) d0 = (None, d1))"
  using assms by (cases c) (auto simp: save_conflict_def Let_def split: sum.splits if_splits prod.splits option.splits)

lemma nano_name_proper: "proper_comp ((''c-'' @ nat_dec nano) @ ''.json'')"
proof -
  have "slash \<notin> set (nat_dec nano)" using nat_dec_digits [of slash nano] by (auto simp: slash_def)
  then show ?thesis by (simp add: proper_comp_def slash_def)
qed

lemma conflict_path_child:
  "child_name (conflict_dir home) (conflict_path home (''c-'' @ nat_dec nano)) = Some ((''c-'' @ nat_dec nano) @ ''.json'')"
  "conflict_path home (''c-'' @ nat_dec nano) \<noteq> conflict_dir home"
proof -
  obtain r cs where d: "comps_ok r cs" "conflict_dir home = render_path r cs" by (rule conflict_dir_form)
  show n: "child_name (conflict_dir home) (conflict_path home (''c-'' @ nat_dec nano)) = Some ((''c-'' @ nat_dec nano) @ ''.json'')"
    using child_name_join [OF d(1) nano_name_proper] by (simp add: conflict_path_def d(2))
  then show "conflict_path home (''c-'' @ nat_dec nano) \<noteq> conflict_dir home"
    by (auto simp: child_name_def split: if_splits)
qed

lemma json_ext: "path_ext (p @ ''.json'') = ''.json''"
  by (simp add: path_ext_def slash_def Let_def)

lemma write_file_atomic_only:
  assumes "write_file_atomic fault tmp p data d = (None, d')" "map_of d' q = Some (Some b)"
  shows "q = p \<and> b = data \<or> map_of d q = Some (Some b)"
  using assms mkdir_all_file [of "path_dir p" d _ q b]
  by (auto simp: write_file_atomic_def Let_def update_conv' delete_conv'
      split: option.splits sum.splits if_splits)

text \<open>
  Saving a conflict is idempotent: after a conflict has been recorded once, saving a record that
  describes the same divergence succeeds without writing anything, so a daemon that meets the
  same conflict again and again does not grow the directory.
\<close>
theorem save_conflict_idempotent:
  assumes first: "save_conflict J fault tmp nano now home c d = (None, d1)" "cf_id c = []"
    and again: "same_divergence c c'" "cf_id c' = []"
    and json: "\<And>x. cj_unmarshal J (cj_marshal J x @ [CHR 0x0A]) = Inr x"
    and disk: "disk_ok d" "tmp \<noteq> conflict_dir home"
  shows "save_conflict J fault' tmp' nano' now' home c' d1 = (None, d1)"
proof -
  let ?dir = "conflict_dir home"
  from save_conflict_writes [OF first] obtain existing where ex: "list_conflicts J home d = Inr existing"
    and rest: "if list_ex (\<lambda>e. same_divergence e c) existing then d1 = d
        else \<exists>d0 r. r = c\<lparr>cf_id := ''c-'' @ nat_dec nano, cf_created_at := (if cf_created_at c = [] then now else cf_created_at c)\<rparr>
          \<and> ensure_owner_only_dir fault ?dir d = (None, d0)
          \<and> write_file_atomic fault tmp (conflict_path home (''c-'' @ nat_dec nano)) (cj_marshal J r @ [CHR 0x0A]) d0 = (None, d1)"
    by blast
  have "\<exists>cs. list_conflicts J home d1 = Inr cs \<and> list_ex (\<lambda>e. same_divergence e c') cs"
  proof (cases "list_ex (\<lambda>e. same_divergence e c) existing")
    case True
    with rest ex again show ?thesis by (auto simp: list_ex_iff same_divergence_def)
  next
    case False
    let ?r = "c\<lparr>cf_id := ''c-'' @ nat_dec nano, cf_created_at := (if cf_created_at c = [] then now else cf_created_at c)\<rparr>"
    have "same_divergence ?r c'" using again(1) by (simp add: same_divergence_def)
    with False rest obtain d0 r where r: "same_divergence r c'"
      and mk: "ensure_owner_only_dir fault ?dir d = (None, d0)"
      and wr: "write_file_atomic fault tmp (conflict_path home (''c-'' @ nat_dec nano)) (cj_marshal J r @ [CHR 0x0A]) d0 = (None, d1)"
      by metis
    have dir1: "map_of d1 ?dir = Some None"
      using write_file_atomic_dirs [OF wr ensure_conflict_dir(1) [OF mk]] disk(2) by simp
    have old: "record_in ?dir d1 b \<Longrightarrow> b = cj_marshal J r @ [CHR 0x0A] \<or> record_in ?dir d b" for b
      using write_file_atomic_only [OF wr] ensure_conflict_dir(2) [OF mk] unfolding record_in_def by metis
    have "record_in ?dir d b \<Longrightarrow> \<exists>x. cj_unmarshal J b = Inr x" for b
      using list_conflicts_no_dir [OF ex disk(1)] list_conflicts_dir(1) [of d home J] ex by blast
    with old json have "record_in ?dir d1 b \<Longrightarrow> \<exists>x. cj_unmarshal J b = Inr x" for b by blast
    then obtain cs where cs: "list_conflicts J home d1 = Inr cs"
      using list_conflicts_dir(1) [OF dir1] by blast
    have "record_in ?dir d1 (cj_marshal J r @ [CHR 0x0A])"
      using write_file_atomic_target [OF wr] conflict_path_child(1) json_ext unfolding record_in_def by blast
    then have "r \<in> set cs" using list_conflicts_dir(2) [OF dir1 cs] json by blast
    with cs r show ?thesis by (auto simp: list_ex_iff)
  qed
  with again(2) show ?thesis by (auto simp: save_conflict_def)
qed

section \<open>A concrete run\<close>

definition toy_conflict :: conflict where
  "toy_conflict = \<lparr>cf_id = [], cf_agent = ''codex'', cf_session_id = ''s'', cf_project_id = [],
     cf_local_revision = ''r1'', cf_remote_revision = ''r2'', cf_remote_snapshot = ''r2'', cf_created_at = []\<rparr>"

text \<open>A small injective encoding stands in for JSON: each field in hexadecimal, ended by a comma.\<close>

definition toy_json :: conflict_json where
  "toy_json = \<lparr>cj_marshal = (\<lambda>c. join_with '','' (map hex_encode
       [cf_id c, cf_agent c, cf_session_id c, cf_project_id c, cf_local_revision c, cf_remote_revision c,
        cf_remote_snapshot c, cf_created_at c]) @ '',''),
     cj_unmarshal = (\<lambda>b. case map hex_decode (butlast (split_on CHR '','' b)) of
       [Some a1, Some a2, Some a3, Some a4, Some a5, Some a6, Some a7, Some a8] \<Rightarrow>
         Inr \<lparr>cf_id = a1, cf_agent = a2, cf_session_id = a3, cf_project_id = a4, cf_local_revision = a5,
            cf_remote_revision = a6, cf_remote_snapshot = a7, cf_created_at = a8\<rparr>
     | _ \<Rightarrow> Inl ''invalid'')\<rparr>"

lemma toy_json_round_trip: "cj_unmarshal toy_json (cj_marshal toy_json x @ [CHR 0x0A]) = Inr x"
proof -
  have nl: "split_on CHR '','' [CHR 0x0A] = [[CHR 0x0A]]" by simp
  show ?thesis
    by (simp add: toy_json_def split_on_part hex_no_comma nl hex_decode_encode del: split_on.simps)
qed

theorem save_conflict_idempotent_witness:
  "(let d1 = snd (save_conflict toy_json (\<lambda>_. None) ''/t'' 7 ''now'' ''/h'' toy_conflict []) in
    save_conflict toy_json (\<lambda>_. None) ''/u'' 8 ''later'' ''/h'' toy_conflict d1 = (None, d1))"
proof -
  let ?r = "save_conflict toy_json (\<lambda>_. None) ''/t'' 7 ''now'' ''/h'' toy_conflict []"
  have "fst ?r = None" by code_simp
  then have r: "?r = (None, snd ?r)" by (simp add: prod_eq_iff)
  have "conflict_dir ''/h'' = ''/h/conflicts''" by code_simp
  then have "save_conflict toy_json (\<lambda>_. None) ''/u'' 8 ''later'' ''/h'' toy_conflict (snd ?r) = (None, snd ?r)"
    by (intro save_conflict_idempotent [OF r])
      (simp_all add: toy_conflict_def same_divergence_def toy_json_round_trip disk_ok_def)
  then show ?thesis by (simp add: Let_def)
qed

text \<open>An executor that succeeds and one that fails, on a disk with one record.\<close>

definition toy_disk :: disk where
  "toy_disk = snd (save_conflict toy_json (\<lambda>_. None) ''/t'' 7 ''now'' ''/h'' toy_conflict [])"

theorem failed_resolution_keeps_record_witness:
  "\<exists>b. read_file ''/h/conflicts/c-7.json'' (snd (resolve_conflict toy_json (\<lambda>_. None) ''/t'' ''now'' ''/h'' ''c-7''
      KeepLocal (Some (\<lambda>c h x. (Some ''offline'', x))) toy_disk)) = Inr b"
proof -
  let ?r = "resolve_conflict toy_json (\<lambda>_. None) ''/t'' ''now'' ''/h'' ''c-7'' KeepLocal (Some (\<lambda>c h x. (Some ''offline'', x))) toy_disk"
  have p: "conflict_path ''/h'' ''c-7'' = ''/h/conflicts/c-7.json''" by code_simp
  have "fst ?r = Some ''offline''" by code_simp
  then have r: "?r = (Some ''offline'', snd ?r)" by (simp add: prod_eq_iff)
  have "isl (read_file ''/h/conflicts/c-7.json'' toy_disk) = False" by code_simp
  then obtain b where "read_file ''/h/conflicts/c-7.json'' toy_disk = Inr b"
    by (cases "read_file ''/h/conflicts/c-7.json'' toy_disk") auto
  with failed_resolution_keeps_record [OF r, of b] p show ?thesis by auto
qed

theorem successful_resolution_witness:
  "get_conflict toy_json ''/h'' ''c-7'' (snd (resolve_conflict toy_json (\<lambda>_. None) ''/t'' ''now'' ''/h'' ''c-7''
      KeepLocal (Some (\<lambda>c h x. (None, x))) toy_disk)) = Inl ''not exist''"
proof -
  let ?r = "resolve_conflict toy_json (\<lambda>_. None) ''/t'' ''now'' ''/h'' ''c-7'' KeepLocal (Some (\<lambda>c h x. (None, x))) toy_disk"
  have "fst ?r = None" by code_simp
  then have "?r = (None, snd ?r)" by (simp add: prod_eq_iff)
  then show ?thesis using successful_resolution by blast
qed

end
