(* ===== verification/Sync_Pull.thy ===== *)
theory Sync_Pull
  imports Sync_Props
begin

text \<open>
  What a pull may change on the local disk, which paths never leave the device, and the round
  trip from a push to a pull through the memory store.
\<close>

section \<open>Paths that never leave the device\<close>

lemma fields_on_memI: "c \<in> set (fields_on slash p) \<Longrightarrow> is_credential_name c \<or> equal_fold c ''handoffs'' \<Longrightarrow> contains_hard_excluded_path p"
  by (auto simp: contains_hard_excluded_path_def contains_credential_path_def list_ex_iff)

text \<open>
  No component of a local or portable path may be a credential file or the handoff store: such
  a push fails whatever the engine, the store and the file, and the store is left as it was,
  without even reading it.
\<close>
theorem push_never_uploads_excluded:
  assumes "c \<in> set (fields_on slash (pi_local_path item)) \<or> c \<in> set (fields_on slash (pi_relative_path item))"
    and "is_credential_name c \<or> equal_fold c ''handoffs''"
  shows "\<exists>err. push_session L host e W open_file item dry s = (([], Some err), s)"
proof -
  from assms have "push_refused item" using fields_on_memI by (auto simp: push_refused_def)
  then show ?thesis by (auto simp: push_session_def split: option.splits)
qed

theorem push_never_uploads_excluded_witness:
  "\<exists>err. push_session (toy_lib (new_manifest []) toy_envelope) ''linux'' toy_engine toy_world (\<lambda>_. Inr (''{}'', ''{}''))
     (toy_item\<lparr>pi_local_path := ''/h/.Env.local/s''\<rparr>) False mem_new = (([], Some err), mem_new)"
proof (rule push_never_uploads_excluded)
  show "''.Env.local'' \<in> set (fields_on slash (pi_local_path (toy_item\<lparr>pi_local_path := ''/h/.Env.local/s''\<rparr>)))
      \<or> ''.Env.local'' \<in> set (fields_on slash (pi_relative_path (toy_item\<lparr>pi_local_path := ''/h/.Env.local/s''\<rparr>)))"
    by (simp add: fields_on_def slash_def)
  have "is_credential_name ''.Env.local''" by code_simp
  then show "is_credential_name ''.Env.local'' \<or> equal_fold ''.Env.local'' ''handoffs''" by simp
qed

section \<open>What a pull installs\<close>

lemma write_payload_cases:
  assumes "write_payload_atomic L fault tmp dest source file fs = (r, fs')" and "fs tmp = None"
  shows "(r \<noteq> None \<and> fs' = fs)
    \<or> (r = None \<and> validate_payload L source file = (None, snd (validate_payload L source file))
       \<and> fs' = fs(dest \<mapsto> snd (validate_payload L source file)))"
proof -
  have "fs(tmp := None) = fs" using assms(2) by auto
  then show ?thesis
    using assms(1)
    by (auto simp: write_payload_atomic_def Let_def split: option.splits prod.splits)
qed

lemma validate_payload_ok:
  assumes "validate_payload L source file = (None, d)"
  shows "int (length d) = ef_size file"
    and "equal_fold (hex_encode (sum_bytes (lb_sha256 L d))) (ef_sha256 file)" and "d = source"
proof -
  from assms have h: "d = take (nat (ef_size file + 1)) source" "int (length d) = ef_size file"
    "equal_fold (hex_encode (sum_bytes (lb_sha256 L d))) (ef_sha256 file)"
    by (auto simp: validate_payload_def Let_def split: if_splits)
  then show "int (length d) = ef_size file"
    "equal_fold (hex_encode (sum_bytes (lb_sha256 L d))) (ef_sha256 file)" by auto
  from h(1,2) show "d = source" by auto
qed

text \<open>
  C21. A pull is all or nothing: when it fails, or is a dry run, no local file has changed; when it
  succeeds exactly one file has, and its bytes have the length and the digest the envelope
  announces, the envelope being one that passed validation for the requested snapshot.
\<close>
theorem pull_all_or_nothing:
  assumes "pull_artifact L e fault tmp item dest_dir dry s fs = (r, fs')" and "fs tmp = None"
  shows "case r of
      Inl err \<Rightarrow> fs' = fs
    | Inr (env, dest) \<Rightarrow> \<exists>file. validate_envelope e env item = Inr file
        \<and> (if dry then fs' = fs else \<exists>d. fs' = fs(dest \<mapsto> d) \<and> int (length d) = ef_size file
            \<and> equal_fold (hex_encode (sum_bytes (lb_sha256 L d))) (ef_sha256 file)
            \<and> dest = path_join dest_dir (path_base (ef_path file)))"
proof -
  have w: "write_payload_atomic L fault tmp dest src fl fs = (Some err, fs') \<Longrightarrow> fs' = fs" for dest src fl err
    using write_payload_cases [of L fault tmp dest src fl fs "Some err" fs'] assms(2) by blast
  have ok: "write_payload_atomic L fault tmp dest src fl fs = (None, fs') \<Longrightarrow>
      \<exists>d. fs' = fs(dest \<mapsto> d) \<and> int (length d) = ef_size fl
            \<and> equal_fold (hex_encode (sum_bytes (lb_sha256 L d))) (ef_sha256 fl)" for dest src fl
    using write_payload_cases [of L fault tmp dest src fl fs None fs'] assms(2) validate_payload_ok by metis
  show ?thesis
    using assms(1)
    by (auto simp: pull_artifact_def Let_def dest: w ok split: option.splits sum.splits prod.splits if_splits)
qed

section \<open>From push to pull\<close>

lemma update_loop_frame:
  assumes "\<And>j x. w_interf W j x = x" "k \<noteq> manifest_key e"
  shows "update_loop L (mem_backend sha) cd e W key entry expected n i s = (r, s') \<Longrightarrow> mem_obj s' k = mem_obj s k"
proof (induction n arbitrary: i s)
  case (Suc n)
  have put: "save_manifest L (mem_backend sha) cd e seed mf t s = (x, s3) \<Longrightarrow> mem_obj s3 k = mem_obj s k" for seed mf t x s3
    using assms(2) mem_put_obj(1) mem_put_Inl
    by (fastforce simp: save_manifest_def mem_backend_simps split: sum.splits prod.splits)
  from Suc show ?case
    by (auto simp: assms(1) Let_def dest!: put split: sum.splits prod.splits if_splits sync_error.splits)
qed simp

text \<open>A portable path a pull accepts.\<close>

definition portable_path :: "string \<Rightarrow> bool" where
  "portable_path p \<longleftrightarrow> p \<noteq> [] \<and> \<not> is_abs p \<and> path_clean p \<noteq> ''.'' \<and> path_clean p \<noteq> ''..'' \<and> \<not> has_prefix (path_clean p) ''../''"

definition pull_of :: "push_item \<Rightarrow> string \<Rightarrow> pull_item" where
  "pull_of item snap = \<lparr>pl_agent = pi_agent item, pl_session_id = pi_session_id item, pl_snapshot_id = snap,
     pl_project_id = pi_project_id item\<rparr>"

lemma read_meta_line_sealed:
  assumes "CHR 0x0A \<notin> set j" "length j < maxMetadataBytes"
  shows "read_meta_line (j @ [CHR 0x0A] @ content) = Inr (j, content)"
proof -
  have "take (maxMetadataBytes + 1) (j @ [CHR 0x0A] @ content) = j @ CHR 0x0A # take (maxMetadataBytes - length j) content"
    using assms(2) by (simp add: take_Cons' )
  moreover have "takeWhile (\<lambda>c. c \<noteq> CHR 0x0A) (j @ CHR 0x0A # q) = j" for q
    using assms(1) by (subst takeWhile_append2) auto
  ultimately show ?thesis using assms(2) by (simp add: read_meta_line_def)
qed

lemma pushed_envelope_validates:
  assumes "portable_path (pi_relative_path item)" "\<not> contains_hard_excluded_path (pi_relative_path item)"
    and "snap \<noteq> []" "int (length content) \<le> engine_max_payload e"
  shows "validate_envelope e (push_envelope L host e item snap parent now content) (pull_of item snap)
    = Inr (hd (en_files (push_envelope L host e item snap parent now content)))"
  using assms
  by (simp add: validate_envelope_def push_envelope_def pull_of_def portable_path_def EnvelopeSchemaVersion_def
      Let_def hex_decode_encode)

lemma pushed_payload_validates:
  "validate_payload L content (hd (en_files (push_envelope L host e item snap parent now content))) = (None, content)"
  by (simp add: validate_payload_def push_envelope_def Let_def equal_fold_def)

text \<open>
  C16. Round trip. With no other device active, a pull of the snapshot a push has just returned
  succeeds and installs exactly the bytes that were pushed, under the base name of the portable
  path, given that decryption inverts encryption and the envelope's JSON (one line, below the metadata
  bound) reads back as itself.
\<close>
theorem push_pull_round_trip:
  assumes push: "push_session L host e W (\<lambda>_. Inr (content, content)) item False s = ((snap, None), s')"
    and eng: "eg_backend e = Some (mem_backend sha)" "eg_codec e = Some cd" and quiet: "\<And>j x. w_interf W j x = x"
    and mf: "load_manifest L (mem_backend sha) cd e (\<not> eg_require_remote e) s = Inr (mf, etag)"
    and env: "env = push_envelope L host e item snap (session_head mf (session_key (pi_agent item) (pi_session_id item))) (w_now W 0) content"
    and crypt: "\<And>seed p c. cd_encrypt cd seed p = Inr c \<Longrightarrow> cd_decrypt cd c = Inr p"
    and json: "lb_envelope_unjson L (lb_envelope_json L env) = Inr env" "CHR 0x0A \<notin> set (lb_envelope_json L env)"
      "length (lb_envelope_json L env) < maxMetadataBytes"
    and path: "portable_path (pi_relative_path item)" "snap \<noteq> []" "dest_dir \<noteq> []" "fs tmp = None"
  shows "\<exists>dest. dest = path_join dest_dir (path_base (pi_relative_path item))
    \<and> pull_session L e (\<lambda>_. None) tmp (pull_of item snap) dest_dir False s' fs
      = (Inr (env, Some content), fs(dest \<mapsto> content))"
proof -
  let ?key = "session_key (pi_agent item) (pi_session_id item)"
  from push_success_facts [OF push eng] mf quiet obtain cipher s2 where
    f: "\<not> push_refused item" "int (length content) \<le> engine_max_payload e"
      "cd_encrypt cd (w_seed W 0) (lb_envelope_json L env @ [CHR 0x0A] @ content) = Inr cipher"
      "mem_obj s2 = (mem_obj s)(snapshot_key e snap \<mapsto> (cipher, etag_of sha cipher))"
      "update_manifest L (mem_backend sha) cd e W ?key (push_entry item snap (w_now W 1)) (session_head mf ?key) s2 = (Inr (), s')"
    unfolding env by auto
  have "mem_obj s' (snapshot_key e snap) = mem_obj s2 (snapshot_key e snap)"
    using f(5) unfolding update_manifest_def by (rule update_loop_frame [OF quiet snapshot_key_not_manifest])
  with f(4) have "mem_obj s' (snapshot_key e snap) = Some (cipher, etag_of sha cipher)" by simp
  then obtain m where get: "mem_get (snapshot_key e snap) s' = Inr (cipher, m)"
    by (auto simp: mem_get_def mem_obj_def split: option.splits)
  have val: "validate_envelope e env (pull_of item snap) = Inr (hd (en_files env))"
    unfolding env using pushed_envelope_validates path f(1,2) by (auto simp: push_refused_def)
  have pay: "validate_payload L content (hd (en_files env)) = (None, content)"
    unfolding env by (rule pushed_payload_validates)
  have portable: "ef_path (hd (en_files env)) = pi_relative_path item"
    using path(1) by (simp add: env push_envelope_def portable_path_def)
  have clear: "fs(tmp := None) = fs" using path(4) by auto
  have "pull_artifact L e (\<lambda>_. None) tmp (pull_of item snap) dest_dir False s' fs
     = (Inr (env, path_join dest_dir (path_base (pi_relative_path item))),
        fs(path_join dest_dir (path_base (pi_relative_path item)) \<mapsto> content))"
    using get crypt [OF f(3)] read_meta_line_sealed [OF json(2,3)] json(1) val pay portable path(3) clear
    by (simp add: pull_artifact_def eng mem_backend_simps pull_of_def write_payload_atomic_def Let_def)
  then show ?thesis by (simp add: pull_session_def)
qed

section \<open>Concrete runs\<close>

lemma toy_envelope_pushed:
  "toy_envelope = push_envelope (toy_lib mf env) ''linux'' toy_engine toy_item ''u1'' [] (w_now toy_world 0) ''{}''"
  by (simp add: toy_envelope_def push_envelope_def toy_item_def toy_engine_def toy_world_def toy_lib_def
      engine_platform_def EnvelopeSchemaVersion_def)

theorem push_pull_round_trip_witness:
  "pull_session (toy_lib (new_manifest []) toy_envelope) toy_engine (\<lambda>_. None) ''/d/.t'' (pull_of toy_item ''u1'') ''/d'' False
     (snd (toy_push False)) Map.empty = (Inr (toy_envelope, Some ''{}''), [''/d/s.jsonl'' \<mapsto> ''{}''])"
proof -
  have item: "toy_item\<lparr>pi_base_revision := []\<rparr> = toy_item" by (simp add: toy_item_def)
  have push: "push_session (toy_lib (new_manifest []) toy_envelope) ''linux'' toy_engine toy_world
     (\<lambda>_. Inr (''{}'', ''{}'')) toy_item False mem_new = ((''u1'', None), snd (toy_push False))"
    using toy_push_ok by (simp add: toy_push_def item prod_eq_iff)
  have eng: "eg_backend toy_engine = Some (mem_backend (\<lambda>_. 0))" "eg_codec toy_engine = Some toy_codec"
    by (simp_all add: toy_engine_def)
  have load: "load_manifest (toy_lib (new_manifest []) toy_envelope) (mem_backend (\<lambda>_. 0)) toy_codec toy_engine
      (\<not> eg_require_remote toy_engine) mem_new = Inr (new_manifest [], [])"
    using toy_load by (simp add: toy_engine_def)
  have env: "toy_envelope = push_envelope (toy_lib (new_manifest []) toy_envelope) ''linux'' toy_engine toy_item ''u1''
      (session_head (new_manifest []) (session_key (pi_agent toy_item) (pi_session_id toy_item))) (w_now toy_world 0) ''{}''"
    using toy_envelope_pushed by (simp add: session_head_def new_manifest_def)
  have path: "portable_path (pi_relative_path toy_item)"
    by (simp add: toy_item_def) code_simp
  have dest: "path_join ''/d'' (path_base (pi_relative_path toy_item)) = ''/d/s.jsonl''"
    by (simp add: toy_item_def) code_simp
  have "\<exists>dest. dest = path_join ''/d'' (path_base (pi_relative_path toy_item))
    \<and> pull_session (toy_lib (new_manifest []) toy_envelope) toy_engine (\<lambda>_. None) ''/d/.t'' (pull_of toy_item ''u1'') ''/d'' False
        (snd (toy_push False)) Map.empty = (Inr (toy_envelope, Some ''{}''), Map.empty(dest \<mapsto> ''{}''))"
    by (rule push_pull_round_trip [OF push eng _ load env _ _ _ _ path])
      (simp_all add: toy_world_def toy_codec_def toy_lib_def maxMetadataBytes_def)
  then show ?thesis by (simp add: dest)
qed

theorem pull_all_or_nothing_witness:
  "snd (pull_artifact (toy_lib (new_manifest []) toy_envelope) toy_engine (\<lambda>_. None) ''/d/.t'' (pull_of toy_item ''u1'')
     ''/d'' False mem_new [''/d/s.jsonl'' \<mapsto> ''old'']) = [''/d/s.jsonl'' \<mapsto> ''old'']"
proof -
  let ?r = "pull_artifact (toy_lib (new_manifest []) toy_envelope) toy_engine (\<lambda>_. None) ''/d/.t'' (pull_of toy_item ''u1'')
     ''/d'' False mem_new [''/d/s.jsonl'' \<mapsto> ''old'']"
  have "eg_backend toy_engine = Some (mem_backend (\<lambda>_. 0))" by (simp add: toy_engine_def)
  then have "fst ?r = Inl (BackendErr ErrNotFound)"
    by (simp add: pull_artifact_def mem_backend_simps mem_get_def mem_new_def)
  then have "?r = (Inl (BackendErr ErrNotFound), snd ?r)" by (simp add: prod_eq_iff)
  from pull_all_or_nothing [OF this] show ?thesis by simp
qed

text \<open>
  The destination name is taken from the path as announced, not from the cleaned path that was
  checked: an envelope whose path ends in a parent reference passes validation, and the name
  joined to the destination directory is then its parent.
\<close>

lemma pull_destination_escapes:
  "validate_envelope toy_engine (toy_envelope\<lparr>en_files := [(hd (en_files toy_envelope))\<lparr>ef_path := ''a/b/..''\<rparr>]\<rparr>) toy_pull_item
     = Inr ((hd (en_files toy_envelope))\<lparr>ef_path := ''a/b/..''\<rparr>)
   \<and> path_join ''/home/u/dest'' (path_base ''a/b/..'') = ''/home/u''"
proof -
  have "path_clean ''a/b/..'' = ''a''" "path_join ''/home/u/dest'' (path_base ''a/b/..'') = ''/home/u''" by code_simp+
  moreover have "\<not> contains_hard_excluded_path ''a/b/..''" by code_simp
  ultimately show ?thesis
    by (simp add: validate_envelope_def toy_envelope_def toy_pull_item_def EnvelopeSchemaVersion_def is_abs_def
        has_prefix_def slash_def engine_max_payload_def toy_engine_def defaultMaxPayload_def hex_decode_encode)
qed

end
