(* ===== verification/Sync_Migrate.thy ===== *)
theory Sync_Migrate
  imports Sync_Props
begin

text \<open>
  Moving an account to other storage: \<^verbatim>\<open>internal/sync/migrate.go\<close>. The source is only
  read. The destination is a store shared with other devices: a state is the number of
  destination operations so far and the store, and \<open>mw_interf W n\<close> is what the others did before
  operation \<open>n\<close>. The caller may cancel between operations.
\<close>

section \<open>State and errors\<close>

record 's mig_world =
  mw_interf :: "nat \<Rightarrow> 's \<Rightarrow> 's"
  mw_cancelled :: "nat \<Rightarrow> bool"
  mw_seed :: "nat \<Rightarrow> nat"
  mw_now :: "nat \<Rightarrow> string"
  mw_tempfile :: "nat \<Rightarrow> string option"

type_synonym 's timed = "nat \<times> 's"

definition others :: "'s mig_world \<Rightarrow> 's timed \<Rightarrow> 's timed" where
  "others W t = (Suc (fst t), mw_interf W (fst t) (snd t))"

datatype migrate_error =
    EnginesRequired
  | ProvidersRequired
  | ListSource backend_error
  | ReadSourceManifest sync_error
  | MigrateIncomplete nat nat nat "string list"
  | CheckKeyring backend_error
  | KeyringInUse
  | ReadDestManifest sync_error
  | DestinationInUse string
  | Cancelled
  | ResumeMismatch string
  | HeadFailed backend_error
  | ReadSource sync_error
  | VerifyUnreadable string sync_error
  | VerifyMismatch string
  | TempFile string
  | SealFailed string
  | WriteFailed backend_error
  | SnapshotErr string migrate_error
  | ManifestErr migrate_error
  | SaveFailed sync_error
  | RereadFailed sync_error
  | ManifestDiffers
  | ManifestDiffersAt string
  | TooManyChanges

text \<open>\<^verbatim>\<open>MigrateProgress\<close> and \<^verbatim>\<open>MigrateReport\<close>; the progress callback gets each record in turn.\<close>

record migrate_progress =
  mp_snapshot :: string
  mp_digest :: string
  mp_skipped :: bool
  mp_existing :: bool
  mp_completed :: nat
  mp_total :: nat
  mp_bytes :: int

record migrate_report =
  mr_snapshots :: nat
  mr_written :: nat
  mr_verified :: nat
  mr_skipped :: nat
  mr_bytes :: int
  mr_manifest_sessions :: nat
  mr_manifest_revision :: string

definition empty_report :: migrate_report where
  "empty_report = \<lparr>mr_snapshots = 0, mr_written = 0, mr_verified = 0, mr_skipped = 0, mr_bytes = 0,
     mr_manifest_sessions = 0, mr_manifest_revision = []\<rparr>"

section \<open>Reading one side\<close>

definition snapshot_name :: "'s engine \<Rightarrow> string \<Rightarrow> string option" where
  "snapshot_name e key =
     (let prefix = trim_char slash (eg_prefix e);
          k = (if prefix \<noteq> [] then trim_prefix key (prefix @ [slash]) else key);
          name = trim_prefix k ''snapshots/'' in
      if name = k \<or> \<not> has_suffix name ''.age'' \<or> slash \<in> set name then None
      else Some (trim_suffix name ''.age''))"

definition list_snapshots :: "'s engine \<Rightarrow> 's backend \<Rightarrow> 's \<Rightarrow> (backend_error, string list) result" where
  "list_snapshots e B s =
     (case be_list B (engine_key e ''snapshots/'') s of Inl err \<Rightarrow> Inl err
      | Inr objects \<Rightarrow> Inr (sort (List.map_filter (\<lambda>m. snapshot_name e (om_key m)) objects)))"

definition snapshot_digest :: "lib \<Rightarrow> 's engine \<Rightarrow> 's backend \<Rightarrow> codec \<Rightarrow> string \<Rightarrow> 's \<Rightarrow> (sync_error, string) result" where
  "snapshot_digest L e B cd i s =
     (case be_get B (snapshot_key e i) s of Inl err \<Rightarrow> Inl (BackendErr err)
      | Inr (rc, _) \<Rightarrow> (case cd_decrypt cd rc of Inl m \<Rightarrow> Inl (DecryptFailed m)
      | Inr plain \<Rightarrow> Inr (hex_encode (sum_bytes (lb_sha256 L plain)))))"

definition verify_snapshot :: "lib \<Rightarrow> 's engine \<Rightarrow> 's backend \<Rightarrow> codec \<Rightarrow> string \<Rightarrow> string \<Rightarrow> 's \<Rightarrow> migrate_error option" where
  "verify_snapshot L e B cd i want s =
     (case snapshot_digest L e B cd i s of
        Inl err \<Rightarrow> Some (VerifyUnreadable (snapshot_key e i) err)
      | Inr got \<Rightarrow> if got \<noteq> want then Some (VerifyMismatch (snapshot_key e i)) else None)"

definition contains_keyring_object :: "'s engine \<Rightarrow> 's backend \<Rightarrow> 's \<Rightarrow> (backend_error, bool) result" where
  "contains_keyring_object e B s =
     (case be_head B (keyring_object_key (eg_prefix e)) s of
        Inl err \<Rightarrow> if errors_is err ErrNotFound then Inr False else Inl err
      | Inr _ \<Rightarrow> Inr True)"

text \<open>Map iteration order is irrelevant to whether these refuse; the first offender is reported.\<close>

definition destination_free :: "manifest \<Rightarrow> manifest \<Rightarrow> migrate_error option" where
  "destination_free current source =
     (case find (\<lambda>(k, _). map_of (mf_sessions source) k = None) (mf_sessions current) of
        None \<Rightarrow> None | Some (k, _) \<Rightarrow> Some (DestinationInUse k))"

definition manifest_covered_by :: "manifest \<Rightarrow> string list \<Rightarrow> migrate_error option" where
  "manifest_covered_by mf ids =
     (let missing = List.map_filter (\<lambda>(_, s). if ms_snapshot_id s \<noteq> [] \<and> ms_snapshot_id s \<notin> set ids
            then Some (ms_snapshot_id s) else None) (AList.clearjunk (mf_sessions mf)) in
      if missing = [] then None
      else Some (MigrateIncomplete (length missing) (length (AList.clearjunk (mf_sessions mf))) (length ids)
             (take 5 (sort missing))))"

section \<open>One snapshot\<close>

record ('a, 's) sides =
  sd_src :: "'a engine"
  sd_srcB :: "'a backend"
  sd_src_codec :: codec
  sd_dst :: "'s engine"
  sd_dstB :: "'s backend"
  sd_dst_codec :: codec

definition copy_snapshot ::
  "lib \<Rightarrow> 's mig_world \<Rightarrow> ('a, 's) sides \<Rightarrow> 'a \<Rightarrow> string \<Rightarrow> 's timed
   \<Rightarrow> (migrate_error, string \<times> int \<times> bool) result \<times> 's timed" where
  "copy_snapshot L W M src i t =
     (let dst = sd_dst M; B = sd_dstB M; key = snapshot_key dst i; t1 = others W t in
      case be_head B key (snd t1) of
        Inr meta \<Rightarrow>
          (case snapshot_digest L (sd_src M) (sd_srcB M) (sd_src_codec M) i src of
             Inl err \<Rightarrow> (Inl (ReadSource err), t1)
           | Inr want \<Rightarrow>
             let t2 = others W t1 in
             (case verify_snapshot L dst B (sd_dst_codec M) i want (snd t2) of
               Some err \<Rightarrow> (Inl err, t2)
             | None \<Rightarrow> (Inr (want, om_size meta, True), t2)))
      | Inl err \<Rightarrow>
        if \<not> errors_is err ErrNotFound then (Inl (HeadFailed err), t1)
        else (case be_get (sd_srcB M) (snapshot_key (sd_src M) i) src of
          Inl e1 \<Rightarrow> (Inl (ReadSource (BackendErr e1)), t1)
        | Inr (rc, _) \<Rightarrow> (case cd_decrypt (sd_src_codec M) rc of
          Inl m \<Rightarrow> (Inl (ReadSource (DecryptFailed m)), t1)
        | Inr plain \<Rightarrow> (case mw_tempfile W (fst t1) of
          Some m \<Rightarrow> (Inl (TempFile m), t1)
        | None \<Rightarrow> (case cd_encrypt (sd_dst_codec M) (mw_seed W (fst t1)) plain of
          Inl m \<Rightarrow> (Inl (SealFailed m), t1)
        | Inr cipher \<Rightarrow>
          if mw_cancelled W (fst t1) then (Inl Cancelled, t1)
          else let digest = hex_encode (sum_bytes (lb_sha256 L plain)); t2 = others W t1;
                   (r, s3) = be_put B key cipher snapshot_put_options (snd t2) in
            (case r of
               Inl e2 \<Rightarrow> if lost_race e2
                  then (let t4 = others W (fst t2, s3) in
                        case verify_snapshot L dst B (sd_dst_codec M) i digest (snd t4) of
                          Some e3 \<Rightarrow> (Inl e3, t4)
                        | None \<Rightarrow> (Inr (digest, int (length cipher), True), t4))
                  else (Inl (WriteFailed e2), (fst t2, s3))
             | Inr _ \<Rightarrow>
                  let t4 = others W (fst t2, s3) in
                  (case verify_snapshot L dst B (sd_dst_codec M) i digest (snd t4) of
                    Some e3 \<Rightarrow> (Inl e3, t4)
                  | None \<Rightarrow> (Inr (digest, int (length cipher), False), t4))))))))"

section \<open>The manifest\<close>

definition manifest_matches :: "manifest \<Rightarrow> manifest \<Rightarrow> migrate_error option" where
  "manifest_matches verify source =
     (if length (AList.clearjunk (mf_sessions verify)) \<noteq> length (AList.clearjunk (mf_sessions source))
         \<or> mf_revision verify \<noteq> mf_revision source then Some ManifestDiffers
      else case find (\<lambda>(k, want). case map_of (mf_sessions verify) k of None \<Rightarrow> True
                 | Some got \<Rightarrow> ms_snapshot_id got \<noteq> ms_snapshot_id want) (AList.clearjunk (mf_sessions source)) of
        None \<Rightarrow> None | Some (k, _) \<Rightarrow> Some (ManifestDiffersAt k))"

fun write_manifest ::
  "lib \<Rightarrow> 's mig_world \<Rightarrow> ('a, 's) sides \<Rightarrow> manifest \<Rightarrow> nat \<Rightarrow> 's timed \<Rightarrow> migrate_error option \<times> 's timed" where
  "write_manifest L W M source 0 t = (Some TooManyChanges, t)"
| "write_manifest L W M source (Suc n) t =
     (let dst = sd_dst M; B = sd_dstB M; t1 = others W t in
      case load_manifest L B (sd_dst_codec M) dst True (snd t1) of
        Inl err \<Rightarrow> (Some (ReadDestManifest err), t1)
      | Inr (current, etag) \<Rightarrow>
        (case destination_free current source of Some err \<Rightarrow> (Some err, t1)
      | None \<Rightarrow>
        let t2 = others W t1;
            (r, s3) = save_manifest L B (sd_dst_codec M) dst (mw_seed W (fst t2))
                        (source\<lparr>mf_updated_at := mw_now W (fst t2)\<rparr>) etag (snd t2) in
        (case r of
           Inl (BackendErr err) \<Rightarrow>
             if lost_race err then write_manifest L W M source n (fst t2, s3)
             else (Some (SaveFailed (BackendErr err)), (fst t2, s3))
         | Inl err \<Rightarrow> (Some (SaveFailed err), (fst t2, s3))
         | Inr _ \<Rightarrow>
             let t4 = others W (fst t2, s3) in
             (case load_manifest L B (sd_dst_codec M) dst False (snd t4) of
                Inl err \<Rightarrow> (Some (RereadFailed err), t4)
              | Inr (verify, _) \<Rightarrow> (manifest_matches verify source, t4)))))"

section \<open>The run\<close>

text \<open>
  One turn of the loop over the snapshot ids: \<open>i\<close> of \<open>tot\<close> are settled, \<open>checked\<close> tells
  whether a snapshot an earlier run verified has been re-read, \<open>log\<close> is what the progress
  callback got. A turn yields the error that stops the run, if any, and the next values.
\<close>

definition settle_copy ::
  "lib \<Rightarrow> 's mig_world \<Rightarrow> ('a, 's) sides \<Rightarrow> 'a \<Rightarrow> nat \<Rightarrow> nat \<Rightarrow> string \<Rightarrow> bool
   \<Rightarrow> migrate_report \<Rightarrow> migrate_progress list \<Rightarrow> 's timed
   \<Rightarrow> migrate_error option \<times> bool \<times> migrate_report \<times> migrate_progress list \<times> 's timed" where
  "settle_copy L W M src tot i x checked rep log t =
     (case copy_snapshot L W M src x t of
        (Inl err, t') \<Rightarrow> (Some (SnapshotErr x err), checked, rep, log, t')
      | (Inr (digest, sz, existing), t') \<Rightarrow>
        (let rep' = rep\<lparr>mr_verified := mr_verified rep + (if existing then 1 else 0),
               mr_written := mr_written rep + (if existing then 0 else 1), mr_bytes := mr_bytes rep + sz\<rparr> in
         (None, checked, rep',
          log @ [\<lparr>mp_snapshot = x, mp_digest = digest, mp_skipped = False, mp_existing = existing,
               mp_completed = Suc i, mp_total = tot, mp_bytes = mr_bytes rep'\<rparr>], t')))"

definition settle_one ::
  "lib \<Rightarrow> 's mig_world \<Rightarrow> ('a, 's) sides \<Rightarrow> 'a \<Rightarrow> (string \<rightharpoonup> string) \<Rightarrow> nat \<Rightarrow> nat \<Rightarrow> string \<Rightarrow> bool
   \<Rightarrow> migrate_report \<Rightarrow> migrate_progress list \<Rightarrow> 's timed
   \<Rightarrow> migrate_error option \<times> bool \<times> migrate_report \<times> migrate_progress list \<times> 's timed" where
  "settle_one L W M src finished tot i x checked rep log t =
     (if mw_cancelled W (fst t) then (Some Cancelled, checked, rep, log, t)
      else case finished x of None \<Rightarrow> settle_copy L W M src tot i x checked rep log t
      | Some digest \<Rightarrow>
        let t1 = others W t in
        (case be_head (sd_dstB M) (snapshot_key (sd_dst M) x) (snd t1) of
          Inl err \<Rightarrow> if errors_is err ErrNotFound then settle_copy L W M src tot i x checked rep log t1
                     else (Some (HeadFailed err), checked, rep, log, t1)
        | Inr meta \<Rightarrow>
          let t2 = (if checked then t1 else others W t1) in
          if \<not> checked \<and> verify_snapshot L (sd_dst M) (sd_dstB M) (sd_dst_codec M) x digest (snd t2) \<noteq> None
          then (Some (ResumeMismatch x), checked, rep, log, t2)
          else
            (let rep' = rep\<lparr>mr_skipped := mr_skipped rep + 1, mr_bytes := mr_bytes rep + om_size meta\<rparr> in
             (None, True, rep',
              log @ [\<lparr>mp_snapshot = x, mp_digest = digest, mp_skipped = True, mp_existing = False,
                   mp_completed = Suc i, mp_total = tot, mp_bytes = mr_bytes rep'\<rparr>], t2))))"

fun copy_all ::
  "lib \<Rightarrow> 's mig_world \<Rightarrow> ('a, 's) sides \<Rightarrow> 'a \<Rightarrow> (string \<rightharpoonup> string) \<Rightarrow> nat \<Rightarrow> string list \<Rightarrow> nat \<Rightarrow> bool
   \<Rightarrow> migrate_report \<Rightarrow> migrate_progress list \<Rightarrow> 's timed
   \<Rightarrow> migrate_error option \<times> migrate_report \<times> migrate_progress list \<times> 's timed" where
  "copy_all L W M src finished tot [] i checked rep log t = (None, rep, log, t)"
| "copy_all L W M src finished tot (x # xs) i checked rep log t =
     (case settle_one L W M src finished tot i x checked rep log t of
        (Some err, _, rep', log', t') \<Rightarrow> (Some err, rep', log', t')
      | (None, checked', rep', log', t') \<Rightarrow>
          copy_all L W M src finished tot xs (Suc i) checked' rep' log' t')"

definition migrate_with ::
  "lib \<Rightarrow> 's mig_world \<Rightarrow> ('a, 's) sides \<Rightarrow> 'a \<Rightarrow> (string \<rightharpoonup> string) \<Rightarrow> 's timed
   \<Rightarrow> migrate_error option \<times> migrate_report \<times> migrate_progress list \<times> 's timed" where
  "migrate_with L W M src finished t =
     (let dst = sd_dst M; B = sd_dstB M in
      case list_snapshots (sd_src M) (sd_srcB M) src of
        Inl err \<Rightarrow> (Some (ListSource err), empty_report, [], t)
      | Inr ids \<Rightarrow>
      (case load_manifest L (sd_srcB M) (sd_src_codec M) (sd_src M) True src of
        Inl err \<Rightarrow> (Some (ReadSourceManifest err), empty_report, [], t)
      | Inr (mf, _) \<Rightarrow>
      (case manifest_covered_by mf ids of Some err \<Rightarrow> (Some err, empty_report, [], t)
      | None \<Rightarrow>
      let t1 = others W t in
      (case contains_keyring_object dst B (snd t1) of
        Inl err \<Rightarrow> (Some (CheckKeyring err), empty_report, [], t1)
      | Inr True \<Rightarrow> (Some KeyringInUse, empty_report, [], t1)
      | Inr False \<Rightarrow>
      let t2 = others W t1 in
      (case load_manifest L B (sd_dst_codec M) dst True (snd t2) of
        Inl err \<Rightarrow> (Some (ReadDestManifest err), empty_report, [], t2)
      | Inr (current, _) \<Rightarrow>
      (case destination_free current mf of Some err \<Rightarrow> (Some err, empty_report, [], t2)
      | None \<Rightarrow>
      (case copy_all L W M src finished (length ids) ids 0 False (empty_report\<lparr>mr_snapshots := length ids\<rparr>) [] t2 of
        (Some err, rep, log, t3) \<Rightarrow> (Some err, rep, log, t3)
      | (None, rep, log, t3) \<Rightarrow>
      (case write_manifest L W M mf maxManifestRetries t3 of
        (Some err, t4) \<Rightarrow> (Some (ManifestErr err), rep, log, t4)
      | (None, t4) \<Rightarrow>
        (None, rep\<lparr>mr_manifest_sessions := length (AList.clearjunk (mf_sessions mf)), mr_manifest_revision := mf_revision mf\<rparr>,
         log @ [\<lparr>mp_snapshot = [], mp_digest = [], mp_skipped = False, mp_existing = False,
            mp_completed = length ids, mp_total = length ids, mp_bytes = mr_bytes rep\<rparr>], t4)))))))))"

definition migrate_run ::
  "lib \<Rightarrow> 's mig_world \<Rightarrow> 'a engine option \<Rightarrow> 's engine option \<Rightarrow> 'a \<Rightarrow> (string \<rightharpoonup> string) \<Rightarrow> 's timed
   \<Rightarrow> migrate_error option \<times> migrate_report \<times> migrate_progress list \<times> 's timed" where
  "migrate_run L W source destination src finished t =
     (case (source, destination) of
        (Some a, Some b) \<Rightarrow>
          (case (eg_backend a, eg_backend b) of
             (Some A, Some B) \<Rightarrow>
               (case (eg_codec a, eg_codec b) of
                  (Some ca, Some cb) \<Rightarrow> migrate_with L W
                     \<lparr>sd_src = a, sd_srcB = A, sd_src_codec = ca, sd_dst = b, sd_dstB = B, sd_dst_codec = cb\<rparr>
                     src finished t
                | _ \<Rightarrow> (Some ProvidersRequired, empty_report, [], t))
           | _ \<Rightarrow> (Some EnginesRequired, empty_report, [], t))
      | _ \<Rightarrow> (Some EnginesRequired, empty_report, [], t))"

section \<open>Nothing is overwritten\<close>

lemma others_quiet: "(\<And>n x. mw_interf W n x = x) \<Longrightarrow> snd (others W t) = snd t"
  by (simp add: others_def)

lemma mem_get_obj: "mem_get k s = (case mem_obj s k of None \<Rightarrow> Inl ErrNotFound
    | Some (d, t) \<Rightarrow> Inr (d, \<lparr>om_key = k, om_etag = t, om_size = int (length d)\<rparr>))"
  by (auto simp: mem_get_def mem_obj_def object_head_def split: option.splits)

lemma mem_head_obj: "mem_head k s = (case mem_obj s k of None \<Rightarrow> Inl ErrNotFound
    | Some (d, t) \<Rightarrow> Inr \<lparr>om_key = k, om_etag = t, om_size = int (length d)\<rparr>)"
  by (auto simp: mem_head_def mem_obj_def object_head_def split: option.splits)

text \<open>What a verified snapshot is: both sides open to plaintexts with the same digest.\<close>

definition same_snapshot :: "lib \<Rightarrow> ('a, mem_store) sides \<Rightarrow> 'a \<Rightarrow> mem_store \<Rightarrow> string \<Rightarrow> bool" where
  "same_snapshot L M src s i \<longleftrightarrow>
     (\<exists>d. snapshot_digest L (sd_src M) (sd_srcB M) (sd_src_codec M) i src = Inr d
        \<and> snapshot_digest L (sd_dst M) (sd_dstB M) (sd_dst_codec M) i s = Inr d)"

lemma same_snapshot_mono:
  assumes "sd_dstB M = mem_backend sha" "mem_obj s \<subseteq>\<^sub>m mem_obj s'" "same_snapshot L M src s i"
  shows "same_snapshot L M src s' i"
proof -
  from assms obtain d where d: "snapshot_digest L (sd_src M) (sd_srcB M) (sd_src_codec M) i src = Inr d"
    "snapshot_digest L (sd_dst M) (mem_backend sha) (sd_dst_codec M) i s = Inr d" by (auto simp: same_snapshot_def)
  then obtain o' where o': "mem_obj s (snapshot_key (sd_dst M) i) = Some o'"
    by (auto simp: snapshot_digest_def mem_backend_simps mem_get_obj split: option.splits)
  with assms(2) have "mem_obj s' (snapshot_key (sd_dst M) i) = Some o'" by (metis domI map_le_def)
  with o' d assms(1) show ?thesis
    by (auto simp: same_snapshot_def snapshot_digest_def mem_backend_simps mem_get_obj)
qed

lemma verified_same:
  "snapshot_digest L (sd_src M) (sd_srcB M) (sd_src_codec M) i src = Inr d \<Longrightarrow>
   verify_snapshot L (sd_dst M) (sd_dstB M) (sd_dst_codec M) i d s = None \<Longrightarrow> same_snapshot L M src s i"
  by (auto simp: verify_snapshot_def same_snapshot_def split: sum.splits if_splits)

lemma snapshot_put:
  assumes "mem_put sha k c snapshot_put_options s = (r, s')"
  shows "mem_obj s \<subseteq>\<^sub>m mem_obj s'" "k' \<noteq> k \<Longrightarrow> mem_obj s' k' = mem_obj s k'"
proof -
  have "mem_obj s \<subseteq>\<^sub>m mem_obj s' \<and> (k' \<noteq> k \<longrightarrow> mem_obj s' k' = mem_obj s k')"
  proof (cases r)
    case (Inl e)
    with mem_put_Inl assms show ?thesis by fastforce
  next
    case (Inr m)
    with assms have "mem_put sha k c snapshot_put_options s = (Inr m, s')" by simp
    from mem_put_obj [OF this] show ?thesis by (auto simp: map_le_def snapshot_put_options_def)
  qed
  then show "mem_obj s \<subseteq>\<^sub>m mem_obj s'" "k' \<noteq> k \<Longrightarrow> mem_obj s' k' = mem_obj s k'" by auto
qed

lemma copy_snapshot_spec:
  assumes run: "copy_snapshot L W M src i t = (r, t')"
    and B: "sd_dstB M = mem_backend sha" and quiet: "\<And>n x. mw_interf W n x = x"
  shows "mem_obj (snd t) \<subseteq>\<^sub>m mem_obj (snd t')
    \<and> (\<forall>k. k \<noteq> snapshot_key (sd_dst M) i \<longrightarrow> mem_obj (snd t') k = mem_obj (snd t) k)
    \<and> ((\<exists>x. r = Inr x) \<longrightarrow> same_snapshot L M src (snd t') i)"
proof (cases "mem_head (snapshot_key (sd_dst M) i) (snd t)")
  case (Inr meta)
  then show ?thesis
    using run verified_same [of L M i src]
    by (auto simp: copy_snapshot_def Let_def B mem_backend_simps others_quiet [OF quiet]
        split: sum.splits option.splits)
next
  case (Inl err)
  note keep = snapshot_put [of sha "snapshot_key (sd_dst M) i" _ "snd t"]
  have src: "be_get (sd_srcB M) (snapshot_key (sd_src M) i) src = Inr (rc, m) \<Longrightarrow> cd_decrypt (sd_src_codec M) rc = Inr plain
     \<Longrightarrow> snapshot_digest L (sd_src M) (sd_srcB M) (sd_src_codec M) i src = Inr (hex_encode (sum_bytes (lb_sha256 L plain)))"
    for rc m plain by (simp add: snapshot_digest_def)
  from Inl run show ?thesis
    by (auto simp: copy_snapshot_def Let_def B mem_backend_simps others_quiet [OF quiet]
        split: sum.splits option.splits if_splits prod.splits
        dest: keep intro: verified_same [OF src, unfolded B mem_backend_def])
qed

lemma settle_one_spec:
  assumes run: "settle_one L W M src finished tot i x checked rep log t = (e, c1, rep1, log1, t1)"
    and B: "sd_dstB M = mem_backend sha" and quiet: "\<And>n y. mw_interf W n y = y"
  shows "mem_obj (snd t) \<subseteq>\<^sub>m mem_obj (snd t1)
    \<and> (\<forall>k. k \<noteq> snapshot_key (sd_dst M) x \<longrightarrow> mem_obj (snd t1) k = mem_obj (snd t) k)
    \<and> (e = None \<longrightarrow> mem_obj (snd t1) (snapshot_key (sd_dst M) x) \<noteq> None
         \<and> (finished x = None \<longrightarrow> same_snapshot L M src (snd t1) x))"
proof -
  note q = others_quiet [OF quiet]
  have present: "same_snapshot L M src s y \<Longrightarrow> mem_obj s (snapshot_key (sd_dst M) y) \<noteq> None" for s y
    by (auto simp: same_snapshot_def snapshot_digest_def B mem_backend_simps mem_get_obj split: option.splits)
  have copy: ?thesis if "settle_copy L W M src tot i x checked rep log u = (e, c1, rep1, log1, t1)" "snd u = snd t" for u
  proof -
    obtain r t' where r: "copy_snapshot L W M src x u = (r, t')" by (cases "copy_snapshot L W M src x u")
    with that have "t' = t1" "e = None \<longrightarrow> (\<exists>v. r = Inr v)"
      by (auto simp: settle_copy_def Let_def split: sum.splits)
    with copy_snapshot_spec [OF r B quiet] present that(2) show ?thesis by auto
  qed
  show ?thesis
  proof (cases "mw_cancelled W (fst t) \<or> finished x = None")
    case True
    with run show ?thesis using copy [of t] by (auto simp: settle_one_def split: if_splits)
  next
    case False
    then obtain digest where d: "finished x = Some digest" by auto
    show ?thesis
    proof (cases "mem_obj (snd t) (snapshot_key (sd_dst M) x)")
      case None
      with run False d show ?thesis
        using copy [of "others W t"] by (simp add: settle_one_def Let_def B mem_backend_simps mem_head_obj q)
    next
      case (Some dt)
      with run False d show ?thesis
        by (auto simp: settle_one_def Let_def B mem_backend_simps mem_head_obj q split: if_splits prod.splits)
    qed
  qed
qed

lemma copy_all_spec:
  assumes B: "sd_dstB M = mem_backend sha" and quiet: "\<And>n y. mw_interf W n y = y"
  shows "copy_all L W M src finished tot ids i checked rep log t = (e, rep1, log1, t1) \<Longrightarrow>
    mem_obj (snd t) \<subseteq>\<^sub>m mem_obj (snd t1)
    \<and> (\<forall>k. k \<notin> snapshot_key (sd_dst M) ` set ids \<longrightarrow> mem_obj (snd t1) k = mem_obj (snd t) k)
    \<and> (e = None \<longrightarrow> (\<forall>x \<in> set ids. mem_obj (snd t1) (snapshot_key (sd_dst M) x) \<noteq> None
         \<and> (finished x = None \<longrightarrow> same_snapshot L M src (snd t1) x)))"
proof (induction ids arbitrary: i checked rep log t)
  case Nil
  then show ?case by simp
next
  case (Cons x xs)
  obtain e2 c2 rep2 log2 t2 where one: "settle_one L W M src finished tot i x checked rep log t = (e2, c2, rep2, log2, t2)"
    by (cases "settle_one L W M src finished tot i x checked rep log t")
  note a = settle_one_spec [OF one B quiet]
  show ?case
  proof (cases e2)
    case (Some err)
    with one Cons.prems have "e \<noteq> None" "t1 = t2" by auto
    with a show ?thesis by auto
  next
    case None
    with one Cons.prems have rest: "copy_all L W M src finished tot xs (Suc i) c2 rep2 log2 t2 = (e, rep1, log1, t1)" by simp
    note b = Cons.IH [OF rest]
    from a b have le: "mem_obj (snd t) \<subseteq>\<^sub>m mem_obj (snd t1)" by (auto intro: map_le_trans)
    have "finished x = None \<longrightarrow> same_snapshot L M src (snd t1) x" using a b None same_snapshot_mono [OF B] by blast
    moreover have "mem_obj (snd t1) (snapshot_key (sd_dst M) x) \<noteq> None" using a b None by (metis domIff map_le_def)
    ultimately show ?thesis using a b le by auto
  qed
qed

lemma save_manifest_frame:
  "save_manifest L (mem_backend sha) cd e seed mf t s = (r, s') \<Longrightarrow> k \<noteq> manifest_key e \<Longrightarrow> mem_obj s' k = mem_obj s k"
  using mem_put_obj(1) mem_put_Inl
  by (fastforce simp: save_manifest_def mem_backend_simps split: sum.splits prod.splits)

lemma write_manifest_spec:
  assumes B: "sd_dstB M = mem_backend sha" and quiet: "\<And>n y. mw_interf W n y = y"
  shows "write_manifest L W M source n t = (e, t') \<Longrightarrow>
    (\<forall>k. k \<noteq> manifest_key (sd_dst M) \<longrightarrow> mem_obj (snd t') k = mem_obj (snd t) k)
    \<and> (e = None \<longrightarrow> (\<exists>mf' etag. load_manifest L (mem_backend sha) (sd_dst_codec M) (sd_dst M) False (snd t') = Inr (mf', etag)
         \<and> manifest_matches mf' source = None))"
proof (induction n arbitrary: t)
  case 0
  then show ?case by auto
next
  case (Suc n)
  note q = others_quiet [OF quiet]
  obtain r s3 where sv: "save_manifest L (mem_backend sha) (sd_dst_codec M) (sd_dst M) (mw_seed W (fst (others W (others W t))))
      (source\<lparr>mf_updated_at := mw_now W (fst (others W (others W t)))\<rparr>)
      (snd (projr (load_manifest L (mem_backend sha) (sd_dst_codec M) (sd_dst M) True (snd t)))) (snd t) = (r, s3)"
    by (metis surj_pair)
  have fr: "k \<noteq> manifest_key (sd_dst M) \<Longrightarrow> mem_obj s3 k = mem_obj (snd t) k" for k
    using save_manifest_frame [OF sv] by simp
  show ?case
  proof (cases "load_manifest L (mem_backend sha) (sd_dst_codec M) (sd_dst M) True (snd t)")
    case (Inl err)
    with Suc.prems show ?thesis by (auto simp: Let_def B q)
  next
    case (Inr ce)
    obtain current etag where ce: "ce = (current, etag)" by (cases ce)
    show ?thesis
    proof (cases "destination_free current source")
      case (Some err)
      with Suc.prems Inr ce show ?thesis by (auto simp: Let_def B q)
    next
      case None
      note step = Suc.prems [unfolded write_manifest.simps Let_def B q Inr ce, simplified None, simplified]
      show ?thesis
      proof (cases "\<exists>err. r = Inl (BackendErr err) \<and> lost_race err")
        case True
        with step sv Inr ce None obtain u where "write_manifest L W M source n u = (e, t')" "snd u = s3"
          by (auto split: prod.splits)
        with Suc.IH [OF this(1)] fr show ?thesis by simp
      next
        case False
        with step sv Inr ce None fr show ?thesis
          by (auto simp: q split: sum.splits sync_error.splits prod.splits if_splits)
      qed
    qed
  qed
qed

lemma find_None_all: "find P xs = None \<longleftrightarrow> (\<forall>x \<in> set xs. \<not> P x)"
  by (induction xs) auto

lemma clearjunk_set: "set (AList.clearjunk al) = {(k, v). map_of al k = Some v}"
  using map_of_eq_Some_iff [OF distinct_clearjunk, of al] by (auto simp: map_of_clearjunk)

text \<open>A manifest that matches the source names the same snapshot for the same sessions, and no others.\<close>

lemma manifest_matches_None:
  assumes "manifest_matches v source = None"
  shows "mf_revision v = mf_revision source"
    and "map_option ms_snapshot_id (map_of (mf_sessions v) k) = map_option ms_snapshot_id (map_of (mf_sessions source) k)"
proof -
  let ?v = "map_of (mf_sessions v)" and ?s = "map_of (mf_sessions source)"
  have len: "length (AList.clearjunk al) = card (dom (map_of al))" for al :: "(string \<times> manifest_session) list"
    by (metis distinct_card distinct_clearjunk dom_map_of_conv_image_fst length_map map_of_clearjunk set_map)
  from assms have r: "mf_revision v = mf_revision source" "card (dom ?v) = card (dom ?s)"
    and f: "\<And>k w. ?s k = Some w \<Longrightarrow> \<exists>g. ?v k = Some g \<and> ms_snapshot_id g = ms_snapshot_id w"
    by (force simp: manifest_matches_def len find_None_all clearjunk_set split: if_splits option.splits)+
  show "mf_revision v = mf_revision source" by (rule r)
  from f have "dom ?s \<subseteq> dom ?v" by force
  with r(2) have "dom ?s = dom ?v" by (metis card_subset_eq finite_dom_map_of)
  with f show "map_option ms_snapshot_id (?v k) = map_option ms_snapshot_id (?s k)"
    by (cases "?s k") (auto simp: domIff)
qed

lemma manifest_covered:
  assumes "manifest_covered_by mf ids = None" "map_of (mf_sessions mf) k = Some m" "ms_snapshot_id m \<noteq> []"
  shows "ms_snapshot_id m \<in> set ids"
proof (rule ccontr)
  assume "ms_snapshot_id m \<notin> set ids"
  moreover have "(k, m) \<in> set (AList.clearjunk (mf_sessions mf))" using assms(2) by (simp add: clearjunk_set)
  ultimately have "ms_snapshot_id m \<in> set (List.map_filter (\<lambda>(_, s). if ms_snapshot_id s \<noteq> [] \<and> ms_snapshot_id s \<notin> set ids
            then Some (ms_snapshot_id s) else None) (AList.clearjunk (mf_sessions mf)))"
    using assms(3) by (force simp: List.map_filter_def)
  with assms(1) show False by (auto simp: manifest_covered_by_def Let_def split: if_splits)
qed

text \<open>A run that got past the refusals, and the ways it can end.\<close>

lemma migrate_with_cases:
  assumes "migrate_with L W M src finished t = (e, rep, log, t')" and quiet: "\<And>n y. mw_interf W n y = y"
  shows "(e \<noteq> None \<and> (\<nexists>err. e = Some (ManifestErr err)) \<and> snd t' = snd t)
    \<or> (\<exists>ids mf tg t2 e3 r3 l3 t3. list_snapshots (sd_src M) (sd_srcB M) src = Inr ids
         \<and> load_manifest L (sd_srcB M) (sd_src_codec M) (sd_src M) True src = Inr (mf, tg)
         \<and> manifest_covered_by mf ids = None \<and> snd t2 = snd t
         \<and> copy_all L W M src finished (length ids) ids 0 False (empty_report\<lparr>mr_snapshots := length ids\<rparr>) [] t2 = (e3, r3, l3, t3)
         \<and> ((e3 \<noteq> None \<and> e = e3 \<and> t' = t3)
            \<or> (e3 = None \<and> (\<exists>e4. write_manifest L W M mf maxManifestRetries t3 = (e4, t')
                 \<and> e = map_option ManifestErr e4))))"
proof -
  have q: "snd (others W u) = snd u" for u using quiet by (rule others_quiet)
  have q2: "snd (others W (others W t)) = snd t" by (simp add: q)
  have no: "destination_free a b \<noteq> Some (ManifestErr err)" "manifest_covered_by a i \<noteq> Some (ManifestErr err)" for a b i err
    by (auto simp: destination_free_def manifest_covered_by_def Let_def split: option.splits)
  show ?thesis
    using assms(1)
    by (auto simp: migrate_with_def Let_def q simp del: split_paired_Ex
        simp: no split: sum.splits option.splits bool.splits prod.splits intro!: exI [of _ "others W (others W t)"] q2)
qed



end
