(* ===== verification/Sync_Migrate_Run.thy ===== *)
theory Sync_Migrate_Run
  imports Sync_Migrate
begin

text \<open>
  The listing a migration starts from, and a concrete migration.
\<close>

section \<open>Listing is complete\<close>

lemma snapshot_name_iff:
  assumes "has_prefix key (engine_key e ''snapshots/'')"
  shows "snapshot_name e key = Some i \<longleftrightarrow> key = snapshot_key e i \<and> slash \<notin> set i"
proof -
  let ?p = "trim_char slash (eg_prefix e)"
  let ?pre = "if ?p = [] then [] else ?p @ [slash]"
  have ek: "engine_key e (''snapshots/'' @ r) = ?pre @ ''snapshots/'' @ r" for r
    by (simp add: engine_key_def trim_prefix_def has_prefix_def slash_def Let_def)
  from assms ek [of "[]"] obtain r where r: "key = ?pre @ ''snapshots/'' @ r" by (auto simp: has_prefix_iff)
  have "snapshot_name e key = (if \<not> has_suffix r ''.age'' \<or> slash \<in> set r then None else Some (trim_suffix r ''.age''))"
    using r by (auto simp: snapshot_name_def Let_def trim_prefix_append [of "p @ [slash]" for p, simplified]
        trim_prefix_def has_prefix_def)
  moreover have "key = snapshot_key e i \<longleftrightarrow> r = i @ ''.age''"
    using r ek [of "i @ ''.age''"] by (auto simp: snapshot_key_def)
  ultimately show ?thesis by (auto simp: has_suffix_iff slash_def split: if_splits)
qed

text \<open>
  The listing a migration works from is complete and exact: over the memory store it is the
  sorted list of the ids whose snapshot object exists under the engine's prefix (an id never holds
  a path separator), whether or not the manifest names them.
\<close>
theorem list_snapshots_complete:
  assumes "list_snapshots e (mem_backend sha) s = Inr ids"
  shows "set ids = {i. slash \<notin> set i \<and> mem_obj s (snapshot_key e i) \<noteq> None} \<and> sorted ids"
proof -
  from assms obtain ms where ms: "be_list (mem_backend sha) (engine_key e ''snapshots/'') s = Inr ms"
    and ids: "ids = sort (List.map_filter (\<lambda>m. snapshot_name e (om_key m)) ms)"
    by (auto simp: list_snapshots_def split: sum.splits)
  have keys: "om_key ` set ms = {k. has_prefix k (engine_key e ''snapshots/'') \<and> mem_obj s k \<noteq> None}"
    using ms by (rule mem.list_keys)
  have mem: "i \<in> set ids \<longleftrightarrow> (\<exists>k \<in> om_key ` set ms. snapshot_name e k = Some i)" for i
    by (force simp: ids List.map_filter_def)
  have pre: "has_prefix (snapshot_key e i) (engine_key e ''snapshots/'')" for i
    by (auto simp: snapshot_key_def engine_key_def trim_prefix_def has_prefix_iff slash_def Let_def)
  have "(has_prefix k (engine_key e ''snapshots/'') \<and> mem_obj s k \<noteq> None \<and> snapshot_name e k = Some i)
      \<longleftrightarrow> (has_prefix k (engine_key e ''snapshots/'') \<and> mem_obj s k \<noteq> None \<and> k = snapshot_key e i \<and> slash \<notin> set i)" for k i
    using snapshot_name_iff by blast
  then have "(\<exists>k. has_prefix k (engine_key e ''snapshots/'') \<and> mem_obj s k \<noteq> None \<and> snapshot_name e k = Some i)
      \<longleftrightarrow> mem_obj s (snapshot_key e i) \<noteq> None \<and> slash \<notin> set i" for i
    using pre by simp
  then have "i \<in> set ids \<longleftrightarrow> slash \<notin> set i \<and> mem_obj s (snapshot_key e i) \<noteq> None" for i
    unfolding mem keys by (simp add: Bex_def conj_ac)
  then show ?thesis by (auto simp: ids)
qed

section \<open>A concrete migration\<close>

definition toy_manifest :: manifest where
  "toy_manifest = (new_manifest [])\<lparr>mf_sessions := [(''codex:s'', toy_entry)], mf_revision := ''u1''\<rparr>"

definition toy_source :: mem_store where
  "toy_source = [(''p/snapshots/u1.age'', \<lparr>ob_data = ''!hello'', ob_etag = ''e1''\<rparr>),
     (''p/manifest.age'', \<lparr>ob_data = ''!{}'', ob_etag = ''e2''\<rparr>)]"

definition toy_sides :: "(mem_store, mem_store) sides" where
  "toy_sides = \<lparr>sd_src = toy_engine, sd_srcB = mem_backend (\<lambda>_. 0), sd_src_codec = toy_codec,
     sd_dst = toy_engine\<lparr>eg_prefix := ''q''\<rparr>, sd_dstB = mem_backend (\<lambda>_. 0), sd_dst_codec = toy_codec\<rparr>"

definition toy_quiet :: "bool \<Rightarrow> mem_store mig_world" where
  "toy_quiet cancel = \<lparr>mw_interf = (\<lambda>_ s. s), mw_cancelled = (\<lambda>n. cancel), mw_seed = (\<lambda>_. 0), mw_now = (\<lambda>_. ''now''), mw_tempfile = (\<lambda>_. None)\<rparr>"

definition toy_migration :: "bool \<Rightarrow> migrate_error option \<times> migrate_report \<times> migrate_progress list \<times> mem_store timed" where
  "toy_migration cancel = migrate_with (toy_lib toy_manifest toy_envelope) (toy_quiet cancel) toy_sides toy_source (\<lambda>_. None) (0, [])"

lemma toy_keys2:
  "snapshot_key (toy_engine\<lparr>eg_prefix := ''q''\<rparr>) i = ''q/snapshots/'' @ i @ ''.age''"
  "snapshot_key toy_engine i = ''p/snapshots/'' @ i @ ''.age''"
  "engine_key toy_engine ''snapshots/'' = ''p/snapshots/''"
  "manifest_key (toy_engine\<lparr>eg_prefix := ''q''\<rparr>) = ''q/manifest.age''"
  by (simp_all add: manifest_key_def snapshot_key_def engine_key_def toy_engine_def trim_char_def slash_def
      trim_prefix_def has_prefix_def)

lemma toy_list: "list_snapshots toy_engine (mem_backend (\<lambda>_. 0)) toy_source = Inr [''u1'']"
proof -
  have "snapshot_name toy_engine ''p/snapshots/u1.age'' = Some ''u1''"
    by (simp add: snapshot_name_def toy_engine_def trim_char_def slash_def trim_prefix_def has_prefix_def
        has_suffix_def trim_suffix_def)
  then show ?thesis
    by (simp add: list_snapshots_def mem_backend_simps mem_list_def toy_source_def toy_keys2
        has_prefix_def object_head_def List.map_filter_def)
qed

definition toy_object :: stored_object where
  "toy_object = \<lparr>ob_data = ''!hello'', ob_etag = etag_of (\<lambda>_. 0) ''!hello''\<rparr>"

lemma toy_source_manifest:
  "load_manifest (toy_lib toy_manifest env) (mem_backend (\<lambda>_. 0)) toy_codec toy_engine True toy_source = Inr (toy_manifest, ''e2'')"
  by (simp add: load_manifest_def mem_backend_simps mem_get_def toy_source_def object_head_def toy_codec_def
      toy_lib_def toy_manifest_def new_manifest_def maxManifestBytes_def)

lemma toy_free: "load_manifest (toy_lib toy_manifest env) (mem_backend (\<lambda>_. 0)) toy_codec (toy_engine\<lparr>eg_prefix := ''q''\<rparr>) True
     (if full then [(''q/snapshots/u1.age'', o')] else []) = Inr (new_manifest [], [])"
  by (simp add: load_manifest_def mem_backend_simps mem_get_def toy_keys2)

lemma toy_cancel: "mw_cancelled (toy_quiet c) n = c"
  by (simp add: toy_quiet_def)

lemma toy_copy:
  "copy_snapshot (toy_lib mf env) (toy_quiet False) toy_sides toy_source ''u1'' (n, []) =
     (Inr (hex_encode (sum_bytes 0), 6, False), (Suc (Suc (Suc n)), [(''q/snapshots/u1.age'', toy_object)]))"
  by (simp add: copy_snapshot_def toy_sides_def others_def toy_quiet_def mem_backend_simps mem_head_def toy_keys2
      mem_get_def toy_source_def mem_put_def snapshot_put_options_def verify_snapshot_def snapshot_digest_def
      object_head_def toy_object_def toy_codec_def toy_lib_def Let_def)

lemma toy_write:
  "fst (write_manifest (toy_lib toy_manifest env) (toy_quiet False) toy_sides toy_manifest (Suc m) (n, [(''q/snapshots/u1.age'', toy_object)])) = None"
proof -
  have l1: "load_manifest (toy_lib toy_manifest env) (mem_backend (\<lambda>_. 0)) toy_codec (toy_engine\<lparr>eg_prefix := ''q''\<rparr>) True
     [(''q/snapshots/u1.age'', toy_object)] = Inr (new_manifest [], [])"
    using toy_free [where full = True] by simp
  have l2: "load_manifest (toy_lib toy_manifest env) (mem_backend (\<lambda>_. 0)) toy_codec (toy_engine\<lparr>eg_prefix := ''q''\<rparr>) False
     [(''q/snapshots/u1.age'', toy_object), (''q/manifest.age'', \<lparr>ob_data = ''!{}'', ob_etag = t\<rparr>)] = Inr (toy_manifest, t)" for t
    by (simp add: load_manifest_def mem_backend_simps mem_get_def toy_keys2 object_head_def toy_codec_def
        toy_lib_def toy_manifest_def new_manifest_def maxManifestBytes_def)
  have sv: "save_manifest (toy_lib toy_manifest env) (mem_backend (\<lambda>_. 0)) toy_codec (toy_engine\<lparr>eg_prefix := ''q''\<rparr>) 0 x []
     [(''q/snapshots/u1.age'', toy_object)] = (Inr (), [(''q/snapshots/u1.age'', toy_object),
        (''q/manifest.age'', \<lparr>ob_data = ''!{}'', ob_etag = etag_of (\<lambda>_. 0) ''!{}''\<rparr>)])" for x
    by (simp add: save_manifest_def mem_backend_simps mem_put_def manifest_put_options_def toy_keys2 toy_codec_def
        toy_lib_def Let_def)
  have fr: "destination_free (new_manifest []) toy_manifest = None" "manifest_matches toy_manifest toy_manifest = None"
    by (simp_all add: destination_free_def new_manifest_def manifest_matches_def toy_manifest_def)
  show ?thesis
    by (simp add: toy_sides_def others_def toy_quiet_def l1 l2 sv fr Let_def)
qed

lemma toy_migration_ok: "fst (toy_migration False) = None"
proof -
  have cov: "manifest_covered_by toy_manifest [''u1''] = None"
    by (simp add: manifest_covered_by_def toy_manifest_def toy_entry_def new_manifest_def List.map_filter_def Let_def)
  have key: "contains_keyring_object (toy_engine\<lparr>eg_prefix := ''q''\<rparr>) (mem_backend (\<lambda>_. 0)) [] = Inr False"
    by (simp add: contains_keyring_object_def mem_backend_simps mem_head_def)
  have fr: "destination_free (new_manifest []) toy_manifest = None"
    by (simp add: destination_free_def new_manifest_def)
  obtain rep log where one: "settle_one (toy_lib toy_manifest toy_envelope) (toy_quiet False) toy_sides toy_source (\<lambda>_. None) 1 0 ''u1'' False
      (empty_report\<lparr>mr_snapshots := 1\<rparr>) [] (2, []) = (None, False, rep, log, (5, [(''q/snapshots/u1.age'', toy_object)]))"
    by (simp add: settle_one_def toy_cancel settle_copy_def toy_copy Let_def)
  then have all: "copy_all (toy_lib toy_manifest toy_envelope) (toy_quiet False) toy_sides toy_source (\<lambda>_. None) 1 [''u1''] 0 False
      (empty_report\<lparr>mr_snapshots := 1\<rparr>) [] (2, []) = (None, rep, log, (5, [(''q/snapshots/u1.age'', toy_object)]))"
    by simp
  obtain t4 where wr: "write_manifest (toy_lib toy_manifest toy_envelope) (toy_quiet False) toy_sides toy_manifest maxManifestRetries
      (5, [(''q/snapshots/u1.age'', toy_object)]) = (None, t4)"
    using toy_write [of toy_envelope _ 5] by (metis four_attempts prod.collapse)
  have sides: "sd_src toy_sides = toy_engine" "sd_srcB toy_sides = mem_backend (\<lambda>_. 0)" "sd_src_codec toy_sides = toy_codec"
    "sd_dst toy_sides = toy_engine\<lparr>eg_prefix := ''q''\<rparr>" "sd_dstB toy_sides = mem_backend (\<lambda>_. 0)" "sd_dst_codec toy_sides = toy_codec"
    by (simp_all add: toy_sides_def)
  have ot: "others (toy_quiet False) (n, s) = (Suc n, s)" for n s by (simp add: others_def toy_quiet_def)
  have load: "load_manifest (toy_lib toy_manifest toy_envelope) (mem_backend (\<lambda>_. 0)) toy_codec (toy_engine\<lparr>eg_prefix := ''q''\<rparr>) True [] = Inr (new_manifest [], [])"
    using toy_free [where full = False] by simp
  show ?thesis
    using all wr by (simp add: toy_migration_def migrate_with_def sides toy_list toy_source_manifest cov ot key load fr numeral_2_eq_2)
qed

lemma toy_dst: "sd_dstB toy_sides = mem_backend (\<lambda>_. 0)" "mw_interf (toy_quiet c) n y = y"
  by (simp_all add: toy_sides_def toy_quiet_def)

theorem list_snapshots_complete_witness:
  "slash \<notin> set ''u1'' \<and> mem_obj toy_source (snapshot_key toy_engine ''u1'') \<noteq> None"
proof -
  have "''u1'' \<in> set [''u1'']" by simp
  then have "''u1'' \<in> {i. slash \<notin> set i \<and> mem_obj toy_source (snapshot_key toy_engine i) \<noteq> None}"
    using list_snapshots_complete [OF toy_list] by blast
  then show ?thesis by (rule CollectD)
qed


lemma toy_migration_cancelled: "fst (toy_migration True) = Some Cancelled"
proof -
  have sides: "sd_src toy_sides = toy_engine" "sd_srcB toy_sides = mem_backend (\<lambda>_. 0)" "sd_src_codec toy_sides = toy_codec"
    "sd_dst toy_sides = toy_engine\<lparr>eg_prefix := ''q''\<rparr>" "sd_dstB toy_sides = mem_backend (\<lambda>_. 0)" "sd_dst_codec toy_sides = toy_codec"
    by (simp_all add: toy_sides_def)
  have ot: "others (toy_quiet True) (n, s) = (Suc n, s)" for n s by (simp add: others_def toy_quiet_def)
  have cov: "manifest_covered_by toy_manifest [''u1''] = None"
    by (simp add: manifest_covered_by_def toy_manifest_def toy_entry_def new_manifest_def List.map_filter_def Let_def)
  have key: "contains_keyring_object (toy_engine\<lparr>eg_prefix := ''q''\<rparr>) (mem_backend (\<lambda>_. 0)) [] = Inr False"
    by (simp add: contains_keyring_object_def mem_backend_simps mem_head_def)
  have fr: "destination_free (new_manifest []) toy_manifest = None"
    by (simp add: destination_free_def new_manifest_def)
  have load: "load_manifest (toy_lib toy_manifest toy_envelope) (mem_backend (\<lambda>_. 0)) toy_codec (toy_engine\<lparr>eg_prefix := ''q''\<rparr>) True [] = Inr (new_manifest [], [])"
    using toy_free [where full = False] by simp
  have stop: "settle_one L (toy_quiet True) M src f tot i x c rep log t = (Some Cancelled, c, rep, log, t)"
    for L M src f tot i x c rep log and t :: "mem_store timed"
    by (simp add: settle_one_def toy_quiet_def)
  show ?thesis
    by (simp add: toy_migration_def migrate_with_def sides toy_list toy_source_manifest cov ot key load fr stop)
qed


end
