(* ===== verification/Daemon_Loop.thy ===== *)
theory Daemon_Loop
  imports Go_Base
begin

text \<open>
  The resident process (\<^verbatim>\<open>internal/daemon/loop.go\<close>, \<^verbatim>\<open>status.go\<close>): a loop that pushes after the
  session store changed, pulls on a schedule and polls for approvals. Times and durations are whole
  nanoseconds; a zero \<^verbatim>\<open>time.Time\<close> is \<^term>\<open>None\<close>. An armed timer is its deadline. What the clock reads, what a
  push, a pull and a poll return (a recovered panic is an error like any other) and whether the status
  file could be written are inputs. Logging and the observer callback are left out.
\<close>

section \<open>Status\<close>

record outcome =
  oc_at :: "int option"
  oc_ok :: bool
  oc_summary :: string
  oc_error :: string
  oc_conflict :: bool
  oc_last_ok :: "int option"

record pending_approval =
  pa_request :: string
  pa_device :: string
  pa_name :: string
  pa_platform :: string
  pa_expires :: int

record pending_revocation =
  pv_request :: string
  pv_device :: string
  pv_name :: string
  pv_platform :: string
  pv_generation :: int
  pv_requested_at :: int

record account_device =
  ad_id :: string
  ad_name :: string
  ad_platform :: string
  ad_this :: bool

record daemon_status =
  st_version :: int
  st_pid :: int
  st_started :: int
  st_updated :: int
  st_watch :: string
  st_roots :: "string list"
  st_backend :: string
  st_push :: outcome
  st_pull :: outcome
  st_pending :: "pending_approval list"
  st_revocations :: "pending_revocation list"
  st_devices :: "account_device list"
  st_approvals_error :: string
  st_approvals_at :: "int option"

definition StatusVersion :: int where "StatusVersion = 2"
definition second :: int where "second = 1000000000"
definition StaleAfter :: int where "StaleAfter = 180 * second"
definition HeartbeatEvery :: int where "HeartbeatEvery = 60 * second"

text \<open>\<^verbatim>\<open>Status.Alive\<close>, over the test whether a process exists.\<close>

definition status_alive :: "(int \<Rightarrow> bool) \<Rightarrow> daemon_status \<Rightarrow> int \<Rightarrow> bool" where
  "status_alive process_exists s now =
     (if st_pid s = 0 then False
      else if now - st_updated s > StaleAfter then False
      else process_exists (st_pid s))"

section \<open>Options\<close>

record daemon_options =
  op_home :: string
  op_account :: bool
  op_notifier :: bool
  op_events :: bool
  op_debounce :: int
  op_max_debounce :: int
  op_pull_every :: int
  op_approvals_every :: int
  op_backoff_min :: int
  op_backoff_max :: int
  op_watch :: string
  op_roots :: "string list"
  op_backend :: string

definition DefaultDebounce :: int where "DefaultDebounce = 3 * second"
definition DefaultMaxDebounce :: int where "DefaultMaxDebounce = 30 * second"
definition DefaultPullEvery :: int where "DefaultPullEvery = 30 * second"
definition DefaultApprovalsEvery :: int where "DefaultApprovalsEvery = 60 * second"
definition DefaultBackoffMin :: int where "DefaultBackoffMin = 5 * second"
definition DefaultBackoffMax :: int where "DefaultBackoffMax = 600 * second"

definition positive_or :: "int \<Rightarrow> int \<Rightarrow> int" where
  "positive_or d v = (if v \<le> 0 then d else v)"

definition fill_options :: "daemon_options \<Rightarrow> daemon_options" where
  "fill_options o' = o'\<lparr>
     op_debounce := positive_or DefaultDebounce (op_debounce o'),
     op_max_debounce := positive_or DefaultMaxDebounce (op_max_debounce o'),
     op_pull_every := positive_or DefaultPullEvery (op_pull_every o'),
     op_approvals_every := positive_or DefaultApprovalsEvery (op_approvals_every o'),
     op_backoff_min := positive_or DefaultBackoffMin (op_backoff_min o'),
     op_backoff_max := positive_or DefaultBackoffMax (op_backoff_max o'),
     op_backend := (if op_backend o' = [] then ''byo'' else op_backend o'),
     op_watch := (if op_watch o' = [] then ''poll'' else op_watch o')\<rparr>"

section \<open>State and helpers\<close>

text \<open>The last clock reading is kept so that later readings are not earlier ones.\<close>

record daemon =
  dm_status :: daemon_status
  dm_dirty :: bool
  dm_first :: int
  dm_not_before :: "int option"
  dm_push_fails :: nat
  dm_pull_fails :: nat
  dm_seen :: "string list"
  dm_debounce :: "int option"
  dm_pull :: "int option"
  dm_approvals :: "int option"
  dm_heartbeat :: "int option"
  dm_events :: bool
  dm_file :: "daemon_status option"
  dm_notified :: "(string \<times> string) list"
  dm_running :: bool
  dm_clock :: int

datatype step_error = ConflictErr string | LockedErr string | OtherErr string

fun step_error_text :: "step_error \<Rightarrow> string" where
  "step_error_text (ConflictErr m) = m"
| "step_error_text (LockedErr m) = m"
| "step_error_text (OtherErr m) = m"

text \<open>One action: the clock before it, after it, and when the status is written; its result.\<close>

record daemon_act =
  ac_start :: int
  ac_done :: int
  ac_write :: int
  ac_saved :: bool
  ac_summary :: string
  ac_error :: "step_error option"

record approvals_act =
  ap_done :: int
  ap_write :: int
  ap_saved :: bool
  ap_answer :: "string + (pending_approval list \<times> pending_revocation list \<times> account_device list)"

definition write_status :: "daemon_options \<Rightarrow> int \<Rightarrow> bool \<Rightarrow> daemon \<Rightarrow> daemon" where
  "write_status o' now saved d =
     (let s = (dm_status d)\<lparr>st_updated := now\<rparr>; d' = d\<lparr>dm_status := s, dm_clock := now\<rparr> in
      if op_home o' = [] \<or> \<not> saved then d' else d'\<lparr>dm_file := Some s\<rparr>)"

definition mark_dirty :: "int \<Rightarrow> daemon \<Rightarrow> daemon" where
  "mark_dirty now d = (if dm_dirty d then d\<lparr>dm_dirty := True\<rparr> else d\<lparr>dm_first := now, dm_dirty := True\<rparr>)"

definition push_delay :: "daemon_options \<Rightarrow> int \<Rightarrow> daemon \<Rightarrow> int" where
  "push_delay o' now d =
     (let delay = (if now - dm_first d \<ge> op_max_debounce o' then 0 else op_debounce o') in
      case dm_not_before d of None \<Rightarrow> delay
      | Some nb \<Rightarrow> if nb - now > delay then nb - now else delay)"

text \<open>A duration is a signed 64-bit number, and doubling one wraps.\<close>

definition wrap64 :: "int \<Rightarrow> int" where
  "wrap64 n = (n + 2 ^ 63) mod 2 ^ 64 - 2 ^ 63"

fun backoff_loop :: "int \<Rightarrow> nat \<Rightarrow> int \<Rightarrow> int" where
  "backoff_loop hi 0 delay = delay"
| "backoff_loop hi (Suc n) delay = (if delay < hi then backoff_loop hi n (wrap64 (delay * 2)) else delay)"

definition backoff :: "daemon_options \<Rightarrow> nat \<Rightarrow> int" where
  "backoff o' fails =
     (let delay = backoff_loop (op_backoff_max o') (fails - 1) (op_backoff_min o') in
      if delay > op_backoff_max o' then op_backoff_max o' else delay)"

definition failure_delay :: "daemon_options \<Rightarrow> nat \<Rightarrow> step_error \<Rightarrow> int" where
  "failure_delay o' fails e = (case e of LockedErr m \<Rightarrow> op_backoff_min o' | _ \<Rightarrow> backoff o' fails)"

section \<open>Actions\<close>

text \<open>\<^verbatim>\<open>push\<close>: the delay before the next attempt (zero: none), and the new state.\<close>

definition do_push :: "daemon_options \<Rightarrow> daemon_act \<Rightarrow> daemon \<Rightarrow> int \<times> daemon" where
  "do_push o' a d0 =
     (let d = d0\<lparr>dm_first := ac_start a\<rparr>; now = ac_done a; last = oc_last_ok (st_push (dm_status d)) in
      case ac_error a of
        None \<Rightarrow>
          (0, write_status o' (ac_write a) (ac_saved a)
                (d\<lparr>dm_dirty := False, dm_push_fails := 0, dm_not_before := None,
                   dm_status := (dm_status d)\<lparr>st_push := \<lparr>oc_at = Some now, oc_ok = True, oc_summary = ac_summary a,
                      oc_error = [], oc_conflict = False, oc_last_ok = Some now\<rparr>\<rparr>\<rparr>))
      | Some (ConflictErr m) \<Rightarrow>
          (0, write_status o' (ac_write a) (ac_saved a)
                (d\<lparr>dm_dirty := False, dm_push_fails := 0, dm_not_before := None,
                   dm_status := (dm_status d)\<lparr>st_push := \<lparr>oc_at = Some now, oc_ok = False, oc_summary = ac_summary a,
                      oc_error = m, oc_conflict = True, oc_last_ok = last\<rparr>\<rparr>\<rparr>))
      | Some e \<Rightarrow>
          (let fails = Suc (dm_push_fails d); delay = failure_delay o' fails e in
           (delay, write_status o' (ac_write a) (ac_saved a)
                (d\<lparr>dm_push_fails := fails, dm_not_before := Some (now + delay),
                   dm_status := (dm_status d)\<lparr>st_push := \<lparr>oc_at = Some now, oc_ok = False, oc_summary = [],
                      oc_error = step_error_text e, oc_conflict = False, oc_last_ok = last\<rparr>\<rparr>\<rparr>))))"

definition do_pull :: "daemon_options \<Rightarrow> daemon_act \<Rightarrow> daemon \<Rightarrow> daemon" where
  "do_pull o' a d =
     (let now = ac_done a; last = oc_last_ok (st_pull (dm_status d));
          (next, fails, oc) = (case ac_error a of
            None \<Rightarrow> (op_pull_every o', 0, \<lparr>oc_at = Some now, oc_ok = True, oc_summary = ac_summary a, oc_error = [],
                       oc_conflict = False, oc_last_ok = Some now\<rparr>)
          | Some (ConflictErr m) \<Rightarrow> (op_pull_every o', 0, \<lparr>oc_at = Some now, oc_ok = False, oc_summary = ac_summary a,
                       oc_error = m, oc_conflict = True, oc_last_ok = last\<rparr>)
          | Some e \<Rightarrow> (failure_delay o' (Suc (dm_pull_fails d)) e, Suc (dm_pull_fails d), \<lparr>oc_at = Some now, oc_ok = False,
                       oc_summary = [], oc_error = step_error_text e, oc_conflict = False, oc_last_ok = last\<rparr>));
          d' = write_status o' (ac_write a) (ac_saved a) (d\<lparr>dm_pull_fails := fails, dm_status := (dm_status d)\<lparr>st_pull := oc\<rparr>\<rparr>) in
      d'\<lparr>dm_pull := Some (ac_write a + next)\<rparr>)"

definition shown_name :: "string \<Rightarrow> string \<Rightarrow> string" where
  "shown_name name device = (if name = [] then device else name)"

definition pair_key :: "pending_approval \<Rightarrow> string" where "pair_key p = ''pair:'' @ pa_request p"
definition revoke_key :: "pending_revocation \<Rightarrow> string" where "revoke_key r = ''revoke:'' @ pv_request r"

definition pair_notice :: "pending_approval \<Rightarrow> string \<times> string" where
  "pair_notice p = (''Reinstate: device wants to join'',
     shown_name (pa_name p) (pa_device p) @ '' wants to join your account. Run: rein devices approve'')"

definition revoke_notice :: "pending_revocation \<Rightarrow> string \<times> string" where
  "revoke_notice r = (''Reinstate: device revocation requested'',
     ''Revoke '' @ shown_name (pv_name r) (pv_device r) @ '' safely by running: rein devices revoke '' @ pv_device r)"

text \<open>One notification per request that was not seen before.\<close>

fun notify_new :: "bool \<Rightarrow> (string \<times> string \<times> string) list \<Rightarrow> string list \<Rightarrow> (string \<times> string) list \<times> string list" where
  "notify_new notifier [] seen = ([], seen)"
| "notify_new notifier ((key, notice) # rest) seen =
     (if key \<in> set seen then notify_new notifier rest seen
      else let (ns, seen') = notify_new notifier rest (key # seen) in
        (if notifier then (notice # ns, seen') else (ns, seen')))"

definition requests_of :: "pending_approval list \<Rightarrow> pending_revocation list \<Rightarrow> (string \<times> string \<times> string) list" where
  "requests_of pending revocations = map (\<lambda>p. (pair_key p, pair_notice p)) pending @ map (\<lambda>r. (revoke_key r, revoke_notice r)) revocations"

definition do_approvals :: "daemon_options \<Rightarrow> approvals_act \<Rightarrow> daemon \<Rightarrow> daemon" where
  "do_approvals o' a d0 =
     (if \<not> op_account o' then d0\<lparr>dm_approvals := None\<rparr>
      else let d = d0\<lparr>dm_status := (dm_status d0)\<lparr>st_approvals_at := Some (ap_done a)\<rparr>\<rparr> in
      case ap_answer a of
        Inl m \<Rightarrow>
          (write_status o' (ap_write a) (ap_saved a) (d\<lparr>dm_status := (dm_status d)\<lparr>st_approvals_error := m\<rparr>\<rparr>))
            \<lparr>dm_approvals := Some (ap_write a + op_approvals_every o')\<rparr>
      | Inr (pending, revocations, devices) \<Rightarrow>
          (let reqs = requests_of pending revocations;
               (notices, seen) = notify_new (op_notifier o') reqs (dm_seen d);
               kept = filter (\<lambda>k. k \<in> fst ` set reqs) seen in
           (write_status o' (ap_write a) (ap_saved a)
              (d\<lparr>dm_status := (dm_status d)\<lparr>st_approvals_error := [], st_pending := pending, st_revocations := revocations,
                   st_devices := devices\<rparr>, dm_seen := kept, dm_notified := dm_notified d @ notices\<rparr>))
            \<lparr>dm_approvals := Some (ap_write a + op_approvals_every o')\<rparr>))"

definition idle_outcome :: outcome where
  "idle_outcome = \<lparr>oc_at = None, oc_ok = False, oc_summary = [], oc_error = [], oc_conflict = False, oc_last_ok = None\<rparr>"

text \<open>\<^verbatim>\<open>Run\<close> up to its loop: the first status, the first pull and poll, and a push after the debounce.\<close>

definition daemon_fresh :: "daemon_options \<Rightarrow> int \<Rightarrow> int \<Rightarrow> daemon" where
  "daemon_fresh o' pid now =
     \<lparr>dm_status = \<lparr>st_version = StatusVersion, st_pid = pid, st_started = now, st_updated = now, st_watch = op_watch o',
        st_roots = op_roots o', st_backend = op_backend o', st_push = idle_outcome, st_pull = idle_outcome,
        st_pending = [], st_revocations = [], st_devices = [], st_approvals_error = [], st_approvals_at = None\<rparr>,
      dm_dirty = False, dm_first = now, dm_not_before = None, dm_push_fails = 0, dm_pull_fails = 0, dm_seen = [],
      dm_debounce = None, dm_pull = None, dm_approvals = None, dm_heartbeat = None, dm_events = op_events o',
      dm_file = None, dm_notified = [], dm_running = True, dm_clock = now\<rparr>"

definition daemon_start :: "daemon_options \<Rightarrow> int \<Rightarrow> int \<Rightarrow> bool \<Rightarrow> daemon_act \<Rightarrow> approvals_act \<Rightarrow> int \<Rightarrow> daemon" where
  "daemon_start o' pid now saved pull polls armed =
     (let d1 = write_status o' now saved (daemon_fresh o' pid now);
          d2 = do_pull o' pull d1;
          d3 = do_approvals o' polls d2;
          d4 = mark_dirty now d3 in
      d4\<lparr>dm_debounce := Some (armed + op_debounce o'), dm_heartbeat := Some (armed + HeartbeatEvery), dm_clock := armed\<rparr>)"

section \<open>The loop\<close>

text \<open>What the select of the loop takes up, with the clock readings and results of that round.\<close>

datatype trigger =
    Cancelled int bool
  | Changed int int
  | WatcherClosed
  | DebounceFired int daemon_act int
  | PullFired int daemon_act
  | ApprovalsFired int approvals_act
  | HeartbeatFired int int bool

fun daemon_round :: "daemon_options \<Rightarrow> trigger \<Rightarrow> daemon \<Rightarrow> daemon" where
  "daemon_round o' (Cancelled now saved) d =
     (write_status o' now saved (d\<lparr>dm_status := (dm_status d)\<lparr>st_pid := 0\<rparr>\<rparr>))\<lparr>dm_running := False\<rparr>"
| "daemon_round o' (Changed now armed) d =
     (let d' = mark_dirty now d in d'\<lparr>dm_debounce := Some (armed + push_delay o' now d'), dm_clock := armed\<rparr>)"
| "daemon_round o' WatcherClosed d = d\<lparr>dm_events := False\<rparr>"
| "daemon_round o' (DebounceFired at a armed) d =
     (let d' = d\<lparr>dm_debounce := None\<rparr> in
      if \<not> dm_dirty d' then d'
      else let (retry, d'') = do_push o' a d' in
        (if retry > 0 then d''\<lparr>dm_debounce := Some (armed + retry), dm_clock := armed\<rparr> else d''))"
| "daemon_round o' (PullFired at a) d = do_pull o' a d"
| "daemon_round o' (ApprovalsFired at a) d = do_approvals o' a d"
| "daemon_round o' (HeartbeatFired at armed saved) d =
     write_status o' armed saved (d\<lparr>dm_heartbeat := Some (armed + HeartbeatEvery)\<rparr>)"

text \<open>When a trigger can be taken: its timer is due, and the clock never runs backwards.\<close>

definition due :: "int option \<Rightarrow> int \<Rightarrow> bool" where
  "due timer now = (case timer of None \<Rightarrow> False | Some t \<Rightarrow> t \<le> now)"

definition act_in_order :: "int \<Rightarrow> daemon_act \<Rightarrow> bool" where
  "act_in_order at a \<longleftrightarrow> at \<le> ac_start a \<and> ac_start a \<le> ac_done a \<and> ac_done a \<le> ac_write a"

fun enabled :: "trigger \<Rightarrow> daemon \<Rightarrow> bool" where
  "enabled (Cancelled now saved) d \<longleftrightarrow> dm_clock d \<le> now"
| "enabled (Changed now armed) d \<longleftrightarrow> dm_events d \<and> dm_clock d \<le> now \<and> now \<le> armed"
| "enabled WatcherClosed d \<longleftrightarrow> dm_events d"
| "enabled (DebounceFired at a armed) d \<longleftrightarrow> due (dm_debounce d) at \<and> dm_clock d \<le> at \<and> act_in_order at a \<and> ac_write a \<le> armed"
| "enabled (PullFired at a) d \<longleftrightarrow> due (dm_pull d) at \<and> dm_clock d \<le> at \<and> act_in_order at a"
| "enabled (ApprovalsFired at a) d \<longleftrightarrow> due (dm_approvals d) at \<and> dm_clock d \<le> at \<and> at \<le> ap_done a \<and> ap_done a \<le> ap_write a"
| "enabled (HeartbeatFired at armed saved) d \<longleftrightarrow> due (dm_heartbeat d) at \<and> dm_clock d \<le> at \<and> at \<le> armed"

inductive daemon_reach :: "daemon_options \<Rightarrow> daemon \<Rightarrow> bool" for o' where
  started: "now \<le> ac_start pull \<Longrightarrow> act_in_order now pull \<Longrightarrow> ac_write pull \<le> ap_done polls \<Longrightarrow> ap_done polls \<le> ap_write polls \<Longrightarrow>
     ac_write pull \<le> armed \<Longrightarrow> ap_write polls \<le> armed \<Longrightarrow>
     daemon_reach o' (daemon_start o' pid now saved pull polls armed)"
| round: "daemon_reach o' d \<Longrightarrow> dm_running d \<Longrightarrow> enabled t d \<Longrightarrow> daemon_reach o' (daemon_round o' t d)"

inductive_cases daemon_reachE: "daemon_reach o' d"


section \<open>Backoff\<close>

lemma wrap64_small: "0 \<le> n \<Longrightarrow> n < 2 ^ 63 \<Longrightarrow> wrap64 n = n"
  by (simp add: wrap64_def)

lemma backoff_loop_capped:
  assumes "0 < delay" "hi \<le> 2 ^ 62"
  shows "0 < backoff_loop hi n delay \<and> min hi (backoff_loop hi n delay) = min hi (delay * 2 ^ n)"
  using assms(1)
proof (induction n arbitrary: delay)
  case (Suc n)
  show ?case
  proof (cases "delay < hi")
    case True
    with assms(2) Suc.prems have "wrap64 (delay * 2) = delay * 2" by (intro wrap64_small) auto
    with Suc.IH [of "delay * 2"] Suc.prems True show ?thesis by (simp add: ac_simps)
  next
    case False
    have "delay * 1 \<le> delay * 2 ^ Suc n" using Suc.prems by (intro mult_left_mono one_le_power) auto
    then have "hi \<le> delay * 2 ^ Suc n" using False by linarith
    with False Suc.prems show ?thesis by (simp add: min_def)
  qed
qed simp

text \<open>
  C38. The retry delay is the capped doubling it is meant to be: with a positive minimum and a maximum below
  half the range of a duration, the delay after \<open>n\<close> failures in a row is the minimum doubled
  \<open>n - 1\<close> times, cut off at the maximum, and the 64-bit doubling never overflows on the way.
\<close>
theorem backoff_is_capped_doubling:
  assumes "0 < op_backoff_min o'" "op_backoff_max o' \<le> 2 ^ 62"
  shows "backoff o' (Suc n) = min (op_backoff_max o') (op_backoff_min o' * 2 ^ n)"
  using backoff_loop_capped [OF assms, of n] by (simp add: backoff_def Let_def min_def split: if_splits)

definition options_ok :: "daemon_options \<Rightarrow> bool" where
  "options_ok o' \<longleftrightarrow> 0 < op_debounce o' \<and> 0 < op_max_debounce o' \<and> 0 < op_pull_every o' \<and> 0 < op_approvals_every o'
     \<and> 0 < op_backoff_min o' \<and> 0 < op_backoff_max o' \<and> op_backoff_max o' \<le> 2 ^ 62"

lemma fill_options_ok: "op_backoff_max o' \<le> 2 ^ 62 \<Longrightarrow> options_ok (fill_options o')"
  by (simp add: options_ok_def fill_options_def positive_or_def DefaultDebounce_def DefaultMaxDebounce_def
      DefaultPullEvery_def DefaultApprovalsEvery_def DefaultBackoffMin_def DefaultBackoffMax_def second_def)

lemma failure_delay_pos: "options_ok o' \<Longrightarrow> 0 < failure_delay o' fails e"
  using backoff_loop_capped [of "op_backoff_min o'" "op_backoff_max o'" "fails - 1"]
  by (cases e) (simp_all add: failure_delay_def options_ok_def backoff_def Let_def)

text \<open>
  A change is pushed soon and never inside a backoff: the delay a change is given is at most the debounce when no
  push has failed, zero once changes have kept coming for the maximal debounce, and otherwise ends no
  earlier than the backoff does.
\<close>
theorem push_delay_bounds:
  assumes "options_ok o'"
  shows "0 \<le> push_delay o' now d
    \<and> (dm_not_before d = None \<longrightarrow> push_delay o' now d \<le> op_debounce o')
    \<and> (dm_not_before d = None \<and> now - dm_first d \<ge> op_max_debounce o' \<longrightarrow> push_delay o' now d = 0)
    \<and> (\<forall>nb. dm_not_before d = Some nb \<longrightarrow> nb \<le> now + push_delay o' now d)"
  using assms by (auto simp: push_delay_def options_ok_def Let_def split: option.splits)

section \<open>The schedule stays alive\<close>

definition daemon_ok :: "daemon_options \<Rightarrow> daemon \<Rightarrow> bool" where
  "daemon_ok o' d \<longleftrightarrow> (dm_dirty d \<longrightarrow> dm_debounce d \<noteq> None) \<and> dm_pull d \<noteq> None \<and> dm_heartbeat d \<noteq> None
     \<and> (dm_approvals d \<noteq> None \<longleftrightarrow> op_account o')
     \<and> (\<forall>nb t. dm_not_before d = Some nb \<longrightarrow> dm_debounce d = Some t \<longrightarrow> nb \<le> t)"

lemma write_status_fields [simp]:
  "dm_dirty (write_status o' now saved d) = dm_dirty d" "dm_debounce (write_status o' now saved d) = dm_debounce d"
  "dm_pull (write_status o' now saved d) = dm_pull d" "dm_approvals (write_status o' now saved d) = dm_approvals d"
  "dm_heartbeat (write_status o' now saved d) = dm_heartbeat d" "dm_not_before (write_status o' now saved d) = dm_not_before d"
  "dm_seen (write_status o' now saved d) = dm_seen d" "dm_notified (write_status o' now saved d) = dm_notified d"
  "dm_status (write_status o' now saved d) = (dm_status d)\<lparr>st_updated := now\<rparr>" "dm_first (write_status o' now saved d) = dm_first d"
  "dm_running (write_status o' now saved d) = dm_running d" "dm_clock (write_status o' now saved d) = now"
  "dm_push_fails (write_status o' now saved d) = dm_push_fails d" "dm_pull_fails (write_status o' now saved d) = dm_pull_fails d"
  by (simp_all add: write_status_def Let_def)

lemma do_pull_fields [simp]:
  "dm_dirty (do_pull o' a d) = dm_dirty d" "dm_debounce (do_pull o' a d) = dm_debounce d" "dm_pull (do_pull o' a d) \<noteq> None"
  "dm_approvals (do_pull o' a d) = dm_approvals d" "dm_heartbeat (do_pull o' a d) = dm_heartbeat d"
  "dm_not_before (do_pull o' a d) = dm_not_before d" "dm_seen (do_pull o' a d) = dm_seen d" "dm_notified (do_pull o' a d) = dm_notified d"
  by (simp_all add: do_pull_def Let_def split: option.splits step_error.splits)

lemma do_approvals_fields [simp]:
  "dm_dirty (do_approvals o' a d) = dm_dirty d" "dm_debounce (do_approvals o' a d) = dm_debounce d"
  "dm_pull (do_approvals o' a d) = dm_pull d" "dm_heartbeat (do_approvals o' a d) = dm_heartbeat d"
  "dm_not_before (do_approvals o' a d) = dm_not_before d" "dm_approvals (do_approvals o' a d) = None \<longleftrightarrow> \<not> op_account o'"
  "(\<exists>t. dm_approvals (do_approvals o' a d) = Some t) \<longleftrightarrow> op_account o'"
  by (simp_all add: do_approvals_def Let_def split: sum.splits prod.splits)

lemma mark_dirty_fields [simp]:
  "dm_dirty (mark_dirty now d)" "dm_debounce (mark_dirty now d) = dm_debounce d" "dm_pull (mark_dirty now d) = dm_pull d"
  "dm_approvals (mark_dirty now d) = dm_approvals d" "dm_heartbeat (mark_dirty now d) = dm_heartbeat d"
  "dm_not_before (mark_dirty now d) = dm_not_before d" "dm_seen (mark_dirty now d) = dm_seen d" "dm_notified (mark_dirty now d) = dm_notified d"
  by (simp_all add: mark_dirty_def)

text \<open>The three outcomes of a push, as its caller sees them.\<close>

lemma do_push_cases:
  obtains (settled) "fst (do_push o' a d) = 0" "\<not> dm_dirty (snd (do_push o' a d))" "dm_not_before (snd (do_push o' a d)) = None"
      "ac_error a = None \<or> (\<exists>m. ac_error a = Some (ConflictErr m))"
    | (failed) e where "ac_error a = Some e" "\<forall>m. e \<noteq> ConflictErr m" "fst (do_push o' a d) = failure_delay o' (Suc (dm_push_fails d)) e"
      "dm_dirty (snd (do_push o' a d)) = dm_dirty d" "dm_not_before (snd (do_push o' a d)) = Some (ac_done a + fst (do_push o' a d))"
proof (cases "ac_error a")
  case None
  show thesis by (rule settled) (simp_all add: do_push_def None Let_def)
next
  case (Some e)
  show thesis
  proof (cases "\<exists>m. e = ConflictErr m")
    case True
    then obtain m where "e = ConflictErr m" by blast
    with Some show thesis by (intro settled) (simp_all add: do_push_def Let_def)
  next
    case False
    with Some show thesis by (intro failed) (auto simp: do_push_def Let_def split: step_error.splits)
  qed
qed

lemma do_push_fields [simp]:
  "dm_debounce (snd (do_push o' a d)) = dm_debounce d" "dm_pull (snd (do_push o' a d)) = dm_pull d"
  "dm_approvals (snd (do_push o' a d)) = dm_approvals d" "dm_heartbeat (snd (do_push o' a d)) = dm_heartbeat d"
  "dm_seen (snd (do_push o' a d)) = dm_seen d" "dm_notified (snd (do_push o' a d)) = dm_notified d"
  by (simp_all add: do_push_def Let_def split: option.splits step_error.splits)

lemma daemon_round_ok:
  assumes opts: "options_ok o'" and ok: "daemon_ok o' d" and en: "enabled t d"
  shows "daemon_ok o' (daemon_round o' t d)"
proof (cases t)
  case (Changed now armed)
  have "nb \<le> armed + push_delay o' now (mark_dirty now d)" if "dm_not_before d = Some nb" for nb
  proof -
    have "nb \<le> now + push_delay o' now (mark_dirty now d)" using that by (auto simp: push_delay_def Let_def)
    with en Changed show ?thesis by simp
  qed
  with ok Changed show ?thesis by (auto simp: daemon_ok_def Let_def)
next
  case (DebounceFired at' a armed)
  let ?d = "d\<lparr>dm_debounce := None\<rparr>"
  show ?thesis
  proof (cases "dm_dirty d")
    case False
    with ok DebounceFired show ?thesis by (simp add: daemon_ok_def)
  next
    case True
    obtain retry d' where p: "do_push o' a ?d = (retry, d')" by (cases "do_push o' a ?d")
    have base: "dm_pull d' \<noteq> None" "dm_heartbeat d' \<noteq> None" "dm_approvals d' \<noteq> None \<longleftrightarrow> op_account o'" "dm_debounce d' = None"
      using ok do_push_fields [of o' a ?d] by (simp_all add: p daemon_ok_def)
    have eval: "daemon_round o' t d = (if retry > 0 then d'\<lparr>dm_debounce := Some (armed + retry), dm_clock := armed\<rparr> else d')"
      using True DebounceFired p by (simp add: Let_def)
    show ?thesis
    proof (cases rule: do_push_cases [of o' a ?d])
      case settled
      with base eval show ?thesis by (simp add: daemon_ok_def p)
    next
      case (failed e)
      have "retry > 0" using failed(3) failure_delay_pos [OF opts] by (simp add: p)
      moreover have "ac_done a \<le> armed" using en DebounceFired by (simp add: act_in_order_def)
      ultimately show ?thesis using base eval failed(5) by (simp add: daemon_ok_def p)
    qed
  qed
qed (use ok in \<open>auto simp: daemon_ok_def\<close>)

lemma daemon_reach_ok:
  assumes "daemon_reach o' d" "options_ok o'"
  shows "daemon_ok o' d"
  using assms(1)
proof (induction rule: daemon_reach.induct)
  case (started now pull polls armed pid saved)
  have "dm_approvals (do_approvals o' polls x) \<noteq> None \<longleftrightarrow> op_account o'" for x by simp
  then show ?case by (simp add: daemon_start_def daemon_ok_def Let_def daemon_fresh_def)
next
  case (round d t)
  then show ?case using daemon_round_ok [OF assms(2)] by blast
qed



section \<open>Notifications\<close>

lemma notify_new_spec:
  assumes "notify_new b rs seen = (ns, seen')"
  shows "set seen' = set seen \<union> fst ` set rs \<and>
    (\<exists>ks. distinct (map fst ks) \<and> fst ` set ks = fst ` set rs - set seen \<and> set ks \<subseteq> set rs \<and> ns = (if b then map snd ks else []))"
  using assms
proof (induction b rs seen arbitrary: ns seen' rule: notify_new.induct)
  case (2 b key notice rest seen)
  show ?case
  proof (cases "key \<in> set seen")
    case True
    have r: "notify_new b rest seen = (ns, seen')" using 2(3) True by simp
    from 2(1) [OF True r] obtain ks where k: "set seen' = set seen \<union> fst ` set rest" "distinct (map fst ks)"
      "fst ` set ks = fst ` set rest - set seen" "set ks \<subseteq> set rest" "ns = (if b then map snd ks else [])" by blast
    have "fst ` set ((key, notice) # rest) - set seen = fst ` set rest - set seen"
      "set seen \<union> fst ` set ((key, notice) # rest) = set seen \<union> fst ` set rest" using True by auto
    moreover have "set ks \<subseteq> set ((key, notice) # rest)" using k(4) by auto
    ultimately show ?thesis using k by metis
  next
    case False
    obtain ns' where r: "notify_new b rest (key # seen) = (ns', seen')" "ns = (if b then notice # ns' else ns')"
      using 2(3) False by (auto split: prod.splits if_splits)
    from 2(2) [OF False r(1)] obtain ks where "set seen' = set (key # seen) \<union> fst ` set rest" "distinct (map fst ks)"
      "fst ` set ks = fst ` set rest - set (key # seen)" "set ks \<subseteq> set rest" "ns' = (if b then map snd ks else [])" by blast
    note k = this
    have "set seen' = set seen \<union> fst ` set ((key, notice) # rest)" using k(1) by auto
    moreover have "distinct (map fst ((key, notice) # ks))" using k(2,3) by auto
    moreover have "fst ` set ((key, notice) # ks) = fst ` set ((key, notice) # rest) - set seen" using k(3) False by auto
    moreover have "set ((key, notice) # ks) \<subseteq> set ((key, notice) # rest)" using k(4) by auto
    moreover have "ns = (if b then map snd ((key, notice) # ks) else [])" using k(5) r(2) by simp
    ultimately show ?thesis by blast
  qed
qed simp

lemma round_keeps_seen:
  assumes "\<And>at a x. t = ApprovalsFired at a \<Longrightarrow> ap_answer a \<noteq> Inr x"
  shows "dm_seen (daemon_round o' t d) = dm_seen d" "dm_notified (daemon_round o' t d) = dm_notified d"
proof -
  have "dm_seen (daemon_round o' t d) = dm_seen d \<and> dm_notified (daemon_round o' t d) = dm_notified d"
  proof (cases t)
    case (ApprovalsFired at' a)
    with assms [OF this] show ?thesis by (cases "ap_answer a") (auto simp: do_approvals_def Let_def)
  next
    case (DebounceFired at' a armed)
    obtain r d'' where p: "do_push o' a (d\<lparr>dm_debounce := None\<rparr>) = (r, d'')" by (cases "do_push o' a (d\<lparr>dm_debounce := None\<rparr>)")
    with do_push_fields(5,6) [of o' a "d\<lparr>dm_debounce := None\<rparr>"] have "dm_seen d'' = dm_seen d" "dm_notified d'' = dm_notified d" by simp_all
    with DebounceFired p show ?thesis by (simp add: Let_def)
  qed (simp_all add: Let_def)
  then show "dm_seen (daemon_round o' t d) = dm_seen d" "dm_notified (daemon_round o' t d) = dm_notified d" by simp_all
qed

text \<open>
  C28. One notification per request. A poll that succeeds notifies exactly the requests that were not waiting at the
  last successful poll, each once, and remembers exactly those waiting now; nothing else the loop does
  notifies or forgets. So a request is announced once for as long as it stays pending, and again only after it was gone.
\<close>
theorem approvals_notify_once:
  assumes "op_account o'" "op_notifier o'" "ap_answer a = Inr (pending, revocations, devices)"
  shows "set (dm_seen (do_approvals o' a d)) = fst ` set (requests_of pending revocations)
    \<and> (\<exists>ks. distinct (map fst ks) \<and> fst ` set ks = fst ` set (requests_of pending revocations) - set (dm_seen d)
          \<and> set ks \<subseteq> set (requests_of pending revocations) \<and> dm_notified (do_approvals o' a d) = dm_notified d @ map snd ks)
    \<and> (\<forall>t x. (\<forall>at' a'. t = ApprovalsFired at' a' \<longrightarrow> (\<exists>m. ap_answer a' = Inl m)) \<longrightarrow>
          dm_seen (daemon_round o' t x) = dm_seen x \<and> dm_notified (daemon_round o' t x) = dm_notified x)"
proof -
  let ?rs = "requests_of pending revocations"
  obtain ns seen where n: "notify_new True ?rs (dm_seen d) = (ns, seen)" by (cases "notify_new True ?rs (dm_seen d)")
  from notify_new_spec [OF n] obtain ks where k: "set seen = set (dm_seen d) \<union> fst ` set ?rs" "distinct (map fst ks)"
    "fst ` set ks = fst ` set ?rs - set (dm_seen d)" "set ks \<subseteq> set ?rs" "ns = map snd ks" by auto
  have "dm_seen (do_approvals o' a d) = filter (\<lambda>k. k \<in> fst ` set ?rs) seen" "dm_notified (do_approvals o' a d) = dm_notified d @ ns"
    using assms n by (simp_all add: do_approvals_def Let_def)
  moreover have "dm_seen (daemon_round o' t x) = dm_seen x \<and> dm_notified (daemon_round o' t x) = dm_notified x"
    if "\<forall>at' a'. t = ApprovalsFired at' a' \<longrightarrow> (\<exists>m. ap_answer a' = Inl m)" for t x
    using round_keeps_seen [of t o' x] that by fastforce
  ultimately show ?thesis using k by auto
qed

section \<open>The status tells the truth\<close>

definition outcome_ok :: "outcome \<Rightarrow> bool" where
  "outcome_ok c \<longleftrightarrow> (oc_ok c \<longrightarrow> oc_error c = [] \<and> \<not> oc_conflict c \<and> oc_at c \<noteq> None \<and> oc_last_ok c = oc_at c)"

definition status_ok :: "daemon \<Rightarrow> bool" where
  "status_ok d \<longleftrightarrow> outcome_ok (st_push (dm_status d)) \<and> outcome_ok (st_pull (dm_status d))
     \<and> (dm_push_fails d = 0 \<longleftrightarrow> dm_not_before d = None)
     \<and> (oc_ok (st_push (dm_status d)) \<or> oc_conflict (st_push (dm_status d)) \<longrightarrow> dm_push_fails d = 0)
     \<and> (oc_ok (st_pull (dm_status d)) \<or> oc_conflict (st_pull (dm_status d)) \<longrightarrow> dm_pull_fails d = 0)"

lemma do_push_status: "status_ok d \<Longrightarrow> status_ok (snd (do_push o' a d))"
  by (cases "ac_error a"; cases "the (ac_error a)") (auto simp: status_ok_def outcome_ok_def do_push_def Let_def)

lemma do_pull_status: "status_ok d \<Longrightarrow> status_ok (do_pull o' a d)"
  by (cases "ac_error a"; cases "the (ac_error a)") (auto simp: status_ok_def outcome_ok_def do_pull_def Let_def)

lemma do_approvals_status: "status_ok d \<Longrightarrow> status_ok (do_approvals o' a d)"
  by (cases "ap_answer a") (auto simp: status_ok_def do_approvals_def Let_def split: prod.splits)

lemma status_ok_cong:
  "status_ok d \<Longrightarrow> st_push (dm_status (d' :: daemon)) = st_push (dm_status d) \<Longrightarrow> st_pull (dm_status d') = st_pull (dm_status d) \<Longrightarrow>
   dm_push_fails d' = dm_push_fails d \<Longrightarrow> dm_pull_fails d' = dm_pull_fails d \<Longrightarrow> dm_not_before d' = dm_not_before d \<Longrightarrow> status_ok d'"
  by (auto simp: status_ok_def)

lemma daemon_round_status:
  assumes "status_ok d"
  shows "status_ok (daemon_round o' t d)"
proof (cases t)
  case (DebounceFired at' a armed)
  let ?d = "d\<lparr>dm_debounce := None\<rparr>"
  have "status_ok ?d" using assms by (rule status_ok_cong) simp_all
  from do_push_status [OF this, of o' a] have "status_ok (snd (do_push o' a ?d))" .
  then have "status_ok ((snd (do_push o' a ?d))\<lparr>dm_debounce := x, dm_clock := y\<rparr>)" for x y by (rule status_ok_cong) simp_all
  with \<open>status_ok ?d\<close> \<open>status_ok (snd (do_push o' a ?d))\<close> DebounceFired show ?thesis
    by (cases "do_push o' a ?d") (simp add: Let_def)
next
  case (Changed now armed)
  with assms show ?thesis by (auto intro!: status_ok_cong [OF assms] simp: mark_dirty_def Let_def)
next
  case (PullFired at' a)
  with do_pull_status [OF assms] show ?thesis by simp
next
  case (ApprovalsFired at' a)
  with do_approvals_status [OF assms] show ?thesis by simp
qed (auto intro!: status_ok_cong [OF assms])


section \<open>Concrete runs\<close>

definition toy_options :: daemon_options where
  "toy_options = \<lparr>op_home = ''/h'', op_account = True, op_notifier = True, op_events = True, op_debounce = 0, op_max_debounce = 0,
     op_pull_every = 0, op_approvals_every = 0, op_backoff_min = 0, op_backoff_max = 0, op_watch = [], op_roots = [], op_backend = ''hop''\<rparr>"

definition toy_act :: "int \<Rightarrow> int \<Rightarrow> step_error option \<Rightarrow> daemon_act" where
  "toy_act a b e = \<lparr>ac_start = a, ac_done = b, ac_write = b, ac_saved = True, ac_summary = ''ok'', ac_error = e\<rparr>"

definition toy_poll :: "pending_approval list \<Rightarrow> approvals_act" where
  "toy_poll ps = \<lparr>ap_done = 0, ap_write = 0, ap_saved = True, ap_answer = Inr (ps, [], [])\<rparr>"

definition toy_request :: pending_approval where
  "toy_request = \<lparr>pa_request = ''r1'', pa_device = ''d1'', pa_name = [], pa_platform = [], pa_expires = 0\<rparr>"

definition toy_daemon :: daemon where
  "toy_daemon = daemon_start (fill_options toy_options) 7 0 True (toy_act 0 0 None) (toy_poll [toy_request]) 0"

definition toy_failed :: daemon where
  "toy_failed = daemon_round (fill_options toy_options)
     (DebounceFired (3 * second) (toy_act (3 * second) (4 * second) (Some (OtherErr ''offline''))) (4 * second)) toy_daemon"

lemma toy_daemon_reach: "daemon_reach (fill_options toy_options) toy_daemon"
  unfolding toy_daemon_def by (rule daemon_reach.started) (simp_all add: toy_act_def toy_poll_def act_in_order_def)

lemma toy_daemon_state: "dm_dirty toy_daemon" "dm_debounce toy_daemon = Some (3 * second)" "dm_running toy_daemon" "dm_clock toy_daemon = 0"
    "dm_pull toy_daemon = Some (30 * second)" "st_updated (dm_status toy_daemon) = 0" "dm_push_fails toy_daemon = 0"
  by (simp_all add: toy_daemon_def daemon_start_def Let_def fill_options_def toy_options_def positive_or_def DefaultDebounce_def second_def
      do_approvals_def toy_poll_def do_pull_def toy_act_def mark_dirty_def daemon_fresh_def DefaultPullEvery_def split: prod.splits)

lemma toy_failed_reach: "daemon_reach (fill_options toy_options) toy_failed"
  unfolding toy_failed_def
  by (rule daemon_reach.round [OF toy_daemon_reach])
    (simp_all add: toy_daemon_state due_def act_in_order_def toy_act_def second_def)

theorem backoff_is_capped_doubling_witness:
  "backoff (fill_options toy_options) 3 = 20 * second \<and> backoff (fill_options toy_options) 9 = 600 * second"
  using backoff_is_capped_doubling [of "fill_options toy_options" 2] backoff_is_capped_doubling [of "fill_options toy_options" 8]
  by (simp add: eval_nat_numeral fill_options_def toy_options_def positive_or_def DefaultBackoffMin_def DefaultBackoffMax_def second_def)

theorem push_delay_bounds_witness:
  "push_delay (fill_options toy_options) (29 * second) toy_daemon \<le> 3 * second \<and> push_delay (fill_options toy_options) (30 * second) toy_daemon = 0"
  using push_delay_bounds [of "fill_options toy_options" "29 * second" toy_daemon] push_delay_bounds [of "fill_options toy_options" "30 * second" toy_daemon]
    fill_options_ok [of toy_options]
  by (simp add: toy_options_def fill_options_def positive_or_def DefaultDebounce_def DefaultMaxDebounce_def second_def
      toy_daemon_def daemon_start_def Let_def mark_dirty_def do_approvals_def toy_poll_def do_pull_def toy_act_def daemon_fresh_def split: prod.splits)


theorem approvals_notify_once_witness:
  "dm_notified (do_approvals (fill_options toy_options) (toy_poll [toy_request]) toy_daemon) = dm_notified toy_daemon"
proof -
  have seen: "dm_seen toy_daemon = [''pair:r1'']"
    by (simp add: toy_daemon_def daemon_start_def Let_def do_approvals_def toy_poll_def toy_options_def fill_options_def do_pull_def toy_act_def
        daemon_fresh_def requests_of_def pair_key_def toy_request_def mark_dirty_def)
  have "op_account (fill_options toy_options)" "op_notifier (fill_options toy_options)" "ap_answer (toy_poll [toy_request]) = Inr ([toy_request], [], [])"
    by (simp_all add: fill_options_def toy_options_def toy_poll_def)
  from approvals_notify_once [OF this, of toy_daemon] obtain ks where
    "fst ` set ks = fst ` set (requests_of [toy_request] []) - set (dm_seen toy_daemon)"
    "dm_notified (do_approvals (fill_options toy_options) (toy_poll [toy_request]) toy_daemon) = dm_notified toy_daemon @ map snd ks" by blast
  moreover have "fst ` set (requests_of [toy_request] []) = {''pair:r1''}" by (simp add: requests_of_def pair_key_def toy_request_def)
  ultimately show ?thesis using seen by simp
qed


text \<open>
  A live daemon can look stopped: the status is written between actions only, so while a pull (or push) takes longer than
  the stale limit of three minutes, a reader of the status takes the running daemon for dead, although the heartbeat
  is meant to keep a live daemon from ever looking stale.
\<close>
theorem busy_daemon_looks_stale:
  "\<exists>o' d at' a now. daemon_reach o' d \<and> dm_running d \<and> enabled (PullFired at' a) d \<and> ac_start a \<le> now \<and> now \<le> ac_done a
     \<and> \<not> status_alive (\<lambda>_. True) (dm_status d) now"
proof (intro exI conjI)
  show "daemon_reach (fill_options toy_options) toy_daemon" by (rule toy_daemon_reach)
  show "enabled (PullFired (30 * second) (toy_act (30 * second) (400 * second) None)) toy_daemon"
    by (simp add: toy_daemon_state due_def act_in_order_def toy_act_def second_def)
  show "\<not> status_alive (\<lambda>_. True) (dm_status toy_daemon) (300 * second)"
    by (simp add: status_alive_def toy_daemon_state StaleAfter_def second_def)
qed (simp_all add: toy_daemon_state toy_act_def second_def)

end
