(* ===== verification/Workspace_Compare.thy ===== *)
theory Workspace_Compare
  imports Go_Base
begin

text \<open>
  Comparing the workspace a session was recorded in with the one it is about to be continued in
  (\<^verbatim>\<open>internal/workspace/model.go\<close> and \<^verbatim>\<open>compare.go\<close>): a list of checks with a severity each, and the
  decision they add up to. Fields of the fingerprint the comparison never reads are left out.
\<close>

section \<open>Data\<close>

datatype provenance = VendorRecorded | ReinstateCheckpoint | PrelaunchObserved | CurrentObservation | Unavailable
datatype status = StMatch | StPresent | StChanged | StMissing | StUnknown | StError
datatype severity = Info | Warning | Block
datatype decision = Ready | ConfirmationRequired | Blocked
datatype tree_state = TreeClean | TreeModified | TreeUnavailable
datatype relation = RelEqual | RelAhead | RelBehind | RelDiverged | RelUnknown

record expected_string =
  es_value :: string
  es_provenance :: provenance

record expected_bool =
  eb_value :: bool
  eb_provenance :: provenance

record expectation =
  ex_workspace :: "expected_string option"
  ex_repository :: "expected_string option"
  ex_branch :: "expected_string option"
  ex_head :: "expected_string option"
  ex_dirty :: "expected_bool option"
  ex_digest :: "expected_string option"

record workspace_fingerprint =
  wf_exists :: bool
  wf_directory :: bool

record tree_fingerprint =
  tf_state :: tree_state
  tf_uncertain :: bool
  tf_digest :: string

record commit_relation =
  cr_relation :: relation
  cr_knowable :: bool

record git_fingerprint =
  gf_available :: bool
  gf_repository :: bool
  gf_repository_id :: string
  gf_branch :: string
  gf_detached :: bool
  gf_unborn :: bool
  gf_head :: string
  gf_tree :: tree_fingerprint
  gf_head_relation :: commit_relation
  gf_repository_ids :: "string list"

record fingerprint =
  fp_workspace :: workspace_fingerprint
  fp_git :: git_fingerprint

text \<open>What a check reports as expected and actual (Go's \<^verbatim>\<open>any\<close>, limited to what the code stores).\<close>

datatype check_value = NoValue | BoolValue bool | TextValue string | TreeValue tree_state | ListValue "string list"

record check =
  ck_id :: string
  ck_status :: status
  ck_severity :: severity
  ck_expected :: check_value
  ck_actual :: check_value
  ck_provenance :: provenance
  ck_message :: string
  ck_repair :: string

record diagnostic =
  di_id :: string
  di_status :: status
  di_severity :: severity
  di_message :: string

section \<open>The checks\<close>

definition trusted_provenance :: "provenance \<Rightarrow> bool" where
  "trusted_provenance p \<longleftrightarrow> p = VendorRecorded \<or> p = ReinstateCheckpoint \<or> p = PrelaunchObserved"

definition expectation_provenance :: "expected_string option \<Rightarrow> provenance" where
  "expectation_provenance x = (case x of None \<Rightarrow> Unavailable | Some s \<Rightarrow> es_provenance s)"

definition expectation_bool_provenance :: "expected_bool option \<Rightarrow> provenance" where
  "expectation_bool_provenance x = (case x of None \<Rightarrow> Unavailable | Some s \<Rightarrow> eb_provenance s)"

definition tree_provenance :: "expected_bool option \<Rightarrow> expected_string option \<Rightarrow> provenance" where
  "tree_provenance x digest = (case digest of Some d \<Rightarrow> es_provenance d | None \<Rightarrow> expectation_bool_provenance x)"

text \<open>An expectation that is there and can be trusted.\<close>

definition trusted_string :: "expected_string option \<Rightarrow> string option" where
  "trusted_string x = (case x of None \<Rightarrow> None | Some s \<Rightarrow> if trusted_provenance (es_provenance s) then Some (es_value s) else None)"

definition trusted_bool :: "expected_bool option \<Rightarrow> bool option" where
  "trusted_bool x = (case x of None \<Rightarrow> None | Some s \<Rightarrow> if trusted_provenance (eb_provenance s) then Some (eb_value s) else None)"

definition make_check :: "string \<Rightarrow> provenance \<Rightarrow> check_value \<Rightarrow> check_value \<Rightarrow> status \<Rightarrow> severity \<Rightarrow> string \<Rightarrow> string \<Rightarrow> check" where
  "make_check i p want got st sev msg rep =
     \<lparr>ck_id = i, ck_status = st, ck_severity = sev, ck_expected = want, ck_actual = got, ck_provenance = p,
      ck_message = msg, ck_repair = rep\<rparr>"

definition compare_workspace :: "expected_string option \<Rightarrow> workspace_fingerprint \<Rightarrow> check" where
  "compare_workspace want actual =
     (let mk = make_check ''workspace.available'' (expectation_provenance want)
                 (if want = None then NoValue else BoolValue True) (BoolValue (wf_exists actual \<and> wf_directory actual)) in
      if \<not> wf_exists actual then mk StMissing Block ''the recorded workspace is missing''
           ''restore or remap the recorded workspace before continuing''
      else if \<not> wf_directory actual then mk StMissing Block ''the recorded workspace is not a directory''
           ''restore or remap the recorded workspace before continuing''
      else mk StPresent Info ''the recorded workspace is available'' [])"

definition unavailable_git_checks :: "expectation \<Rightarrow> check list" where
  "unavailable_git_checks x =
     [make_check ''git.repository'' (expectation_provenance (ex_repository x)) NoValue NoValue StUnknown Info
        ''repository identity was not compared because Git is unavailable'' [],
      make_check ''git.branch'' (expectation_provenance (ex_branch x)) NoValue NoValue StUnknown Info
        ''branch identity was not compared because Git is unavailable'' [],
      make_check ''git.head'' (expectation_provenance (ex_head x)) NoValue NoValue StUnknown Info
        ''Git HEAD was not compared because Git is unavailable'' [],
      make_check ''git.working_tree'' (tree_provenance (ex_dirty x) (ex_digest x)) NoValue NoValue StUnknown Info
        ''working-tree state was not compared because Git is unavailable'' []]"

definition compare_repository :: "expected_string option \<Rightarrow> git_fingerprint \<Rightarrow> check" where
  "compare_repository want actual =
     (let mk = make_check ''git.repository'' (expectation_provenance want); got = TextValue (gf_repository_id actual) in
      case trusted_string want of
        None \<Rightarrow> mk NoValue got StUnknown Info ''the session has no trustworthy repository identity baseline'' []
      | Some v \<Rightarrow>
        if \<not> gf_repository actual then mk (TextValue v) got StMissing Block
             ''the recorded workspace is not a Git repository'' ''open the session in the recorded repository''
        else if gf_repository_id actual = [] then mk (TextValue v) got StUnknown Warning
             ''the current repository identity cannot be compared safely''
             ''verify the repository manually or configure its canonical remote''
        else if v = gf_repository_id actual \<or> v \<in> set (gf_repository_ids actual) then mk (TextValue v) got StMatch Info
             ''the current repository matches the recorded repository'' []
        else mk (TextValue v) got StChanged Block ''the current repository differs from the recorded repository''
             ''switch to the recorded repository before continuing'')"

definition compare_branch :: "expected_string option \<Rightarrow> git_fingerprint \<Rightarrow> check" where
  "compare_branch want actual =
     (let mk = make_check ''git.branch'' (expectation_provenance want); got = TextValue (gf_branch actual) in
      case trusted_string want of
        None \<Rightarrow> mk NoValue got StUnknown Info ''the session has no trustworthy branch baseline'' []
      | Some v \<Rightarrow>
        if \<not> gf_repository actual then mk (TextValue v) got StMissing Block
             ''the recorded Git branch cannot be verified outside a Git repository''
             ''restore the recorded Git repository before continuing''
        else if gf_unborn actual then mk (TextValue v) got StUnknown Warning
             ''the current branch cannot be compared safely''
             ''restore the recorded branch or explicitly continue without it''
        else if gf_detached actual then mk (TextValue v) (TextValue ''detached'') StChanged Warning
             ''the workspace has a detached HEAD instead of the recorded branch''
             ''switch to the recorded branch or acknowledge warning git.branch''
        else if v = gf_branch actual then mk (TextValue v) got StMatch Info
             ''the current branch matches the branch recorded by the session'' []
        else mk (TextValue v) got StChanged Warning
             ''the current branch differs from the branch recorded by the session''
             ''switch to the recorded branch or acknowledge warning git.branch'')"

definition head_change_message :: "commit_relation \<Rightarrow> string" where
  "head_change_message r =
     (if \<not> cr_knowable r then ''the current Git HEAD differs and its local relation to the recorded commit is unknown''
      else case cr_relation r of
        RelAhead \<Rightarrow> ''the current Git HEAD is ahead of the commit recorded by the session''
      | RelBehind \<Rightarrow> ''the current Git HEAD is behind the commit recorded by the session''
      | RelDiverged \<Rightarrow> ''the current Git HEAD has diverged from the commit recorded by the session''
      | _ \<Rightarrow> ''the current Git HEAD differs from the commit recorded by the session'')"

definition compare_head :: "expected_string option \<Rightarrow> git_fingerprint \<Rightarrow> check" where
  "compare_head want actual =
     (let mk = make_check ''git.head'' (expectation_provenance want); got = TextValue (gf_head actual) in
      case trusted_string want of
        None \<Rightarrow> mk NoValue got StUnknown Info ''the session has no trustworthy Git HEAD baseline'' []
      | Some v \<Rightarrow>
        if \<not> gf_repository actual then mk (TextValue v) got StMissing Block
             ''the recorded Git HEAD cannot be verified outside a Git repository''
             ''restore the recorded Git repository before continuing''
        else if gf_head actual = [] then mk (TextValue v) got StUnknown Warning
             ''the current Git HEAD cannot be compared safely''
             ''restore the recorded commit or acknowledge warning git.head''
        else if v = gf_head actual then mk (TextValue v) got StMatch Info
             ''the current Git HEAD matches the recorded commit'' []
        else mk (TextValue v) got StChanged Warning (head_change_message (gf_head_relation actual))
             ''review the local commit relation or acknowledge warning git.head'')"

definition compare_tree :: "expected_bool option \<Rightarrow> expected_string option \<Rightarrow> git_fingerprint \<Rightarrow> check" where
  "compare_tree want digest git =
     (let actual = gf_tree git; mk = make_check ''git.working_tree'' (tree_provenance want digest); got = TreeValue (tf_state actual) in
      if tf_uncertain actual then mk NoValue got StUnknown Warning
           ''the working tree could not be compared without trusting repository-controlled behavior''
           ''review warning git.working_tree before continuing''
      else if tf_state actual = TreeUnavailable then
        (if trusted_bool want \<noteq> None \<or> trusted_string digest \<noteq> None then mk NoValue got StMissing Block
             ''the recorded working-tree baseline cannot be verified outside a Git repository''
             ''restore the recorded Git repository before continuing''
         else mk NoValue got StUnknown Warning
             ''the current working tree is unavailable and no historical tree baseline exists''
             ''review warning git.working_tree before continuing'')
      else case trusted_string digest of
        Some v \<Rightarrow>
          (if v = tf_digest actual then mk (TextValue v) (TextValue (tf_digest actual)) StMatch Info
                ''the current working tree matches the recorded digest'' []
           else mk (TextValue v) (TextValue (tf_digest actual)) StChanged Warning
                ''the current working tree differs from the recorded digest''
                ''review local modifications or acknowledge warning git.working_tree'')
      | None \<Rightarrow>
        let dirty = (tf_state actual = TreeModified) in
        (case trusted_bool want of
          None \<Rightarrow>
            (if dirty then mk NoValue got StUnknown Warning
                  ''the current working tree is modified; no historical tree baseline exists''
                  ''review local modifications or acknowledge warning git.working_tree''
             else mk NoValue got StUnknown Info
                  ''the current working tree is clean; no historical tree baseline exists'' [])
        | Some b \<Rightarrow>
            (if b = dirty then mk (BoolValue b) got StMatch Info
                  ''the current working-tree state matches the recorded baseline'' []
             else mk (BoolValue b) got StChanged Warning
                  ''the current working-tree state differs from the recorded baseline''
                  ''review local modifications or acknowledge warning git.working_tree'')))"

text \<open>The decision: the first blocker ends it, a warning asks for confirmation.\<close>

fun severity_loop :: "severity list \<Rightarrow> decision \<Rightarrow> decision" where
  "severity_loop [] d = d"
| "severity_loop (s # ss) d =
     (case s of Block \<Rightarrow> Blocked | Warning \<Rightarrow> severity_loop ss ConfirmationRequired | Info \<Rightarrow> severity_loop ss d)"

definition aggregate_decision :: "check list \<Rightarrow> diagnostic list \<Rightarrow> decision" where
  "aggregate_decision checks diagnostics =
     severity_loop (map ck_severity checks @ map di_severity diagnostics) Ready"

definition workspace_compare :: "expectation \<Rightarrow> fingerprint \<Rightarrow> decision \<times> check list" where
  "workspace_compare x actual =
     (let git = fp_git actual;
          checks = compare_workspace (ex_workspace x) (fp_workspace actual) #
            (if \<not> gf_available git then unavailable_git_checks x
             else [compare_repository (ex_repository x) git, compare_branch (ex_branch x) git,
                   compare_head (ex_head x) git, compare_tree (ex_dirty x) (ex_digest x) git]) in
      (aggregate_decision checks [], checks))"

section \<open>What the decision means\<close>

lemma severity_loop_Ready: "severity_loop ss d = Ready \<longleftrightarrow> d = Ready \<and> (\<forall>s \<in> set ss. s = Info)"
  by (induction ss arbitrary: d) (auto split: severity.splits)

lemma severity_loop_Blocked: "severity_loop ss d = Blocked \<longleftrightarrow> d = Blocked \<and> Block \<notin> set ss \<and> Warning \<notin> set ss \<or> Block \<in> set ss"
  by (induction ss arbitrary: d) (auto split: severity.splits)

lemma make_check_simps [simp]:
  "ck_id (make_check i p w g st sev m r) = i" "ck_status (make_check i p w g st sev m r) = st"
  "ck_severity (make_check i p w g st sev m r) = sev" "ck_provenance (make_check i p w g st sev m r) = p"
  by (simp_all add: make_check_def)

lemmas compare_defs = compare_workspace_def compare_repository_def compare_branch_def compare_head_def compare_tree_def Let_def

lemma repository_Info:
  "ck_severity (compare_repository x g) = Info \<longleftrightarrow> (\<forall>v. trusted_string x = Some v \<longrightarrow>
     gf_repository g \<and> gf_repository_id g \<noteq> [] \<and> (v = gf_repository_id g \<or> v \<in> set (gf_repository_ids g)))"
  by (auto simp: compare_repository_def Let_def split: option.splits)

lemma branch_Info:
  "ck_severity (compare_branch x g) = Info \<longleftrightarrow> (\<forall>v. trusted_string x = Some v \<longrightarrow>
     gf_repository g \<and> \<not> gf_unborn g \<and> \<not> gf_detached g \<and> v = gf_branch g)"
  by (auto simp: compare_branch_def Let_def split: option.splits)

lemma head_Info:
  "ck_severity (compare_head x g) = Info \<longleftrightarrow> (\<forall>v. trusted_string x = Some v \<longrightarrow>
     gf_repository g \<and> gf_head g \<noteq> [] \<and> v = gf_head g)"
  by (auto simp: compare_head_def Let_def split: option.splits)

lemma tree_Info:
  "ck_severity (compare_tree x d g) = Info \<longleftrightarrow> \<not> tf_uncertain (gf_tree g) \<and> tf_state (gf_tree g) \<noteq> TreeUnavailable
     \<and> (case trusted_string d of Some v \<Rightarrow> v = tf_digest (gf_tree g)
        | None \<Rightarrow> (tf_state (gf_tree g) = TreeModified \<longleftrightarrow> trusted_bool x = Some True))"
  by (cases "tf_state (gf_tree g)") (auto simp: compare_tree_def Let_def split: option.splits)

lemma workspace_Info: "ck_severity (compare_workspace x w) = Info \<longleftrightarrow> wf_exists w \<and> wf_directory w"
  by (simp add: compare_workspace_def Let_def)

lemma compare_Ready:
  assumes "gf_available (fp_git actual)"
  shows "fst (workspace_compare x actual) = Ready \<longleftrightarrow> ck_severity (compare_workspace (ex_workspace x) (fp_workspace actual)) = Info
    \<and> ck_severity (compare_repository (ex_repository x) (fp_git actual)) = Info \<and> ck_severity (compare_branch (ex_branch x) (fp_git actual)) = Info
    \<and> ck_severity (compare_head (ex_head x) (fp_git actual)) = Info
    \<and> ck_severity (compare_tree (ex_dirty x) (ex_digest x) (fp_git actual)) = Info"
  unfolding workspace_compare_def Let_def fst_conv aggregate_decision_def severity_loop_Ready using assms by simp

text \<open>
  C33. Ready means verified. With Git available, the comparison is ready exactly when the workspace is a
  directory that exists and every recorded fact with a trustworthy provenance holds of it: the repository (under any of its
  remotes), the branch (attached and born), the HEAD commit, and the working tree, which must
  equal its recorded digest, else its recorded state, else be clean, and in no case be uncertain.
\<close>
theorem ready_means_verified:
  assumes "gf_available (fp_git actual)"
  shows "fst (workspace_compare x actual) = Ready \<longleftrightarrow>
      wf_exists (fp_workspace actual) \<and> wf_directory (fp_workspace actual)
    \<and> (\<forall>v. trusted_string (ex_repository x) = Some v \<longrightarrow> gf_repository (fp_git actual) \<and> gf_repository_id (fp_git actual) \<noteq> []
          \<and> (v = gf_repository_id (fp_git actual) \<or> v \<in> set (gf_repository_ids (fp_git actual))))
    \<and> (\<forall>v. trusted_string (ex_branch x) = Some v \<longrightarrow> gf_repository (fp_git actual) \<and> \<not> gf_unborn (fp_git actual)
          \<and> \<not> gf_detached (fp_git actual) \<and> v = gf_branch (fp_git actual))
    \<and> (\<forall>v. trusted_string (ex_head x) = Some v \<longrightarrow> gf_repository (fp_git actual) \<and> gf_head (fp_git actual) \<noteq> [] \<and> v = gf_head (fp_git actual))
    \<and> \<not> tf_uncertain (gf_tree (fp_git actual)) \<and> tf_state (gf_tree (fp_git actual)) \<noteq> TreeUnavailable
    \<and> (case trusted_string (ex_digest x) of Some v \<Rightarrow> v = tf_digest (gf_tree (fp_git actual))
       | None \<Rightarrow> (tf_state (gf_tree (fp_git actual)) = TreeModified \<longleftrightarrow> trusted_bool (ex_dirty x) = Some True))"
  unfolding compare_Ready [OF assms] repository_Info branch_Info head_Info tree_Info workspace_Info by blast

text \<open>
  Unknown never becomes a match. A Git fact without a trustworthy baseline is reported as unknown, whatever the
  workspace looks like, and a check that reports a match compared a trusted recorded value with
  an equal observed one; so a live observation is never passed off as history.
\<close>
theorem untrusted_never_matches:
  "(trusted_string x = None \<longrightarrow> ck_status (compare_repository x g) = StUnknown \<and> ck_status (compare_branch x g) = StUnknown
      \<and> ck_status (compare_head x g) = StUnknown)
   \<and> (trusted_string x = None \<and> trusted_bool b = None \<longrightarrow> ck_status (compare_tree b x g) = StUnknown)
   \<and> (ck_status (compare_branch x g) = StMatch \<longrightarrow> trusted_string x = Some (gf_branch g))
   \<and> (ck_status (compare_head x g) = StMatch \<longrightarrow> trusted_string x = Some (gf_head g))
   \<and> (ck_status (compare_repository x g) = StMatch \<longrightarrow> (\<exists>v. trusted_string x = Some v \<and> (v = gf_repository_id g \<or> v \<in> set (gf_repository_ids g))))
   \<and> (ck_status (compare_tree b x g) = StMatch \<longrightarrow> trusted_string x = Some (tf_digest (gf_tree g))
        \<or> trusted_bool b = Some (tf_state (gf_tree g) = TreeModified))"
  by (intro conjI impI) (auto simp: compare_repository_def compare_branch_def compare_head_def compare_tree_def Let_def
      split: option.splits if_splits)

section \<open>A concrete comparison\<close>

definition toy_expectation :: expectation where
  "toy_expectation = \<lparr>ex_workspace = None, ex_repository = Some \<lparr>es_value = ''r'', es_provenance = VendorRecorded\<rparr>,
     ex_branch = Some \<lparr>es_value = ''main'', es_provenance = VendorRecorded\<rparr>, ex_head = None, ex_dirty = None, ex_digest = None\<rparr>"

definition toy_fingerprint :: fingerprint where
  "toy_fingerprint = \<lparr>fp_workspace = \<lparr>wf_exists = True, wf_directory = True\<rparr>,
     fp_git = \<lparr>gf_available = True, gf_repository = True, gf_repository_id = ''r'', gf_branch = ''main'', gf_detached = False,
       gf_unborn = False, gf_head = ''c'', gf_tree = \<lparr>tf_state = TreeClean, tf_uncertain = False, tf_digest = ''d''\<rparr>,
       gf_head_relation = \<lparr>cr_relation = RelUnknown, cr_knowable = False\<rparr>, gf_repository_ids = []\<rparr>\<rparr>"

theorem ready_means_verified_witness:
  "fst (workspace_compare toy_expectation toy_fingerprint) = Ready
   \<and> fst (workspace_compare toy_expectation (toy_fingerprint\<lparr>fp_git := (fp_git toy_fingerprint)\<lparr>gf_branch := ''dev''\<rparr>\<rparr>)) \<noteq> Ready"
  using ready_means_verified [of toy_fingerprint toy_expectation]
    ready_means_verified [of "toy_fingerprint\<lparr>fp_git := (fp_git toy_fingerprint)\<lparr>gf_branch := ''dev''\<rparr>\<rparr>" toy_expectation]
  by (simp add: toy_fingerprint_def toy_expectation_def trusted_string_def trusted_bool_def trusted_provenance_def)

theorem untrusted_never_matches_witness:
  "ck_status (compare_branch (Some \<lparr>es_value = ''main'', es_provenance = CurrentObservation\<rparr>) (fp_git toy_fingerprint)) = StUnknown"
  using untrusted_never_matches [of "Some \<lparr>es_value = ''main'', es_provenance = CurrentObservation\<rparr>" "fp_git toy_fingerprint" None]
  by (simp add: trusted_string_def trusted_provenance_def)

end
