(* ===== verification/Go_Unicode.thy ===== *)
theory Go_Unicode
  imports Go_Base
begin

text \<open>
  The part of Go's \<^verbatim>\<open>unicode/utf8\<close> and \<^verbatim>\<open>unicode\<close> the program uses: runes of a byte string, the classes
  of runes that are spaces, controls and format characters, and \<^verbatim>\<open>strings.TrimSpace\<close>.
\<close>

section \<open>UTF-8\<close>

definition byte_at :: "nat \<Rightarrow> char" where "byte_at n = char_of n"

definition cont_byte :: "char \<Rightarrow> bool" where
  "cont_byte c \<longleftrightarrow> 128 \<le> (of_char c :: nat) \<and> (of_char c :: nat) < 192"

definition utf8_encode_rune :: "nat \<Rightarrow> bytes" where
  "utf8_encode_rune r =
     (if r < 128 then [byte_at r]
      else if r < 2048 then [byte_at (192 + r div 64), byte_at (128 + r mod 64)]
      else if r < 65536 then [byte_at (224 + r div 4096), byte_at (128 + r div 64 mod 64), byte_at (128 + r mod 64)]
      else [byte_at (240 + r div 262144), byte_at (128 + r div 4096 mod 64), byte_at (128 + r div 64 mod 64), byte_at (128 + r mod 64)])"

definition utf8_encode :: "nat list \<Rightarrow> bytes" where
  "utf8_encode rs = concat (map utf8_encode_rune rs)"

text \<open>
  The rune at the front of a string and what is left behind it: shortest form, no surrogates,
  nothing above \<open>10FFFF\<close>.
\<close>

definition rune2 :: "nat \<Rightarrow> bytes \<Rightarrow> (nat \<times> bytes) option" where
  "rune2 a s = (case s of c # t \<Rightarrow> (if 194 \<le> a \<and> a < 224 \<and> cont_byte c then Some ((a - 192) * 64 + (of_char c - 128), t) else None) | _ \<Rightarrow> None)"

definition rune3 :: "nat \<Rightarrow> bytes \<Rightarrow> (nat \<times> bytes) option" where
  "rune3 a s = (case s of c # d # t \<Rightarrow>
     (let r = (a - 224) * 4096 + (of_char c - 128) * 64 + (of_char d - 128) in
      if 224 \<le> a \<and> a < 240 \<and> cont_byte c \<and> cont_byte d \<and> 2048 \<le> r \<and> \<not> (55296 \<le> r \<and> r < 57344) then Some (r, t) else None) | _ \<Rightarrow> None)"

definition rune4 :: "nat \<Rightarrow> bytes \<Rightarrow> (nat \<times> bytes) option" where
  "rune4 a s = (case s of c # d # e # t \<Rightarrow>
     (let r = (a - 240) * 262144 + (of_char c - 128) * 4096 + (of_char d - 128) * 64 + (of_char e - 128) in
      if 240 \<le> a \<and> a < 248 \<and> cont_byte c \<and> cont_byte d \<and> cont_byte e \<and> 65536 \<le> r \<and> r < 1114112 then Some (r, t) else None) | _ \<Rightarrow> None)"

definition utf8_first :: "char \<Rightarrow> bytes \<Rightarrow> (nat \<times> bytes) option" where
  "utf8_first c s =
     (let a = (of_char c :: nat) in
      if a < 128 then Some (a, s)
      else if a < 224 then rune2 a s
      else if a < 240 then rune3 a s
      else rune4 a s)"

lemma utf8_first_shorter: "utf8_first c s = Some (r, t) \<Longrightarrow> length t \<le> length s"
  by (auto simp: utf8_first_def rune2_def rune3_def rune4_def Let_def split: if_splits list.splits)

text \<open>\<^verbatim>\<open>strings.ToValidUTF8(value, "")\<close> and ranging over the result: invalid bytes are skipped one by one.\<close>

function utf8_decode :: "bytes \<Rightarrow> nat list" where
  "utf8_decode [] = []"
| "utf8_decode (c # s) = (case utf8_first c s of None \<Rightarrow> utf8_decode s | Some (r, t) \<Rightarrow> r # utf8_decode t)"
  by pat_completeness auto
termination
  by (relation "measure length") (auto dest: utf8_first_shorter)

definition rune_ok :: "nat \<Rightarrow> bool" where
  "rune_ok r \<longleftrightarrow> r < 1114112 \<and> \<not> (55296 \<le> r \<and> r < 57344)"

lemma of_byte_at [simp]: "n < 256 \<Longrightarrow> (of_char (byte_at n) :: nat) = n"
  by (simp add: byte_at_def)

lemma cont_byte_at: "n < 64 \<Longrightarrow> cont_byte (byte_at (128 + n))"
  by (simp add: cont_byte_def)

lemma cont_byte_bound: "cont_byte c \<Longrightarrow> (of_char c :: nat) - 128 < 64"
  by (auto simp: cont_byte_def)

lemma utf8_first_encode:
  assumes "rune_ok r"
  shows "\<exists>c s. utf8_encode_rune r = c # s \<and> utf8_first c (s @ t) = Some (r, t)"
proof -
  consider "r < 128" | "128 \<le> r" "r < 2048" | "2048 \<le> r" "r < 65536" | "65536 \<le> r" "r < 1114112"
    using assms by (meson not_le rune_ok_def)
  then show ?thesis
  proof cases
    case 1
    then show ?thesis by (simp add: utf8_encode_rune_def utf8_first_def)
  next
    case 2
    have b: "r div 64 < 32" "2 \<le> r div 64" using 2 by auto
    have "r div 64 * 64 + r mod 64 = r" by simp
    with 2 b show ?thesis
      by (auto simp: utf8_encode_rune_def utf8_first_def rune2_def cont_byte_at Let_def)
  next
    case 3
    have b: "r div 4096 < 16" using 3 by auto
    have "r div 4096 * 4096 + r div 64 mod 64 * 64 + r mod 64 = r"
    proof -
      have "r div 4096 = r div 64 div 64" by (simp add: div_mult2_eq [symmetric])
      then have "r div 4096 * 64 + r div 64 mod 64 = r div 64" by simp
      then have "(r div 4096 * 64 + r div 64 mod 64) * 64 + r mod 64 = r" by simp
      then show ?thesis by (simp add: algebra_simps)
    qed
    with 3 b assms show ?thesis
      by (simp add: utf8_encode_rune_def utf8_first_def rune3_def cont_byte_at rune_ok_def Let_def)
  next
    case 4
    have b: "r div 262144 < 8" using 4 by auto
    have "r div 262144 * 262144 + r div 4096 mod 64 * 4096 + r div 64 mod 64 * 64 + r mod 64 = r"
    proof -
      have "r div 4096 = r div 64 div 64" "r div 262144 = r div 64 div 64 div 64" by (simp_all add: div_mult2_eq [symmetric])
      then have "r div 262144 * 64 + r div 4096 mod 64 = r div 4096" "r div 4096 * 64 + r div 64 mod 64 = r div 64" by simp_all
      then have "((r div 262144 * 64 + r div 4096 mod 64) * 64 + r div 64 mod 64) * 64 + r mod 64 = r" by simp
      then show ?thesis by (simp add: algebra_simps)
    qed
    with 4 b show ?thesis
      by (simp add: utf8_encode_rune_def utf8_first_def rune4_def cont_byte_at Let_def)
  qed
qed

lemma utf8_round_trip: "\<forall>r \<in> set rs. rune_ok r \<Longrightarrow> utf8_decode (utf8_encode rs @ t) = rs @ utf8_decode t"
proof (induction rs)
  case (Cons r rs)
  obtain c s where c: "utf8_encode_rune r = c # s" "utf8_first c (s @ utf8_encode rs @ t) = Some (r, utf8_encode rs @ t)"
    using utf8_first_encode [of r "utf8_encode rs @ t"] Cons.prems by auto
  then have "utf8_decode (utf8_encode (r # rs) @ t) = r # utf8_decode (utf8_encode rs @ t)" by (simp add: utf8_encode_def)
  with Cons show ?case by simp
qed (simp add: utf8_encode_def)

lemma rune3_bound: "a < 240 \<Longrightarrow> x < 64 \<Longrightarrow> y < 64 \<Longrightarrow> (a - 224) * 4096 + x * 64 + y < (1114112::nat)"
  by (simp add: less_diff_conv2)

lemma utf8_first_ok: "utf8_first c s = Some (r, t) \<Longrightarrow> rune_ok r"
  by (auto simp: utf8_first_def rune2_def rune3_def rune4_def rune_ok_def Let_def dest!: cont_byte_bound intro: rune3_bound split: if_splits list.splits)

lemma utf8_decode_ok: "r \<in> set (utf8_decode s) \<Longrightarrow> rune_ok r"
  by (induction s rule: utf8_decode.induct) (auto dest: utf8_first_ok split: option.splits)

lemma decode_encode_ok: "\<forall>r \<in> set rs. rune_ok r \<Longrightarrow> utf8_decode (utf8_encode rs) = rs"
  using utf8_round_trip [of rs "[]"] by simp

section \<open>Character classes\<close>

text \<open>\<^verbatim>\<open>unicode.IsSpace\<close>, \<^verbatim>\<open>unicode.IsControl\<close> and the format characters \<^verbatim>\<open>unicode.Cf\<close>.\<close>

definition is_space_rune :: "nat \<Rightarrow> bool" where
  "is_space_rune r \<longleftrightarrow> 9 \<le> r \<and> r \<le> 13 \<or> r = 32 \<or> r = 133 \<or> r = 160 \<or> r = 5760 \<or> 8192 \<le> r \<and> r \<le> 8202
     \<or> r = 8232 \<or> r = 8233 \<or> r = 8239 \<or> r = 8287 \<or> r = 12288"

definition is_control_rune :: "nat \<Rightarrow> bool" where
  "is_control_rune r \<longleftrightarrow> r < 32 \<or> 127 \<le> r \<and> r < 160"

definition format_ranges :: "(nat \<times> nat) list" where
  "format_ranges = [(173, 173), (1536, 1541), (1564, 1564), (1757, 1757), (1807, 1807), (2192, 2193), (2274, 2274),
     (6158, 6158), (8203, 8207), (8234, 8238), (8288, 8292), (8294, 8303), (65279, 65279), (65529, 65531),
     (69821, 69821), (69837, 69837), (78896, 78911), (113824, 113827), (119155, 119162), (917505, 917505), (917536, 917631)]"

definition is_format_rune :: "nat \<Rightarrow> bool" where
  "is_format_rune r \<longleftrightarrow> list_ex (\<lambda>(a, b). a \<le> r \<and> r \<le> b) format_ranges"

section \<open>Trimming\<close>

text \<open>\<^verbatim>\<open>strings.TrimSpace\<close>, on the runes of a string (an invalid byte is a piece of its own and no space).\<close>

function rune_split :: "bytes \<Rightarrow> bytes list" where
  "rune_split [] = []"
| "rune_split (c # s) = (case utf8_first c s of None \<Rightarrow> [c] # rune_split s
     | Some (r, t) \<Rightarrow> take (length s + 1 - length t) (c # s) # rune_split t)"
  by pat_completeness auto
termination
  by (relation "measure length") (auto dest: utf8_first_shorter)

definition space_piece :: "bytes \<Rightarrow> bool" where
  "space_piece p = (case utf8_decode p of [r] \<Rightarrow> is_space_rune r | _ \<Rightarrow> False)"

definition trim_space :: "bytes \<Rightarrow> bytes" where
  "trim_space s = concat (rev (dropWhile space_piece (rev (dropWhile space_piece (rune_split s)))))"

lemma utf8_first_ascii: "(of_char c :: nat) < 128 \<Longrightarrow> utf8_first c s = Some (of_char c, s)"
  by (simp add: utf8_first_def)

lemma no_drop: "\<forall>x \<in> set xs. \<not> P x \<Longrightarrow> dropWhile P xs = xs"
  by (cases xs) auto

end
