(* ===== verification/Safetext.thy ===== *)
theory Safetext
  imports Go_Unicode
begin

text \<open>
  Text that is safe to print on a terminal (\<^verbatim>\<open>internal/safetext/text.go\<close>): escape sequences, control
  and format characters removed, white space collapsed. Runes are natural numbers.
\<close>

section \<open>Terminal sequences\<close>

datatype strip_state = InText | InEscape | InCSI | InString | InStringEscape

text \<open>One rune: the next state and what is written.\<close>

fun strip_step :: "strip_state \<Rightarrow> nat \<Rightarrow> strip_state \<times> nat list" where
  "strip_step InText r =
     (if r = 27 then (InEscape, [])
      else if r = 155 then (InCSI, [])
      else if r = 144 \<or> r = 157 \<or> r = 158 \<or> r = 159 then (InString, [])
      else (InText, [r]))"
| "strip_step InEscape r =
     (if r = 91 then (InCSI, [])
      else if r = 93 \<or> r = 80 \<or> r = 88 \<or> r = 94 \<or> r = 95 then (InString, [])
      else (InText, []))"
| "strip_step InCSI r = (if 64 \<le> r \<and> r \<le> 126 then (InText, []) else (InCSI, []))"
| "strip_step InString r = (if r = 7 then (InText, []) else if r = 27 then (InStringEscape, []) else (InString, []))"
| "strip_step InStringEscape r =
     (if r = 92 then (InText, []) else if r \<noteq> 27 then (InString, []) else (InStringEscape, []))"

fun strip_from :: "strip_state \<Rightarrow> nat list \<Rightarrow> nat list" where
  "strip_from st [] = []"
| "strip_from st (r # rs) = (let (st', out) = strip_step st r in out @ strip_from st' rs)"

definition strip_terminal_sequences :: "nat list \<Rightarrow> nat list" where
  "strip_terminal_sequences rs = strip_from InText rs"

section \<open>The text\<close>

text \<open>
  The loop of \<^verbatim>\<open>Text\<close>: what has been written, whether a space is due and how many runes were written. A
  limit of zero is no limit.
\<close>

fun text_loop :: "nat \<Rightarrow> nat list \<Rightarrow> nat list \<Rightarrow> bool \<Rightarrow> nat \<Rightarrow> nat list" where
  "text_loop limit [] out sp n = out"
| "text_loop limit (r # rs) out sp n =
     (if is_space_rune r then text_loop limit rs out (sp \<or> out \<noteq> []) n
      else if is_control_rune r \<or> is_format_rune r then text_loop limit rs out sp n
      else if sp then
        (if limit > 0 \<and> n \<ge> limit then out
         else if limit > 0 \<and> Suc n \<ge> limit then out @ [32]
         else text_loop limit rs (out @ [32, r]) False (n + 2))
      else if limit > 0 \<and> n \<ge> limit then out
      else text_loop limit rs (out @ [r]) False (Suc n))"

definition trim_space_runes :: "nat list \<Rightarrow> nat list" where
  "trim_space_runes rs = rev (dropWhile is_space_rune (rev (dropWhile is_space_rune rs)))"

definition text_runes :: "nat list \<Rightarrow> nat \<Rightarrow> nat list" where
  "text_runes rs limit = trim_space_runes (text_loop limit (strip_terminal_sequences rs) [] False 0)"

definition safe_text :: "bytes \<Rightarrow> nat \<Rightarrow> bytes" where
  "safe_text value limit = utf8_encode (text_runes (utf8_decode value) limit)"

section \<open>What the text looks like\<close>

definition printable :: "nat \<Rightarrow> bool" where
  "printable r \<longleftrightarrow> \<not> is_space_rune r \<and> \<not> is_control_rune r \<and> \<not> is_format_rune r"

text \<open>Single spaces between printable runes, none at either end.\<close>

fun clean_from :: "bool \<Rightarrow> nat list \<Rightarrow> bool" where
  "clean_from word [] = word"
| "clean_from word (r # rs) = (if printable r then clean_from True rs else r = 32 \<and> word \<and> rs \<noteq> [] \<and> printable (hd rs) \<and> clean_from False rs)"

definition clean_text :: "nat list \<Rightarrow> bool" where
  "clean_text rs \<longleftrightarrow> rs = [] \<or> clean_from False rs"

lemma not_printable_32 [simp]: "\<not> printable 32" "is_space_rune 32"
  by (simp_all add: printable_def is_space_rune_def)

lemma clean_from_snoc: "clean_from w rs \<Longrightarrow> printable r \<Longrightarrow> clean_from w (rs @ [r])"
  by (induction w rs rule: clean_from.induct) (auto simp: hd_append)

lemma clean_from_snoc_space: "clean_from w rs \<Longrightarrow> rs \<noteq> [] \<or> w \<Longrightarrow> printable r \<Longrightarrow> clean_from w (rs @ [32, r])"
  by (induction w rs rule: clean_from.induct) (auto simp: hd_append)

lemma clean_from_set: "clean_from w rs \<Longrightarrow> r \<in> set rs \<Longrightarrow> printable r \<or> r = 32"
  by (induction w rs rule: clean_from.induct) (auto split: if_splits)

lemma clean_from_last: "clean_from w rs \<Longrightarrow> rs \<noteq> [] \<Longrightarrow> printable (last rs)"
  by (induction w rs rule: clean_from.induct) (auto split: if_splits)

lemma clean_from_hd: "clean_from False rs \<Longrightarrow> rs \<noteq> [] \<and> printable (hd rs)"
  by (cases rs) (auto split: if_splits)

lemma trim_clean: "clean_text rs \<Longrightarrow> trim_space_runes rs = rs"
  using clean_from_last [of False rs] clean_from_hd [of rs]
  by (cases rs) (auto simp: clean_text_def trim_space_runes_def printable_def hd_rev dropWhile_eq_self_iff split: if_splits)

lemma trim_clean_space: "clean_text rs \<Longrightarrow> trim_space_runes (rs @ [32]) = rs"
proof -
  assume c: "clean_text rs"
  have "dropWhile is_space_rune (rs @ [32]) = (if rs = [] then [] else rs @ [32])"
    using c clean_from_hd [of rs] by (cases rs) (auto simp: clean_text_def printable_def split: if_splits)
  with trim_clean [OF c] clean_from_hd [of rs] c show ?thesis
    by (cases rs) (auto simp: trim_space_runes_def clean_text_def printable_def split: if_splits)
qed

text \<open>What the loop returns is clean, up to one trailing space that the final trim removes, and within the limit.\<close>

lemma text_loop_clean:
  assumes "clean_text out" "sp \<longrightarrow> out \<noteq> []" "n = length out" "limit > 0 \<longrightarrow> n \<le> limit"
  shows "\<exists>t. (text_loop limit rs out sp n = t \<or> text_loop limit rs out sp n = t @ [32]) \<and> clean_text t \<and> (limit > 0 \<longrightarrow> length t \<le> limit)"
  using assms
proof (induction limit rs out sp n rule: text_loop.induct)
  case (1 limit out sp n)
  then show ?case by (intro exI [of _ out]) simp
next
  case (2 limit r rs out sp n)
  show ?case
  proof (cases "is_space_rune r")
    case True
    with 2 show ?thesis by auto
  next
    case nsp: False
    show ?thesis
    proof (cases "is_control_rune r \<or> is_format_rune r")
      case True
      with 2 nsp show ?thesis by auto
    next
      case False
      with nsp have p: "printable r" by (simp add: printable_def)
      have grow: "clean_text (out @ [r])" "out \<noteq> [] \<Longrightarrow> clean_text (out @ [32, r])"
        using 2(5) p clean_from_snoc clean_from_snoc_space by (auto simp: clean_text_def)
      show ?thesis
      proof (cases "limit > 0 \<and> n \<ge> limit")
        case True
        with 2 nsp False show ?thesis by (intro exI [of _ out]) auto
      next
        case room: False
        show ?thesis
        proof (cases sp)
          case True
          show ?thesis
          proof (cases "limit > 0 \<and> Suc n \<ge> limit")
            case True
            with 2 nsp False \<open>sp\<close> room show ?thesis by (intro exI [of _ out]) simp
          next
            case False
            have "\<exists>t. (text_loop limit rs (out @ [32, r]) False (n + 2) = t \<or> text_loop limit rs (out @ [32, r]) False (n + 2) = t @ [32])
                \<and> clean_text t \<and> (limit > 0 \<longrightarrow> length t \<le> limit)"
              using nsp \<open>\<not> (is_control_rune r \<or> is_format_rune r)\<close> True room False 2 grow(2) by (intro 2(3)) auto
            moreover have "text_loop limit (r # rs) out sp n = text_loop limit rs (out @ [32, r]) False (n + 2)"
              using nsp \<open>\<not> (is_control_rune r \<or> is_format_rune r)\<close> True room False by auto
            ultimately show ?thesis by metis
          qed
        next
          case nosp: False
          have "\<exists>t. (text_loop limit rs (out @ [r]) False (Suc n) = t \<or> text_loop limit rs (out @ [r]) False (Suc n) = t @ [32])
              \<and> clean_text t \<and> (limit > 0 \<longrightarrow> length t \<le> limit)"
            using nsp False room nosp 2 grow(1) by (intro 2(4)) auto
          moreover have "text_loop limit (r # rs) out sp n = text_loop limit rs (out @ [r]) False (Suc n)"
            using nsp False room nosp by auto
          ultimately show ?thesis by metis
        qed
      qed
    qed
  qed
qed

lemma text_runes_clean: "clean_text (text_runes rs limit) \<and> (limit > 0 \<longrightarrow> length (text_runes rs limit) \<le> limit)"
proof -
  obtain t where "text_loop limit (strip_terminal_sequences rs) [] False 0 = t \<or> text_loop limit (strip_terminal_sequences rs) [] False 0 = t @ [32]"
    "clean_text t" "limit > 0 \<longrightarrow> length t \<le> limit"
    using text_loop_clean [of "[]" False 0 limit "strip_terminal_sequences rs"] by (auto simp: clean_text_def)
  then have "text_runes rs limit = t" using trim_clean trim_clean_space by (auto simp: text_runes_def)
  with \<open>clean_text t\<close> \<open>limit > 0 \<longrightarrow> length t \<le> limit\<close> show ?thesis by simp
qed

lemma strip_from_set: "set (strip_from st rs) \<subseteq> set rs"
proof (induction rs arbitrary: st)
  case (Cons r rs)
  obtain st' out where s: "strip_step st r = (st', out)" by (cases "strip_step st r")
  then have "set out \<subseteq> {r}" by (cases st) (auto split: if_splits)
  with Cons [of st'] s show ?case by auto
qed simp

lemma text_loop_set: "set (text_loop limit rs out sp n) \<subseteq> set out \<union> set rs \<union> {32}"
proof (induction rs arbitrary: out sp n)
  case (Cons r rs)
  show ?case
    using Cons.IH [of out "sp \<or> out \<noteq> []" n] Cons.IH [of out sp n] Cons.IH [of "out @ [32, r]" False "n + 2"]
      Cons.IH [of "out @ [r]" False "Suc n"] by auto
qed auto

lemma trim_set: "set (trim_space_runes rs) \<subseteq> set rs"
  by (auto simp: trim_space_runes_def dest!: set_dropWhileD)

lemma text_runes_ok: "\<forall>r \<in> set rs. rune_ok r \<Longrightarrow> \<forall>r \<in> set (text_runes rs limit). rune_ok r"
proof
  fix r assume rs: "\<forall>r \<in> set rs. rune_ok r" and r: "r \<in> set (text_runes rs limit)"
  have "set (text_runes rs limit) \<subseteq> set rs \<union> {32}"
    unfolding text_runes_def strip_terminal_sequences_def
    using trim_set text_loop_set [of limit "strip_from InText rs" "[]" False 0] strip_from_set [of InText rs] by fastforce
  with rs r show "rune_ok r" by (auto simp: rune_ok_def)
qed

text \<open>Clean text passes through unchanged.\<close>

lemma strip_printable: "\<forall>r \<in> set rs. \<not> is_control_rune r \<Longrightarrow> strip_from InText rs = rs"
  by (induction rs) (auto simp: is_control_rune_def)

lemma text_loop_id:
  "(out \<noteq> [] \<longrightarrow> n = length out \<longrightarrow> limit = 0 \<or> n + length rs \<le> limit \<longrightarrow> clean_from True rs \<longrightarrow> text_loop limit rs out False n = out @ rs)
   \<and> (n = length out \<longrightarrow> limit = 0 \<or> n + 1 + length rs \<le> limit \<longrightarrow> rs \<noteq> [] \<longrightarrow> clean_from False rs \<longrightarrow> text_loop limit rs out True n = out @ [32] @ rs)"
proof (induction rs arbitrary: out n)
  case (Cons r rs)
  show ?case
  proof (intro conjI impI)
    assume a: "out \<noteq> []" "n = length out" "limit = 0 \<or> n + length (r # rs) \<le> limit" "clean_from True (r # rs)"
    show "text_loop limit (r # rs) out False n = out @ r # rs"
    proof (cases "printable r")
      case True
      with a have "text_loop limit (r # rs) out False n = text_loop limit rs (out @ [r]) False (Suc n)" by (auto simp: printable_def)
      with Cons [of "out @ [r]" "Suc n"] a True show ?thesis by auto
    next
      case False
      with a have "r = 32" "rs \<noteq> []" "clean_from False rs" by auto
      with Cons [of out n] a show ?thesis by auto
    qed
  next
    assume a: "n = length out" "limit = 0 \<or> n + 1 + length (r # rs) \<le> limit" "clean_from False (r # rs)"
    then have p: "printable r" "clean_from True rs" by (auto split: if_splits)
    with a have "text_loop limit (r # rs) out True n = text_loop limit rs (out @ [32, r]) False (n + 2)" by (auto simp: printable_def)
    with Cons [of "out @ [32, r]" "n + 2"] a p show "text_loop limit (r # rs) out True n = out @ [32] @ r # rs" by auto
  qed
qed (simp)

lemma text_runes_id:
  assumes "clean_text rs" "limit = 0 \<or> length rs \<le> limit"
  shows "text_runes rs limit = rs"
proof -
  have nc: "\<forall>r \<in> set rs. \<not> is_control_rune r"
  proof
    fix r assume "r \<in> set rs"
    with assms(1) clean_from_set [of False rs r] have "printable r \<or> r = 32" by (auto simp: clean_text_def)
    then show "\<not> is_control_rune r" by (auto simp: printable_def is_control_rune_def)
  qed
  have "text_loop limit rs [] False 0 = rs"
  proof (cases rs)
    case (Cons r rs')
    with assms have p: "printable r" "clean_from True rs'" by (auto simp: clean_text_def split: if_splits)
    with Cons assms(2) have "text_loop limit rs [] False 0 = text_loop limit rs' [r] False 1" by (auto simp: printable_def)
    with text_loop_id [of "[r]" 1 limit rs'] Cons assms(2) p show ?thesis by auto
  qed simp
  with trim_clean [OF assms(1)] strip_printable [OF nc] show ?thesis by (simp add: text_runes_def strip_terminal_sequences_def)
qed

lemma decode_safe_text: "utf8_decode (safe_text v limit) = text_runes (utf8_decode v) limit"
  unfolding safe_text_def using text_runes_ok utf8_decode_ok by (intro decode_encode_ok) blast

text \<open>
  C37. Text made safe for a terminal is safe, bounded and stable. Whatever the bytes, the result is valid UTF-8 whose runes
  are printable characters separated by single spaces (no control or format character, so no
  escape sequence, no leading, trailing or doubled space), with a limit it has at most that many
  runes, and making it safe again changes nothing.
\<close>
theorem safe_text_clean_and_stable:
  "utf8_encode (utf8_decode (safe_text v limit)) = safe_text v limit
   \<and> clean_text (utf8_decode (safe_text v limit))
   \<and> (\<forall>r \<in> set (utf8_decode (safe_text v limit)). \<not> is_control_rune r \<and> \<not> is_format_rune r)
   \<and> (limit > 0 \<longrightarrow> length (utf8_decode (safe_text v limit)) \<le> limit)
   \<and> safe_text (safe_text v limit) limit = safe_text v limit \<and> safe_text (safe_text v limit) 0 = safe_text v limit"
proof -
  let ?t = "text_runes (utf8_decode v) limit"
  note c = text_runes_clean [of "utf8_decode v" limit]
  have "safe_text (safe_text v limit) limit = safe_text v limit" "safe_text (safe_text v limit) 0 = safe_text v limit"
    using c text_runes_id [of ?t] by (auto simp: safe_text_def [of "safe_text v limit"] decode_safe_text) (simp_all add: safe_text_def)
  moreover have "\<not> is_control_rune r \<and> \<not> is_format_rune r" if "r \<in> set ?t" for r
  proof -
    have "printable r \<or> r = 32" using c that clean_from_set [of False ?t r] by (auto simp: clean_text_def)
    then show ?thesis by (auto simp: printable_def is_control_rune_def is_format_rune_def format_ranges_def)
  qed
  ultimately show ?thesis using c by (auto simp: decode_safe_text) (simp_all add: safe_text_def)
qed

theorem safe_text_clean_and_stable_witness:
  "safe_text (safe_text (CHR 0x1B # ''[31mred'' @ [CHR 0x0A] @ '' x'') 0) 0 = safe_text (CHR 0x1B # ''[31mred'' @ [CHR 0x0A] @ '' x'') 0"
  using safe_text_clean_and_stable [of "CHR 0x1B # ''[31mred'' @ [CHR 0x0A] @ '' x''" 0] by blast

end
