(* ===== verification/Exit_Codes.thy ===== *)
theory Exit_Codes
  imports Main
begin

text \<open>The exit codes every command shares (\<^verbatim>\<open>internal/exitcode/codes.go\<close>).\<close>

definition ExitOK :: int where "ExitOK = 0"
definition ExitRuntime :: int where "ExitRuntime = 1"
definition ExitUsage :: int where "ExitUsage = 2"
definition ExitConfig :: int where "ExitConfig = 3"
definition ExitAuthStorage :: int where "ExitAuthStorage = 4"
definition ExitCompatibility :: int where "ExitCompatibility = 5"
definition ExitConflict :: int where "ExitConflict = 6"
definition ExitSafety :: int where "ExitSafety = 7"

lemmas exit_defs = ExitOK_def ExitRuntime_def ExitUsage_def ExitConfig_def ExitAuthStorage_def
  ExitCompatibility_def ExitConflict_def ExitSafety_def

end
