(* ===== verification/Preflight_Policy.thy ===== *)
theory Preflight_Policy
  imports Workspace_Compare Safetext Exit_Codes "HOL-Library.Product_Lexorder"
begin

text \<open>
  The launch policy over a preflight report (\<^verbatim>\<open>internal/preflight/policy.go\<close> and the ordering and
  aggregation of checks in \<^verbatim>\<open>verify.go\<close>): which checks block, which want an acknowledgement, and when a
  launch is authorized. The parts of a report the policy does not read are left out; a status, a
  severity and a provenance are datatypes, so the tests that they are known values hold by typing.
\<close>

section \<open>Checks and reports\<close>

record preflight_check = check +
  ck_exit :: int

record report =
  rp_schema :: int
  rp_session :: string
  rp_decision :: decision
  rp_block_exit :: int
  rp_checks :: "preflight_check list"

record authorization =
  au_allowed :: bool
  au_exit :: int
  au_warnings :: "string list"

datatype policy_error =
    ContractInvalid
  | InvalidCheckID
  | DuplicateCheckID
  | InconsistentExit
  | UnsafeCheckData
  | OrderInvalid
  | DecisionInconsistent
  | PreflightBlocked
  | InvalidWarningID string
  | DuplicateWarningID string
  | NotCurrentWarning string
  | NeedsConfirmation "string list"

section \<open>Ordering and aggregation\<close>

definition priority_of :: "string \<Rightarrow> nat option" where
  "priority_of i = map_of [(''source.fresh'', 0), (''baseline.unavailable'', 1), (''baseline.available'', 1),
     (''workspace.available'', 2), (''git.available'', 3), (''git.probe'', 4), (''git.status'', 5),
     (''git.repository'', 6), (''git.branch'', 7), (''git.head'', 8), (''git.working_tree'', 9),
     (''agent.executable'', 10), (''agent.layout'', 11), (''agent.version'', 12)] i"

text \<open>The comparison the sort uses, and the key it amounts to.\<close>

definition check_less :: "'a check_scheme \<Rightarrow> 'a check_scheme \<Rightarrow> bool" where
  "check_less a b =
     (case (priority_of (ck_id a), priority_of (ck_id b)) of
        (Some l, Some r) \<Rightarrow> if l \<noteq> r then l < r else ck_id a < ck_id b
      | (Some l, None) \<Rightarrow> True
      | (None, Some r) \<Rightarrow> False
      | (None, None) \<Rightarrow> ck_id a < ck_id b)"

definition check_key :: "'a check_scheme \<Rightarrow> nat \<times> nat \<times> string" where
  "check_key c = (case priority_of (ck_id c) of Some p \<Rightarrow> (0, p, ck_id c) | None \<Rightarrow> (1, 0, ck_id c))"

lemma check_less_key: "check_less a b \<longleftrightarrow> check_key a < check_key b"
  by (auto simp: check_less_def check_key_def split: option.splits)

fun severity_rank :: "severity \<Rightarrow> nat" where
  "severity_rank Block = 3"
| "severity_rank Warning = 2"
| "severity_rank Info = 1"

definition exit_rank :: "int \<Rightarrow> nat" where
  "exit_rank e = (if e = ExitRuntime then 3 else if e = ExitSafety then 2 else if e = ExitCompatibility then 1 else 0)"

definition trust_rank :: "preflight_check \<Rightarrow> nat" where
  "trust_rank c = severity_rank (ck_severity c) * 100
     + (if ck_severity c = Block then 10 * exit_rank (ck_exit c) else 0)
     + (if ck_status c = StError then 1 else 0)"

text \<open>Of neighbours with the same ID the more severe one stays, the first on a tie.\<close>

fun dedupe_checks :: "preflight_check list \<Rightarrow> preflight_check list" where
  "dedupe_checks [] = []"
| "dedupe_checks [c] = [c]"
| "dedupe_checks (c # d # cs) =
     (if ck_id c = ck_id d then dedupe_checks ((if trust_rank d > trust_rank c then d else c) # cs)
      else c # dedupe_checks (d # cs))"

definition normalize_checks :: "preflight_check list \<Rightarrow> preflight_check list" where
  "normalize_checks cs = dedupe_checks (sort_key check_key cs)"

definition preferred_block_exit :: "int \<Rightarrow> int \<Rightarrow> int" where
  "preferred_block_exit current candidate0 =
     (let candidate = (if candidate0 = 0 then ExitRuntime else candidate0) in
      if current = 0 \<or> exit_rank candidate > exit_rank current then candidate else current)"

fun aggregate_loop :: "preflight_check list \<Rightarrow> decision \<Rightarrow> int \<Rightarrow> decision \<times> int" where
  "aggregate_loop [] d e = (d, e)"
| "aggregate_loop (c # cs) d e =
     (if ck_severity c = Block then aggregate_loop cs Blocked (preferred_block_exit e (ck_exit c))
      else if ck_severity c = Warning \<and> d = Ready then aggregate_loop cs ConfirmationRequired e
      else aggregate_loop cs d e)"

definition aggregate_checks :: "preflight_check list \<Rightarrow> decision \<times> int" where
  "aggregate_checks cs = aggregate_loop cs Ready 0"

section \<open>Validation and authorization\<close>

definition check_id_char :: "char \<Rightarrow> bool" where
  "check_id_char c \<longleftrightarrow> (CHR ''a'' \<le> c \<and> c \<le> CHR ''z'') \<or> (CHR ''0'' \<le> c \<and> c \<le> CHR ''9'') \<or> c = CHR ''.'' \<or> c = CHR ''_'' \<or> c = CHR ''-''"

fun has_double_dot :: "string \<Rightarrow> bool" where
  "has_double_dot (a # b # s) = (a = CHR ''.'' \<and> b = CHR ''.'' \<or> has_double_dot (b # s))"
| "has_double_dot _ = False"

definition valid_check_id :: "string \<Rightarrow> bool" where
  "valid_check_id i \<longleftrightarrow> i \<noteq> [] \<and> length i \<le> 256 \<and> \<not> has_prefix i ''.'' \<and> \<not> has_suffix i ''.'' \<and> \<not> has_double_dot i
     \<and> list_all check_id_char i"

definition valid_check_exit :: "preflight_check \<Rightarrow> bool" where
  "valid_check_exit c =
     (case ck_severity c of
        Info \<Rightarrow> ck_exit c = 0
      | Warning \<Rightarrow> ck_exit c = ExitSafety
      | Block \<Rightarrow> (if ck_exit c \<noteq> ExitRuntime \<and> ck_exit c \<noteq> ExitCompatibility \<and> ck_exit c \<noteq> ExitSafety then False
           else ck_status c \<noteq> StError \<or> ck_exit c = ExitRuntime))"

definition valid_report_text :: "string \<Rightarrow> nat \<Rightarrow> bool" where
  "valid_report_text v maximum \<longleftrightarrow> length (utf8_decode v) \<le> maximum \<and> safe_text v 0 = v"

definition valid_report_value :: "check_value \<Rightarrow> bool" where
  "valid_report_value v =
     (case v of NoValue \<Rightarrow> True | BoolValue b \<Rightarrow> True | TextValue s \<Rightarrow> valid_report_text s 4096 | TreeValue t \<Rightarrow> True
      | ListValue ss \<Rightarrow> length ss \<le> 512 \<and> list_all (\<lambda>s. valid_report_text s 4096) ss)"

fun validate_each :: "string list \<Rightarrow> preflight_check list \<Rightarrow> policy_error option" where
  "validate_each seen [] = None"
| "validate_each seen (c # cs) =
     (if \<not> valid_check_id (ck_id c) then Some InvalidCheckID
      else if ck_id c \<in> set seen then Some DuplicateCheckID
      else if \<not> valid_check_exit c then Some InconsistentExit
      else if \<not> valid_report_text (ck_message c) 1024 \<or> \<not> valid_report_text (ck_repair c) 1024
           \<or> \<not> valid_report_value (ck_expected c) \<or> \<not> valid_report_value (ck_actual c) then Some UnsafeCheckData
      else validate_each (ck_id c # seen) cs)"

text \<open>\<^verbatim>\<open>MaxSessionReferenceRunes\<close> of the environment package.\<close>

definition MaxSessionReferenceRunes :: nat where "MaxSessionReferenceRunes = 4160"

definition validate_report :: "report \<Rightarrow> policy_error option" where
  "validate_report r =
     (if rp_schema r \<noteq> 1 \<or> trim_space (rp_session r) \<noteq> rp_session r \<or> \<not> valid_report_text (rp_session r) MaxSessionReferenceRunes
         \<or> rp_session r = [] \<or> rp_checks r = [] \<or> length (rp_checks r) > 2048 then Some ContractInvalid
      else case validate_each [] (rp_checks r) of Some e \<Rightarrow> Some e
      | None \<Rightarrow>
        if normalize_checks (rp_checks r) \<noteq> rp_checks r then Some OrderInvalid
        else if aggregate_checks (rp_checks r) \<noteq> (rp_decision r, rp_block_exit r) then Some DecisionInconsistent
        else None)"

definition current_warnings :: "report \<Rightarrow> string list" where
  "current_warnings r = map ck_id (filter (\<lambda>c. ck_severity c = Warning) (rp_checks r))"

definition warning_ids :: "report \<Rightarrow> string list" where
  "warning_ids r = sort (current_warnings r)"

definition wildcard_char :: "char \<Rightarrow> bool" where
  "wildcard_char c \<longleftrightarrow> c \<in> set ''*?[]''"

fun check_allowed :: "string list \<Rightarrow> string list \<Rightarrow> string list \<Rightarrow> (policy_error, string list) result" where
  "check_allowed warnings seen [] = Inr seen"
| "check_allowed warnings seen (raw # rest) =
     (let i = trim_space raw in
      if i = [] \<or> list_ex wildcard_char i then Inl (InvalidWarningID i)
      else if i \<in> set seen then Inl (DuplicateWarningID i)
      else if i \<notin> set warnings then Inl (NotCurrentWarning i)
      else check_allowed warnings (i # seen) rest)"

definition denied :: "int \<Rightarrow> string list \<Rightarrow> authorization" where
  "denied code ws = \<lparr>au_allowed = False, au_exit = code, au_warnings = ws\<rparr>"

definition authorize :: "report \<Rightarrow> string list \<Rightarrow> authorization \<times> policy_error option" where
  "authorize r allowed =
     (case validate_report r of Some e \<Rightarrow> (denied ExitRuntime [], Some e)
      | None \<Rightarrow>
        if rp_decision r = Blocked then
          (denied (if rp_block_exit r = 0 then ExitRuntime else rp_block_exit r) [], Some PreflightBlocked)
        else (case check_allowed (current_warnings r) [] allowed of
          Inl e \<Rightarrow> (denied ExitUsage [], Some e)
        | Inr seen \<Rightarrow>
          let missing = sort (remdups (filter (\<lambda>i. i \<notin> set seen) (current_warnings r))) in
          if missing \<noteq> [] then (denied ExitSafety missing, Some (NeedsConfirmation missing))
          else (\<lparr>au_allowed = True, au_exit = 0, au_warnings = []\<rparr>, None)))"

section \<open>What normalization keeps\<close>

lemma dedupe_subset: "set (dedupe_checks cs) \<subseteq> set cs"
proof (induction cs rule: dedupe_checks.induct)
  case (3 c d cs)
  then show ?case by (cases "ck_id c = ck_id d") (auto split: if_splits)
qed simp_all

lemma dedupe_covers:
  "c \<in> set cs \<Longrightarrow> \<exists>d \<in> set (dedupe_checks cs). ck_id d = ck_id c \<and> trust_rank c \<le> trust_rank d"
proof (induction cs arbitrary: c rule: dedupe_checks.induct)
  case (3 a b cs)
  show ?case
  proof (cases "ck_id a = ck_id b")
    case True
    let ?m = "if trust_rank b > trust_rank a then b else a"
    note IH = 3(1) [OF True]
    have "\<exists>e \<in> set (?m # cs). ck_id e = ck_id c \<and> trust_rank c \<le> trust_rank e"
      using 3(3) True by auto
    then obtain e where e: "e \<in> set (?m # cs)" "ck_id e = ck_id c" "trust_rank c \<le> trust_rank e" by blast
    from IH [OF e(1)] obtain d where "d \<in> set (dedupe_checks (?m # cs))" "ck_id d = ck_id e" "trust_rank e \<le> trust_rank d" by blast
    with e True show ?thesis by auto
  next
    case False
    with 3 show ?thesis by (cases "c = a") auto
  qed
qed auto

lemma trust_rank_order:
  assumes "trust_rank c \<le> trust_rank d"
  shows "severity_rank (ck_severity c) \<le> severity_rank (ck_severity d)"
    and "ck_severity c = Block \<Longrightarrow> exit_rank (ck_exit c) \<le> exit_rank (ck_exit d)"
proof -
  have "exit_rank e \<le> 3" for e by (simp add: exit_rank_def)
  from this [of "ck_exit c"] this [of "ck_exit d"] assms
  show "severity_rank (ck_severity c) \<le> severity_rank (ck_severity d)"
    by (cases "ck_severity c"; cases "ck_severity d") (auto simp: trust_rank_def split: if_splits)
  show "ck_severity c = Block \<Longrightarrow> exit_rank (ck_exit c) \<le> exit_rank (ck_exit d)"
    using assms \<open>\<And>e. exit_rank e \<le> 3\<close> [of "ck_exit c"] \<open>\<And>e. exit_rank e \<le> 3\<close> [of "ck_exit d"]
    by (cases "ck_severity d") (auto simp: trust_rank_def split: if_splits)
qed

lemma normalize_keeps:
  assumes "c \<in> set cs"
  shows "\<exists>d \<in> set (normalize_checks cs). ck_id d = ck_id c \<and> severity_rank (ck_severity c) \<le> severity_rank (ck_severity d)
    \<and> (ck_severity c = Block \<longrightarrow> exit_rank (ck_exit c) \<le> exit_rank (ck_exit d))"
  using dedupe_covers [of c "sort_key check_key cs"] assms trust_rank_order unfolding normalize_checks_def by fastforce

lemma normalize_subset: "set (normalize_checks cs) \<subseteq> set cs"
  using dedupe_subset [of "sort_key check_key cs"] by (simp add: normalize_checks_def)

text \<open>The aggregate depends only on which severities and which blocking exits there are.\<close>

definition block_exits :: "preflight_check list \<Rightarrow> int set" where
  "block_exits cs = ck_exit ` {c \<in> set cs. ck_severity c = Block}"

definition best_exit :: "int set \<Rightarrow> int" where
  "best_exit E = (if ExitRuntime \<in> E then ExitRuntime else if ExitSafety \<in> E then ExitSafety
     else if ExitCompatibility \<in> E then ExitCompatibility else 0)"

definition known_exits :: "int set" where "known_exits = {ExitRuntime, ExitSafety, ExitCompatibility}"

lemma preferred_best:
  "E \<subseteq> known_exits \<Longrightarrow> e \<in> known_exits \<Longrightarrow> preferred_block_exit (best_exit E) e = best_exit (insert e E)"
  by (auto simp: preferred_block_exit_def best_exit_def known_exits_def exit_rank_def exit_defs)

lemma aggregate_loop_spec:
  assumes "block_exits cs \<subseteq> known_exits" "E \<subseteq> known_exits"
  shows "aggregate_loop cs d (best_exit E) =
    (if Block \<in> ck_severity ` set cs then Blocked
     else if d = Ready \<and> Warning \<in> ck_severity ` set cs then ConfirmationRequired else d, best_exit (E \<union> block_exits cs))"
  using assms
proof (induction cs arbitrary: d E)
  case (Cons c cs)
  show ?case
  proof (cases "ck_severity c = Block")
    case True
    then have e: "ck_exit c \<in> known_exits" "block_exits cs \<subseteq> known_exits" "block_exits (c # cs) = insert (ck_exit c) (block_exits cs)"
      using Cons.prems by (auto simp: block_exits_def)
    with Cons.prems have "aggregate_loop (c # cs) d (best_exit E) = aggregate_loop cs Blocked (best_exit (insert (ck_exit c) E))"
      using True by (simp add: preferred_best)
    with Cons.IH [of "insert (ck_exit c) E" Blocked] e Cons.prems True show ?thesis by auto
  next
    case False
    then have b: "block_exits (c # cs) = block_exits cs" by (auto simp: block_exits_def)
    show ?thesis
    proof (cases "ck_severity c = Warning \<and> d = Ready")
      case True
      with Cons.IH [of E ConfirmationRequired] Cons.prems b show ?thesis by auto
    next
      case nw: False
      with False Cons.IH [of E d] Cons.prems b show ?thesis by (cases "ck_severity c") auto
    qed
  qed
qed (simp add: block_exits_def)

lemma aggregate_spec:
  assumes "block_exits cs \<subseteq> known_exits"
  shows "aggregate_checks cs = (if Block \<in> ck_severity ` set cs then Blocked
     else if Warning \<in> ck_severity ` set cs then ConfirmationRequired else Ready, best_exit (block_exits cs))"
  using aggregate_loop_spec [OF assms, of "{}" Ready] by (simp add: aggregate_checks_def best_exit_def)

lemma best_exit_cong:
  assumes "E \<subseteq> known_exits" "F \<subseteq> E" "\<And>e. e \<in> E \<Longrightarrow> \<exists>f \<in> F. exit_rank e \<le> exit_rank f"
  shows "best_exit F = best_exit E"
proof -
  have "e \<in> F" if "e \<in> E" "\<And>f. f \<in> E \<Longrightarrow> exit_rank f \<le> exit_rank e" for e
  proof -
    from assms(3) [OF that(1)] obtain f where f: "f \<in> F" "exit_rank e \<le> exit_rank f" by blast
    with that(2) [of f] assms(2) have "exit_rank f = exit_rank e" by (metis le_antisym subsetD)
    moreover have "f \<in> known_exits" "e \<in> known_exits" using f(1) that(1) assms(1,2) by auto
    ultimately have "f = e" by (auto simp: known_exits_def exit_rank_def exit_defs)
    with f show ?thesis by simp
  qed
  note top = this
  have 1: "ExitRuntime \<in> F" if "ExitRuntime \<in> E"
    by (rule top [OF that]) (simp add: exit_rank_def exit_defs)
  have 2: "ExitSafety \<in> F" if "ExitSafety \<in> E" "ExitRuntime \<notin> E"
    by (rule top [OF that(1)]) (use that(2) in \<open>auto simp: exit_rank_def exit_defs\<close>)
  have 3: "ExitCompatibility \<in> F" if "ExitCompatibility \<in> E" "ExitRuntime \<notin> E" "ExitSafety \<notin> E"
    by (rule top [OF that(1)]) (use that(2,3) in \<open>auto simp: exit_rank_def exit_defs\<close>)
  have "ExitRuntime \<in> F \<longleftrightarrow> ExitRuntime \<in> E" "ExitRuntime \<notin> E \<Longrightarrow> ExitSafety \<in> F \<longleftrightarrow> ExitSafety \<in> E"
    "ExitRuntime \<notin> E \<Longrightarrow> ExitSafety \<notin> E \<Longrightarrow> ExitCompatibility \<in> F \<longleftrightarrow> ExitCompatibility \<in> E"
    using 1 2 3 assms(2) by blast+
  then show ?thesis by (simp add: best_exit_def)
qed

lemma valid_exits: "list_all valid_check_exit cs \<Longrightarrow> block_exits cs \<subseteq> known_exits"
  by (auto simp: block_exits_def known_exits_def list_all_iff valid_check_exit_def split: if_splits)


definition example_check :: "string \<Rightarrow> status \<Rightarrow> severity \<Rightarrow> int \<Rightarrow> preflight_check" where
  "example_check i st sv e = \<lparr>ck_id = i, ck_status = st, ck_severity = sv, ck_expected = NoValue, ck_actual = NoValue,
     ck_provenance = CurrentObservation, ck_message = ''m'', ck_repair = [], ck_exit = e\<rparr>"


text \<open>Normalized checks have one entry per ID, in the order of the sort.\<close>

lemma check_key_id: "check_key a = check_key b \<longleftrightarrow> ck_id a = ck_id b"
  by (auto simp: check_key_def split: option.splits)

lemma dedupe_key: "sorted (map check_key cs) \<Longrightarrow> sorted (map check_key (dedupe_checks cs)) \<and> distinct (map ck_id (dedupe_checks cs))
    \<and> (cs \<noteq> [] \<longrightarrow> dedupe_checks cs \<noteq> [] \<and> ck_id (hd (dedupe_checks cs)) = ck_id (hd cs))"
proof (induction cs rule: dedupe_checks.induct)
  case (3 a b cs)
  show ?case
  proof (cases "ck_id a = ck_id b")
    case True
    let ?m = "if trust_rank b > trust_rank a then b else a"
    have "check_key ?m = check_key a" "check_key a = check_key b" using True by (simp_all add: check_key_id)
    with 3(3) have "sorted (map check_key (?m # cs))" by simp
    note IH = 3(1) [OF True this]
    have "dedupe_checks (a # b # cs) = dedupe_checks (?m # cs)" "ck_id ?m = ck_id a" using True by simp_all
    with IH show ?thesis by (simp del: dedupe_checks.simps)
  next
    case False
    from 3(3) have s: "sorted (map check_key (b # cs))" by simp
    note IH = 3(2) [OF False s]
    let ?r = "dedupe_checks (b # cs)"
    have lt: "check_key a < check_key x" if "x \<in> set ?r" for x
    proof -
      have "check_key a \<noteq> check_key b" using False by (simp add: check_key_id)
      moreover have "check_key a \<le> check_key b" using 3(3) by simp
      ultimately have "check_key a < check_key b" by (rule order.not_eq_order_implies_strict)
      moreover have "check_key b \<le> check_key x" using that dedupe_subset [of "b # cs"] s by auto
      ultimately show ?thesis by simp
    qed
    have eq: "dedupe_checks (a # b # cs) = a # ?r" using False by simp
    have "ck_id a \<notin> set (map ck_id ?r)"
    proof
      assume "ck_id a \<in> set (map ck_id ?r)"
      then obtain x where "x \<in> set ?r" "ck_id a = ck_id x" unfolding set_map by blast
      with lt [of x] check_key_id [of a x] show False by auto
    qed
    then have "distinct (map ck_id (a # ?r))" using IH by (simp del: dedupe_checks.simps)
    moreover have "sorted (map check_key (a # ?r))"
    proof -
      have "\<forall>y \<in> set (map check_key ?r). check_key a \<le> y" using lt by (auto simp del: dedupe_checks.simps intro: less_imp_le)
      then show ?thesis using IH unfolding list.map sorted_simps by blast
    qed
    ultimately show ?thesis unfolding eq by simp
  qed
qed simp_all

lemma dedupe_distinct: "distinct (map ck_id cs) \<Longrightarrow> dedupe_checks cs = cs"
  by (induction cs rule: dedupe_checks.induct) auto

lemma normalize_idem: "normalize_checks (normalize_checks cs) = normalize_checks cs"
  using dedupe_key [of "sort_key check_key cs"] dedupe_distinct
  by (simp add: normalize_checks_def sort_key_id_if_sorted)

section \<open>Authorization\<close>

lemma check_id_char_piece: "check_id_char c \<Longrightarrow> (of_char c :: nat) < 128 \<and> \<not> space_piece [c]"
proof -
  assume "check_id_char c"
  then have a: "(of_char c :: nat) < 128 \<and> \<not> is_space_rune (of_char c)"
    by (auto simp: check_id_char_def less_eq_char_def is_space_rune_def)
  then show ?thesis by (simp add: space_piece_def utf8_first_ascii)
qed

lemma rune_split_ascii: "list_all check_id_char s \<Longrightarrow> rune_split s = map (\<lambda>c. [c]) s"
  by (induction s) (auto simp: utf8_first_ascii dest!: check_id_char_piece)

lemma trim_check_id: "list_all check_id_char s \<Longrightarrow> trim_space s = s"
proof -
  assume s: "list_all check_id_char s"
  let ?p = "map (\<lambda>c. [c]) s"
  have "\<forall>x \<in> set ?p. \<not> space_piece x" using s by (auto simp: list_all_iff dest: check_id_char_piece)
  then have "dropWhile space_piece ?p = ?p" "dropWhile space_piece (rev ?p) = rev ?p" by (simp_all only: no_drop set_rev)
  moreover have "concat ?p = s" by (induction s) auto
  ultimately show ?thesis by (simp add: trim_space_def rune_split_ascii [OF s])
qed

lemma wildcard_no_check_id: "list_all check_id_char s \<Longrightarrow> \<not> list_ex wildcard_char s"
  by (induction s) (auto simp: wildcard_char_def check_id_char_def)

lemma validate_each_ok:
  "validate_each seen cs = None \<Longrightarrow> list_all (\<lambda>c. valid_check_id (ck_id c) \<and> valid_check_exit c) cs
    \<and> distinct (map ck_id cs) \<and> set (map ck_id cs) \<inter> set seen = {}"
proof (induction cs arbitrary: seen)
  case (Cons c cs)
  then have h: "valid_check_id (ck_id c)" "valid_check_exit c" "ck_id c \<notin> set seen" "validate_each (ck_id c # seen) cs = None"
    by (simp_all split: if_splits)
  show ?case using Cons.IH [OF h(4)] h(1,2,3) by auto
qed simp

lemma validate_report_ok:
  assumes "validate_report r = None"
  shows "list_all (\<lambda>c. valid_check_id (ck_id c) \<and> valid_check_exit c) (rp_checks r)" "distinct (map ck_id (rp_checks r))"
    "aggregate_checks (rp_checks r) = (rp_decision r, rp_block_exit r)"
  using assms validate_each_ok [of "[]" "rp_checks r"]
  by (auto simp: validate_report_def split: if_splits option.splits)

lemma distinct_map_filter_ids: "distinct (map f xs) \<Longrightarrow> distinct (map f (filter P xs))"
  by (induction xs) auto

lemma current_warnings_ok:
  assumes "validate_report r = None"
  shows "distinct (current_warnings r)"
    and "i \<in> set (current_warnings r) \<Longrightarrow> trim_space i = i \<and> i \<noteq> [] \<and> \<not> list_ex wildcard_char i"
proof -
  show "distinct (current_warnings r)"
    using validate_report_ok(2) [OF assms] by (simp add: current_warnings_def distinct_map_filter_ids)
  assume "i \<in> set (current_warnings r)"
  then have "valid_check_id i" using validate_report_ok(1) [OF assms] by (auto simp: current_warnings_def list_all_iff)
  then show "trim_space i = i \<and> i \<noteq> [] \<and> \<not> list_ex wildcard_char i"
    by (simp add: valid_check_id_def trim_check_id wildcard_no_check_id)
qed

lemma check_allowed_Inr:
  assumes "\<forall>i \<in> set ws. i \<noteq> [] \<and> \<not> list_ex wildcard_char i"
  shows "check_allowed ws seen as = Inr seen' \<longleftrightarrow> distinct (map trim_space as) \<and> set (map trim_space as) \<subseteq> set ws
    \<and> set (map trim_space as) \<inter> set seen = {} \<and> seen' = rev (map trim_space as) @ seen"
  using assms by (induction as arbitrary: seen) (auto simp: Let_def split: if_splits)

lemma check_allowed_exit: "check_allowed ws seen as = Inl e \<Longrightarrow> \<exists>a \<in> set as. e = InvalidWarningID (trim_space a)
    \<or> e = DuplicateWarningID (trim_space a) \<or> e = NotCurrentWarning (trim_space a)"
  by (induction as arbitrary: seen) (auto simp: Let_def split: if_splits)

text \<open>What the acknowledgements leave open, sorted.\<close>

definition unacknowledged :: "report \<Rightarrow> string list \<Rightarrow> string list" where
  "unacknowledged r allowed = sort (filter (\<lambda>i. i \<notin> trim_space ` set allowed) (current_warnings r))"

lemma authorize_passes:
  assumes "validate_report r = None" "rp_decision r \<noteq> Blocked" "distinct (map trim_space allowed)"
    "set (map trim_space allowed) \<subseteq> set (current_warnings r)"
  shows "authorize r allowed = (let ms = unacknowledged r allowed in
    if ms \<noteq> [] then (denied ExitSafety ms, Some (NeedsConfirmation ms))
    else (\<lparr>au_allowed = True, au_exit = 0, au_warnings = []\<rparr>, None))"
proof -
  let ?ws = "current_warnings r"
  have ok: "\<forall>i \<in> set ?ws. i \<noteq> [] \<and> \<not> list_ex wildcard_char i" using current_warnings_ok(2) [OF assms(1)] by blast
  have "check_allowed ?ws [] allowed = Inr (rev (map trim_space allowed))"
    using check_allowed_Inr [OF ok] assms(3,4) by simp
  moreover have "remdups (filter (\<lambda>i. i \<notin> set (rev (map trim_space allowed))) ?ws) = filter (\<lambda>i. i \<notin> trim_space ` set allowed) ?ws"
    using current_warnings_ok(1) [OF assms(1)] by (simp add: distinct_remdups_id)
  ultimately show ?thesis using assms(1,2) unfolding authorize_def unacknowledged_def by (simp del: set_rev set_map)
qed

lemma authorize_refuses:
  assumes "validate_report r = None" "rp_decision r \<noteq> Blocked"
    "\<not> (distinct (map trim_space allowed) \<and> set (map trim_space allowed) \<subseteq> set (current_warnings r))"
  shows "\<exists>e. authorize r allowed = (denied ExitUsage [], Some e) \<and> (\<forall>ms. e \<noteq> NeedsConfirmation ms)"
proof -
  have ok: "\<forall>i \<in> set (current_warnings r). i \<noteq> [] \<and> \<not> list_ex wildcard_char i" using current_warnings_ok(2) [OF assms(1)] by blast
  obtain e where e: "check_allowed (current_warnings r) [] allowed = Inl e"
    using check_allowed_Inr [OF ok, of "[]" allowed] assms(3) by (cases "check_allowed (current_warnings r) [] allowed") auto
  moreover have "\<forall>ms. e \<noteq> NeedsConfirmation ms" using check_allowed_exit [OF e] by auto
  ultimately show ?thesis using assms(1,2) by (simp add: authorize_def)
qed

text \<open>
  C32. A launch is authorized exactly when the report is well formed and not blocked and the
  acknowledgements, trimmed, name every current warning, each once, and nothing else: a wildcard, a
  repeated ID, a blocker's or an informational ID or a stale one refuses it.
\<close>
theorem authorize_iff:
  "au_allowed (fst (authorize r allowed)) \<longleftrightarrow> validate_report r = None \<and> rp_decision r \<noteq> Blocked
    \<and> distinct (map trim_space allowed) \<and> set (map trim_space allowed) = set (current_warnings r)"
proof (cases "validate_report r = None \<and> rp_decision r \<noteq> Blocked")
  case False
  then show ?thesis by (auto simp: authorize_def denied_def split: option.splits)
next
  case True
  then have v: "validate_report r = None" "rp_decision r \<noteq> Blocked" by simp_all
  show ?thesis
  proof (cases "distinct (map trim_space allowed) \<and> set (map trim_space allowed) \<subseteq> set (current_warnings r)")
    case True
    have e: "unacknowledged r allowed = [] \<longleftrightarrow> set (current_warnings r) \<subseteq> set (map trim_space allowed)"
      using set_empty [of "unacknowledged r allowed"] by (auto simp: unacknowledged_def simp del: set_empty)
    show ?thesis using authorize_passes [OF v conjunct1 [OF True] conjunct2 [OF True]] True v e
      by (auto simp: Let_def denied_def)
  next
    case False
    from authorize_refuses [OF v this] False v show ?thesis by (auto simp: denied_def)
  qed
qed

lemma confirmation_request:
  assumes "snd (authorize r allowed) = Some (NeedsConfirmation ms)"
  shows "validate_report r = None" "rp_decision r \<noteq> Blocked" "distinct (map trim_space allowed)"
    "set (map trim_space allowed) \<subseteq> set (current_warnings r)" "ms = unacknowledged r allowed"
    "fst (authorize r allowed) = denied ExitSafety ms"
proof -
  have nv: "validate_report r \<noteq> Some (NeedsConfirmation xs)" for xs
  proof -
    have "validate_each seen cs \<noteq> Some (NeedsConfirmation xs)" for seen cs
      by (induction cs arbitrary: seen) auto
    then show ?thesis by (auto simp: validate_report_def split: option.splits)
  qed
  show v: "validate_report r = None" "rp_decision r \<noteq> Blocked"
    using assms nv by (auto simp: authorize_def split: option.splits if_splits)
  have *: "distinct (map trim_space allowed) \<and> set (map trim_space allowed) \<subseteq> set (current_warnings r)"
    using authorize_refuses [OF v] assms by (metis snd_conv option.inject)
  then show d: "distinct (map trim_space allowed)" "set (map trim_space allowed) \<subseteq> set (current_warnings r)" by simp_all
  show "ms = unacknowledged r allowed" "fst (authorize r allowed) = denied ExitSafety ms"
    using assms unfolding authorize_passes [OF v d] by (auto simp: Let_def split: if_splits)
qed

text \<open>
  When a launch is refused for missing acknowledgements, the refusal carries the safety exit code
  and lists, sorted and each once, exactly the current warnings that were not named; repeating the call
  with those appended is authorized.
\<close>
theorem confirmation_completes:
  assumes "snd (authorize r allowed) = Some (NeedsConfirmation ms)"
  shows "fst (authorize r allowed) = denied ExitSafety ms \<and> sorted ms \<and> distinct ms
    \<and> set ms = set (current_warnings r) - set (map trim_space allowed)
    \<and> au_allowed (fst (authorize r (allowed @ ms))) \<and> snd (authorize r (allowed @ ms)) = None"
proof -
  note c = confirmation_request [OF assms]
  have s: "set ms = set (current_warnings r) - set (map trim_space allowed)" by (auto simp: c(5) unacknowledged_def)
  have d: "sorted ms" "distinct ms" using current_warnings_ok(1) [OF c(1)] by (simp_all add: c(5) unacknowledged_def)
  have "\<forall>m \<in> set ms. trim_space m = m" using s current_warnings_ok(2) [OF c(1)] by blast
  then have t: "map trim_space ms = ms" by (simp add: map_idI)
  have "distinct (map trim_space (allowed @ ms))" "set (map trim_space (allowed @ ms)) = set (current_warnings r)"
    using c(3,4) s d(2) t by auto
  then have "au_allowed (fst (authorize r (allowed @ ms)))" using authorize_iff c(1,2) by blast
  moreover from this have "snd (authorize r (allowed @ ms)) = None"
    by (auto simp: authorize_def denied_def Let_def split: option.splits if_splits sum.splits)
  ultimately show ?thesis using c(6) s d by blast
qed

definition example_report :: report where
  "example_report = \<lparr>rp_schema = 1, rp_session = ''s'', rp_decision = ConfirmationRequired, rp_block_exit = 0,
     rp_checks = [example_check ''git.head'' StChanged Warning 7]\<rparr>"

lemma example_decoded: "utf8_decode ''s'' = [115]" "utf8_decode ''m'' = [109]" "utf8_decode [] = []"
  by (simp_all add: utf8_first_ascii)

lemma example_encoded: "utf8_encode [115] = ''s''" "utf8_encode [109] = ''m''" "utf8_encode [] = []"
  by (simp_all add: utf8_encode_def utf8_encode_rune_def byte_at_def char_of_def bit_0)

lemma example_clean: "clean_text [115]" "clean_text [109]" "clean_text []"
  by (simp_all add: clean_text_def printable_def is_space_rune_def is_control_rune_def is_format_rune_def format_ranges_def)

lemma example_texts: "safe_text ''s'' 0 = ''s''" "safe_text ''m'' 0 = ''m''" "safe_text [] 0 = []"
  unfolding safe_text_def example_decoded by (simp_all only: text_runes_id [OF example_clean(1)]
    text_runes_id [OF example_clean(2)] text_runes_id [OF example_clean(3)] example_encoded simp_thms)

lemma example_lengths: "length (utf8_decode ''s'') = 1" "length (utf8_decode ''m'') = 1" "length (utf8_decode []) = 0"
  unfolding example_decoded by simp_all

lemma example_id: "valid_check_id ''git.head''" "trim_space ''s'' = ''s''"
proof -
  show "valid_check_id ''git.head''"
    by (simp add: valid_check_id_def check_id_char_def less_eq_char_def has_prefix_def has_suffix_def)
  show "trim_space ''s'' = ''s''" by (rule trim_check_id) (simp add: check_id_char_def less_eq_char_def)
qed

lemma example_report_valid: "validate_report example_report = None"
  by (simp add: validate_report_def example_report_def example_check_def valid_report_text_def valid_report_value_def
      example_texts example_lengths example_id valid_check_exit_def exit_defs normalize_checks_def aggregate_checks_def
      MaxSessionReferenceRunes_def del: utf8_decode.simps)

lemma example_report_asks: "snd (authorize example_report []) = Some (NeedsConfirmation [''git.head''])"
proof -
  have "current_warnings example_report = [''git.head'']" "rp_decision example_report \<noteq> Blocked"
    by (simp_all add: current_warnings_def example_report_def example_check_def)
  then show ?thesis by (simp add: authorize_def example_report_valid Let_def)
qed

theorem confirmation_completes_witness:
  "au_exit (fst (authorize example_report [])) = 7 \<and> au_allowed (fst (authorize example_report [''git.head'']))"
  using confirmation_completes [OF example_report_asks] by (simp add: denied_def ExitSafety_def)

end
