(* ===== verification/Capsule_Json.thy ===== *)
theory Capsule_Json
  imports Go_Unicode
begin

text \<open>
  Canonical JSON (\<^verbatim>\<open>internal/capsule/canonical.go\<close>, \<^verbatim>\<open>writeCanonical\<close>): documents with sorted keys and no
  white space, strings written the way \<^verbatim>\<open>encoding/json\<close> writes them. The main result is that the
  bytes identify the document.
\<close>

section \<open>Documents\<close>

text \<open>
  A decoded document: a number keeps its text (\<^verbatim>\<open>json.Number\<close>), an object is the list of its members in
  any order; of members with one key the last counts, as when Go fills a map.
\<close>

datatype json =
    JNull
  | JBool bool
  | JNum string
  | JStr bytes
  | JArr "json list"
  | JObj "(bytes \<times> json) list"

text \<open>Strings: one rune of \<^verbatim>\<open>json.Marshal\<close>, HTML characters and line separators escaped.\<close>

definition bslash :: char where "bslash = CHR 0x5C"
definition dquote :: char where "dquote = CHR 0x22"

definition quote_rune :: "nat \<Rightarrow> string" where
  "quote_rune r =
     (if r = 34 \<or> r = 92 then [bslash, byte_at r]
      else if r = 8 then [bslash, CHR ''b'']
      else if r = 12 then [bslash, CHR ''f'']
      else if r = 10 then [bslash, CHR ''n'']
      else if r = 13 then [bslash, CHR ''r'']
      else if r = 9 then [bslash, CHR ''t'']
      else if r < 32 \<or> r = 60 \<or> r = 62 \<or> r = 38 then [bslash, CHR ''u'', CHR ''0'', CHR ''0'', hex_char (r div 16), hex_char (r mod 16)]
      else if r = 8232 \<or> r = 8233 then [bslash, CHR ''u'', CHR ''2'', CHR ''0'', CHR ''2'', hex_char (r mod 16)]
      else utf8_encode_rune r)"

text \<open>A byte that is no UTF-8 is written as the replacement character.\<close>

function quote_body :: "bytes \<Rightarrow> string" where
  "quote_body [] = []"
| "quote_body (c # s) = (case utf8_first c s of None \<Rightarrow> [bslash] @ ''ufffd'' @ quote_body s | Some (r, t) \<Rightarrow> quote_rune r @ quote_body t)"
  by pat_completeness auto
termination
  by (relation "measure length") (auto dest: utf8_first_shorter)

definition json_string :: "bytes \<Rightarrow> string" where
  "json_string s = [dquote] @ quote_body s @ [dquote]"

text \<open>The entries of a Go map filled from a list of members, by sorted key.\<close>

definition sorted_entries :: "(bytes \<times> 'a) list \<Rightarrow> (bytes \<times> 'a) list" where
  "sorted_entries kvs = map (\<lambda>k. (k, the (map_of (rev kvs) k))) (sort (remdups (map fst kvs)))"

primrec write_canonical :: "json \<Rightarrow> string" where
  "write_canonical JNull = ''null''"
| "write_canonical (JBool b) = (if b then ''true'' else ''false'')"
| "write_canonical (JNum n) = n"
| "write_canonical (JStr s) = json_string s"
| "write_canonical (JArr xs) = ''['' @ join_with '','' (map write_canonical xs) @ '']''"
| "write_canonical (JObj kvs) = ''{'' @ join_with '','' (map (\<lambda>(k, s). json_string k @ '':'' @ s)
     (sorted_entries (map (map_prod (\<lambda>k. k) write_canonical) kvs))) @ ''}''"

text \<open>The document as the map it stands for.\<close>

primrec json_norm :: "json \<Rightarrow> json" where
  "json_norm JNull = JNull"
| "json_norm (JBool b) = JBool b"
| "json_norm (JNum n) = JNum n"
| "json_norm (JStr s) = JStr s"
| "json_norm (JArr xs) = JArr (map json_norm xs)"
| "json_norm (JObj kvs) = JObj (sorted_entries (map (map_prod (\<lambda>k. k) json_norm) kvs))"

section \<open>Strings are self-delimiting\<close>

definition valid_utf8 :: "bytes \<Rightarrow> bool" where
  "valid_utf8 s \<longleftrightarrow> utf8_encode (utf8_decode s) = s"

lemma valid_utf8_runes: "valid_utf8 s \<Longrightarrow> \<exists>rs. s = utf8_encode rs \<and> (\<forall>r \<in> set rs. rune_ok r)"
  unfolding valid_utf8_def using utf8_decode_ok by metis

lemma quote_body_encode: "\<forall>r \<in> set rs. rune_ok r \<Longrightarrow> quote_body (utf8_encode rs) = concat (map quote_rune rs)"
proof (induction rs)
  case (Cons r rs)
  obtain c s where c: "utf8_encode_rune r = c # s" "utf8_first c (s @ utf8_encode rs) = Some (r, utf8_encode rs)"
    using utf8_first_encode [of r "utf8_encode rs"] Cons.prems by auto
  have "utf8_encode (r # rs) = c # s @ utf8_encode rs" using c(1) by (simp add: utf8_encode_def)
  then show ?case using c(2) Cons by simp
qed (simp add: utf8_encode_def)

definition hex_value :: "char \<Rightarrow> nat" where
  "hex_value c = (case hex_val c of None \<Rightarrow> 0 | Some n \<Rightarrow> n)"

text \<open>Reading one rune back.\<close>

fun unquote1 :: "string \<Rightarrow> (nat \<times> string) option" where
  "unquote1 [] = None"
| "unquote1 (c # s) =
     (if c = bslash then
        (case s of [] \<Rightarrow> None
         | d # t \<Rightarrow>
           if d = CHR ''b'' then Some (8, t) else if d = CHR ''f'' then Some (12, t) else if d = CHR ''n'' then Some (10, t)
           else if d = CHR ''r'' then Some (13, t) else if d = CHR ''t'' then Some (9, t)
           else if d = CHR ''u'' then
             (case t of e # f # g # h # u \<Rightarrow> Some (hex_value e * 4096 + hex_value f * 256 + hex_value g * 16 + hex_value h, u) | _ \<Rightarrow> None)
           else Some (of_char d, t))
      else utf8_first c s)"

lemma hex_value_char: "n < 16 \<Longrightarrow> hex_value (hex_char n) = n"
  by (simp add: hex_value_def hex_val_char)

lemma byte_at_special: "byte_at 34 = dquote" "byte_at 92 = bslash"
  by (simp_all add: byte_at_def char_of_def bit_0 dquote_def bslash_def)

lemma of_char_special: "(of_char dquote :: nat) = 34" "(of_char bslash :: nat) = 92"
  by (simp_all add: dquote_def bslash_def)

lemma utf8_plain_start:
  assumes "rune_ok r" "r \<noteq> 34" "r \<noteq> 92"
  obtains c s where "utf8_encode_rune r = c # s" "c \<noteq> dquote" "c \<noteq> bslash" "\<And>t. utf8_first c (s @ t) = Some (r, t)"
proof -
  obtain c s where c: "utf8_encode_rune r = c # s" using utf8_first_encode [OF assms(1), of "[]"] by blast
  have f: "utf8_first c (s @ t) = Some (r, t)" for t using utf8_first_encode [OF assms(1), of t] c by simp
  have "(of_char c :: nat) < 128 \<Longrightarrow> of_char c = r" using f [of "[]"] by (simp add: utf8_first_def)
  then have "c \<noteq> dquote" "c \<noteq> bslash" using assms(2,3) by (auto simp: of_char_special)
  with c f that show ?thesis by blast
qed

lemma unquote1_quote: "rune_ok r \<Longrightarrow> unquote1 (quote_rune r @ t) = Some (r, t)"
proof -
  assume ok: "rune_ok r"
  consider "r = 34 \<or> r = 92" | "r = 8 \<or> r = 12 \<or> r = 10 \<or> r = 13 \<or> r = 9"
    | "r \<noteq> 8" "r \<noteq> 12" "r \<noteq> 10" "r \<noteq> 13" "r \<noteq> 9" "r < 32 \<or> r = 60 \<or> r = 62 \<or> r = 38" | "r = 8232 \<or> r = 8233"
    | "r \<noteq> 34" "r \<noteq> 92" "r \<noteq> 8" "r \<noteq> 12" "r \<noteq> 10" "r \<noteq> 13" "r \<noteq> 9" "\<not> (r < 32 \<or> r = 60 \<or> r = 62 \<or> r = 38)" "\<not> (r = 8232 \<or> r = 8233)"
    by blast
  then show ?thesis
  proof cases
    case 1
    then show ?thesis by (auto simp: quote_rune_def byte_at_special of_char_special) (simp_all add: dquote_def bslash_def)
  next
    case 2
    then show ?thesis by (elim disjE) (simp_all add: quote_rune_def)
  next
    case 3
    have h: "hex_value CHR ''0'' = 0" by (simp add: hex_value_def hex_val_def)
    have q: "quote_rune r = [bslash, CHR ''u'', CHR ''0'', CHR ''0'', hex_char (r div 16), hex_char (r mod 16)]"
      using 3 by (auto simp: quote_rune_def)
    have "r div 16 < 16" "r mod 16 < 16" using 3(6) by auto
    then have "hex_value (hex_char (r div 16)) * 16 + hex_value (hex_char (r mod 16)) = r" by (simp add: hex_value_char)
    then show ?thesis unfolding q by (simp add: h)
  next
    case 4
    have h: "hex_value CHR ''0'' = 0" "hex_value CHR ''2'' = 2" by (simp_all add: hex_value_def hex_val_def)
    have x: "hex_value (hex_char 8) = 8" "hex_value (hex_char 9) = 9" by (simp_all add: hex_value_char)
    have q: "quote_rune 8232 = [bslash, CHR ''u'', CHR ''2'', CHR ''0'', CHR ''2'', hex_char 8]"
      "quote_rune 8233 = [bslash, CHR ''u'', CHR ''2'', CHR ''0'', CHR ''2'', hex_char 9]" by (simp_all add: quote_rune_def)
    from 4 show ?thesis by (elim disjE) (simp_all add: q h x)
  next
    case 5
    obtain c s where "utf8_encode_rune r = c # s" "c \<noteq> bslash" "\<And>t. utf8_first c (s @ t) = Some (r, t)"
      using utf8_plain_start [OF ok 5(1,2)] by metis
    moreover have "quote_rune r = utf8_encode_rune r" unfolding quote_rune_def using 5 by simp
    ultimately show ?thesis by simp
  qed
qed

lemma quote_rune_start: "rune_ok r \<Longrightarrow> \<exists>c s. quote_rune r = c # s \<and> c \<noteq> dquote"
proof -
  assume ok: "rune_ok r"
  show ?thesis
  proof (cases "quote_rune r = utf8_encode_rune r \<and> r \<noteq> 34 \<and> r \<noteq> 92")
    case True
    then show ?thesis using utf8_plain_start [OF ok] by metis
  next
    case False
    have "bslash \<noteq> dquote" by (simp add: bslash_def dquote_def)
    with False show ?thesis by (auto simp: quote_rune_def split: if_splits)
  qed
qed

lemma quotes_unique:
  assumes "\<forall>r \<in> set rs. rune_ok r" "\<forall>r \<in> set ss. rune_ok r"
    and "concat (map quote_rune rs) @ dquote # t = concat (map quote_rune ss) @ dquote # u"
  shows "rs = ss \<and> t = u"
  using assms
proof (induction rs arbitrary: ss)
  case Nil
  show ?case
  proof (cases ss)
    case (Cons s ss')
    with Nil quote_rune_start [of s] show ?thesis by auto
  qed (use Nil in simp)
next
  case (Cons r rs)
  show ?case
  proof (cases ss)
    case Nil
    with Cons.prems quote_rune_start [of r] show ?thesis by auto
  next
    case ss: (Cons s ss')
    have "unquote1 (quote_rune r @ concat (map quote_rune rs) @ dquote # t) = unquote1 (quote_rune s @ concat (map quote_rune ss') @ dquote # u)"
      using Cons.prems(3) ss by simp
    then have "r = s" "concat (map quote_rune rs) @ dquote # t = concat (map quote_rune ss') @ dquote # u"
      using unquote1_quote Cons.prems(1,2) ss by simp_all
    with Cons.IH [of ss'] Cons.prems(1,2) ss show ?thesis by simp
  qed
qed

lemma json_string_unique:
  assumes "valid_utf8 a" "valid_utf8 b" "json_string a @ t = json_string b @ u"
  shows "a = b \<and> t = u"
proof -
  obtain rs ss where r: "a = utf8_encode rs" "\<forall>r \<in> set rs. rune_ok r" "b = utf8_encode ss" "\<forall>r \<in> set ss. rune_ok r"
    using valid_utf8_runes assms(1,2) by metis
  have "concat (map quote_rune rs) @ dquote # t = concat (map quote_rune ss) @ dquote # u"
    using assms(3) r by (simp add: json_string_def quote_body_encode)
  from quotes_unique [OF r(2,4) this] r(1,3) show ?thesis by simp
qed

section \<open>Documents are self-delimiting\<close>

definition number_char :: "char \<Rightarrow> bool" where
  "number_char c \<longleftrightarrow> c \<in> set ''0123456789+-.eE''"

primrec json_ok :: "json \<Rightarrow> bool" where
  "json_ok JNull = True"
| "json_ok (JBool b) = True"
| "json_ok (JNum n) = (n \<noteq> [] \<and> list_all number_char n \<and> hd n \<noteq> CHR ''e'' \<and> hd n \<noteq> CHR ''E'')"
| "json_ok (JStr s) = valid_utf8 s"
| "json_ok (JArr xs) = list_all (\<lambda>b. b) (map json_ok xs)"
| "json_ok (JObj kvs) = list_all (\<lambda>(k, b). valid_utf8 k \<and> b) (map (map_prod (\<lambda>k. k) json_ok) kvs)"

text \<open>What may follow a document: nothing, or a character that ends a number.\<close>

definition ends :: "string \<Rightarrow> bool" where
  "ends t \<longleftrightarrow> t = [] \<or> \<not> number_char (hd t)"

lemma takeWhile_number:
  assumes "list_all number_char n" "ends t"
  shows "takeWhile number_char (n @ t) = n"
proof -
  have "takeWhile number_char t = []" using assms(2) by (cases t) (auto simp: ends_def)
  then show ?thesis using assms(1) by (simp add: takeWhile_append2 list_all_iff)
qed

text \<open>Separated items, each self-delimiting, up to a closing character.\<close>

lemma join_Cons: "join_with sep (f x # map f xs) = f x @ concat (map (\<lambda>y. sep @ f y) xs)"
  by (induction xs arbitrary: x) auto

lemma tail_unique:
  assumes item: "\<And>x y t u. x \<in> set xs \<Longrightarrow> y \<in> set ys \<Longrightarrow> ends t \<Longrightarrow> ends u \<Longrightarrow> f x @ t = f y @ u \<Longrightarrow> x = y \<and> t = u"
    and close: "\<not> number_char close" "close \<noteq> CHR '',''"
    and eq: "concat (map (\<lambda>y. '','' @ f y) xs) @ close # t = concat (map (\<lambda>y. '','' @ f y) ys) @ close # u"
  shows "xs = ys \<and> t = u"
  using item eq
proof (induction xs arbitrary: ys)
  case Nil
  then show ?case using close(2) by (cases ys) auto
next
  case (Cons x xs)
  show ?case
  proof (cases ys)
    case Nil
    with Cons.prems(2) close(2) show ?thesis by auto
  next
    case ys: (Cons y ys')
    have e: "ends (concat (map (\<lambda>y. '','' @ f y) zs) @ close # v)" for zs v
      using close by (cases zs) (auto simp: ends_def number_char_def)
    have "f x @ concat (map (\<lambda>y. '','' @ f y) xs) @ close # t = f y @ concat (map (\<lambda>y. '','' @ f y) ys') @ close # u"
      using Cons.prems(2) ys by simp
    from Cons.prems(1) [OF _ _ e e this] ys
    have 1: "x = y" "concat (map (\<lambda>y. '','' @ f y) xs) @ close # t = concat (map (\<lambda>y. '','' @ f y) ys') @ close # u" by auto
    have "\<And>x y t u. x \<in> set xs \<Longrightarrow> y \<in> set ys' \<Longrightarrow> ends t \<Longrightarrow> ends u \<Longrightarrow> f x @ t = f y @ u \<Longrightarrow> x = y \<and> t = u"
      by (rule Cons.prems(1)) (use ys in auto)
    from Cons.IH [OF this 1(2)] have "xs = ys' \<and> t = u" .
    with 1(1) ys show ?thesis by blast
  qed
qed

lemma join_unique:
  assumes item: "\<And>x y t u. x \<in> set xs \<Longrightarrow> y \<in> set ys \<Longrightarrow> ends t \<Longrightarrow> ends u \<Longrightarrow> f x @ t = f y @ u \<Longrightarrow> x = y \<and> t = u"
    and start: "\<And>x. x \<in> set xs \<union> set ys \<Longrightarrow> f x \<noteq> [] \<and> hd (f x) \<noteq> close"
    and close: "\<not> number_char close" "close \<noteq> CHR '',''"
    and eq: "join_with '','' (map f xs) @ close # t = join_with '','' (map f ys) @ close # u"
  shows "xs = ys \<and> t = u"
proof (cases xs)
  case Nil
  show ?thesis
  proof (cases ys)
    case (Cons y ys')
    with eq Nil have "close # t = f y @ concat (map (\<lambda>y. '','' @ f y) ys') @ close # u" by (simp only: join_Cons [of "'',''" f] list.map join_with.simps append_Nil append_assoc)
    with start [of y] Cons show ?thesis by (cases "f y") auto
  qed (use Nil eq in simp)
next
  case xs: (Cons x xs')
  show ?thesis
  proof (cases ys)
    case Nil
    with eq xs have "f x @ concat (map (\<lambda>y. '','' @ f y) xs') @ close # t = close # u" by (simp only: join_Cons [of "'',''" f] list.map join_with.simps append_Nil append_assoc)
    with start [of x] xs show ?thesis by (cases "f x") auto
  next
    case ys: (Cons y ys')
    let ?T = "\<lambda>zs. concat (map (\<lambda>y. '','' @ f y) zs)"
    have "join_with '','' (map f xs) = f x @ ?T xs'" "join_with '','' (map f ys) = f y @ ?T ys'"
      unfolding xs ys list.map by (rule join_Cons)+
    then have e: "f x @ ?T xs' @ close # t = f y @ ?T ys' @ close # u" using eq by simp
    have "?T xs = '','' @ f x @ ?T xs'" "?T ys = '','' @ f y @ ?T ys'" unfolding xs ys by simp_all
    with e have eqT: "?T xs @ close # t = ?T ys @ close # u" by simp
    show ?thesis
    proof (rule tail_unique [where f = f and close = close])
      show "?T xs @ close # t = ?T ys @ close # u" by (rule eqT)
    qed (use item close in blast)+
  qed
qed

section \<open>The bytes identify the document\<close>

lemma write_canonical_start:
  "json_ok v \<Longrightarrow> write_canonical v \<noteq> [] \<and> hd (write_canonical v) \<noteq> CHR '']'' \<and> hd (write_canonical v) \<noteq> CHR ''}''"
proof (cases v)
  case (JNum n)
  assume "json_ok v"
  with JNum have "number_char (hd n)" "n \<noteq> []" by (cases n; simp)+
  with JNum show ?thesis by (auto simp: number_char_def)
qed (auto simp: json_string_def dquote_def)

text \<open>A document whose objects list distinct keys in order, as \<^const>\<open>json_norm\<close> makes them.\<close>

primrec json_sorted :: "json \<Rightarrow> bool" where
  "json_sorted JNull = True"
| "json_sorted (JBool b) = True"
| "json_sorted (JNum n) = True"
| "json_sorted (JStr s) = True"
| "json_sorted (JArr xs) = list_all (\<lambda>b. b) (map json_sorted xs)"
| "json_sorted (JObj kvs) = (sorted (map fst kvs) \<and> distinct (map fst kvs) \<and> list_all (\<lambda>(k, b). b) (map (map_prod (\<lambda>k. k) json_sorted) kvs))"

lemma sorted_entries_keys: "map fst (sorted_entries kvs) = sort (remdups (map fst kvs))"
  by (simp add: sorted_entries_def comp_def)

lemma sorted_entries_id: "sorted (map fst kvs) \<Longrightarrow> distinct (map fst kvs) \<Longrightarrow> sorted_entries kvs = kvs"
proof -
  assume s: "sorted (map fst kvs)" "distinct (map fst kvs)"
  have d: "distinct (map fst (rev kvs))" using s(2) by (simp add: rev_map [symmetric])
  have "map (\<lambda>k. (k, the (map_of (rev kvs) k))) (map fst kvs) = kvs"
    unfolding map_map comp_def using d by (intro map_idI) (auto simp: map_of_is_SomeI)
  then show ?thesis using s by (simp add: sorted_entries_def distinct_remdups_id sort_key_id_if_sorted)
qed

lemma sorted_entries_set: "(k, v) \<in> set (sorted_entries kvs) \<Longrightarrow> (k, v) \<in> set kvs"
proof -
  assume "(k, v) \<in> set (sorted_entries kvs)"
  then have k: "k \<in> fst ` set kvs" "v = the (map_of (rev kvs) k)" by (auto simp: sorted_entries_def)
  then have "k \<in> dom (map_of (rev kvs))" by (simp add: dom_map_of_conv_image_fst)
  then obtain w where "map_of (rev kvs) k = Some w" by blast
  then show ?thesis using k(2) map_of_SomeD by fastforce
qed

lemma sorted_entries_map: "sorted_entries (map (map_prod (\<lambda>k. k) f) kvs) = map (map_prod (\<lambda>k. k) f) (sorted_entries kvs)"
proof -
  have m: "map_of (map (map_prod (\<lambda>k. k) f) xs) k = map_option f (map_of xs k)" for xs k
    by (induction xs) auto
  have keys: "map fst (map (map_prod (\<lambda>k. k) f) kvs) = map fst kvs" by simp
  have val: "the (map_of (rev (map (map_prod (\<lambda>k. k) f) kvs)) k) = f (the (map_of (rev kvs) k))" if "k \<in> fst ` set kvs" for k
  proof -
    have "k \<in> dom (map_of (rev kvs))" using that by (simp add: dom_map_of_conv_image_fst)
    then obtain w where "map_of (rev kvs) k = Some w" by blast
    then show ?thesis unfolding rev_map m by simp
  qed
  let ?K = "sort (remdups (map fst kvs))"
  have "map (\<lambda>k. (k, the (map_of (rev (map (map_prod (\<lambda>k. k) f) kvs)) k))) ?K = map (\<lambda>k. (k, f (the (map_of (rev kvs) k)))) ?K"
  proof (rule map_cong [OF refl])
    fix k assume "k \<in> set ?K"
    then have "k \<in> fst ` set kvs" by simp
    then show "(k, the (map_of (rev (map (map_prod (\<lambda>k. k) f) kvs)) k)) = (k, f (the (map_of (rev kvs) k)))" by (simp only: val)
  qed
  also have "\<dots> = map (map_prod (\<lambda>k. k) f) (map (\<lambda>k. (k, the (map_of (rev kvs) k))) ?K)" by simp
  finally show ?thesis unfolding sorted_entries_def keys .
qed

lemma json_norm_sorted: "json_sorted (json_norm v)"
proof (induction v)
  case (JObj kvs)
  have "json_sorted w" if kw: "(k, w) \<in> set (sorted_entries (map (map_prod (\<lambda>k. k) json_norm) kvs))" for k w
  proof -
    from sorted_entries_set [OF kw] obtain x where x: "(k, x) \<in> set kvs" "w = json_norm x" by auto
    show ?thesis unfolding x(2) by (rule JObj [OF x(1)]) simp
  qed
  then have "list_all (\<lambda>(k, b). b) (map (map_prod (\<lambda>k. k) json_sorted) (sorted_entries (map (map_prod (\<lambda>k. k) json_norm) kvs)))"
    unfolding list_all_iff by fastforce
  then show ?case by (simp add: sorted_entries_keys)
qed (auto simp: list_all_iff)

lemma json_norm_ok: "json_ok v \<Longrightarrow> json_ok (json_norm v)"
proof (induction v)
  case (JObj kvs)
  have "valid_utf8 k \<and> json_ok w" if "(k, w) \<in> set (sorted_entries (map (map_prod (\<lambda>k. k) json_norm) kvs))" for k w
  proof -
    from sorted_entries_set [OF that] obtain x where x: "(k, x) \<in> set kvs" "w = json_norm x" by auto
    with JObj.prems have "valid_utf8 k" "json_ok x" by (auto simp: list_all_iff)
    then show ?thesis unfolding x(2) using JObj.IH [OF x(1)] by simp
  qed
  then show ?case by (auto simp: list_all_iff)
qed (auto simp: list_all_iff)

lemma write_norm: "write_canonical (json_norm v) = write_canonical v"
proof (induction v)
  case (JArr xs)
  then have "map write_canonical (map json_norm xs) = map write_canonical xs" by simp
  then show ?case by (simp del: map_map)
next
  case (JObj kvs)
  let ?e = "\<lambda>f. map (map_prod (\<lambda>k. k) f)"
  have idem: "sorted_entries (sorted_entries xs) = sorted_entries xs" for xs :: "(bytes \<times> 'z) list"
    by (rule sorted_entries_id) (simp_all add: sorted_entries_keys)
  have "?e write_canonical (?e json_norm kvs) = ?e write_canonical kvs"
  proof -
    have "map_prod (\<lambda>k. k) (\<lambda>v. write_canonical (json_norm v)) kv = map_prod (\<lambda>k. k) write_canonical kv" if "kv \<in> set kvs" for kv
      using JObj that by (cases kv) force
    then show ?thesis by (simp add: prod.map_comp comp_def)
  qed
  then have "sorted_entries (?e write_canonical (sorted_entries (?e json_norm kvs))) = sorted_entries (?e write_canonical kvs)"
    unfolding sorted_entries_map [of write_canonical] idem by (simp only: sorted_entries_map [symmetric])
  then show ?case by simp
qed simp_all

text \<open>The first character tells what kind of document follows.\<close>

fun json_tag :: "json \<Rightarrow> nat" where
  "json_tag JNull = 0"
| "json_tag (JBool b) = 1"
| "json_tag (JNum n) = 2"
| "json_tag (JStr s) = 3"
| "json_tag (JArr xs) = 4"
| "json_tag (JObj kvs) = 5"

definition char_tag :: "char \<Rightarrow> nat" where
  "char_tag c = (if c = CHR ''n'' then 0 else if c = CHR ''t'' \<or> c = CHR ''f'' then 1 else if c = dquote then 3
     else if c = CHR ''['' then 4 else if c = CHR ''{'' then 5 else 2)"

lemma char_tag_write: "json_ok v \<Longrightarrow> char_tag (hd (write_canonical v @ t)) = json_tag v"
proof (cases v)
  case (JNum n)
  assume "json_ok v"
  with JNum have "number_char (hd n)" "n \<noteq> []" by (cases n; simp)+
  then show ?thesis using JNum by (auto simp: number_char_def char_tag_def dquote_def)
qed (auto simp: char_tag_def json_string_def dquote_def)

lemma write_tag:
  assumes "json_ok v" "json_ok w" "write_canonical v @ t = write_canonical w @ u"
  shows "json_tag v = json_tag w"
  using char_tag_write [OF assms(1), of t] char_tag_write [OF assms(2), of u] assms(3) by simp

lemma write_unique:
  assumes "json_ok v" "json_ok w" "json_sorted v" "json_sorted w" "ends t" "ends u"
    and "write_canonical v @ t = write_canonical w @ u"
  shows "v = w \<and> t = u"
  using assms
proof (induction v arbitrary: w t u)
  case JNull
  with write_tag [OF JNull(1,2,7)] show ?case by (cases w) simp_all
next
  case (JBool b)
  from write_tag [OF JBool(1,2,7)] obtain c where "w = JBool c" by (cases w) auto
  with JBool(7) show ?case by (auto split: if_splits)
next
  case (JNum n)
  from write_tag [OF JNum(1,2,7)] obtain m where m: "w = JNum m" by (cases w) auto
  have "takeWhile number_char (n @ t) = n" "takeWhile number_char (m @ u) = m"
    using JNum(1,2,5,6) m by (simp_all add: takeWhile_number)
  with JNum(7) m have "n = m" by simp
  with JNum(7) m show ?case by simp
next
  case (JStr s)
  from write_tag [OF JStr(1,2,7)] obtain r where "w = JStr r" by (cases w) auto
  with JStr json_string_unique [of s r t u] show ?case by simp
next
  case (JArr xs)
  from write_tag [OF JArr.prems(1,2,7)] obtain ys where w: "w = JArr ys" by (cases w) auto
  have ok: "\<forall>x \<in> set xs. json_ok x \<and> json_sorted x" "\<forall>y \<in> set ys. json_ok y \<and> json_sorted y"
    using JArr.prems w by (auto simp: list_all_iff)
  have e: "join_with '','' (map write_canonical xs) @ CHR '']'' # t = join_with '','' (map write_canonical ys) @ CHR '']'' # u"
    using JArr.prems(7) w by simp
  have "xs = ys \<and> t = u"
  proof (rule join_unique [OF _ _ _ _ e])
    show "x = y \<and> t' = u'" if "x \<in> set xs" "y \<in> set ys" "ends t'" "ends u'" "write_canonical x @ t' = write_canonical y @ u'" for x y t' u'
      using JArr.IH [OF that(1)] ok that by blast
    show "write_canonical x \<noteq> [] \<and> hd (write_canonical x) \<noteq> CHR '']''" if "x \<in> set xs \<union> set ys" for x
      using write_canonical_start [of x] ok that by blast
  qed (simp_all add: number_char_def)
  with w show ?case by simp
next
  case (JObj kvs)
  from write_tag [OF JObj.prems(1,2,7)] obtain lvs where w: "w = JObj lvs" by (cases w) auto
  let ?f = "\<lambda>kv. json_string (fst kv) @ '':'' @ write_canonical (snd kv)"
  have form: "map (\<lambda>(k, s). json_string k @ '':'' @ s) (sorted_entries (map (map_prod (\<lambda>k. k) write_canonical) es)) = map ?f es"
    if "json_sorted (JObj es)" for es
    using that by (simp add: sorted_entries_map sorted_entries_id case_prod_beta comp_def)
  have ok: "\<forall>kv \<in> set kvs. valid_utf8 (fst kv) \<and> json_ok (snd kv) \<and> json_sorted (snd kv)"
    "\<forall>kv \<in> set lvs. valid_utf8 (fst kv) \<and> json_ok (snd kv) \<and> json_sorted (snd kv)"
    using JObj.prems(1-4) w by (auto simp: list_all_iff)
  have e: "join_with '','' (map ?f kvs) @ CHR ''}'' # t = join_with '','' (map ?f lvs) @ CHR ''}'' # u"
    using JObj.prems(7) w form [OF JObj.prems(3)] form [of lvs] JObj.prems(4) by simp
  have "kvs = lvs \<and> t = u"
  proof (rule join_unique [OF _ _ _ _ e])
    show "x = y \<and> t' = u'" if x: "x \<in> set kvs" "y \<in> set lvs" "ends t'" "ends u'" "?f x @ t' = ?f y @ u'" for x y t' u'
    proof -
      have k: "fst x = fst y \<and> '':'' @ write_canonical (snd x) @ t' = '':'' @ write_canonical (snd y) @ u'"
        by (rule json_string_unique) (use ok x in simp_all)
      have "snd x = snd y \<and> t' = u'"
        by (rule JObj.IH [of x "snd x"]) (use ok x k in \<open>auto simp: snds.simps\<close>)
      with k show ?thesis by (simp add: prod_eq_iff)
    qed
    show "?f x \<noteq> [] \<and> hd (?f x) \<noteq> CHR ''}''" if "x \<in> set kvs \<union> set lvs" for x
      by (simp add: json_string_def dquote_def)
  qed (simp_all add: number_char_def)
  with w show ?case by simp
qed

lemma canonical_identifies_doc: "json_ok v \<Longrightarrow> json_ok w \<Longrightarrow> write_canonical v = write_canonical w \<longleftrightarrow> json_norm v = json_norm w"
proof
  assume ok: "json_ok v" "json_ok w" and "write_canonical v = write_canonical w"
  then have "write_canonical (json_norm v) @ [] = write_canonical (json_norm w) @ []" by (simp add: write_norm)
  then show "json_norm v = json_norm w"
    using write_unique [of "json_norm v" "json_norm w" "[]" "[]"] json_norm_ok json_norm_sorted ok by (simp add: ends_def)
next
  assume "json_norm v = json_norm w"
  then show "write_canonical v = write_canonical w" using write_norm by metis
qed

text \<open>
  The canonical bytes identify the document: two documents (valid strings, numbers as JSON writes
  them) have the same bytes exactly when they are the same up to the order of object members, and a
  member overridden by a later one with the same key does not count.
\<close>
theorem canonical_identifies:
  assumes "json_ok v" "json_ok w"
  shows "write_canonical v = write_canonical w \<longleftrightarrow> json_norm v = json_norm w"
  by (rule canonical_identifies_doc [OF assms])

theorem canonical_identifies_witness:
  "(write_canonical (JObj [(''b'', JNum ''1''), (''a'', JBool True)]) = write_canonical (JObj [(''a'', JBool True), (''b'', JNum ''1'')])) =
   (json_norm (JObj [(''b'', JNum ''1''), (''a'', JBool True)]) = json_norm (JObj [(''a'', JBool True), (''b'', JNum ''1'')]))"
proof -
  have v: "valid_utf8 ''a''" "valid_utf8 ''b''"
    by (simp_all add: valid_utf8_def utf8_first_ascii utf8_encode_def utf8_encode_rune_def byte_at_def char_of_def bit_0)
  show ?thesis by (rule canonical_identifies) (simp_all add: v number_char_def)
qed

end
