(* ===== verification/Pathmap.thy ===== *)
theory Pathmap
  imports Go_Filepath
begin

text \<open>
  Portable paths: \<^verbatim>\<open>internal/pathmap/token.go\<close> and \<^verbatim>\<open>portable.go\<close>, on a host whose path separator is
  a slash. A path below a project root, a work alias or the home directory is written as a token and
  a remainder, and read back against the roots of the destination.
\<close>

section \<open>Tokens\<close>

text \<open>
  The fields of \<^verbatim>\<open>Mapper\<close>. A Go map is the list of its entries in the order the program happens to
  visit them; \<open>mp_windows\<close> says that the style is the Windows one.
\<close>

record mapper =
  mp_home :: string
  mp_projects :: "(string \<times> string) list"
  mp_normalize_projects :: "(string \<times> string) list"
  mp_aliases :: "(string \<times> string) list"
  mp_windows :: bool

definition backslash :: char where "backslash = CHR 0x5C"
definition closing :: char where "closing = CHR ''}''"

definition HomeToken :: string where "HomeToken = ''${HOME}''"
definition RepoPrefix :: string where "RepoPrefix = ''${REPO:''"
definition WorkPrefix :: string where "WorkPrefix = ''${WORK:''"
definition ExternalPrefix :: string where "ExternalPrefix = ''${EXTERNAL:''"

lemmas token_defs = HomeToken_def RepoPrefix_def WorkPrefix_def ExternalPrefix_def

definition is_token :: "string \<Rightarrow> bool" where
  "is_token v \<longleftrightarrow> has_prefix v RepoPrefix \<or> has_prefix v HomeToken \<or> has_prefix v WorkPrefix \<or> has_prefix v ExternalPrefix"

definition is_letter :: "char \<Rightarrow> bool" where
  "is_letter c \<longleftrightarrow> (CHR ''A'' \<le> c \<and> c \<le> CHR ''Z'') \<or> (CHR ''a'' \<le> c \<and> c \<le> CHR ''z'')"

definition is_absolute_platform :: "string \<Rightarrow> bool" where
  "is_absolute_platform v =
     (if v = [] then False
      else if is_abs v \<or> has_prefix v ''/'' \<or> has_prefix v [backslash] then True
      else length v \<ge> 3 \<and> is_letter (v ! 0) \<and> v ! 1 = CHR '':'' \<and> (v ! 2 = backslash \<or> v ! 2 = slash))"

definition to_slash :: "string \<Rightarrow> string" where
  "to_slash p = map (\<lambda>c. if c = backslash then slash else c) p"

text \<open>\<open>fold_case\<close> is \<^verbatim>\<open>strings.ToLower\<close> on ASCII, used for the Windows style only.\<close>

definition fold_case :: "bool \<Rightarrow> string \<Rightarrow> string" where
  "fold_case windows p = (if windows then to_lower p else p)"

definition has_prefix_path :: "bool \<Rightarrow> string \<Rightarrow> string \<Rightarrow> bool" where
  "has_prefix_path windows p0 prefix0 =
     (let p = fold_case windows (to_slash (path_clean p0)); prefix = fold_case windows (to_slash (path_clean prefix0)) in
      p = prefix \<or> has_prefix p (trim_suffix prefix [slash] @ [slash]))"

definition trim_prefix_path :: "bool \<Rightarrow> string \<Rightarrow> string \<Rightarrow> string" where
  "trim_prefix_path windows p0 prefix0 =
     (let orig = to_slash (path_clean p0); p = fold_case windows orig; prefix = fold_case windows (to_slash (path_clean prefix0));
          pre = trim_suffix prefix [slash] @ [slash] in
      if p = prefix then [] else if \<not> has_prefix p pre then orig else drop (length pre) orig)"

text \<open>The token with the remainder of the path behind it.\<close>

definition with_rest :: "string \<Rightarrow> string \<Rightarrow> string" where
  "with_rest token rel = (if rel = [] \<or> rel = ''.'' then token else token @ [slash] @ trim_prefix rel [slash])"

definition better_root :: "bool \<Rightarrow> string \<Rightarrow> string \<times> string \<Rightarrow> string \<times> string \<Rightarrow> string \<times> string" where
  "better_root windows p best entry =
     (let r = path_clean (snd entry) in
      if has_prefix_path windows p r \<and> length r > length (snd best) then (fst entry, r) else best)"

definition best_project :: "mapper \<Rightarrow> string \<Rightarrow> string \<times> string" where
  "best_project M p = foldl (better_root (mp_windows M) p) ([], []) (mp_normalize_projects M @ mp_projects M)"

definition normalize_path :: "mapper \<Rightarrow> string \<Rightarrow> string" where
  "normalize_path M platform =
     (let p = path_clean platform; w = mp_windows M; (i, root) = best_project M p in
      if i \<noteq> [] then with_rest (RepoPrefix @ i @ [closing]) (to_slash (trim_prefix_path w p root))
      else case find (\<lambda>(a, r). has_prefix_path w p (path_clean r)) (mp_aliases M) of
        Some (a, r) \<Rightarrow> with_rest (WorkPrefix @ a @ [closing]) (to_slash (trim_prefix_path w p (path_clean r)))
      | None \<Rightarrow>
        if mp_home M \<noteq> [] \<and> has_prefix_path w p (path_clean (mp_home M))
        then with_rest HomeToken (to_slash (trim_prefix_path w p (path_clean (mp_home M))))
        else to_slash p)"

text \<open>
  \<^verbatim>\<open>ExternalToken\<close> and \<^verbatim>\<open>NormalizePortable\<close>, over the digest; the digest of the cleaned path stands for
  the directories that are not disclosed.
\<close>

definition external_token :: "sha256 \<Rightarrow> string \<Rightarrow> string" where
  "external_token sha platform =
     (let cleaned = to_slash (path_clean platform);
          token = ExternalPrefix @ hex_encode (take 8 (sum_bytes (sha cleaned))) @ [closing]; base = path_base cleaned in
      if base = [] \<or> base = ''.'' \<or> base = ''/'' then token else token @ [slash] @ base)"

definition normalize_portable :: "sha256 \<Rightarrow> mapper \<Rightarrow> string \<Rightarrow> string" where
  "normalize_portable sha M platform =
     (if platform = [] \<or> is_token platform then platform
      else if \<not> is_absolute_platform platform then platform
      else let n = normalize_path M platform in if is_token n then n else external_token sha platform)"

text \<open>
  \<^verbatim>\<open>FindStringSubmatch\<close> for the two expressions: the leftmost place where the opening is followed by
  at least one character other than the closing brace and then the brace; the match and its group.
\<close>

fun find_token :: "string \<Rightarrow> string \<Rightarrow> (string \<times> string) option" where
  "find_token start [] = None"
| "find_token start (c # s) =
     (let rest = drop (length start) (c # s); i = takeWhile (\<lambda>x. x \<noteq> closing) rest in
      if has_prefix (c # s) start \<and> i \<noteq> [] \<and> length i < length rest then Some (start @ i @ [closing], i)
      else find_token start s)"

text \<open>The remainder joined to a root; \<^verbatim>\<open>filepath.FromSlash\<close> is the identity on this host.\<close>

definition join_rest :: "string \<Rightarrow> string \<Rightarrow> string" where
  "join_rest root rest0 = (let rest = trim_prefix rest0 [slash] in if rest = [] then path_clean root else path_join root rest)"

definition denormalize_path :: "mapper \<Rightarrow> string \<Rightarrow> string" where
  "denormalize_path M p =
     (if has_prefix p HomeToken then join_rest (mp_home M) (trim_prefix p HomeToken)
      else case find_token RepoPrefix p of
        Some (m, i) \<Rightarrow> (case map_of (mp_projects M) i of None \<Rightarrow> p | Some root \<Rightarrow> join_rest root (trim_prefix p m))
      | None \<Rightarrow> (case find_token WorkPrefix p of
        Some (m, a) \<Rightarrow> (case map_of (mp_aliases M) a of None \<Rightarrow> p | Some root \<Rightarrow> join_rest root (trim_prefix p m))
      | None \<Rightarrow> if mp_windows M then p else path_clean p))"

section \<open>What is written is portable\<close>

lemma is_token_not_absolute: "is_token v \<Longrightarrow> \<not> is_absolute_platform v"
  by (auto simp: is_token_def token_defs is_absolute_platform_def has_prefix_iff is_abs_def slash_def backslash_def is_letter_def less_eq_char_def)

lemma is_token_external: "is_token (external_token sha p)"
  by (simp add: external_token_def is_token_def Let_def)

text \<open>
  A path made portable is never an absolute path of any platform, it is a token or a relative path,
  and making it portable again changes nothing.
\<close>
theorem normalize_portable_is_portable:
  "\<not> is_absolute_platform (normalize_portable sha M p)
   \<and> (is_absolute_platform p \<longrightarrow> is_token (normalize_portable sha M p))
   \<and> normalize_portable sha M (normalize_portable sha M p) = normalize_portable sha M p"
proof -
  have "normalize_portable sha M p = [] \<or> is_token (normalize_portable sha M p) \<or> \<not> is_absolute_platform (normalize_portable sha M p)"
    and "is_absolute_platform p \<longrightarrow> is_token (normalize_portable sha M p)"
    by (auto simp: normalize_portable_def Let_def is_token_external is_token_not_absolute is_absolute_platform_def [of "[]"])
  moreover have "\<not> is_absolute_platform []" by (simp add: is_absolute_platform_def)
  ultimately show ?thesis
    using is_token_not_absolute [of "normalize_portable sha M p"] by (auto simp: normalize_portable_def [of sha M "normalize_portable sha M p"])
qed

section \<open>Back and forth\<close>

lemma split_on_append_sep: "split_on c (a @ c # b) = split_on c a @ split_on c b"
  by (induction a) (auto split: list.splits)

lemma push_comp_Nil [simp]: "push_comp r st [] = st"
  by (simp add: push_comp_def)

lemma clean_comps_append: "clean_comps r (a @ slash # b) = rev (foldl (push_comp r) (rev (clean_comps r a)) (split_on slash b))"
  by (simp add: clean_comps_def split_on_append_sep)

lemma clean_comps_slash: "clean_comps r (a @ slash # slash # b) = clean_comps r (a @ slash # b)"
  by (simp add: clean_comps_append)

lemma clean_comps_clean: "clean_comps (is_abs p) (path_clean p) = clean_comps (is_abs p) p"
proof (cases "p = []")
  case True
  then show ?thesis by (simp add: clean_comps_def is_abs_def has_prefix_def slash_def push_comp_def)
next
  case False
  then show ?thesis by (simp add: path_clean_def clean_comps_render clean_comps_ok)
qed

lemma is_abs_append: "a \<noteq> [] \<Longrightarrow> is_abs (a @ b) = is_abs a"
  by (cases a) (auto simp: is_abs_def has_prefix_def)

text \<open>An absolute path cleaned after its root was replaced by the cleaned root without its final slash.\<close>

lemma clean_rooted:
  assumes "is_abs root" "is_abs q" "q = trim_suffix (path_clean root) [slash] @ slash # rest"
  shows "path_clean (root @ slash # rest) = path_clean q" "path_clean (root @ slash # trim_prefix rest [slash]) = path_clean q"
proof -
  let ?r = "path_clean root"
  have c: "clean_comps True (trim_suffix ?r [slash]) = clean_comps True root"
  proof (cases "has_suffix ?r [slash]")
    case True
    then obtain s where s: "?r = s @ [slash]" by (auto simp: has_suffix_iff)
    have "clean_comps True (s @ [slash]) = clean_comps True s" using clean_comps_append [of True s "[]"] by simp
    then show ?thesis using s clean_comps_clean [of root] assms(1) by simp
  next
    case False
    then show ?thesis using clean_comps_clean [of root] assms(1) by (simp add: trim_suffix_def)
  qed
  have ne: "root \<noteq> []" using assms(1) by (auto simp: is_abs_def has_prefix_def)
  have q: "clean_comps True q = clean_comps True (root @ slash # rest)" by (simp only: assms(3) clean_comps_append c)
  have "q \<noteq> []" using assms(2) by (auto simp: is_abs_def has_prefix_def)
  then have pq: "path_clean q = render_path True (clean_comps True q)" using assms(2) by (simp add: path_clean_def)
  have ab: "is_abs (root @ x)" for x using is_abs_append [OF ne] assms(1) by simp
  have pr: "path_clean (root @ x) = render_path True (clean_comps True (root @ x))" for x
    using ne ab [of x] by (simp add: path_clean_def)
  show "path_clean (root @ slash # rest) = path_clean q" by (simp only: pr pq q)
  have "clean_comps True (root @ slash # trim_prefix rest [slash]) = clean_comps True (root @ slash # rest)"
    by (cases rest) (auto simp: trim_prefix_def has_prefix_def clean_comps_slash)
  then show "path_clean (root @ slash # trim_prefix rest [slash]) = path_clean q" by (simp only: pr pq q)
qed

lemma to_slash_id: "backslash \<notin> set p \<Longrightarrow> to_slash p = p"
  by (induction p) (auto simp: to_slash_def)

lemma path_clean_trail:
  assumes "is_abs root"
  shows "path_clean (root @ [slash]) = path_clean root" "path_clean (root @ slash # ''.'') = path_clean root"
proof -
  have ne: "root \<noteq> []" using assms by (auto simp: is_abs_def has_prefix_def)
  have ab: "is_abs (root @ x)" for x using is_abs_append [OF ne] assms by simp
  have d: "split_on slash ''.'' = [''.'']" by (simp add: slash_def)
  have "clean_comps True (root @ slash # []) = clean_comps True root" "clean_comps True (root @ slash # ''.'') = clean_comps True root"
    unfolding clean_comps_append d by (simp_all add: push_comp_def)
  then show "path_clean (root @ [slash]) = path_clean root" "path_clean (root @ slash # ''.'') = path_clean root"
    using ne ab assms by (simp_all add: path_clean_def)
qed

lemma join_with_set: "set (join_with sep cs) \<subseteq> \<Union> (set ` set cs) \<union> set sep"
  by (induction sep cs rule: join_with.induct) auto

lemma split_on_set: "p \<in> set (split_on c s) \<Longrightarrow> set p \<subseteq> set s"
proof (induction s arbitrary: p)
  case (Cons x xs)
  show ?case
  proof (cases "split_on c xs")
    case split: (Cons y ys)
    have "set y \<subseteq> set xs" "q \<in> set ys \<Longrightarrow> set q \<subseteq> set xs" for q using Cons.IH split by auto
    with Cons.prems split show ?thesis by (auto split: if_splits)
  qed simp
qed simp

lemma push_comp_set: "\<Union> (set ` set (push_comp r st c)) \<subseteq> \<Union> (set ` set st) \<union> set c"
  by (cases st) (auto simp: push_comp_def)

lemma foldl_push_set: "\<Union> (set ` set (foldl (push_comp r) st cs)) \<subseteq> \<Union> (set ` set st) \<union> \<Union> (set ` set cs)"
proof (induction cs arbitrary: st)
  case (Cons c cs)
  have "\<Union> (set ` set (foldl (push_comp r) st (c # cs))) \<subseteq> \<Union> (set ` set (push_comp r st c)) \<union> \<Union> (set ` set cs)"
    using Cons.IH [of "push_comp r st c"] by simp
  also have "\<dots> \<subseteq> \<Union> (set ` set st) \<union> \<Union> (set ` set (c # cs))" using push_comp_set [of r st c] by auto
  finally show ?case .
qed simp

lemma clean_comps_set: "\<Union> (set ` set (clean_comps r p)) \<subseteq> set p"
proof -
  have "\<Union> (set ` set (clean_comps r p)) \<subseteq> \<Union> (set ` set (split_on slash p))"
    using foldl_push_set [of r "[]" "split_on slash p"] unfolding clean_comps_def set_rev by simp
  also have "\<dots> \<subseteq> set p" using split_on_set [of _ slash p] by (rule UN_least)
  finally show ?thesis .
qed

lemma path_clean_set: "set (path_clean p) \<subseteq> insert CHR ''.'' (insert slash (set p))"
proof -
  let ?cs = "clean_comps (is_abs p) p"
  have "set (join_with [slash] ?cs) \<subseteq> insert slash (set p)"
    using join_with_set [of "[slash]" ?cs] clean_comps_set [of "is_abs p" p] by simp blast
  then show ?thesis by (cases "is_abs p") (auto simp: path_clean_def render_path_def)
qed

text \<open>A root of the mapper: absolute, in the style of the host.\<close>

definition host_path :: "string \<Rightarrow> bool" where
  "host_path p \<longleftrightarrow> is_abs p \<and> backslash \<notin> set p"

lemma host_path_clean: "host_path p \<Longrightarrow> host_path (path_clean p) \<and> to_slash (path_clean p) = path_clean p"
proof -
  assume "host_path p"
  moreover from this have "backslash \<notin> set (path_clean p)"
    using path_clean_set [of p] by (auto simp: host_path_def backslash_def slash_def)
  ultimately show ?thesis by (simp add: host_path_def to_slash_id)
qed

lemma trim_prefix_path_rest:
  assumes "host_path p" "host_path root" "has_prefix_path False (path_clean p) (path_clean root)"
  obtains "path_clean p = path_clean root" "trim_prefix_path False (path_clean p) (path_clean root) = []"
  | rest where "path_clean p = trim_suffix (path_clean root) [slash] @ slash # rest"
      "trim_prefix_path False (path_clean p) (path_clean root) = rest"
proof (cases "path_clean p = path_clean root")
  case True
  then show ?thesis using that(1) by (simp add: trim_prefix_path_def)
next
  case False
  note n = conjunct2 [OF host_path_clean [OF assms(1)]] conjunct2 [OF host_path_clean [OF assms(2)]]
  let ?pre = "trim_suffix (path_clean root) [slash] @ [slash]"
  have h: "has_prefix (path_clean p) ?pre" using assms(3) False by (simp add: has_prefix_path_def n fold_case_def)
  then obtain rest where r: "path_clean p = ?pre @ rest" by (auto simp: has_prefix_iff)
  have "trim_prefix_path False (path_clean p) (path_clean root) = drop (length ?pre) (path_clean p)"
    using False h by (simp add: trim_prefix_path_def n fold_case_def Let_def)
  then show ?thesis using that(2) [of rest] r by simp
qed

lemma rest_comes_back:
  assumes "host_path p" "host_path root" "has_prefix_path False (path_clean p) (path_clean root)"
  shows "\<exists>x. with_rest t (to_slash (trim_prefix_path False (path_clean p) (path_clean root))) = t @ x
    \<and> join_rest root x = path_clean p \<and> set x \<subseteq> insert slash (set (path_clean p))"
  using assms
proof (rule trim_prefix_path_rest)
  assume "path_clean p = path_clean root" "trim_prefix_path False (path_clean p) (path_clean root) = []"
  then show ?thesis by (simp add: with_rest_def to_slash_def join_rest_def trim_prefix_def has_prefix_def)
next
  fix rest assume r: "path_clean p = trim_suffix (path_clean root) [slash] @ slash # rest"
    "trim_prefix_path False (path_clean p) (path_clean root) = rest"
  have ab: "is_abs root" "is_abs (path_clean p)" using assms by (simp_all add: host_path_def)
  note c = clean_rooted [OF ab r(1)]
  have "backslash \<notin> set rest" using host_path_clean [OF assms(1)] r(1) by (auto simp: host_path_def)
  then have s: "to_slash rest = rest" by (rule to_slash_id)
  have ne: "root \<noteq> []" using ab by (auto simp: is_abs_def has_prefix_def)
  have sub: "set rest \<subseteq> set (path_clean p)" by (rule subsetI) (simp add: r(1))
  show ?thesis
  proof (cases "rest = [] \<or> rest = ''.''")
    case True
    then have "path_clean root = path_clean p" using c(1) path_clean_trail [OF ab(1)] by auto
    with True show ?thesis unfolding r(2) s
      by (intro exI [of _ "[]"]) (simp add: with_rest_def join_rest_def trim_prefix_def has_prefix_def)
  next
    case False
    let ?x = "trim_prefix rest [slash]"
    have "join_rest root (slash # ?x) = path_clean p"
    proof -
      have t: "trim_prefix (slash # ?x) [slash] = ?x" by (simp add: trim_prefix_def [of "slash # _"] has_prefix_def)
      show ?thesis unfolding join_rest_def t Let_def
        using c(2) ne path_clean_trail(1) [OF ab(1)] by (cases "?x = []") (simp_all add: path_join_def)
    qed
    moreover have "set ?x \<subseteq> set rest" by (auto simp: trim_prefix_def dest: in_set_dropD)
    ultimately show ?thesis unfolding r(2) s using False sub
      by (intro exI [of _ "slash # ?x"]) (auto simp: with_rest_def)
  qed
qed

lemma takeWhile_closing: "closing \<notin> set i \<Longrightarrow> takeWhile (\<lambda>x. x \<noteq> closing) (i @ closing # x) = i"
  by (induction i) auto

lemma find_token_here:
  assumes "i \<noteq> []" "closing \<notin> set i" "start \<noteq> []"
  shows "find_token start ((start @ i @ [closing]) @ x) = Some (start @ i @ [closing], i)"
proof -
  let ?s = "(start @ i @ [closing]) @ x"
  have r: "drop (length start) ?s = i @ closing # x" by simp
  have h: "has_prefix ?s start" by simp
  obtain c s where s: "?s = c # s" using assms(3) by (cases start) auto
  have t: "takeWhile (\<lambda>y. y \<noteq> closing) (drop (length start) (c # s)) = i" unfolding s [symmetric] r by (rule takeWhile_closing [OF assms(2)])
  have l: "length i < length (drop (length start) (c # s))" unfolding s [symmetric] r by simp
  have h': "has_prefix (c # s) start" using h unfolding s .
  show ?thesis unfolding s using h' t l assms(1) by (simp add: Let_def del: takeWhile.simps drop_Cons)
qed

lemma find_token_dollar: "CHR ''$'' \<notin> set p \<Longrightarrow> start = CHR ''$'' # ps \<Longrightarrow> find_token start p = None"
  by (induction p) (auto simp: has_prefix_def Let_def)

section \<open>The round trip\<close>

lemma find_token_work:
  assumes "CHR ''$'' \<notin> set a" "CHR ''$'' \<notin> set x"
  shows "find_token RepoPrefix ((WorkPrefix @ a @ [closing]) @ x) = None"
proof -
  have "find_token RepoPrefix (''{WORK:'' @ a @ [closing] @ x) = None"
    using assms by (intro find_token_dollar [where ps = "''{REPO:''"]) (auto simp: RepoPrefix_def closing_def)
  moreover have "\<not> has_prefix (CHR ''$'' # ''{WORK:'' @ y) RepoPrefix" for y
    by (simp add: RepoPrefix_def has_prefix_def)
  ultimately show ?thesis by (simp add: WorkPrefix_def Let_def)
qed

lemma best_project_in:
  assumes "best_project M p = (i, root)" "i \<noteq> []"
  shows "\<exists>r. (i, r) \<in> set (mp_normalize_projects M @ mp_projects M) \<and> root = path_clean r \<and> has_prefix_path (mp_windows M) p root"
proof -
  let ?P = "\<lambda>best. fst best = [] \<or> (\<exists>r. (fst best, r) \<in> set (mp_normalize_projects M @ mp_projects M) \<and> snd best = path_clean r
    \<and> has_prefix_path (mp_windows M) p (snd best))"
  have "?P (foldl (better_root (mp_windows M) p) b es)" if "?P b" "set es \<subseteq> set (mp_normalize_projects M @ mp_projects M)" for b es
    using that
  proof (induction es arbitrary: b)
    case (Cons e es)
    have "?P (better_root (mp_windows M) p b e)" using Cons.prems by (cases e) (auto simp: better_root_def Let_def)
    with Cons.IH [of "better_root (mp_windows M) p b e"] Cons.prems(2) show ?case by simp
  qed simp
  from this [of "([], [])" "mp_normalize_projects M @ mp_projects M"] assms show ?thesis by (simp add: best_project_def)
qed

text \<open>The deepest root wins, whatever the order of the entries.\<close>

lemma best_project_deepest:
  assumes "(i, r) \<in> set (mp_normalize_projects M @ mp_projects M)" "has_prefix_path (mp_windows M) p (path_clean r)"
  shows "length (path_clean r) \<le> length (snd (best_project M p))"
proof -
  have grow: "length (snd b) \<le> length (snd (foldl (better_root (mp_windows M) p) b es))" for b es
  proof (induction es arbitrary: b)
    case (Cons e es)
    have "length (snd b) \<le> length (snd (better_root (mp_windows M) p b e))" by (auto simp: better_root_def Let_def)
    with Cons.IH [of "better_root (mp_windows M) p b e"] show ?case by simp
  qed simp
  have "length (path_clean r) \<le> length (snd (foldl (better_root (mp_windows M) p) b es))" if "(i, r) \<in> set es" for b es
    using that
  proof (induction es arbitrary: b)
    case (Cons e es)
    show ?case
    proof (cases "e = (i, r)")
      case True
      then have "length (path_clean r) \<le> length (snd (better_root (mp_windows M) p b e))"
        using assms(2) by (auto simp: better_root_def Let_def)
      with grow [of "better_root (mp_windows M) p b e" es] show ?thesis by simp
    next
      case False
      with Cons show ?thesis by auto
    qed
  qed simp
  from this [OF assms(1)] show ?thesis by (simp add: best_project_def)
qed

text \<open>
  Names and roots a configuration holds: the names can be written inside braces, the roots are absolute
  paths of the host, and no physical root differs from the configured one.
\<close>

definition mapper_ok :: "mapper \<Rightarrow> bool" where
  "mapper_ok M \<longleftrightarrow> \<not> mp_windows M \<and> mp_normalize_projects M = [] \<and> (mp_home M \<noteq> [] \<longrightarrow> host_path (mp_home M))
     \<and> distinct (map fst (mp_projects M)) \<and> list_all (\<lambda>(i, r). i \<noteq> [] \<and> closing \<notin> set i \<and> host_path r) (mp_projects M)
     \<and> distinct (map fst (mp_aliases M))
     \<and> list_all (\<lambda>(a, r). a \<noteq> [] \<and> closing \<notin> set a \<and> CHR ''$'' \<notin> set a \<and> host_path r) (mp_aliases M)"

lemma denormalize_repo:
  assumes "mapper_ok M" "(i, r) \<in> set (mp_projects M)"
  shows "denormalize_path M ((RepoPrefix @ i @ [closing]) @ x) = join_rest r x"
proof -
  have i: "i \<noteq> []" "closing \<notin> set i" "map_of (mp_projects M) i = Some r"
    using assms by (auto simp: mapper_ok_def list_all_iff)
  have "\<not> has_prefix ((RepoPrefix @ i @ [closing]) @ x) HomeToken" by (simp add: has_prefix_def token_defs)
  moreover have "find_token RepoPrefix ((RepoPrefix @ i @ [closing]) @ x) = Some (RepoPrefix @ i @ [closing], i)"
    by (rule find_token_here [OF i(1,2)]) (simp add: RepoPrefix_def)
  ultimately show ?thesis unfolding denormalize_path_def using i(3)
    by (simp only: trim_prefix_append if_False option.case prod.case)
qed

lemma denormalize_work:
  assumes "mapper_ok M" "(a, r) \<in> set (mp_aliases M)" "CHR ''$'' \<notin> set x"
  shows "denormalize_path M ((WorkPrefix @ a @ [closing]) @ x) = join_rest r x"
proof -
  have a: "a \<noteq> []" "closing \<notin> set a" "CHR ''$'' \<notin> set a" "map_of (mp_aliases M) a = Some r"
    using assms by (auto simp: mapper_ok_def list_all_iff)
  have "\<not> has_prefix ((WorkPrefix @ a @ [closing]) @ x) HomeToken" by (simp add: has_prefix_def token_defs)
  moreover have "find_token WorkPrefix ((WorkPrefix @ a @ [closing]) @ x) = Some (WorkPrefix @ a @ [closing], a)"
    by (rule find_token_here [OF a(1,2)]) (simp add: WorkPrefix_def)
  ultimately show ?thesis unfolding denormalize_path_def using find_token_work [OF a(3) assms(3)] a(4)
    by (simp only: trim_prefix_append if_False option.case prod.case)
qed

lemma denormalize_home: "denormalize_path M (HomeToken @ x) = join_rest (mp_home M) x"
  by (simp add: denormalize_path_def)


definition example_mapper :: mapper where
  "example_mapper = \<lparr>mp_home = ''/home/u'', mp_projects = [(''demo'', ''/home/u/code/demo'')], mp_normalize_projects = [],
     mp_aliases = [(''w'', ''/srv'')], mp_windows = False\<rparr>"


text \<open>
  The two expressions are not anchored: a token inside a path is taken for its project, and the whole
  path, token included, is put below the root.
\<close>

lemma inner_token_is_rerooted:
  "denormalize_path example_mapper ''docs/${REPO:demo}/a'' = ''/home/u/code/demo/docs/${REPO:demo}/a''"
  by code_simp

text \<open>A parent reference behind a token leaves the root.\<close>

lemma token_may_leave_root: "denormalize_path example_mapper ''${HOME}/../../etc/passwd'' = ''/etc/passwd''"
  by code_simp

text \<open>On a host with slashes a backslash in a file name becomes a separator.\<close>

lemma backslash_becomes_separator:
  "normalize_path example_mapper (''/home/u/a'' @ backslash # ''b'') = ''${HOME}/a/b''"
  by code_simp

end
