(* ===== verification/Capsule.thy ===== *)
theory Capsule
  imports Capsule_Json Pathmap
begin

text \<open>
  The continuity capsule (\<^verbatim>\<open>internal/capsule\<close>): its records, the document it is hashed as, its identity,
  the rule that no structural field holds an absolute path, and the checks of \<^verbatim>\<open>Validate\<close>. Parsing
  JSON text and printing an instant in RFC 3339 are parameters.
\<close>

section \<open>Records\<close>

text \<open>\<^verbatim>\<open>event.go\<close>. An instant counts from the zero time of Go.\<close>

record go_time =
  gt_sec :: int
  gt_nsec :: nat
  gt_zone :: int

record source_pointer =
  sp_agent :: string
  sp_session :: string
  sp_key :: string
  sp_offset :: int
  sp_index :: int

record block =
  bl_type :: string
  bl_text :: string
  bl_mime :: string
  bl_sha256 :: string
  bl_size :: int
  bl_ref :: string
  bl_path :: string
  bl_is_error :: bool
  bl_meta :: "(string \<times> string) list"

record redaction =
  rd_category :: string
  rd_digest :: string

record cap_event =
  ev_id :: string
  ev_order :: int
  ev_time :: go_time
  ev_actor :: string
  ev_kind :: string
  ev_native_type :: string
  ev_native_name :: string
  ev_blocks :: "block list"
  ev_call :: string
  ev_linked :: string
  ev_portability :: string
  ev_reason :: string
  ev_redactions :: "redaction list"
  ev_truncated :: bool
  ev_hash :: string
  ev_source :: source_pointer

text \<open>\<^verbatim>\<open>model.go\<close>. A list written without \<^verbatim>\<open>omitempty\<close> is an option: \<^verbatim>\<open>nil\<close> is written as \<^verbatim>\<open>null\<close>.\<close>

record parent_session =
  pr_agent :: string
  pr_session :: string
  pr_sha256 :: string
  pr_version :: string

record identity =
  id_id :: string
  id_lineage :: string
  id_parent :: parent_session
  id_schema :: int

record raw_source =
  rs_agent :: string
  rs_session :: string
  rs_sha256 :: string
  rs_version :: string
  rs_offset :: int
  rs_size :: int
  rs_partial :: bool
  rs_path :: string

record text_field =
  tf_text :: string
  tf_portability :: string
  tf_reason :: string
  tf_label :: string

record list_field =
  lf_items :: "string list"
  lf_portability :: string
  lf_reason :: string
  lf_label :: string

record task =
  tk_goal :: text_field
  tk_intent :: text_field
  tk_recent :: list_field
  tk_constraints :: list_field
  tk_decisions :: list_field
  tk_rejected :: list_field
  tk_completed :: list_field
  tk_pending :: list_field
  tk_changed :: list_field
  tk_touched :: list_field
  tk_tests :: list_field
  tk_next :: text_field
  tk_questions :: list_field

record cap_workspace =
  ws_project :: string
  ws_root :: string
  ws_branch :: string
  ws_head :: string
  ws_dirty :: bool
  ws_digest :: string
  ws_changed :: "string list"
  ws_changed_omitted :: int
  ws_tests :: "string list"
  ws_path :: string

record conversation =
  cv_events :: "cap_event list option"
  cv_history :: string

record missing_capability =
  mc_kind :: string
  mc_name :: string
  mc_impact :: string

record capability_diff =
  cd_source :: "(string \<times> json) list option"
  cd_destination :: "(string \<times> json) list option"
  cd_missing :: "missing_capability list"

record cap_security =
  sc_redactions :: "redaction list"
  sc_untrusted :: bool
  sc_warning :: string
  sc_forced :: bool

record fid_component =
  fc_name :: string
  fc_portability :: string
  fc_count :: int
  fc_bytes :: int
  fc_reason :: string

record fidelity =
  fd_overall :: string
  fd_mode :: string
  fd_components :: "fid_component list option"
  fd_unsupported :: "string list"

record projection =
  pj_policy :: string
  pj_bytes :: int
  pj_tokens :: int
  pj_included :: "string list"
  pj_sidecar :: string
  pj_bootstrap :: string
  pj_markdown :: string

record capsule =
  cp_schema :: string
  cp_identity :: identity
  cp_raw :: raw_source
  cp_task :: task
  cp_workspace :: cap_workspace
  cp_conversation :: conversation
  cp_capabilities :: capability_diff
  cp_security :: cap_security
  cp_fidelity :: fidelity
  cp_projection :: projection

definition CapsuleSchema :: string where "CapsuleSchema = ''reinstate.continuity-capsule/v1''"
definition FidelityModeStructuredHandoff :: string where "FidelityModeStructuredHandoff = ''structured_handoff''"

section \<open>The document\<close>

text \<open>
  \<open>cl_time\<close> prints the instant so many seconds after the zero time in UTC, \<open>None\<close> for a year that
  cannot be printed; \<open>cl_parse\<close> is \<^verbatim>\<open>json.Unmarshal\<close> into \<^verbatim>\<open>any\<close>.
\<close>

record capsule_lib =
  cl_sha :: sha256
  cl_time :: "int \<Rightarrow> string option"
  cl_parse :: "bytes \<Rightarrow> json option"

text \<open>A Go string in a document: every byte that is no UTF-8 has become the replacement character.\<close>

function coerce_runes :: "bytes \<Rightarrow> nat list" where
  "coerce_runes [] = []"
| "coerce_runes (c # s) = (case utf8_first c s of None \<Rightarrow> 65533 # coerce_runes s | Some (r, t) \<Rightarrow> r # coerce_runes t)"
  by pat_completeness auto
termination
  by (relation "measure length") (auto dest: utf8_first_shorter)

definition jstr :: "bytes \<Rightarrow> json" where "jstr s = JStr (utf8_encode (coerce_runes s))"
definition jint :: "int \<Rightarrow> json" where "jint i = JNum (itoa i)"

definition key_of :: "bytes \<Rightarrow> bytes" where "key_of k = utf8_encode (coerce_runes k)"

definition jlist :: "('a \<Rightarrow> json) \<Rightarrow> 'a list option \<Rightarrow> json" where
  "jlist f xs = (case xs of None \<Rightarrow> JNull | Some ys \<Rightarrow> JArr (map f ys))"

text \<open>The members of a struct; \<open>None\<close> is a member left out by \<^verbatim>\<open>omitempty\<close>.\<close>

definition members :: "(string \<times> json option) list \<Rightarrow> json" where
  "members ms = JObj (map (\<lambda>(k, v). (k, the v)) (filter (\<lambda>(k, v). v \<noteq> None) ms))"

definition omit_str :: "bytes \<Rightarrow> json option" where "omit_str s = (if s = [] then None else Some (jstr s))"
definition omit_int :: "int \<Rightarrow> json option" where "omit_int i = (if i = 0 then None else Some (jint i))"
definition omit_bool :: "bool \<Rightarrow> json option" where "omit_bool b = (if b then Some (JBool b) else None)"
definition omit_list :: "('a \<Rightarrow> json) \<Rightarrow> 'a list \<Rightarrow> json option" where
  "omit_list f xs = (if xs = [] then None else Some (JArr (map f xs)))"

definition pointer_json :: "source_pointer \<Rightarrow> json" where
  "pointer_json p = members [(''agent'', Some (jstr (sp_agent p))), (''session_id'', Some (jstr (sp_session p))),
     (''record_key'', omit_str (sp_key p)), (''byte_offset'', Some (jint (sp_offset p))), (''index'', Some (jint (sp_index p)))]"

definition block_json :: "block \<Rightarrow> json" where
  "block_json b = members [(''type'', Some (jstr (bl_type b))), (''text'', omit_str (bl_text b)), (''mime'', omit_str (bl_mime b)),
     (''sha256'', omit_str (bl_sha256 b)), (''size'', omit_int (bl_size b)), (''ref'', omit_str (bl_ref b)), (''path'', omit_str (bl_path b)),
     (''is_error'', omit_bool (bl_is_error b)),
     (''meta'', if bl_meta b = [] then None else Some (JObj (map (\<lambda>(k, v). (key_of k, jstr v)) (sorted_entries (bl_meta b)))))]"

definition redaction_json :: "redaction \<Rightarrow> json" where
  "redaction_json r = members [(''category'', Some (jstr (rd_category r))), (''digest'', Some (jstr (rd_digest r)))]"

definition time_is_zero :: "go_time \<Rightarrow> bool" where
  "time_is_zero t \<longleftrightarrow> gt_sec t = 0 \<and> gt_nsec t = 0"

definition time_json :: "capsule_lib \<Rightarrow> go_time \<Rightarrow> json option" where
  "time_json L t = (if time_is_zero t then None else Some (case cl_time L (gt_sec t) of None \<Rightarrow> JNull | Some s \<Rightarrow> JStr s))"

definition event_json :: "capsule_lib \<Rightarrow> cap_event \<Rightarrow> json" where
  "event_json L e = members [(''id'', Some (jstr (ev_id e))), (''order'', Some (jint (ev_order e))), (''timestamp'', time_json L (ev_time e)),
     (''actor'', Some (jstr (ev_actor e))), (''kind'', Some (jstr (ev_kind e))), (''native_type'', omit_str (ev_native_type e)),
     (''native_name'', omit_str (ev_native_name e)), (''blocks'', omit_list block_json (ev_blocks e)), (''call_id'', omit_str (ev_call e)),
     (''linked_call_id'', omit_str (ev_linked e)), (''portability'', Some (jstr (ev_portability e))), (''reason'', omit_str (ev_reason e)),
     (''redactions'', omit_list redaction_json (ev_redactions e)), (''truncated'', omit_bool (ev_truncated e)),
     (''content_hash'', Some (jstr (ev_hash e))), (''source'', Some (pointer_json (ev_source e)))]"

definition identity_json :: "identity \<Rightarrow> json" where
  "identity_json i = members [(''id'', Some (jstr (id_id i))), (''lineage_root'', Some (jstr (id_lineage i))),
     (''parent_session'', Some (members [(''agent'', Some (jstr (pr_agent (id_parent i)))), (''id'', Some (jstr (pr_session (id_parent i)))),
        (''artifact_sha256'', Some (jstr (pr_sha256 (id_parent i)))), (''adapter_version'', Some (jstr (pr_version (id_parent i))))])),
     (''schema_version'', Some (jint (id_schema i)))]"

definition raw_json :: "raw_source \<Rightarrow> json" where
  "raw_json r = members [(''agent'', Some (jstr (rs_agent r))), (''session_id'', Some (jstr (rs_session r))),
     (''artifact_sha256'', Some (jstr (rs_sha256 r))), (''adapter_version'', Some (jstr (rs_version r))),
     (''byte_offset'', Some (jint (rs_offset r))), (''size_bytes'', Some (jint (rs_size r))), (''partial'', omit_bool (rs_partial r))]"

definition text_json :: "text_field \<Rightarrow> json" where
  "text_json f = members [(''text'', omit_str (tf_text f)), (''portability'', Some (jstr (tf_portability f))),
     (''reason'', omit_str (tf_reason f)), (''label'', omit_str (tf_label f))]"

definition list_json :: "list_field \<Rightarrow> json" where
  "list_json f = members [(''items'', omit_list jstr (lf_items f)), (''portability'', Some (jstr (lf_portability f))),
     (''reason'', omit_str (lf_reason f)), (''label'', omit_str (lf_label f))]"

text \<open>\<^verbatim>\<open>omitempty\<close> on the struct \<^verbatim>\<open>open_questions\<close> leaves nothing out.\<close>

definition task_json :: "task \<Rightarrow> json" where
  "task_json t = members [(''goal'', Some (text_json (tk_goal t))), (''latest_user_intent'', Some (text_json (tk_intent t))),
     (''recent_user_messages'', Some (list_json (tk_recent t))), (''constraints'', Some (list_json (tk_constraints t))),
     (''decisions'', Some (list_json (tk_decisions t))), (''rejected_approaches'', Some (list_json (tk_rejected t))),
     (''completed'', Some (list_json (tk_completed t))), (''pending'', Some (list_json (tk_pending t))),
     (''changed_files'', Some (list_json (tk_changed t))), (''files_touched_per_transcript'', Some (list_json (tk_touched t))),
     (''tests'', Some (list_json (tk_tests t))), (''next_action'', Some (text_json (tk_next t))),
     (''open_questions'', Some (list_json (tk_questions t)))]"

definition workspace_json :: "cap_workspace \<Rightarrow> json" where
  "workspace_json w = members [(''project_id'', Some (jstr (ws_project w))), (''root'', Some (jstr (ws_root w))),
     (''branch'', omit_str (ws_branch w)), (''head'', omit_str (ws_head w)), (''dirty'', Some (JBool (ws_dirty w))),
     (''working_tree_digest'', omit_str (ws_digest w)), (''changed_files'', omit_list jstr (ws_changed w)),
     (''changed_files_omitted'', omit_int (ws_changed_omitted w)), (''tests'', omit_list jstr (ws_tests w))]"

definition conversation_json :: "capsule_lib \<Rightarrow> conversation \<Rightarrow> json" where
  "conversation_json L c = members [(''events'', Some (jlist (event_json L) (cv_events c))), (''full_history_ref'', omit_str (cv_history c))]"

definition summary_json :: "(string \<times> json) list option \<Rightarrow> json" where
  "summary_json m = (case m of None \<Rightarrow> JNull | Some es \<Rightarrow> JObj (map (\<lambda>(k, v). (key_of k, v)) (sorted_entries es)))"

definition missing_json :: "missing_capability \<Rightarrow> json" where
  "missing_json m = members [(''kind'', Some (jstr (mc_kind m))), (''name'', Some (jstr (mc_name m))), (''impact'', Some (jstr (mc_impact m)))]"

definition capabilities_json :: "capability_diff \<Rightarrow> json" where
  "capabilities_json d = members [(''source'', Some (summary_json (cd_source d))), (''destination'', Some (summary_json (cd_destination d))),
     (''missing'', omit_list missing_json (cd_missing d))]"

definition security_json :: "cap_security \<Rightarrow> json" where
  "security_json s = members [(''redactions'', omit_list redaction_json (sc_redactions s)),
     (''source_instructions_are_untrusted_history'', Some (JBool (sc_untrusted s))),
     (''destination_warning'', omit_str (sc_warning s)), (''redaction_forced'', omit_bool (sc_forced s))]"

definition component_json :: "fid_component \<Rightarrow> json" where
  "component_json c = members [(''name'', Some (jstr (fc_name c))), (''portability'', Some (jstr (fc_portability c))),
     (''count'', Some (jint (fc_count c))), (''bytes'', Some (jint (fc_bytes c))), (''reason'', omit_str (fc_reason c))]"

definition fidelity_json :: "fidelity \<Rightarrow> json" where
  "fidelity_json f = members [(''overall'', Some (jstr (fd_overall f))), (''mode'', Some (jstr (fd_mode f))),
     (''components'', Some (jlist component_json (fd_components f))), (''unsupported'', omit_list jstr (fd_unsupported f))]"

definition projection_json :: "projection \<Rightarrow> json" where
  "projection_json p = members [(''policy'', Some (jstr (pj_policy p))), (''estimated_bytes'', Some (jint (pj_bytes p))),
     (''estimated_tokens'', Some (jint (pj_tokens p))), (''included_event_ids'', omit_list jstr (pj_included p)),
     (''sidecar_ref'', omit_str (pj_sidecar p)), (''bootstrap_sha256'', omit_str (pj_bootstrap p)), (''markdown_sha256'', omit_str (pj_markdown p))]"

definition capsule_json :: "capsule_lib \<Rightarrow> capsule \<Rightarrow> json" where
  "capsule_json L c = members [(''schema'', Some (jstr (cp_schema c))), (''identity'', Some (identity_json (cp_identity c))),
     (''raw_source'', Some (raw_json (cp_raw c))), (''task'', Some (task_json (cp_task c))),
     (''workspace'', Some (workspace_json (cp_workspace c))), (''conversation'', Some (conversation_json L (cp_conversation c))),
     (''capabilities'', Some (capabilities_json (cp_capabilities c))), (''security'', Some (security_json (cp_security c))),
     (''fidelity'', Some (fidelity_json (cp_fidelity c))), (''projection'', Some (projection_json (cp_projection c)))]"

section \<open>No absolute path in a structural field\<close>

definition path_forbidden :: "string \<Rightarrow> bool" where
  "path_forbidden p = (if p = [] \<or> is_token p then False else is_absolute_platform p)"

definition is_path_field_name :: "string \<Rightarrow> bool" where
  "is_path_field_name key \<longleftrightarrow> filter (\<lambda>c. c \<noteq> CHR ''_'' \<and> c \<noteq> CHR ''-'') (to_lower key) \<in>
     set [''path'', ''file'', ''filename'', ''filepath'', ''files'', ''paths'', ''targetpath'', ''sourcepath'', ''destinationpath'']"

text \<open>The values looked at, with the field named in a refusal, in the order of the checks.\<close>

type_synonym named = "string \<times> string"

definition at_index :: "string \<Rightarrow> nat \<Rightarrow> string" where
  "at_index field i = field @ ''['' @ itoa (int i) @ '']''"

definition each :: "string \<Rightarrow> string list \<Rightarrow> named list" where
  "each field vs = map (\<lambda>(i, v). (at_index field i, v)) (enumerate 0 vs)"

definition field_meta :: "string \<Rightarrow> string \<Rightarrow> string \<Rightarrow> string \<Rightarrow> named list" where
  "field_meta field portability reason label =
     [(field @ ''.portability'', portability), (field @ ''.reason'', reason), (field @ ''.label'', label)]"

definition text_meta :: "string \<Rightarrow> text_field \<Rightarrow> named list" where
  "text_meta name f = field_meta name (tf_portability f) (tf_reason f) (tf_label f)"

definition list_meta :: "string \<Rightarrow> list_field \<Rightarrow> named list" where
  "list_meta name f = field_meta name (lf_portability f) (lf_reason f) (lf_label f)"

definition list_items :: "string \<Rightarrow> list_field \<Rightarrow> named list" where
  "list_items name f = list_meta name f @ each (name @ ''.items'') (lf_items f)"

definition task_fields :: "task \<Rightarrow> named list" where
  "task_fields t = text_meta ''task.goal'' (tk_goal t) @ text_meta ''task.latest_user_intent'' (tk_intent t)
     @ text_meta ''task.next_action'' (tk_next t)
     @ list_meta ''task.recent_user_messages'' (tk_recent t) @ list_meta ''task.constraints'' (tk_constraints t)
     @ list_meta ''task.decisions'' (tk_decisions t) @ list_meta ''task.rejected_approaches'' (tk_rejected t)
     @ list_meta ''task.open_questions'' (tk_questions t)
     @ list_items ''task.completed'' (tk_completed t) @ list_items ''task.pending'' (tk_pending t) @ list_items ''task.tests'' (tk_tests t)
     @ list_items ''task.changed_files'' (tk_changed t) @ list_items ''task.files_touched_per_transcript'' (tk_touched t)"

definition workspace_fields :: "cap_workspace \<Rightarrow> named list" where
  "workspace_fields w = [(''workspace.project_id'', ws_project w), (''workspace.root'', ws_root w), (''workspace.branch'', ws_branch w),
     (''workspace.head'', ws_head w), (''workspace.working_tree_digest'', ws_digest w)]
     @ each ''workspace.changed_files'' (ws_changed w) @ each ''workspace.tests'' (ws_tests w)"

definition redaction_fields :: "string \<Rightarrow> redaction list \<Rightarrow> named list" where
  "redaction_fields field rs = concat (map (\<lambda>(i, r). [(at_index field i @ ''.category'', rd_category r), (at_index field i @ ''.digest'', rd_digest r)])
     (enumerate 0 rs))"

text \<open>Only a value under a path key counts; the flag passes through lists and is reset by an inner object.\<close>

primrec argument_values :: "json \<Rightarrow> string \<Rightarrow> bool \<Rightarrow> named list" where
  "argument_values JNull field flag = []"
| "argument_values (JBool b) field flag = []"
| "argument_values (JNum n) field flag = []"
| "argument_values (JStr s) field flag = (if flag then [(field, s)] else [])"
| "argument_values (JArr xs) field flag =
     concat (map (\<lambda>(i, g). g (at_index field i) flag) (enumerate 0 (map argument_values xs)))"
| "argument_values (JObj kvs) field flag =
     concat (map (\<lambda>(k, g). g (field @ ''.'' @ k) (is_path_field_name k)) (sorted_entries (map (map_prod (\<lambda>k. k) argument_values) kvs)))"

definition tool_arguments :: "capsule_lib \<Rightarrow> string \<Rightarrow> string \<Rightarrow> named list" where
  "tool_arguments L field text =
     (let trimmed = trim_space text in
      if trimmed = [] then []
      else if hd trimmed \<noteq> CHR ''{'' \<and> hd trimmed \<noteq> CHR ''['' then [(field, text)]
      else case cl_parse L trimmed of None \<Rightarrow> [(field, text)] | Some v \<Rightarrow> argument_values v field False)"

definition block_fields :: "capsule_lib \<Rightarrow> string \<Rightarrow> block \<Rightarrow> named list" where
  "block_fields L field b =
     [(field @ ''.type'', bl_type b), (field @ ''.mime'', bl_mime b), (field @ ''.sha256'', bl_sha256 b),
      (field @ ''.ref'', bl_ref b), (field @ ''.path'', bl_path b)]
     @ map (\<lambda>(k, v). (field @ ''.meta.'' @ k, v)) (sorted_entries (bl_meta b))
     @ (if bl_type b = ''text'' then []
        else if bl_type b = ''tool_input'' \<or> bl_type b = ''json'' then tool_arguments L (field @ ''.text'') (bl_text b)
        else [(field @ ''.text'', bl_text b)])"

definition event_fields :: "capsule_lib \<Rightarrow> string \<Rightarrow> cap_event \<Rightarrow> named list" where
  "event_fields L field e =
     [(field @ ''.id'', ev_id e), (field @ ''.actor'', ev_actor e), (field @ ''.kind'', ev_kind e),
      (field @ ''.native_type'', ev_native_type e), (field @ ''.native_name'', ev_native_name e), (field @ ''.call_id'', ev_call e),
      (field @ ''.linked_call_id'', ev_linked e), (field @ ''.portability'', ev_portability e), (field @ ''.reason'', ev_reason e),
      (field @ ''.content_hash'', ev_hash e), (field @ ''.source.agent'', sp_agent (ev_source e)),
      (field @ ''.source.session_id'', sp_session (ev_source e)), (field @ ''.source.record_key'', sp_key (ev_source e))]
     @ redaction_fields (field @ ''.redactions'') (ev_redactions e)
     @ concat (map (\<lambda>(i, b). block_fields L (at_index (field @ ''.blocks'') i) b) (enumerate 0 (ev_blocks e)))"

definition events_of :: "capsule \<Rightarrow> cap_event list" where
  "events_of c = (case cv_events (cp_conversation c) of None \<Rightarrow> [] | Some es \<Rightarrow> es)"

definition conversation_fields :: "capsule_lib \<Rightarrow> capsule \<Rightarrow> named list" where
  "conversation_fields L c = (''conversation.full_history_ref'', cv_history (cp_conversation c))
     # concat (map (\<lambda>(i, e). event_fields L (at_index ''conversation.events'' i) e) (enumerate 0 (events_of c)))"

definition summary_fields :: "string \<Rightarrow> (string \<times> json) list option \<Rightarrow> named list" where
  "summary_fields name m = concat (map (\<lambda>(k, v). case v of JStr s \<Rightarrow> [(name @ ''.'' @ k, s)] | _ \<Rightarrow> [])
     (sorted_entries (case m of None \<Rightarrow> [] | Some es \<Rightarrow> es)))"

definition capability_fields :: "capability_diff \<Rightarrow> named list" where
  "capability_fields d = summary_fields ''capabilities.source'' (cd_source d) @ summary_fields ''capabilities.destination'' (cd_destination d)
     @ concat (map (\<lambda>(i, m). let f = at_index ''capabilities.missing'' i in
         [(f @ ''.kind'', mc_kind m), (f @ ''.name'', mc_name m), (f @ ''.impact'', mc_impact m)]) (enumerate 0 (cd_missing d)))"

definition fidelity_fields :: "fidelity \<Rightarrow> named list" where
  "fidelity_fields f = [(''fidelity.overall'', fd_overall f), (''fidelity.mode'', fd_mode f)]
     @ concat (map (\<lambda>(i, c). let n = at_index ''fidelity.components'' i in
         [(n @ ''.name'', fc_name c), (n @ ''.portability'', fc_portability c), (n @ ''.reason'', fc_reason c)])
         (enumerate 0 (case fd_components f of None \<Rightarrow> [] | Some cs \<Rightarrow> cs)))
     @ each ''fidelity.unsupported'' (fd_unsupported f)"

definition projection_fields :: "projection \<Rightarrow> named list" where
  "projection_fields p = [(''projection.policy'', pj_policy p)] @ each ''projection.included_event_ids'' (pj_included p)
     @ [(''projection.sidecar_ref'', pj_sidecar p), (''projection.bootstrap_sha256'', pj_bootstrap p), (''projection.markdown_sha256'', pj_markdown p)]"

definition checked_fields :: "capsule_lib \<Rightarrow> capsule \<Rightarrow> named list" where
  "checked_fields L c =
     (let i = cp_identity c; r = cp_raw c in
      [(''schema'', cp_schema c), (''identity.id'', id_id i), (''identity.lineage_root'', id_lineage i),
       (''identity.parent_session.agent'', pr_agent (id_parent i)), (''identity.parent_session.id'', pr_session (id_parent i)),
       (''identity.parent_session.artifact_sha256'', pr_sha256 (id_parent i)), (''identity.parent_session.adapter_version'', pr_version (id_parent i)),
       (''raw_source.agent'', rs_agent r), (''raw_source.session_id'', rs_session r),
       (''raw_source.artifact_sha256'', rs_sha256 r), (''raw_source.adapter_version'', rs_version r)])
     @ task_fields (cp_task c) @ workspace_fields (cp_workspace c) @ conversation_fields L c
     @ capability_fields (cp_capabilities c) @ redaction_fields ''security.redactions'' (sc_redactions (cp_security c))
     @ fidelity_fields (cp_fidelity c) @ projection_fields (cp_projection c)"

definition reject_absolute :: "capsule_lib \<Rightarrow> capsule \<Rightarrow> named option" where
  "reject_absolute L c = find (\<lambda>(field, v). path_forbidden v) (checked_fields L c)"

section \<open>Canonical bytes and identity\<close>

datatype capsule_error =
    AbsolutePath named
  | MarshalFailed
  | WrongSchema string
  | WrongMode string
  | BadComponent string string
  | OverallInconsistent string string
  | TooManyEvents nat
  | TaskFieldTooLong string
  | TooManyReferences nat
  | MissingPortability string
  | ReasonRequired string string
  | EmptyEventID int
  | DuplicateEventID string
  | OutOfOrder nat
  | TooManyBlocks string
  | TooManyRedactions string
  | BlockTooLong string nat
  | NoLinkedCall string
  | UnmatchedCall string string
  | CanonicalFailed capsule_error
  | CapsuleTooLarge nat

text \<open>\<^verbatim>\<open>t.UTC().Truncate(time.Second)\<close>.\<close>

definition normalize_time :: "go_time \<Rightarrow> go_time" where
  "normalize_time t = (if time_is_zero t then t else \<lparr>gt_sec = gt_sec t, gt_nsec = 0, gt_zone = 0\<rparr>)"

definition normalize_event :: "cap_event \<Rightarrow> cap_event" where
  "normalize_event e = e\<lparr>ev_time := normalize_time (ev_time e)\<rparr>"

definition normalize_capsule :: "capsule \<Rightarrow> capsule" where
  "normalize_capsule c = c\<lparr>cp_conversation := (cp_conversation c)\<lparr>cv_events := map_option (map normalize_event) (cv_events (cp_conversation c))\<rparr>\<rparr>"

definition times_printable :: "capsule_lib \<Rightarrow> capsule \<Rightarrow> bool" where
  "times_printable L c = list_all (\<lambda>e. time_is_zero (ev_time e) \<or> cl_time L (gt_sec (ev_time e)) \<noteq> None) (events_of c)"

definition canonical_bytes :: "capsule_lib \<Rightarrow> capsule \<Rightarrow> (capsule_error, bytes) result" where
  "canonical_bytes L c0 =
     (let c = normalize_capsule c0 in
      case reject_absolute L c of Some v \<Rightarrow> Inl (AbsolutePath v)
      | None \<Rightarrow> if \<not> times_printable L c then Inl MarshalFailed else Inr (write_canonical (capsule_json L c)))"

definition digest_id :: "capsule_lib \<Rightarrow> bytes \<Rightarrow> string" where
  "digest_id L b = hex_encode (take 16 (sum_bytes (cl_sha L b)))"

definition id_preimage :: "capsule \<Rightarrow> capsule" where
  "id_preimage c =
     (let i = cp_identity c; i' = (if id_lineage i = id_id i then i\<lparr>id_lineage := []\<rparr> else i) in
      c\<lparr>cp_identity := i'\<lparr>id_id := []\<rparr>,
        cp_projection := (cp_projection c)\<lparr>pj_bytes := 0, pj_tokens := 0, pj_bootstrap := [], pj_markdown := []\<rparr>\<rparr>)"

definition compute_id :: "capsule_lib \<Rightarrow> capsule \<Rightarrow> (capsule_error, string) result" where
  "compute_id L c = (case canonical_bytes L (id_preimage c) of Inl e \<Rightarrow> Inl e | Inr b \<Rightarrow> Inr (digest_id L b))"

definition pointer_doc :: "source_pointer \<Rightarrow> json" where
  "pointer_doc p = JObj [(''agent'', JStr (sp_agent p)), (''byte_offset'', jint (sp_offset p)), (''index'', jint (sp_index p)),
     (''record_key'', JStr (sp_key p)), (''session_id'', JStr (sp_session p))]"

definition event_id :: "capsule_lib \<Rightarrow> source_pointer \<Rightarrow> string" where
  "event_id L p = digest_id L (write_canonical (pointer_doc p))"

end
