(* ===== verification/Capsule_Check.thy ===== *)
theory Capsule_Check
  imports Capsule
begin

text \<open>
  The fidelity report of a capsule (\<^verbatim>\<open>internal/capsule/fidelity.go\<close>) and \<^verbatim>\<open>Validate\<close>
  (\<^verbatim>\<open>internal/capsule/validate.go\<close>), with what a validated capsule is known to satisfy.
\<close>

section \<open>Portability\<close>

definition valid_portability :: "string \<Rightarrow> bool" where
  "valid_portability p \<longleftrightarrow> p \<in> set [''exact'', ''normalized'', ''summarized'', ''referenced'', ''omitted'']"

definition portability_rank :: "string \<Rightarrow> int" where
  "portability_rank p = (if p = ''exact'' then 0 else if p = ''normalized'' then 1 else if p = ''summarized'' then 2
     else if p = ''referenced'' then 3 else if p = ''omitted'' then 4 else -1)"

definition worse_portability :: "string \<Rightarrow> string \<Rightarrow> bool" where
  "worse_portability a b \<longleftrightarrow> portability_rank a > portability_rank b"

definition worst_portability :: "string \<Rightarrow> string \<Rightarrow> string" where
  "worst_portability a b = (if worse_portability a b then a else b)"

fun worst_loop :: "string \<Rightarrow> fid_component list \<Rightarrow> string" where
  "worst_loop w [] = w"
| "worst_loop w (c # cs) = worst_loop (if worse_portability (fc_portability c) w then fc_portability c else w) cs"

definition worst_of_components :: "fid_component list \<Rightarrow> string" where
  "worst_of_components cs = (case cs of [] \<Rightarrow> ''exact'' | c # cs' \<Rightarrow> worst_loop (fc_portability c) cs')"

section \<open>Aggregation\<close>

definition component_name_for_event :: "cap_event \<Rightarrow> string" where
  "component_name_for_event e =
     (let k = ev_kind e; a = ev_actor e in
      if k = ''message'' then
        (if a = ''user'' then ''user_messages'' else if a = ''assistant'' then ''assistant_messages''
         else if a = ''harness'' then ''harness_messages'' else ''messages'')
      else if k = ''tool_call'' then ''tool_calls''
      else if k = ''tool_result'' then ''tool_results''
      else if k = ''attachment'' then ''attachments''
      else if k = ''summary'' then ''summaries''
      else if k = ''checkpoint'' then ''checkpoints''
      else k)"

definition event_bytes :: "cap_event \<Rightarrow> int" where
  "event_bytes e = sum_list (map (\<lambda>b. int (length (bl_text b))) (ev_blocks e))"

text \<open>The entry of a name, combined with one more classification.\<close>

definition combine :: "fid_component \<Rightarrow> fid_component \<Rightarrow> fid_component" where
  "combine cur c =
     (let cur' = (if worse_portability (fc_portability c) (fc_portability cur)
                  then cur\<lparr>fc_portability := fc_portability c, fc_reason := (if fc_reason c \<noteq> [] then fc_reason c else fc_reason cur)\<rparr>
                  else cur) in
      cur'\<lparr>fc_count := fc_count cur + fc_count c, fc_bytes := fc_bytes cur + fc_bytes c\<rparr>)"

fun put_component :: "fid_component \<Rightarrow> fid_component list \<Rightarrow> fid_component list" where
  "put_component c [] = [c]"
| "put_component c (a # as) = (if fc_name a = fc_name c then combine a c # as else a # put_component c as)"

definition merge_component :: "fid_component list \<Rightarrow> fid_component \<Rightarrow> fid_component list" where
  "merge_component acc c = (if fc_name c = [] \<or> \<not> valid_portability (fc_portability c) then acc else put_component c acc)"

definition event_component :: "cap_event \<Rightarrow> fid_component" where
  "event_component e = \<lparr>fc_name = component_name_for_event e, fc_portability = ev_portability e, fc_count = 1,
     fc_bytes = event_bytes e, fc_reason = ev_reason e\<rparr>"

text \<open>The report: entries by name; the overall value is collected while they are listed.\<close>

definition overall_step :: "string option \<Rightarrow> fid_component \<Rightarrow> string option" where
  "overall_step o' c = (case o' of None \<Rightarrow> Some (fc_portability c)
     | Some w \<Rightarrow> if worse_portability (fc_portability c) w then Some (fc_portability c) else Some w)"

definition aggregate_fidelity :: "cap_event list \<Rightarrow> fid_component list \<Rightarrow> fidelity" where
  "aggregate_fidelity events included =
     (let comps = sort_key fc_name (foldl merge_component [] (included @ map event_component events)) in
      \<lparr>fd_overall = (case foldl overall_step None comps of None \<Rightarrow> ''exact'' | Some w \<Rightarrow> w),
       fd_mode = FidelityModeStructuredHandoff, fd_components = Some comps, fd_unsupported = []\<rparr>)"

section \<open>Validation\<close>

definition MaxEvents :: nat where "MaxEvents = 20000"
definition MaxBlocksPerEvent :: nat where "MaxBlocksPerEvent = 256"
definition MaxTextBlockBytes :: nat where "MaxTextBlockBytes = 262144"
definition MaxCapsuleBytes :: nat where "MaxCapsuleBytes = 8388608"
definition MaxTaskFieldRunes :: nat where "MaxTaskFieldRunes = 8192"
definition MaxFileReferences :: nat where "MaxFileReferences = 512"
definition MaxRedactionsPerEvent :: nat where "MaxRedactionsPerEvent = 256"

definition components_of :: "capsule \<Rightarrow> fid_component list" where
  "components_of c = (case fd_components (cp_fidelity c) of None \<Rightarrow> [] | Some cs \<Rightarrow> cs)"

definition task_texts :: "task \<Rightarrow> named list" where
  "task_texts t = [(''goal'', tf_text (tk_goal t)), (''latest_user_intent'', tf_text (tk_intent t)), (''next_action'', tf_text (tk_next t))]
     @ each ''recent_user_messages'' (lf_items (tk_recent t)) @ each ''constraints'' (lf_items (tk_constraints t))
     @ each ''decisions'' (lf_items (tk_decisions t)) @ each ''rejected_approaches'' (lf_items (tk_rejected t))
     @ each ''completed'' (lf_items (tk_completed t)) @ each ''pending'' (lf_items (tk_pending t))
     @ each ''changed_files'' (lf_items (tk_changed t)) @ each ''files_touched_per_transcript'' (lf_items (tk_touched t))
     @ each ''tests'' (lf_items (tk_tests t)) @ each ''open_questions'' (lf_items (tk_questions t))"

definition validate_task_bounds :: "task \<Rightarrow> capsule_error option" where
  "validate_task_bounds t =
     (case find (\<lambda>(name, v). length (coerce_runes v) > MaxTaskFieldRunes) (task_texts t) of
        None \<Rightarrow> None | Some (name, v) \<Rightarrow> Some (TaskFieldTooLong name))"

definition references_block :: "block \<Rightarrow> bool" where
  "references_block b \<longleftrightarrow> bl_path b \<noteq> [] \<or> bl_type b = ''attachment'' \<or> bl_type b = ''ref''"

definition count_file_references :: "capsule \<Rightarrow> nat" where
  "count_file_references c = length (ws_changed (cp_workspace c)) + length (ws_tests (cp_workspace c))
     + length (lf_items (tk_changed (cp_task c))) + length (lf_items (tk_touched (cp_task c)))
     + sum_list (map (\<lambda>e. length (filter references_block (ev_blocks e))) (events_of c))"

definition call_ids :: "cap_event list \<Rightarrow> string list" where
  "call_ids es = map ev_call (filter (\<lambda>e. ev_kind e = ''tool_call'' \<and> ev_call e \<noteq> []) es)"

text \<open>The index of a block whose text is too long.\<close>

definition long_block :: "block list \<Rightarrow> nat option" where
  "long_block bs = map_option fst (find (\<lambda>(j, b). length (bl_text b) > MaxTextBlockBytes) (enumerate 0 bs))"

definition validate_event :: "string list \<Rightarrow> string list \<Rightarrow> int option \<Rightarrow> nat \<Rightarrow> cap_event \<Rightarrow> capsule_error option" where
  "validate_event calls seen prev i e =
     (if ev_portability e = [] \<or> \<not> valid_portability (ev_portability e) then Some (MissingPortability (ev_id e))
      else if ev_portability e \<noteq> ''exact'' \<and> ev_reason e = [] then Some (ReasonRequired (ev_id e) (ev_portability e))
      else if ev_id e = [] then Some (EmptyEventID (ev_order e))
      else if ev_id e \<in> set seen then Some (DuplicateEventID (ev_id e))
      else if (case prev of None \<Rightarrow> False | Some p \<Rightarrow> ev_order e < p) then Some (OutOfOrder i)
      else if length (ev_blocks e) > MaxBlocksPerEvent then Some (TooManyBlocks (ev_id e))
      else if length (ev_redactions e) > MaxRedactionsPerEvent then Some (TooManyRedactions (ev_id e))
      else case long_block (ev_blocks e) of Some j \<Rightarrow> Some (BlockTooLong (ev_id e) j)
      | None \<Rightarrow>
        if ev_kind e = ''tool_result'' then
          (if ev_linked e = [] then Some (NoLinkedCall (ev_id e))
           else if ev_linked e \<notin> set calls then Some (UnmatchedCall (ev_id e) (ev_linked e)) else None)
        else None)"

fun validate_events :: "string list \<Rightarrow> string list \<Rightarrow> int option \<Rightarrow> nat \<Rightarrow> cap_event list \<Rightarrow> capsule_error option" where
  "validate_events calls seen prev i [] = None"
| "validate_events calls seen prev i (e # es) =
     (case validate_event calls seen prev i e of Some err \<Rightarrow> Some err
      | None \<Rightarrow> validate_events calls (ev_id e # seen) (Some (ev_order e)) (Suc i) es)"

definition validate_capsule :: "capsule_lib \<Rightarrow> capsule \<Rightarrow> capsule_error option" where
  "validate_capsule L c =
     (if cp_schema c \<noteq> CapsuleSchema then Some (WrongSchema (cp_schema c))
      else if fd_mode (cp_fidelity c) \<noteq> FidelityModeStructuredHandoff then Some (WrongMode (fd_mode (cp_fidelity c)))
      else case find (\<lambda>x. \<not> valid_portability (fc_portability x)) (components_of c) of
        Some x \<Rightarrow> Some (BadComponent (fc_name x) (fc_portability x))
      | None \<Rightarrow>
      if fd_overall (cp_fidelity c) \<noteq> worst_of_components (components_of c)
      then Some (OverallInconsistent (fd_overall (cp_fidelity c)) (worst_of_components (components_of c)))
      else if length (events_of c) > MaxEvents then Some (TooManyEvents (length (events_of c)))
      else (case validate_task_bounds (cp_task c) of Some e \<Rightarrow> Some e
      | None \<Rightarrow>
      if count_file_references c > MaxFileReferences then Some (TooManyReferences (count_file_references c))
      else (case validate_events (call_ids (events_of c)) [] None 0 (events_of c) of Some e \<Rightarrow> Some e
      | None \<Rightarrow>
      (case canonical_bytes L c of Inl e \<Rightarrow> Some (CanonicalFailed e)
       | Inr raw \<Rightarrow> if length raw > MaxCapsuleBytes then Some (CapsuleTooLarge (length raw)) else None))))"

section \<open>The report groups the classifications by name\<close>

definition worst_of :: "string list \<Rightarrow> string" where
  "worst_of ps = foldl (\<lambda>w p. worst_portability p w) ''exact'' ps"

lemma rank_valid: "valid_portability p \<Longrightarrow> 0 \<le> portability_rank p"
  by (auto simp: valid_portability_def portability_rank_def)

lemma rank_inj: "valid_portability p \<Longrightarrow> valid_portability q \<Longrightarrow> portability_rank p = portability_rank q \<Longrightarrow> p = q"
  by (auto simp: valid_portability_def portability_rank_def)

lemma worst_of_snoc: "worst_of (ps @ [p]) = worst_portability p (worst_of ps)"
  by (simp add: worst_of_def)

lemma worst_of_rank:
  "list_all valid_portability ps \<Longrightarrow> valid_portability (worst_of ps) \<and> portability_rank (worst_of ps) = Max (insert 0 (portability_rank ` set ps))"
proof (induction ps rule: rev_induct)
  case Nil
  then show ?case by (simp add: worst_of_def valid_portability_def portability_rank_def)
next
  case (snoc p ps)
  then have IH: "valid_portability (worst_of ps)" "portability_rank (worst_of ps) = Max (insert 0 (portability_rank ` set ps))" "valid_portability p"
    by simp_all
  have "portability_rank (worst_of (ps @ [p])) = max (portability_rank p) (portability_rank (worst_of ps))"
    by (simp add: worst_of_snoc worst_portability_def worse_portability_def)
  also have "\<dots> = Max (insert (portability_rank p) (insert 0 (portability_rank ` set ps)))" by (simp only: IH(2)) simp
  also have "insert (portability_rank p) (insert 0 (portability_rank ` set ps)) = insert 0 (portability_rank ` set (ps @ [p]))" by auto
  finally show ?case using IH by (simp add: worst_of_snoc worst_portability_def)
qed

text \<open>The classifications that count, and what they say of one name.\<close>

definition counted :: "cap_event list \<Rightarrow> fid_component list \<Rightarrow> fid_component list" where
  "counted events included = filter (\<lambda>c. fc_name c \<noteq> [] \<and> valid_portability (fc_portability c)) (included @ map event_component events)"

definition summarized :: "fid_component list \<Rightarrow> string \<Rightarrow> fid_component" where
  "summarized V n = (let G = filter (\<lambda>c. fc_name c = n) V in
     \<lparr>fc_name = n, fc_portability = worst_of (map fc_portability G), fc_count = sum_list (map fc_count G),
      fc_bytes = sum_list (map fc_bytes G), fc_reason = []\<rparr>)"

definition without_reason :: "fid_component \<Rightarrow> fid_component" where
  "without_reason c = c\<lparr>fc_reason := []\<rparr>"

definition grouped :: "fid_component list \<Rightarrow> fid_component list \<Rightarrow> bool" where
  "grouped V acc \<longleftrightarrow> distinct (map fc_name acc) \<and> fc_name ` set acc = fc_name ` set V
     \<and> (\<forall>a \<in> set acc. without_reason a = summarized V (fc_name a))"

lemma put_component_names: "map fc_name (put_component c acc) = (if fc_name c \<in> fc_name ` set acc then map fc_name acc else map fc_name acc @ [fc_name c])"
  by (induction acc) (auto simp: combine_def Let_def)

lemma put_component_mem:
  assumes "a \<in> set (put_component c acc)" "distinct (map fc_name acc)"
  shows "a \<in> set acc \<and> fc_name a \<noteq> fc_name c \<or> a = c \<and> fc_name c \<notin> fc_name ` set acc
    \<or> (\<exists>b \<in> set acc. fc_name b = fc_name c \<and> a = combine b c)"
  using assms
proof (induction acc)
  case (Cons b acc)
  show ?case
  proof (cases "fc_name b = fc_name c")
    case True
    with Cons.prems have "a = combine b c \<or> a \<in> set acc \<and> fc_name a \<noteq> fc_name c" by (auto simp: image_iff)
    with True show ?thesis by auto
  next
    case False
    with Cons.prems have "a = b \<or> a \<in> set (put_component c acc)" "distinct (map fc_name acc)" by auto
    with Cons.IH False show ?thesis by auto
  qed
qed simp

lemma summarized_other: "fc_name c \<noteq> n \<Longrightarrow> summarized (V @ [c]) n = summarized V n"
  by (simp add: summarized_def)

lemma summarized_new:
  assumes "fc_name c \<notin> fc_name ` set V" "valid_portability (fc_portability c)"
  shows "summarized (V @ [c]) (fc_name c) = without_reason c"
proof -
  have "filter (\<lambda>x. fc_name x = fc_name c) V = []" using assms(1) by (auto simp: filter_empty_conv image_iff)
  moreover have "worst_of [fc_portability c] = fc_portability c"
    using assms(2) by (auto simp: worst_of_def worst_portability_def worse_portability_def valid_portability_def portability_rank_def)
  ultimately show ?thesis by (simp add: summarized_def without_reason_def)
qed

lemma summarized_combine:
  assumes "without_reason b = summarized V (fc_name c)"
  shows "without_reason (combine b c) = summarized (V @ [c]) (fc_name c)"
proof -
  let ?G = "filter (\<lambda>x. fc_name x = fc_name c) V"
  have b: "fc_name b = fc_name c" "fc_portability b = worst_of (map fc_portability ?G)" "fc_count b = sum_list (map fc_count ?G)"
    "fc_bytes b = sum_list (map fc_bytes ?G)"
    using arg_cong [OF assms, of fc_name] arg_cong [OF assms, of fc_portability] arg_cong [OF assms, of fc_count] arg_cong [OF assms, of fc_bytes]
    by (simp_all add: summarized_def without_reason_def Let_def)
  have "worst_of (map fc_portability (?G @ [c])) = worst_portability (fc_portability c) (fc_portability b)"
    by (simp add: worst_of_snoc b(2))
  then show ?thesis using b
    by (simp add: summarized_def without_reason_def combine_def Let_def worst_portability_def)
qed

lemma grouped_put:
  assumes g: "grouped V acc" and v: "valid_portability (fc_portability c)"
  shows "grouped (V @ [c]) (put_component c acc)"
proof -
  note d = g [unfolded grouped_def]
  have "distinct (map fc_name (put_component c acc))" using d by (auto simp: put_component_names)
  moreover have "fc_name ` set (put_component c acc) = fc_name ` set (V @ [c])"
    using d arg_cong [OF put_component_names [of c acc], of set] by (auto split: if_splits)
  moreover have "without_reason a = summarized (V @ [c]) (fc_name a)" if a: "a \<in> set (put_component c acc)" for a
    using put_component_mem [OF a conjunct1 [OF d]]
  proof (elim disjE bexE conjE)
    assume "a \<in> set acc" "fc_name a \<noteq> fc_name c"
    then show ?thesis using d by (simp add: summarized_other)
  next
    assume "a = c" "fc_name c \<notin> fc_name ` set acc"
    then show ?thesis using d v summarized_new [of c V] by simp
  next
    fix b assume b: "b \<in> set acc" "fc_name b = fc_name c" "a = combine b c"
    then have "fc_name a = fc_name c" by (simp add: combine_def Let_def)
    moreover have "without_reason b = summarized V (fc_name c)" using d b(1,2) by force
    ultimately show ?thesis using summarized_combine [of b V c] b(3) by simp
  qed
  ultimately show ?thesis unfolding grouped_def by blast
qed

lemma foldl_grouped:
  "grouped V acc \<Longrightarrow> grouped (V @ filter (\<lambda>c. fc_name c \<noteq> [] \<and> valid_portability (fc_portability c)) cs) (foldl merge_component acc cs)"
proof (induction cs arbitrary: V acc)
  case (Cons c cs)
  show ?case
  proof (cases "fc_name c \<noteq> [] \<and> valid_portability (fc_portability c)")
    case True
    then have "grouped (V @ [c]) (merge_component acc c)" using grouped_put [OF Cons.prems] by (simp add: merge_component_def)
    from Cons.IH [OF this] True show ?thesis by simp
  next
    case False
    then have "merge_component acc c = acc" by (auto simp: merge_component_def)
    with Cons.IH [OF Cons.prems] False show ?thesis by auto
  qed
qed simp

lemma grouped_aggregate: "grouped (counted events included) (the (fd_components (aggregate_fidelity events included)))"
proof -
  have "grouped [] []" by (simp add: grouped_def)
  from foldl_grouped [OF this, of "included @ map event_component events"]
  have "grouped (counted events included) (foldl merge_component [] (included @ map event_component events))" (is "grouped _ ?acc")
    by (simp add: counted_def)
  then show ?thesis
    unfolding grouped_def aggregate_fidelity_def Let_def fidelity.simps option.sel by (simp add: distinct_map)
qed

lemma overall_loop: "foldl overall_step (Some w) cs = Some (worst_loop w cs)"
  by (induction cs arbitrary: w) (auto simp: overall_step_def)

lemma overall_components:
  "(case foldl overall_step None cs of None \<Rightarrow> ''exact'' | Some w \<Rightarrow> w) = worst_of_components cs"
  by (cases cs) (simp_all add: worst_of_components_def overall_step_def [of None] overall_loop)

lemma worst_loop_fold: "worst_loop w cs = foldl (\<lambda>w p. worst_portability p w) w (map fc_portability cs)"
  by (induction cs arbitrary: w) (simp_all add: worst_portability_def)

lemma worst_portability_exact: "valid_portability p \<Longrightarrow> worst_portability p ''exact'' = p"
  by (auto simp: valid_portability_def worst_portability_def worse_portability_def portability_rank_def)

lemma worst_of_components_all: "list_all (\<lambda>c. valid_portability (fc_portability c)) cs \<Longrightarrow> worst_of_components cs = worst_of (map fc_portability cs)"
  by (cases cs) (simp_all add: worst_of_components_def worst_of_def worst_loop_fold worst_portability_exact)

lemma counted_valid: "c \<in> set (counted es inc) \<Longrightarrow> valid_portability (fc_portability c)"
  by (auto simp: counted_def)

lemma summarized_rank:
  assumes "\<forall>c \<in> set V. valid_portability (fc_portability c)"
  shows "valid_portability (fc_portability (summarized V n))
    \<and> portability_rank (fc_portability (summarized V n)) = Max (insert 0 ((\<lambda>c. portability_rank (fc_portability c)) ` {c \<in> set V. fc_name c = n}))"
proof -
  let ?G = "filter (\<lambda>c. fc_name c = n) V"
  have "list_all valid_portability (map fc_portability ?G)" using assms by (auto simp: list_all_iff)
  from worst_of_rank [OF this] show ?thesis by (simp add: summarized_def Let_def image_image)
qed

lemma grouped_worst:
  assumes g: "grouped V acc" and v: "\<forall>c \<in> set V. valid_portability (fc_portability c)"
  shows "list_all (\<lambda>c. valid_portability (fc_portability c)) acc" "worst_of (map fc_portability acc) = worst_of (map fc_portability V)"
proof -
  have p: "fc_portability a = fc_portability (summarized V (fc_name a))" if "a \<in> set acc" for a
  proof -
    have "without_reason a = summarized V (fc_name a)" using g that by (simp add: grouped_def)
    then show ?thesis by (metis without_reason_def fid_component.simps(2) fid_component.select_convs(2) fid_component.update_convs(5) fid_component.surjective)
  qed
  show va: "list_all (\<lambda>c. valid_portability (fc_portability c)) acc"
    using p summarized_rank [OF v] by (simp add: list_all_iff)
  let ?r = "\<lambda>c. portability_rank (fc_portability c)"
  have ra: "valid_portability (worst_of (map fc_portability acc))" "portability_rank (worst_of (map fc_portability acc)) = Max (insert 0 (?r ` set acc))"
    using worst_of_rank [of "map fc_portability acc"] va by (simp_all add: list_all_iff image_image)
  have rv: "valid_portability (worst_of (map fc_portability V))" "portability_rank (worst_of (map fc_portability V)) = Max (insert 0 (?r ` set V))"
    using worst_of_rank [of "map fc_portability V"] v by (simp_all add: list_all_iff image_image)
  have eq: "?r a = Max (insert 0 (?r ` {c \<in> set V. fc_name c = fc_name a}))" if "a \<in> set acc" for a
    using p [OF that] summarized_rank [OF v, of "fc_name a"] by simp
  have "Max (insert 0 (?r ` set acc)) = Max (insert 0 (?r ` set V))"
  proof (rule antisym)
    have "x \<le> Max (insert 0 (?r ` set V))" if "x \<in> insert 0 (?r ` set acc)" for x
    proof (cases "x = 0")
      case False
      with that obtain a where a: "a \<in> set acc" "x = ?r a" by auto
      have "?r a \<in> insert 0 (?r ` {c \<in> set V. fc_name c = fc_name a})" unfolding eq [OF a(1)] by (rule Max_in) auto
      then have "x \<in> insert 0 (?r ` set V)" using a(2) by auto
      then show ?thesis by simp
    qed simp
    then show "Max (insert 0 (?r ` set acc)) \<le> Max (insert 0 (?r ` set V))" by (intro Max.boundedI) auto
    have "x \<le> Max (insert 0 (?r ` set acc))" if "x \<in> insert 0 (?r ` set V)" for x
    proof (cases "x = 0")
      case False
      with that obtain c where c: "c \<in> set V" "x = ?r c" by auto
      then obtain a where a: "a \<in> set acc" "fc_name a = fc_name c" using g by (auto simp: grouped_def) (metis (no_types, lifting) image_iff)
      have "x \<le> ?r a" unfolding eq [OF a(1)] using c a(2) by (intro Max_ge) auto
      also have "?r a \<le> Max (insert 0 (?r ` set acc))" using a(1) by simp
      finally show ?thesis .
    qed simp
    then show "Max (insert 0 (?r ` set V)) \<le> Max (insert 0 (?r ` set acc))" by (intro Max.boundedI) auto
  qed
  with ra rv rank_inj show "worst_of (map fc_portability acc) = worst_of (map fc_portability V)" by simp
qed

text \<open>
  C26. The fidelity report is a grouping of the classifications: one component per name, in the order of the
  names, with the worst portability, the number and the bytes of all classifications of that name (a
  nameless one and one of unknown portability do not count). The overall value is the worst of them all,
  which is what validation recomputes from the components.
\<close>
theorem aggregate_fidelity_groups:
  "map without_reason (the (fd_components (aggregate_fidelity events included)))
     = map (summarized (counted events included)) (sorted_list_of_set (fc_name ` set (counted events included)))
   \<and> fd_overall (aggregate_fidelity events included) = worst_of (map fc_portability (counted events included))
   \<and> fd_overall (aggregate_fidelity events included) = worst_of_components (the (fd_components (aggregate_fidelity events included)))
   \<and> list_all (\<lambda>c. valid_portability (fc_portability c)) (the (fd_components (aggregate_fidelity events included)))"
proof -
  let ?f = "aggregate_fidelity events included" and ?V = "counted events included"
  let ?cs = "the (fd_components ?f)"
  note g = grouped_aggregate [of events included]
  have s: "sorted (map fc_name ?cs)" by (simp add: aggregate_fidelity_def Let_def)
  have "sorted_list_of_set (fc_name ` set ?V) = map fc_name ?cs"
    using g s sorted_list_of_set.idem_if_sorted_distinct [of "map fc_name ?cs"] by (simp add: grouped_def)
  then have 1: "map without_reason ?cs = map (summarized ?V) (sorted_list_of_set (fc_name ` set ?V))"
    using g by (simp add: grouped_def)
  have o: "fd_overall ?f = worst_of_components ?cs" by (simp add: aggregate_fidelity_def Let_def overall_components)
  have v: "\<forall>c \<in> set ?V. valid_portability (fc_portability c)" using counted_valid by blast
  note w = grouped_worst [OF g v]
  show ?thesis using 1 o w worst_of_components_all [OF w(1)] by simp
qed

section \<open>What validation accepts\<close>

text \<open>The contract of an event, and of a conversation.\<close>

definition event_contract :: "cap_event \<Rightarrow> bool" where
  "event_contract e \<longleftrightarrow> valid_portability (ev_portability e) \<and> (ev_portability e = ''exact'' \<or> ev_reason e \<noteq> []) \<and> ev_id e \<noteq> []
     \<and> length (ev_blocks e) \<le> MaxBlocksPerEvent \<and> length (ev_redactions e) \<le> MaxRedactionsPerEvent
     \<and> (\<forall>b \<in> set (ev_blocks e). length (bl_text b) \<le> MaxTextBlockBytes)"

definition linked_to_call :: "cap_event list \<Rightarrow> cap_event \<Rightarrow> bool" where
  "linked_to_call es e \<longleftrightarrow> ev_linked e \<noteq> [] \<and> (\<exists>e' \<in> set es. ev_kind e' = ''tool_call'' \<and> ev_call e' = ev_linked e)"

definition conversation_contract :: "cap_event list \<Rightarrow> bool" where
  "conversation_contract es \<longleftrightarrow> distinct (map ev_id es) \<and> sorted (map ev_order es)
     \<and> (\<forall>e \<in> set es. event_contract e \<and> (ev_kind e = ''tool_result'' \<longrightarrow> linked_to_call es e))"

definition capsule_contract :: "capsule_lib \<Rightarrow> capsule \<Rightarrow> bool" where
  "capsule_contract L c \<longleftrightarrow> cp_schema c = CapsuleSchema \<and> fd_mode (cp_fidelity c) = FidelityModeStructuredHandoff
     \<and> (\<forall>x \<in> set (components_of c). valid_portability (fc_portability x))
     \<and> fd_overall (cp_fidelity c) = worst_of (map fc_portability (components_of c))
     \<and> length (events_of c) \<le> MaxEvents \<and> conversation_contract (events_of c)
     \<and> (\<forall>t \<in> set (task_texts (cp_task c)). length (coerce_runes (snd t)) \<le> MaxTaskFieldRunes)
     \<and> count_file_references c \<le> MaxFileReferences
     \<and> (\<forall>v \<in> set (checked_fields L (normalize_capsule c)). \<not> path_forbidden (snd v))
     \<and> times_printable L (normalize_capsule c)
     \<and> length (write_canonical (capsule_json L (normalize_capsule c))) \<le> MaxCapsuleBytes"

lemma find_enumerate_None: "find (\<lambda>(i, x). P x) (enumerate n xs) = None \<longleftrightarrow> (\<forall>x \<in> set xs. \<not> P x)"
  by (induction xs arbitrary: n) auto

lemma find_named_None: "find (\<lambda>(n, v). P v) xs = None \<longleftrightarrow> (\<forall>x \<in> set xs. \<not> P (snd x))"
  by (induction xs) auto

lemma long_block_None: "long_block bs = None \<longleftrightarrow> (\<forall>b \<in> set bs. length (bl_text b) \<le> MaxTextBlockBytes)"
  by (simp add: long_block_def find_enumerate_None not_less)

lemma validate_event_None:
  "validate_event calls seen prev i e = None \<longleftrightarrow> event_contract e \<and> ev_id e \<notin> set seen
     \<and> (case prev of None \<Rightarrow> True | Some p \<Rightarrow> p \<le> ev_order e)
     \<and> (ev_kind e = ''tool_result'' \<longrightarrow> ev_linked e \<noteq> [] \<and> ev_linked e \<in> set calls)"
proof -
  have v: "valid_portability (ev_portability e) \<Longrightarrow> ev_portability e \<noteq> []" by (auto simp: valid_portability_def)
  show ?thesis
    using v unfolding validate_event_def event_contract_def
    by (cases prev; cases "long_block (ev_blocks e)") (auto simp: not_less long_block_None [symmetric])
qed

definition ordered_from :: "int option \<Rightarrow> int list \<Rightarrow> bool" where
  "ordered_from prev os = (case prev of None \<Rightarrow> sorted os | Some p \<Rightarrow> sorted (p # os))"

lemma validate_events_None:
  "validate_events calls seen prev i es = None \<longleftrightarrow>
     (\<forall>e \<in> set es. event_contract e \<and> (ev_kind e = ''tool_result'' \<longrightarrow> ev_linked e \<noteq> [] \<and> ev_linked e \<in> set calls))
     \<and> distinct (map ev_id es) \<and> set (map ev_id es) \<inter> set seen = {} \<and> ordered_from prev (map ev_order es)"
proof (induction es arbitrary: seen prev i)
  case (Cons e es)
  have o: "ordered_from prev (map ev_order (e # es)) \<longleftrightarrow>
      (case prev of None \<Rightarrow> True | Some p \<Rightarrow> p \<le> ev_order e) \<and> ordered_from (Some (ev_order e)) (map ev_order es)"
    by (cases prev) (auto simp: ordered_from_def)
  have "validate_events calls seen prev i (e # es) = None \<longleftrightarrow> validate_event calls seen prev i e = None
      \<and> validate_events calls (ev_id e # seen) (Some (ev_order e)) (Suc i) es = None"
    by (simp split: option.splits)
  also have "\<dots> \<longleftrightarrow> (event_contract e \<and> ev_id e \<notin> set seen
       \<and> (case prev of None \<Rightarrow> True | Some p \<Rightarrow> p \<le> ev_order e)
       \<and> (ev_kind e = ''tool_result'' \<longrightarrow> ev_linked e \<noteq> [] \<and> ev_linked e \<in> set calls))
     \<and> (\<forall>e \<in> set es. event_contract e \<and> (ev_kind e = ''tool_result'' \<longrightarrow> ev_linked e \<noteq> [] \<and> ev_linked e \<in> set calls))
     \<and> distinct (map ev_id es) \<and> set (map ev_id es) \<inter> set (ev_id e # seen) = {} \<and> ordered_from (Some (ev_order e)) (map ev_order es)"
    unfolding validate_event_None Cons.IH by blast
  also have "\<dots> \<longleftrightarrow> (\<forall>e \<in> set (e # es). event_contract e \<and> (ev_kind e = ''tool_result'' \<longrightarrow> ev_linked e \<noteq> [] \<and> ev_linked e \<in> set calls))
     \<and> distinct (map ev_id (e # es)) \<and> set (map ev_id (e # es)) \<inter> set seen = {} \<and> ordered_from prev (map ev_order (e # es))"
    unfolding o by auto
  finally show ?case .
qed (simp add: ordered_from_def split: option.splits)

lemma call_ids_iff: "ev_linked e \<noteq> [] \<and> ev_linked e \<in> set (call_ids es) \<longleftrightarrow> linked_to_call es e"
  by (force simp: call_ids_def linked_to_call_def image_iff)

lemma validate_conversation: "validate_events (call_ids es) [] None 0 es = None \<longleftrightarrow> conversation_contract es"
  unfolding validate_events_None call_ids_iff conversation_contract_def by (auto simp: ordered_from_def)

lemma validate_task_None: "validate_task_bounds t = None \<longleftrightarrow> (\<forall>x \<in> set (task_texts t). length (coerce_runes (snd x)) \<le> MaxTaskFieldRunes)"
proof -
  have "validate_task_bounds t = None \<longleftrightarrow> find (\<lambda>(name, v). length (coerce_runes v) > MaxTaskFieldRunes) (task_texts t) = None"
    unfolding validate_task_bounds_def by (auto split: option.splits)
  then show ?thesis by (simp add: find_named_None not_less)
qed

lemma canonical_bytes_Inr:
  "canonical_bytes L c = Inr raw \<longleftrightarrow> (\<forall>v \<in> set (checked_fields L (normalize_capsule c)). \<not> path_forbidden (snd v))
     \<and> times_printable L (normalize_capsule c) \<and> raw = write_canonical (capsule_json L (normalize_capsule c))"
proof -
  have "reject_absolute L (normalize_capsule c) = None \<longleftrightarrow> (\<forall>v \<in> set (checked_fields L (normalize_capsule c)). \<not> path_forbidden (snd v))"
    unfolding reject_absolute_def by (rule find_named_None)
  then show ?thesis unfolding canonical_bytes_def Let_def by (auto split: option.splits)
qed

text \<open>
  C25. Validation accepts exactly the capsules that satisfy the contract: event ids are distinct and not empty,
  the order never goes down, every tool result names a tool call of the conversation, an event that
  is not exact says why, the overall fidelity is the worst of the components, every bound holds, and no
  structural field holds an absolute path of any platform.
\<close>
theorem validate_capsule_contract: "validate_capsule L c = None \<longleftrightarrow> capsule_contract L c"
proof -
  have f: "find (\<lambda>x. \<not> valid_portability (fc_portability x)) (components_of c) = None
      \<longleftrightarrow> (\<forall>x \<in> set (components_of c). valid_portability (fc_portability x))" by (auto simp: find_None_iff)
  have w: "(\<forall>x \<in> set (components_of c). valid_portability (fc_portability x)) \<Longrightarrow>
      worst_of_components (components_of c) = worst_of (map fc_portability (components_of c))"
    by (rule worst_of_components_all) (simp add: list_all_iff)
  have b: "(case canonical_bytes L c of Inl e \<Rightarrow> Some (CanonicalFailed e)
      | Inr raw \<Rightarrow> if length raw > MaxCapsuleBytes then Some (CapsuleTooLarge (length raw)) else None) = None
    \<longleftrightarrow> (\<exists>raw. canonical_bytes L c = Inr raw \<and> length raw \<le> MaxCapsuleBytes)"
    by (cases "canonical_bytes L c") auto
  have "validate_capsule L c = None \<longleftrightarrow> cp_schema c = CapsuleSchema \<and> fd_mode (cp_fidelity c) = FidelityModeStructuredHandoff
     \<and> find (\<lambda>x. \<not> valid_portability (fc_portability x)) (components_of c) = None
     \<and> fd_overall (cp_fidelity c) = worst_of_components (components_of c)
     \<and> length (events_of c) \<le> MaxEvents \<and> validate_task_bounds (cp_task c) = None \<and> count_file_references c \<le> MaxFileReferences
     \<and> validate_events (call_ids (events_of c)) [] None 0 (events_of c) = None
     \<and> (\<exists>raw. canonical_bytes L c = Inr raw \<and> length raw \<le> MaxCapsuleBytes)"
    unfolding b [symmetric] validate_capsule_def
    by (cases "find (\<lambda>x. \<not> valid_portability (fc_portability x)) (components_of c)"; cases "validate_task_bounds (cp_task c)";
        cases "validate_events (call_ids (events_of c)) [] None 0 (events_of c)") (simp_all add: not_less)
  then show ?thesis
    unfolding f validate_conversation validate_task_None canonical_bytes_Inr capsule_contract_def using w by metis
qed

end
