(* ===== verification/Capsule_Identity.thy ===== *)
theory Capsule_Identity
  imports Capsule_Check
begin

text \<open>
  What the identity of a capsule and of an event stands for: the canonical bytes determine everything
  that is serialized, so equal identities mean equal content up to a collision of the digest.
\<close>

section \<open>Members of a struct are told apart\<close>

lemma map_of_sorted_entries: "map_of (sorted_entries es) k = map_of (rev es) k"
proof (cases "k \<in> fst ` set es")
  case True
  then have "k \<in> dom (map_of (rev es))" by (simp add: dom_map_of_conv_image_fst)
  moreover have "map_of (map (\<lambda>k. (k, the (map_of (rev es) k))) ks) k = Some (the (map_of (rev es) k))" if "k \<in> set ks" for ks
    using that by (induction ks) auto
  ultimately show ?thesis using True by (auto simp: sorted_entries_def)
next
  case False
  then have "map_of (sorted_entries es) k = None" "map_of (rev es) k = None"
    by (simp_all add: map_of_eq_None_iff flip: set_map) (simp_all add: sorted_entries_keys)
  then show ?thesis by simp
qed

definition member_entries :: "(string \<times> json option) list \<Rightarrow> (bytes \<times> json) list" where
  "member_entries ms = map (\<lambda>(k, v). (k, the v)) (filter (\<lambda>(k, v). v \<noteq> None) ms)"

lemma member_entries_keys: "fst ` set (member_entries ms) \<subseteq> fst ` set ms"
  by (force simp: member_entries_def)

lemma member_entries_Cons: "member_entries ((a, b) # ms) = (case b of None \<Rightarrow> member_entries ms | Some v \<Rightarrow> (a, v) # member_entries ms)"
  by (simp add: member_entries_def split: option.splits)

lemma map_of_member_entries: "distinct (map fst ms) \<Longrightarrow> (k, v) \<in> set ms \<Longrightarrow> map_of (member_entries ms) k = v"
proof (induction ms)
  case (Cons m ms)
  obtain a b where m: "m = (a, b)" by (cases m)
  have none: "map_of (member_entries ms) a = None"
    using Cons.prems(1) m member_entries_keys [of ms] by (auto simp: map_of_eq_None_iff)
  show ?case
  proof (cases "k = a")
    case True
    with Cons.prems m have "v = b" by (auto simp: image_iff)
    with True m none show ?thesis by (cases b) (simp_all add: member_entries_Cons)
  next
    case False
    with Cons m have "map_of (member_entries ms) k = v" by auto
    with False m show ?thesis by (cases b) (simp_all add: member_entries_Cons)
  qed
qed simp

lemma distinct_member_entries: "distinct (map fst ms) \<Longrightarrow> distinct (map fst (member_entries ms))"
proof (induction ms)
  case (Cons m ms)
  obtain a b where m: "m = (a, b)" by (cases m)
  with Cons have "a \<notin> fst ` set (member_entries ms)" "distinct (map fst (member_entries ms))" using member_entries_keys [of ms] by auto
  then show ?case using m by (cases b) (simp_all add: member_entries_Cons)
qed (simp add: member_entries_def)

lemma map_of_norm_members:
  assumes "distinct (map fst ms)" "(k, v) \<in> set ms"
  shows "map_of (rev (map (map_prod (\<lambda>k. k) json_norm) (member_entries ms))) k = map_option json_norm v"
proof -
  have "distinct (map fst (map (map_prod (\<lambda>k. k) json_norm) (member_entries ms)))"
    using distinct_member_entries [OF assms(1)] by (simp add: comp_def)
  then have "map_of (rev (map (map_prod (\<lambda>k. k) json_norm) (member_entries ms))) k = map_of (map (map_prod (\<lambda>k. k) json_norm) (member_entries ms)) k"
    using map_of_inject_set [of "rev (map (map_prod (\<lambda>k. k) json_norm) (member_entries ms))" "map (map_prod (\<lambda>k. k) json_norm) (member_entries ms)"]
    by (simp add: rev_map [symmetric])
  moreover have "map_of (map (map_prod (\<lambda>k. k) f) xs) k = map_option f (map_of xs k)" for f :: "json \<Rightarrow> json" and xs :: "(bytes \<times> json) list"
    by (induction xs) auto
  ultimately show ?thesis using map_of_member_entries [OF assms] by simp
qed

lemma members_eq:
  assumes "json_norm (members ms) = json_norm (members ns)" "map fst ms = map fst ns" "distinct (map fst ms)"
  shows "map (\<lambda>m. map_option json_norm (snd m)) ms = map (\<lambda>m. map_option json_norm (snd m)) ns"
proof -
  let ?e = "\<lambda>ms. map (map_prod (\<lambda>k. k) json_norm) (member_entries ms)"
  have "sorted_entries (?e ms) = sorted_entries (?e ns)" using assms(1) by (simp add: members_def member_entries_def)
  then have m: "map_of (rev (?e ms)) k = map_of (rev (?e ns)) k" for k by (simp add: map_of_sorted_entries [symmetric])
  have l: "length ms = length ns" using map_eq_imp_length_eq [OF assms(2)] .
  show ?thesis
  proof (rule nth_equalityI)
    show "length (map (\<lambda>m. map_option json_norm (snd m)) ms) = length (map (\<lambda>m. map_option json_norm (snd m)) ns)" using l by simp
    fix i assume "i < length (map (\<lambda>m. map_option json_norm (snd m)) ms)"
    then have i: "i < length ms" "i < length ns" using l by simp_all
    have k: "fst (ms ! i) = fst (ns ! i)" using assms(2) i by (metis nth_map)
    have "map_option json_norm (snd (ms ! i)) = map_of (rev (?e ms)) (fst (ms ! i))"
      using map_of_norm_members [OF assms(3), of "fst (ms ! i)" "snd (ms ! i)"] i by simp
    also have "\<dots> = map_option json_norm (snd (ns ! i))"
      unfolding m k using map_of_norm_members [of ns "fst (ns ! i)" "snd (ns ! i)"] assms(2,3) i by simp
    finally show "map (\<lambda>m. map_option json_norm (snd m)) ms ! i = map (\<lambda>m. map_option json_norm (snd m)) ns ! i" using i by simp
  qed
qed

section \<open>Leaves\<close>

lemma coerce_encode: "\<forall>r \<in> set rs. rune_ok r \<Longrightarrow> coerce_runes (utf8_encode rs) = rs"
proof (induction rs)
  case (Cons r rs)
  obtain c s where c: "utf8_encode_rune r = c # s" "utf8_first c (s @ utf8_encode rs) = Some (r, utf8_encode rs)"
    using utf8_first_encode [of r "utf8_encode rs"] Cons.prems by auto
  have "utf8_encode (r # rs) = c # s @ utf8_encode rs" using c(1) by (simp add: utf8_encode_def)
  then show ?case using c(2) Cons by simp
qed (simp add: utf8_encode_def)

lemma coerce_valid: "valid_utf8 s \<Longrightarrow> utf8_encode (coerce_runes s) = s"
  using valid_utf8_runes [of s] coerce_encode by auto

lemma coerce_runes_ok: "r \<in> set (coerce_runes s) \<Longrightarrow> rune_ok r"
proof (induction s rule: coerce_runes.induct)
  case (2 c s)
  then show ?case by (auto simp: rune_ok_def [of 65533] dest: utf8_first_ok split: option.splits)
qed simp

lemma encode_valid: "\<forall>r \<in> set rs. rune_ok r \<Longrightarrow> valid_utf8 (utf8_encode rs)"
  by (simp add: valid_utf8_def decode_encode_ok)

lemma jstr_ok [simp]: "json_ok (jstr s)"
  unfolding jstr_def json_ok.simps by (rule encode_valid) (blast intro: coerce_runes_ok)

lemma digits_number:
  assumes "c \<in> set (nat_dec n)"
  shows "number_char c"
proof -
  have "48 \<le> (of_char c :: nat)" "(of_char c :: nat) \<le> 57" using nat_dec_digits [OF assms] by simp_all
  then have "48 \<le> (of_char c :: nat) \<and> (of_char c :: nat) < 58" by simp
  then have "(of_char c :: nat) \<in> set [48..<58]" by (simp only: set_upt atLeastLessThan_iff)
  moreover have "[48..<58] = [48, 49, 50, 51, 52, 53, 54, 55, 56, 57 :: nat]" by (simp add: upt_rec_numeral)
  ultimately have "(of_char c :: nat) \<in> {48, 49, 50, 51, 52, 53, 54, 55, 56, 57}" by (simp only: list.set)
  then have "(of_char c :: nat) \<in> of_char ` {CHR ''0'', CHR ''1'', CHR ''2'', CHR ''3'', CHR ''4'', CHR ''5'', CHR ''6'', CHR ''7'', CHR ''8'', CHR ''9''}"
    by simp
  then have "c \<in> {CHR ''0'', CHR ''1'', CHR ''2'', CHR ''3'', CHR ''4'', CHR ''5'', CHR ''6'', CHR ''7'', CHR ''8'', CHR ''9''}"
    unfolding image_iff of_char_eq_iff by blast
  then show ?thesis by (auto simp: number_char_def)
qed

lemma jint_ok [simp]: "json_ok (jint i)"
proof -
  have n: "nat_dec m \<noteq> []" for m by simp
  have h: "number_char (hd (nat_dec m))" "hd (nat_dec m) \<noteq> CHR ''e''" "hd (nat_dec m) \<noteq> CHR ''E''" for m
    using nat_dec_digits [OF hd_in_set [OF n, of m]] digits_number [OF hd_in_set [OF n, of m]] by auto
  show ?thesis using h digits_number by (auto simp: jint_def itoa_def list_all_iff number_char_def)
qed

lemma jstr_norm [simp]: "json_norm (jstr s) = jstr s"
  by (simp add: jstr_def)

lemma jint_norm [simp]: "json_norm (jint i) = jint i"
  by (simp add: jint_def)

lemma jstr_inj: "valid_utf8 a \<Longrightarrow> valid_utf8 b \<Longrightarrow> jstr a = jstr b \<longleftrightarrow> a = b"
  by (simp add: jstr_def coerce_valid)

lemma jint_inj [simp]: "jint i = jint j \<longleftrightarrow> i = j"
  by (simp add: jint_def itoa_inj)

lemma omit_norm [simp]:
  "map_option json_norm (omit_str s) = omit_str s" "map_option json_norm (omit_int i) = omit_int i"
  "map_option json_norm (omit_bool b) = omit_bool b"
  by (simp_all add: omit_str_def omit_int_def omit_bool_def)

lemma omit_str_inj: "valid_utf8 a \<Longrightarrow> valid_utf8 b \<Longrightarrow> omit_str a = omit_str b \<longleftrightarrow> a = b"
  by (auto simp: omit_str_def jstr_inj)

lemma omit_int_inj [simp]: "omit_int i = omit_int j \<longleftrightarrow> i = j"
  by (auto simp: omit_int_def)

lemma omit_bool_inj [simp]: "omit_bool a = omit_bool b \<longleftrightarrow> a = b"
  by (auto simp: omit_bool_def)

lemma map_inj_on: "map f xs = map f ys \<Longrightarrow> (\<And>x y. x \<in> set xs \<Longrightarrow> y \<in> set ys \<Longrightarrow> f x = f y \<Longrightarrow> x = y) \<Longrightarrow> xs = ys"
proof (induction xs arbitrary: ys)
  case (Cons x xs)
  then obtain y ys' where "ys = y # ys'" by (cases ys) auto
  with Cons show ?case by auto
qed simp

lemma map_transfer:
  "map f xs = map f ys \<Longrightarrow> (\<And>x y. x \<in> set xs \<Longrightarrow> y \<in> set ys \<Longrightarrow> f x = f y \<Longrightarrow> g x = g y) \<Longrightarrow> map g xs = map g ys"
proof (induction xs arbitrary: ys)
  case (Cons x xs)
  then obtain y ys' where "ys = y # ys'" by (cases ys) auto
  with Cons show ?case by auto
qed simp

lemma omit_list_inj:
  assumes "map_option json_norm (omit_list f xs) = map_option json_norm (omit_list f ys)"
    and "\<And>x y. x \<in> set xs \<Longrightarrow> y \<in> set ys \<Longrightarrow> json_norm (f x) = json_norm (f y) \<Longrightarrow> x = y"
  shows "xs = ys"
proof -
  have "map (\<lambda>x. json_norm (f x)) xs = map (\<lambda>x. json_norm (f x)) ys"
    using assms(1) by (auto simp: omit_list_def comp_def split: if_splits)
  then show ?thesis using assms(2) by (rule map_inj_on)
qed

definition texts :: "string list \<Rightarrow> bool" where "texts ss \<longleftrightarrow> list_all valid_utf8 ss"

lemma omit_strings_inj: "map_option json_norm (omit_list jstr xs) = map_option json_norm (omit_list jstr ys) \<Longrightarrow> texts xs \<Longrightarrow> texts ys \<Longrightarrow> xs = ys"
  by (erule omit_list_inj) (auto simp: texts_def list_all_iff jstr_inj)

lemma jlist_inj:
  assumes "json_norm (jlist f xs) = json_norm (jlist f ys)"
    and "\<And>x y. x \<in> set (case xs of None \<Rightarrow> [] | Some zs \<Rightarrow> zs) \<Longrightarrow> y \<in> set (case ys of None \<Rightarrow> [] | Some zs \<Rightarrow> zs) \<Longrightarrow> json_norm (f x) = json_norm (f y) \<Longrightarrow> x = y"
  shows "xs = ys"
proof (cases xs)
  case None
  with assms(1) show ?thesis by (cases ys) (simp_all add: jlist_def)
next
  case (Some zs)
  with assms(1) obtain vs where v: "ys = Some vs" "map (\<lambda>x. json_norm (f x)) zs = map (\<lambda>x. json_norm (f x)) vs"
    by (cases ys) (simp_all add: jlist_def comp_def)
  have "zs = vs" by (rule map_inj_on [OF v(2)]) (use assms(2) Some v(1) in simp)
  with Some v(1) show ?thesis by simp
qed

section \<open>Records\<close>

definition pointer_text :: "source_pointer \<Rightarrow> bool" where
  "pointer_text p \<longleftrightarrow> texts [sp_agent p, sp_session p, sp_key p]"

lemmas leaf_inj = jstr_inj omit_str_inj texts_def

lemma pointer_inj: "json_norm (pointer_json p) = json_norm (pointer_json q) \<Longrightarrow> pointer_text p \<Longrightarrow> pointer_text q \<Longrightarrow> p = q"
  unfolding pointer_json_def by (drule members_eq) (auto simp: pointer_text_def leaf_inj intro: source_pointer.equality)

definition redaction_text :: "redaction \<Rightarrow> bool" where
  "redaction_text r \<longleftrightarrow> texts [rd_category r, rd_digest r]"

lemma redaction_inj: "json_norm (redaction_json a) = json_norm (redaction_json b) \<Longrightarrow> redaction_text a \<Longrightarrow> redaction_text b \<Longrightarrow> a = b"
  unfolding redaction_json_def by (drule members_eq) (auto simp: redaction_text_def leaf_inj intro: redaction.equality)

definition parent_text :: "parent_session \<Rightarrow> bool" where
  "parent_text p \<longleftrightarrow> texts [pr_agent p, pr_session p, pr_sha256 p, pr_version p]"

definition identity_text :: "identity \<Rightarrow> bool" where
  "identity_text i \<longleftrightarrow> texts [id_id i, id_lineage i] \<and> parent_text (id_parent i)"

lemma identity_inj: "json_norm (identity_json a) = json_norm (identity_json b) \<Longrightarrow> identity_text a \<Longrightarrow> identity_text b \<Longrightarrow> a = b"
  unfolding identity_json_def
  by (drule members_eq, simp, simp, clarsimp, drule members_eq) (auto simp: identity_text_def parent_text_def leaf_inj intro!: identity.equality parent_session.equality)

definition block_text :: "block \<Rightarrow> bool" where
  "block_text b \<longleftrightarrow> texts [bl_type b, bl_text b, bl_mime b, bl_sha256 b, bl_ref b, bl_path b]
     \<and> texts (map fst (bl_meta b)) \<and> texts (map snd (bl_meta b)) \<and> sorted (map fst (bl_meta b)) \<and> distinct (map fst (bl_meta b))"

lemma key_of_valid: "valid_utf8 k \<Longrightarrow> key_of k = k"
  by (simp add: key_of_def coerce_valid)

lemma key_of_map: "texts (map fst es) \<Longrightarrow> map (\<lambda>(k, v). (key_of k, f v)) es = map (map_prod (\<lambda>k. k) f) es"
  by (induction es) (auto simp: texts_def key_of_valid)

lemma meta_inj:
  assumes "map_option json_norm (if xs = [] then None else Some (JObj (map (\<lambda>(k, v). (key_of k, jstr v)) (sorted_entries xs))))
    = map_option json_norm (if ys = [] then None else Some (JObj (map (\<lambda>(k, v). (key_of k, jstr v)) (sorted_entries ys))))"
    and "texts (map fst xs)" "texts (map snd xs)" "sorted (map fst xs)" "distinct (map fst xs)"
    and "texts (map fst ys)" "texts (map snd ys)" "sorted (map fst ys)" "distinct (map fst ys)"
  shows "xs = ys"
proof -
  have form: "map_option json_norm (if es = [] then None else Some (JObj (map (\<lambda>(k, v). (key_of k, jstr v)) (sorted_entries es))))
      = (if es = [] then None else Some (JObj (map (map_prod (\<lambda>k. k) jstr) es)))"
    if "texts (map fst es)" "sorted (map fst es)" "distinct (map fst es)" for es
  proof -
    have n: "map_prod (\<lambda>k. k) json_norm (map_prod (\<lambda>k. k) jstr kv) = map_prod (\<lambda>k. k) jstr kv" for kv :: "bytes \<times> bytes"
      by (cases kv) simp
    have "sorted_entries (map (map_prod (\<lambda>k. k) jstr) es) = map (map_prod (\<lambda>k. k) jstr) es"
      by (simp only: sorted_entries_map sorted_entries_id [OF that(2,3)])
    then show ?thesis by (simp add: sorted_entries_id [OF that(2,3)] key_of_map [OF that(1)] comp_def n del: map_prod_simp prod.map_comp)
  qed
  show ?thesis
  proof (cases "xs = [] \<or> ys = []")
    case True
    with assms(1) show ?thesis by (auto split: if_splits)
  next
    case False
    then have "map (map_prod (\<lambda>k. k) jstr) xs = map (map_prod (\<lambda>k. k) jstr) ys"
      using assms(1) form [OF assms(2,4,5)] form [OF assms(6,8,9)] by simp
    then show ?thesis
    proof (rule map_inj_on)
      fix x y assume xy: "x \<in> set xs" "y \<in> set ys" "map_prod (\<lambda>k. k) jstr x = map_prod (\<lambda>k. k) jstr y"
      then have "valid_utf8 (snd x)" "valid_utf8 (snd y)" using assms(3,7) by (simp_all add: texts_def list_all_iff)
      with xy(3) show "x = y" by (cases x; cases y) (simp add: jstr_inj)
    qed
  qed
qed

lemma block_inj: "json_norm (block_json a) = json_norm (block_json b) \<Longrightarrow> block_text a \<Longrightarrow> block_text b \<Longrightarrow> a = b"
proof -
  assume "json_norm (block_json a) = json_norm (block_json b)" and t: "block_text a" "block_text b"
  from members_eq [OF this(1) [unfolded block_json_def]] have m: "bl_meta a = bl_meta b" and
    r: "jstr (bl_type a) = jstr (bl_type b)" "omit_str (bl_text a) = omit_str (bl_text b)" "omit_str (bl_mime a) = omit_str (bl_mime b)"
      "omit_str (bl_sha256 a) = omit_str (bl_sha256 b)" "bl_size a = bl_size b" "omit_str (bl_ref a) = omit_str (bl_ref b)"
      "omit_str (bl_path a) = omit_str (bl_path b)" "bl_is_error a = bl_is_error b"
    using t meta_inj [of "bl_meta a" "bl_meta b"] by (simp_all add: block_text_def)
  then show "a = b" using t by (intro block.equality) (simp_all add: block_text_def leaf_inj)
qed

definition event_text :: "cap_event \<Rightarrow> bool" where
  "event_text e \<longleftrightarrow> texts [ev_id e, ev_actor e, ev_kind e, ev_native_type e, ev_native_name e, ev_call e, ev_linked e, ev_portability e,
     ev_reason e, ev_hash e] \<and> pointer_text (ev_source e) \<and> list_all block_text (ev_blocks e) \<and> list_all redaction_text (ev_redactions e)"

text \<open>The clock of the library prints every instant in question, each differently, as text.\<close>

definition clock_ok :: "capsule_lib \<Rightarrow> bool" where
  "clock_ok L \<longleftrightarrow> (\<forall>i j s. cl_time L i = Some s \<longrightarrow> valid_utf8 s \<and> (cl_time L j = Some s \<longrightarrow> i = j))"

definition time_known :: "capsule_lib \<Rightarrow> cap_event \<Rightarrow> bool" where
  "time_known L e \<longleftrightarrow> time_is_zero (ev_time e) \<or> cl_time L (gt_sec (ev_time e)) \<noteq> None"

text \<open>What is left of an event's time in the document: whole seconds, no zone.\<close>

definition public_event :: "cap_event \<Rightarrow> cap_event" where
  "public_event e = e\<lparr>ev_time := (if time_is_zero (ev_time e) then \<lparr>gt_sec = 0, gt_nsec = 0, gt_zone = 0\<rparr> else normalize_time (ev_time e))\<rparr>"

lemma time_inj:
  assumes "clock_ok L" "time_known L a" "time_known L b" "map_option json_norm (time_json L (ev_time a)) = map_option json_norm (time_json L (ev_time b))"
  shows "ev_time (public_event a) = ev_time (public_event b)"
proof (cases "time_is_zero (ev_time a) \<or> time_is_zero (ev_time b)")
  case True
  with assms(4) have "time_is_zero (ev_time a)" "time_is_zero (ev_time b)" by (auto simp: time_json_def split: if_splits)
  then show ?thesis by (simp add: public_event_def)
next
  case False
  then obtain s t where s: "cl_time L (gt_sec (ev_time a)) = Some s" "cl_time L (gt_sec (ev_time b)) = Some t"
    using assms(2,3) by (auto simp: time_known_def)
  with assms(4) False have "s = t" by (simp add: time_json_def)
  with s assms(1) have "gt_sec (ev_time a) = gt_sec (ev_time b)" unfolding clock_ok_def by blast
  with False show ?thesis by (simp add: public_event_def normalize_time_def)
qed

lemma event_inj:
  assumes "json_norm (event_json L a) = json_norm (event_json L b)" "event_text a" "event_text b" "clock_ok L" "time_known L a" "time_known L b"
  shows "public_event a = public_event b"
proof -
  from members_eq [OF assms(1) [unfolded event_json_def]] have
    t: "map_option json_norm (time_json L (ev_time a)) = map_option json_norm (time_json L (ev_time b))"
    and bl: "map_option json_norm (omit_list block_json (ev_blocks a)) = map_option json_norm (omit_list block_json (ev_blocks b))"
    and rd: "map_option json_norm (omit_list redaction_json (ev_redactions a)) = map_option json_norm (omit_list redaction_json (ev_redactions b))"
    and src: "json_norm (pointer_json (ev_source a)) = json_norm (pointer_json (ev_source b))"
    and r: "jstr (ev_id a) = jstr (ev_id b)" "ev_order a = ev_order b" "jstr (ev_actor a) = jstr (ev_actor b)" "jstr (ev_kind a) = jstr (ev_kind b)"
      "omit_str (ev_native_type a) = omit_str (ev_native_type b)" "omit_str (ev_native_name a) = omit_str (ev_native_name b)"
      "omit_str (ev_call a) = omit_str (ev_call b)" "omit_str (ev_linked a) = omit_str (ev_linked b)"
      "jstr (ev_portability a) = jstr (ev_portability b)" "omit_str (ev_reason a) = omit_str (ev_reason b)"
      "ev_truncated a = ev_truncated b" "jstr (ev_hash a) = jstr (ev_hash b)"
    by simp_all
  have "ev_blocks a = ev_blocks b" using bl
    by (rule omit_list_inj) (use assms(2,3) in \<open>auto simp: event_text_def list_all_iff intro: block_inj\<close>)
  moreover have "ev_redactions a = ev_redactions b" using rd
    by (rule omit_list_inj) (use assms(2,3) in \<open>auto simp: event_text_def list_all_iff intro: redaction_inj\<close>)
  moreover have "ev_source a = ev_source b" using pointer_inj [OF src] assms(2,3) by (simp add: event_text_def)
  moreover have "ev_time (public_event a) = ev_time (public_event b)" using time_inj [OF assms(4-6) t] .
  ultimately show ?thesis using r assms(2,3)
    by (intro cap_event.equality) (simp_all add: public_event_def event_text_def leaf_inj)
qed

definition raw_text :: "raw_source \<Rightarrow> bool" where
  "raw_text r \<longleftrightarrow> texts [rs_agent r, rs_session r, rs_sha256 r, rs_version r]"

lemma raw_inj: "json_norm (raw_json a) = json_norm (raw_json b) \<Longrightarrow> raw_text a \<Longrightarrow> raw_text b \<Longrightarrow> a\<lparr>rs_path := []\<rparr> = b\<lparr>rs_path := []\<rparr>"
  unfolding raw_json_def by (drule members_eq) (auto simp: raw_text_def leaf_inj intro: raw_source.equality)

definition text_text :: "text_field \<Rightarrow> bool" where
  "text_text f \<longleftrightarrow> texts [tf_text f, tf_portability f, tf_reason f, tf_label f]"

lemma text_inj: "json_norm (text_json a) = json_norm (text_json b) \<Longrightarrow> text_text a \<Longrightarrow> text_text b \<Longrightarrow> a = b"
  unfolding text_json_def by (drule members_eq) (auto simp: text_text_def leaf_inj intro: text_field.equality)

definition list_text :: "list_field \<Rightarrow> bool" where
  "list_text f \<longleftrightarrow> texts (lf_items f) \<and> texts [lf_portability f, lf_reason f, lf_label f]"

lemma list_inj: "json_norm (list_json a) = json_norm (list_json b) \<Longrightarrow> list_text a \<Longrightarrow> list_text b \<Longrightarrow> a = b"
proof -
  assume "json_norm (list_json a) = json_norm (list_json b)" and t: "list_text a" "list_text b"
  from members_eq [OF this(1) [unfolded list_json_def]] have
    i: "map_option json_norm (omit_list jstr (lf_items a)) = map_option json_norm (omit_list jstr (lf_items b))"
    and r: "jstr (lf_portability a) = jstr (lf_portability b)" "omit_str (lf_reason a) = omit_str (lf_reason b)" "omit_str (lf_label a) = omit_str (lf_label b)"
    by simp_all
  have "lf_items a = lf_items b" using omit_strings_inj [OF i] t by (simp add: list_text_def)
  with r t show "a = b" by (intro list_field.equality) (simp_all add: list_text_def leaf_inj)
qed

definition task_text :: "task \<Rightarrow> bool" where
  "task_text t \<longleftrightarrow> list_all text_text [tk_goal t, tk_intent t, tk_next t]
     \<and> list_all list_text [tk_recent t, tk_constraints t, tk_decisions t, tk_rejected t, tk_completed t, tk_pending t, tk_changed t,
         tk_touched t, tk_tests t, tk_questions t]"

lemma task_inj:
  assumes "json_norm (task_json a) = json_norm (task_json b)" "task_text a" "task_text b"
  shows "a = b"
proof -
  note m = members_eq [OF assms(1) [unfolded task_json_def], simplified]
  show ?thesis
    by (rule task.equality) (use m assms(2,3) in \<open>auto simp: task_text_def intro: text_inj list_inj\<close>)
qed

definition workspace_text :: "cap_workspace \<Rightarrow> bool" where
  "workspace_text w \<longleftrightarrow> texts [ws_project w, ws_root w, ws_branch w, ws_head w, ws_digest w] \<and> texts (ws_changed w) \<and> texts (ws_tests w)"

lemma workspace_inj:
  assumes "json_norm (workspace_json a) = json_norm (workspace_json b)" "workspace_text a" "workspace_text b"
  shows "a\<lparr>ws_path := []\<rparr> = b\<lparr>ws_path := []\<rparr>"
proof -
  note m = members_eq [OF assms(1) [unfolded workspace_json_def], simplified]
  have "ws_changed a = ws_changed b" "ws_tests a = ws_tests b"
    using m assms(2,3) by (auto simp: workspace_text_def intro: omit_strings_inj)
  then show ?thesis using m assms(2,3) by (intro cap_workspace.equality) (simp_all add: workspace_text_def leaf_inj)
qed

definition missing_text :: "missing_capability \<Rightarrow> bool" where
  "missing_text m \<longleftrightarrow> texts [mc_kind m, mc_name m, mc_impact m]"

lemma missing_inj: "json_norm (missing_json a) = json_norm (missing_json b) \<Longrightarrow> missing_text a \<Longrightarrow> missing_text b \<Longrightarrow> a = b"
  unfolding missing_json_def by (drule members_eq) (auto simp: missing_text_def leaf_inj intro: missing_capability.equality)

text \<open>A summary in the form a Go map is listed in: sorted distinct keys, values in normal form.\<close>

definition summary_text :: "(string \<times> json) list option \<Rightarrow> bool" where
  "summary_text m = (case m of None \<Rightarrow> True | Some es \<Rightarrow> texts (map fst es) \<and> sorted (map fst es) \<and> distinct (map fst es)
     \<and> list_all (\<lambda>kv. json_ok (snd kv) \<and> json_norm (snd kv) = snd kv) es)"

lemma summary_form: "summary_text (Some es) \<Longrightarrow> summary_json (Some es) = JObj es \<and> json_norm (JObj es) = JObj es"
proof -
  assume t: "summary_text (Some es)"
  then have s: "sorted_entries es = es" by (simp add: summary_text_def sorted_entries_id)
  have k: "map (\<lambda>(k, v). (key_of k, v)) es = es"
    using t by (intro map_idI) (auto simp: summary_text_def texts_def list_all_iff key_of_valid)
  have n: "map (map_prod (\<lambda>k. k) json_norm) es = es"
    using t by (intro map_idI) (auto simp: summary_text_def list_all_iff)
  show ?thesis by (simp add: summary_json_def s k n)
qed

lemma summary_inj: "json_norm (summary_json a) = json_norm (summary_json b) \<Longrightarrow> summary_text a \<Longrightarrow> summary_text b \<Longrightarrow> a = b"
proof -
  assume eq: "json_norm (summary_json a) = json_norm (summary_json b)" and t: "summary_text a" "summary_text b"
  have n: "json_norm (summary_json (Some es)) = JObj es" if "summary_text (Some es)" for es
    using summary_form [OF that] by (simp only: conjunct1)
  have nn: "json_norm (summary_json None) = JNull" by (simp add: summary_json_def)
  show "a = b"
  proof (cases a; cases b)
    fix es fs assume "a = Some es" "b = Some fs"
    with eq t n show ?thesis by (simp only: json.inject)
  next
    fix es assume ab: "a = Some es" "b = None"
    have "JObj es = JNull" using eq t(1) n [of es] nn unfolding ab by metis
    then show ?thesis by simp
  next
    fix fs assume ab: "a = None" "b = Some fs"
    have "JNull = JObj fs" using eq t(2) n [of fs] nn unfolding ab by metis
    then show ?thesis by simp
  qed simp
qed

definition capabilities_text :: "capability_diff \<Rightarrow> bool" where
  "capabilities_text d \<longleftrightarrow> summary_text (cd_source d) \<and> summary_text (cd_destination d) \<and> list_all missing_text (cd_missing d)"

lemma capabilities_inj:
  assumes "json_norm (capabilities_json a) = json_norm (capabilities_json b)" "capabilities_text a" "capabilities_text b"
  shows "a = b"
proof -
  from members_eq [OF assms(1) [unfolded capabilities_json_def]] have
    s: "json_norm (summary_json (cd_source a)) = json_norm (summary_json (cd_source b))"
      "json_norm (summary_json (cd_destination a)) = json_norm (summary_json (cd_destination b))"
    and m: "map_option json_norm (omit_list missing_json (cd_missing a)) = map_option json_norm (omit_list missing_json (cd_missing b))"
    by simp_all
  have "cd_missing a = cd_missing b" using m
    by (rule omit_list_inj) (use assms(2,3) in \<open>auto simp: capabilities_text_def list_all_iff intro: missing_inj\<close>)
  moreover have "cd_source a = cd_source b" "cd_destination a = cd_destination b"
    using summary_inj [OF s(1)] summary_inj [OF s(2)] assms(2,3) by (simp_all add: capabilities_text_def)
  ultimately show ?thesis by (intro capability_diff.equality) simp_all
qed

definition security_text :: "cap_security \<Rightarrow> bool" where
  "security_text s \<longleftrightarrow> list_all redaction_text (sc_redactions s) \<and> texts [sc_warning s]"

lemma security_inj:
  assumes "json_norm (security_json a) = json_norm (security_json b)" "security_text a" "security_text b"
  shows "a = b"
proof -
  from members_eq [OF assms(1) [unfolded security_json_def]] have
    rd: "map_option json_norm (omit_list redaction_json (sc_redactions a)) = map_option json_norm (omit_list redaction_json (sc_redactions b))"
    and r: "sc_untrusted a = sc_untrusted b" "omit_str (sc_warning a) = omit_str (sc_warning b)" "sc_forced a = sc_forced b"
    by simp_all
  have "sc_redactions a = sc_redactions b" using rd
    by (rule omit_list_inj) (use assms(2,3) in \<open>auto simp: security_text_def list_all_iff intro: redaction_inj\<close>)
  with r assms(2,3) show ?thesis by (intro cap_security.equality) (simp_all add: security_text_def leaf_inj)
qed

definition component_text :: "fid_component \<Rightarrow> bool" where
  "component_text c \<longleftrightarrow> texts [fc_name c, fc_portability c, fc_reason c]"

lemma component_inj: "json_norm (component_json a) = json_norm (component_json b) \<Longrightarrow> component_text a \<Longrightarrow> component_text b \<Longrightarrow> a = b"
  unfolding component_json_def by (drule members_eq) (auto simp: component_text_def leaf_inj intro: fid_component.equality)

definition some_list :: "'a list option \<Rightarrow> 'a list" where
  "some_list xs = (case xs of None \<Rightarrow> [] | Some ys \<Rightarrow> ys)"

definition fidelity_text :: "fidelity \<Rightarrow> bool" where
  "fidelity_text f \<longleftrightarrow> texts [fd_overall f, fd_mode f] \<and> list_all component_text (some_list (fd_components f)) \<and> texts (fd_unsupported f)"

lemma fidelity_inj:
  assumes "json_norm (fidelity_json a) = json_norm (fidelity_json b)" "fidelity_text a" "fidelity_text b"
  shows "a = b"
proof -
  from members_eq [OF assms(1) [unfolded fidelity_json_def]] have
    c: "json_norm (jlist component_json (fd_components a)) = json_norm (jlist component_json (fd_components b))"
    and u: "map_option json_norm (omit_list jstr (fd_unsupported a)) = map_option json_norm (omit_list jstr (fd_unsupported b))"
    and r: "jstr (fd_overall a) = jstr (fd_overall b)" "jstr (fd_mode a) = jstr (fd_mode b)" by simp_all
  have "fd_components a = fd_components b" using c
    by (rule jlist_inj) (use assms(2,3) in \<open>auto simp: fidelity_text_def some_list_def list_all_iff intro: component_inj\<close>)
  moreover have "fd_unsupported a = fd_unsupported b" using omit_strings_inj [OF u] assms(2,3) by (simp add: fidelity_text_def)
  ultimately show ?thesis using r assms(2,3) by (intro fidelity.equality) (simp_all add: fidelity_text_def leaf_inj)
qed

definition projection_text :: "projection \<Rightarrow> bool" where
  "projection_text p \<longleftrightarrow> texts [pj_policy p, pj_sidecar p, pj_bootstrap p, pj_markdown p] \<and> texts (pj_included p)"

lemma projection_inj:
  assumes "json_norm (projection_json a) = json_norm (projection_json b)" "projection_text a" "projection_text b"
  shows "a = b"
proof -
  note m = members_eq [OF assms(1) [unfolded projection_json_def], simplified]
  have "pj_included a = pj_included b" using m assms(2,3) by (auto simp: projection_text_def intro: omit_strings_inj)
  then show ?thesis using m assms(2,3) by (intro projection.equality) (simp_all add: projection_text_def leaf_inj)
qed

definition capsule_text :: "capsule_lib \<Rightarrow> capsule \<Rightarrow> bool" where
  "capsule_text L c \<longleftrightarrow> texts [cp_schema c, cv_history (cp_conversation c)] \<and> identity_text (cp_identity c) \<and> raw_text (cp_raw c)
     \<and> task_text (cp_task c) \<and> workspace_text (cp_workspace c) \<and> list_all event_text (events_of c)
     \<and> capabilities_text (cp_capabilities c) \<and> security_text (cp_security c) \<and> fidelity_text (cp_fidelity c) \<and> projection_text (cp_projection c)"

text \<open>The serialized content: everything but the two private paths, fractions of a second and time zones.\<close>

definition public_capsule :: "capsule \<Rightarrow> capsule" where
  "public_capsule c = c\<lparr>cp_raw := (cp_raw c)\<lparr>rs_path := []\<rparr>, cp_workspace := (cp_workspace c)\<lparr>ws_path := []\<rparr>,
     cp_conversation := (cp_conversation c)\<lparr>cv_events := map_option (map public_event) (cv_events (cp_conversation c))\<rparr>\<rparr>"

lemma conversation_inj:
  assumes "json_norm (conversation_json L a) = json_norm (conversation_json L b)" "clock_ok L"
    and "list_all (\<lambda>e. event_text e \<and> time_known L e) (some_list (cv_events a))" "list_all (\<lambda>e. event_text e \<and> time_known L e) (some_list (cv_events b))"
    and "texts [cv_history a, cv_history b]"
  shows "map_option (map public_event) (cv_events a) = map_option (map public_event) (cv_events b)" "cv_history a = cv_history b"
proof -
  from members_eq [OF assms(1) [unfolded conversation_json_def]] have
    e: "json_norm (jlist (event_json L) (cv_events a)) = json_norm (jlist (event_json L) (cv_events b))"
    and h: "omit_str (cv_history a) = omit_str (cv_history b)" by simp_all
  show "cv_history a = cv_history b" using h assms(5) by (simp add: leaf_inj)
  show "map_option (map public_event) (cv_events a) = map_option (map public_event) (cv_events b)"
  proof (cases "cv_events a")
    case None
    with e show ?thesis by (cases "cv_events b") (simp_all add: jlist_def)
  next
    case (Some es)
    with e obtain fs where f: "cv_events b = Some fs" "map (\<lambda>e. json_norm (event_json L e)) es = map (\<lambda>e. json_norm (event_json L e)) fs"
      by (cases "cv_events b") (simp_all add: jlist_def comp_def)
    have i: "json_norm (event_json L x) = json_norm (event_json L y) \<Longrightarrow> public_event x = public_event y" if "x \<in> set es" "y \<in> set fs" for x y
      using event_inj [of L x y] assms(2-4) Some f(1) that by (simp add: some_list_def list_all_iff)
    have "map public_event es = map public_event fs" by (rule map_transfer [OF f(2) i])
    with Some f(1) show ?thesis by simp
  qed
qed

lemma capsule_inj:
  assumes "json_norm (capsule_json L a) = json_norm (capsule_json L b)" "clock_ok L" "capsule_text L a" "capsule_text L b"
    and "list_all (time_known L) (events_of a)" "list_all (time_known L) (events_of b)"
  shows "public_capsule a = public_capsule b"
proof -
  from members_eq [OF assms(1) [unfolded capsule_json_def]] have
    j: "jstr (cp_schema a) = jstr (cp_schema b)" "json_norm (identity_json (cp_identity a)) = json_norm (identity_json (cp_identity b))"
      "json_norm (raw_json (cp_raw a)) = json_norm (raw_json (cp_raw b))" "json_norm (task_json (cp_task a)) = json_norm (task_json (cp_task b))"
      "json_norm (workspace_json (cp_workspace a)) = json_norm (workspace_json (cp_workspace b))"
      "json_norm (conversation_json L (cp_conversation a)) = json_norm (conversation_json L (cp_conversation b))"
      "json_norm (capabilities_json (cp_capabilities a)) = json_norm (capabilities_json (cp_capabilities b))"
      "json_norm (security_json (cp_security a)) = json_norm (security_json (cp_security b))"
      "json_norm (fidelity_json (cp_fidelity a)) = json_norm (fidelity_json (cp_fidelity b))"
      "json_norm (projection_json (cp_projection a)) = json_norm (projection_json (cp_projection b))"
    by simp_all
  note t = assms(3,4) [unfolded capsule_text_def]
  have ev: "list_all (\<lambda>e. event_text e \<and> time_known L e) (some_list (cv_events (cp_conversation a)))"
    "list_all (\<lambda>e. event_text e \<and> time_known L e) (some_list (cv_events (cp_conversation b)))"
    using t assms(5,6) by (simp_all add: events_of_def some_list_def list_all_iff)
  have h: "texts [cv_history (cp_conversation a), cv_history (cp_conversation b)]" using t by (simp add: texts_def)
  note cv = conversation_inj [OF j(6) assms(2) ev h]
  have 1: "cp_schema a = cp_schema b" using j(1) t by (simp add: leaf_inj)
  have 2: "cp_identity a = cp_identity b" using identity_inj [OF j(2)] t by blast
  have 3: "(cp_raw a)\<lparr>rs_path := []\<rparr> = (cp_raw b)\<lparr>rs_path := []\<rparr>" using raw_inj [OF j(3)] t by blast
  have 4: "cp_task a = cp_task b" using task_inj [OF j(4)] t by blast
  have 5: "(cp_workspace a)\<lparr>ws_path := []\<rparr> = (cp_workspace b)\<lparr>ws_path := []\<rparr>" using workspace_inj [OF j(5)] t by blast
  have 6: "cp_capabilities a = cp_capabilities b" using capabilities_inj [OF j(7)] t by blast
  have 7: "cp_security a = cp_security b" using security_inj [OF j(8)] t by blast
  have 8: "cp_fidelity a = cp_fidelity b" using fidelity_inj [OF j(9)] t by blast
  have 9: "cp_projection a = cp_projection b" using projection_inj [OF j(10)] t by blast
  have 10: "(cp_conversation a)\<lparr>cv_events := map_option (map public_event) (cv_events (cp_conversation a))\<rparr>
      = (cp_conversation b)\<lparr>cv_events := map_option (map public_event) (cv_events (cp_conversation b))\<rparr>"
    using cv by (intro conversation.equality) simp_all
  show ?thesis unfolding public_capsule_def
    by (intro capsule.equality) (simp_all add: 1 2 3 4 5 6 7 8 9 10)
qed

section \<open>The document is well formed\<close>

lemma members_ok: "(\<And>k v. (k, Some v) \<in> set ms \<Longrightarrow> valid_utf8 k \<and> json_ok v) \<Longrightarrow> json_ok (members ms)"
  by (auto simp: members_def list_all_iff)

lemma json_ok_members: "json_ok (members ms) \<longleftrightarrow> list_all (\<lambda>m. case snd m of None \<Rightarrow> True | Some v \<Rightarrow> valid_utf8 (fst m) \<and> json_ok v) ms"
  by (induction ms) (auto simp: members_def split: option.splits)

lemma omit_ok [simp]:
  "(case omit_str s of None \<Rightarrow> True | Some v \<Rightarrow> P \<and> json_ok v) \<longleftrightarrow> (s = [] \<or> P)"
  "(case omit_int i of None \<Rightarrow> True | Some v \<Rightarrow> P \<and> json_ok v) \<longleftrightarrow> (i = 0 \<or> P)"
  "(case omit_bool b of None \<Rightarrow> True | Some v \<Rightarrow> P \<and> json_ok v) \<longleftrightarrow> (\<not> b \<or> P)"
  "(case omit_list f xs of None \<Rightarrow> True | Some v \<Rightarrow> P \<and> json_ok v) \<longleftrightarrow> (xs = [] \<or> P \<and> list_all (\<lambda>x. json_ok (f x)) xs)"
  by (auto simp: omit_str_def omit_int_def omit_bool_def omit_list_def list_all_iff)

text \<open>A name of a member: letters, digits and underscores.\<close>

lemma ascii_valid: "list_all (\<lambda>c. (of_char c :: nat) < 128) s \<Longrightarrow> valid_utf8 s"
proof (induction s)
  case (Cons c s)
  then have "valid_utf8 s" "(of_char c :: nat) < 128" by simp_all
  then show ?case by (simp add: valid_utf8_def utf8_first_ascii utf8_encode_def utf8_encode_rune_def byte_at_def)
qed (simp add: valid_utf8_def utf8_encode_def)

named_theorems doc_ok

lemma pointer_ok [doc_ok]: "json_ok (pointer_json p)"
  by (simp add: pointer_json_def json_ok_members ascii_valid)

lemma valid_key_of [simp]: "valid_utf8 (key_of k)"
  unfolding key_of_def by (rule encode_valid) (blast intro: coerce_runes_ok)

lemma block_ok [doc_ok]: "json_ok (block_json b)"
  by (auto simp: block_json_def json_ok_members ascii_valid list_all_iff split: option.splits)

lemma redaction_ok [doc_ok]: "json_ok (redaction_json r)"
  by (simp add: redaction_json_def json_ok_members ascii_valid)

lemma time_ok: "clock_ok L \<Longrightarrow> (case time_json L t of None \<Rightarrow> True | Some v \<Rightarrow> json_ok v)"
  by (auto simp: time_json_def clock_ok_def split: option.splits)

lemma event_ok [doc_ok]: "clock_ok L \<Longrightarrow> json_ok (event_json L e)"
  using time_ok [of L "ev_time e"]
  by (simp add: event_json_def json_ok_members ascii_valid doc_ok list_all_iff split: option.splits)

lemma identity_ok [doc_ok]: "json_ok (identity_json i)"
  by (simp add: identity_json_def json_ok_members ascii_valid)

lemma raw_ok [doc_ok]: "json_ok (raw_json r)"
  by (simp add: raw_json_def json_ok_members ascii_valid)

lemma text_ok [doc_ok]: "json_ok (text_json f)"
  by (simp add: text_json_def json_ok_members ascii_valid)

lemma list_ok [doc_ok]: "json_ok (list_json f)"
  by (simp add: list_json_def json_ok_members ascii_valid list_all_iff)

lemma task_ok [doc_ok]: "json_ok (task_json t)"
  by (simp add: task_json_def json_ok_members ascii_valid doc_ok)

lemma workspace_ok [doc_ok]: "json_ok (workspace_json w)"
  by (simp add: workspace_json_def json_ok_members ascii_valid list_all_iff)

lemma conversation_ok [doc_ok]: "clock_ok L \<Longrightarrow> json_ok (conversation_json L c)"
  by (cases "cv_events c") (simp_all add: conversation_json_def json_ok_members ascii_valid jlist_def doc_ok list_all_iff)

lemma summary_ok: "summary_text m \<Longrightarrow> json_ok (summary_json m)"
proof (cases m)
  case (Some es)
  assume t: "summary_text m"
  have "json_ok v" if "(k, v) \<in> set (sorted_entries es)" for k v
    using sorted_entries_set [OF that] t Some by (force simp: summary_text_def list_all_iff)
  then show ?thesis using Some by (auto simp: summary_json_def list_all_iff)
qed (simp add: summary_json_def)

lemma missing_ok [doc_ok]: "json_ok (missing_json m)"
  by (simp add: missing_json_def json_ok_members ascii_valid)

lemma capabilities_ok: "capabilities_text d \<Longrightarrow> json_ok (capabilities_json d)"
  by (simp add: capabilities_json_def json_ok_members ascii_valid doc_ok list_all_iff capabilities_text_def summary_ok)

lemma security_ok [doc_ok]: "json_ok (security_json s)"
  by (simp add: security_json_def json_ok_members ascii_valid doc_ok list_all_iff)

lemma component_ok [doc_ok]: "json_ok (component_json c)"
  by (simp add: component_json_def json_ok_members ascii_valid)

lemma fidelity_ok [doc_ok]: "json_ok (fidelity_json f)"
  by (cases "fd_components f") (simp_all add: fidelity_json_def json_ok_members ascii_valid jlist_def doc_ok list_all_iff)

lemma projection_ok [doc_ok]: "json_ok (projection_json p)"
  by (simp add: projection_json_def json_ok_members ascii_valid list_all_iff)

lemma capsule_ok: "clock_ok L \<Longrightarrow> capsule_text L c \<Longrightarrow> json_ok (capsule_json L c)"
  by (simp add: capsule_json_def json_ok_members ascii_valid doc_ok capabilities_ok capsule_text_def)

section \<open>The identity of a capsule\<close>

lemma events_of_normalize: "events_of (normalize_capsule c) = map normalize_event (events_of c)"
  by (cases "cv_events (cp_conversation c)") (simp_all add: events_of_def normalize_capsule_def)

lemma capsule_text_normalize: "capsule_text L (normalize_capsule c) = capsule_text L c"
proof -
  have "event_text (normalize_event e) = event_text e" for e by (simp add: event_text_def normalize_event_def)
  then show ?thesis by (simp add: capsule_text_def events_of_normalize list.pred_map comp_def) (simp add: normalize_capsule_def)
qed

lemma public_event_normalize: "public_event (normalize_event e) = public_event e"
  by (simp add: public_event_def normalize_event_def normalize_time_def time_is_zero_def)

lemma public_capsule_normalize: "public_capsule (normalize_capsule c) = public_capsule c"
  by (simp add: public_capsule_def normalize_capsule_def option.map_comp comp_def public_event_normalize)

lemma canonical_bytes_determine:
  assumes "clock_ok L" "capsule_text L a" "capsule_text L b" "canonical_bytes L a = Inr raw" "canonical_bytes L b = Inr raw"
  shows "public_capsule a = public_capsule b"
proof -
  let ?a = "normalize_capsule a" and ?b = "normalize_capsule b"
  have c: "raw = write_canonical (capsule_json L ?a)" "raw = write_canonical (capsule_json L ?b)" "times_printable L ?a" "times_printable L ?b"
    using assms(4,5) by (simp_all add: canonical_bytes_Inr)
  have t: "capsule_text L ?a" "capsule_text L ?b" using assms(2,3) by (simp_all add: capsule_text_normalize)
  have "json_norm (capsule_json L ?a) = json_norm (capsule_json L ?b)"
    using canonical_identifies_doc [OF capsule_ok [OF assms(1) t(1)] capsule_ok [OF assms(1) t(2)]] c(1,2) by simp
  moreover have "list_all (time_known L) (events_of ?a)" "list_all (time_known L) (events_of ?b)"
    using c(3,4) by (simp_all add: times_printable_def time_known_def list_all_iff)
  ultimately show ?thesis using capsule_inj [OF _ assms(1) t] by (simp add: public_capsule_normalize)
qed

text \<open>
  The canonical bytes of a capsule determine everything it serializes: two capsules whose strings are
  valid UTF-8 have the same canonical bytes only if they agree in every field except the two private
  local paths, fractions of a second and time zones.
\<close>
theorem canonical_bytes_determine_capsule:
  assumes "clock_ok L" "capsule_text L a" "capsule_text L b" "canonical_bytes L a = Inr raw" "canonical_bytes L b = Inr raw"
  shows "public_capsule a = public_capsule b"
  by (rule canonical_bytes_determine [OF assms])

text \<open>
  C24. The identity of a capsule stands for its content: as long as the digest does not collide on the two
  preimages, capsules with the same identity agree in every serialized field, apart from the identity
  itself and the projection sizes and hashes that are derived from it.
\<close>
theorem capsule_id_identifies_content:
  assumes "clock_ok L" "capsule_text L (id_preimage a)" "capsule_text L (id_preimage b)"
    and "canonical_bytes L (id_preimage a) = Inr x" "canonical_bytes L (id_preimage b) = Inr y" "inj_on (digest_id L) {x, y}"
    and "compute_id L a = compute_id L b"
  shows "public_capsule (id_preimage a) = public_capsule (id_preimage b)"
proof -
  have "digest_id L x = digest_id L y" using assms(4,5,7) by (simp add: compute_id_def)
  then have "x = y" using assms(6) unfolding inj_on_def by blast
  then show ?thesis using canonical_bytes_determine [OF assms(1-3)] assms(4,5) by simp
qed

lemma digest_id_nonempty: "digest_id L b \<noteq> []"
proof -
  have "sum_bytes (cl_sha L b) \<noteq> []" by (simp add: sum_bytes_def word_bytes_def)
  then show ?thesis by (cases "sum_bytes (cl_sha L b)") (simp_all add: digest_id_def)
qed

text \<open>Installing the identity, as the handoff pipeline does.\<close>

definition install_id :: "string \<Rightarrow> projection \<Rightarrow> capsule \<Rightarrow> capsule" where
  "install_id i derived c = c\<lparr>cp_identity := (cp_identity c)\<lparr>id_id := i, id_lineage := (if id_lineage (cp_identity c) = [] then i else id_lineage (cp_identity c))\<rparr>,
     cp_projection := (cp_projection c)\<lparr>pj_bytes := pj_bytes derived, pj_tokens := pj_tokens derived, pj_bootstrap := pj_bootstrap derived, pj_markdown := pj_markdown derived\<rparr>\<rparr>"

text \<open>
  An identity survives its own installation: once the computed identity is stored in the capsule, as its
  own lineage root when it has no ancestor, and the projection sizes and hashes are filled in, computing
  it again gives the same value, so a stored capsule can be checked against its name.
\<close>
theorem id_survives_installation:
  assumes "compute_id L c = Inr i" "id_id (cp_identity c) = []" "id_lineage (cp_identity c) \<noteq> i"
  shows "compute_id L (install_id i derived c) = Inr i"
proof -
  have "i \<noteq> []"
    using assms(1) digest_id_nonempty by (auto simp: compute_id_def split: sum.splits)
  then have "id_preimage (install_id i derived c) = id_preimage c"
    using assms(2,3) by (auto simp: id_preimage_def install_id_def Let_def)
  then show ?thesis using assms(1) by (simp add: compute_id_def)
qed

text \<open>
  The identity of an event stands for its place in the source: as long as the digest does not collide,
  two source pointers of valid text with the same event id are the same pointer.
\<close>
theorem event_id_identifies_source:
  assumes "texts [sp_agent p, sp_session p, sp_key p]" "texts [sp_agent q, sp_session q, sp_key q]"
    and "inj_on (digest_id L) {write_canonical (pointer_doc p), write_canonical (pointer_doc q)}"
    and "event_id L p = event_id L q"
  shows "p = q"
proof -
  have "write_canonical (pointer_doc p) = write_canonical (pointer_doc q)"
    using assms(3,4) unfolding event_id_def inj_on_def by blast
  moreover have ok: "json_ok (pointer_doc r)" if "texts [sp_agent r, sp_session r, sp_key r]" for r
    using that by (simp add: pointer_doc_def texts_def ascii_valid)
  ultimately have n: "json_norm (pointer_doc p) = json_norm (pointer_doc q)"
    using canonical_identifies_doc ok assms(1,2) by blast
  have se: "sorted_entries [(''agent'', JStr (sp_agent r)), (''byte_offset'', jint (sp_offset r)), (''index'', jint (sp_index r)),
     (''record_key'', JStr (sp_key r)), (''session_id'', JStr (sp_session r))] = [(''agent'', JStr (sp_agent r)), (''byte_offset'', jint (sp_offset r)), (''index'', jint (sp_index r)),
     (''record_key'', JStr (sp_key r)), (''session_id'', JStr (sp_session r))]" for r
  proof (rule sorted_entries_id)
    have "sorted [''agent'', ''byte_offset'', ''index'', ''record_key'', ''session_id'']" by code_simp
    then show "sorted (map fst [(''agent'', JStr (sp_agent r)), (''byte_offset'', jint (sp_offset r)), (''index'', jint (sp_index r)),
      (''record_key'', JStr (sp_key r)), (''session_id'', JStr (sp_session r))])" unfolding list.map fst_conv .
  qed simp
  have "jint i = json_norm (jint i)" for i by simp
  then have "JStr (sp_agent p) = JStr (sp_agent q) \<and> jint (sp_offset p) = jint (sp_offset q) \<and> jint (sp_index p) = jint (sp_index q)
      \<and> JStr (sp_key p) = JStr (sp_key q) \<and> JStr (sp_session p) = JStr (sp_session q)"
    using n unfolding pointer_doc_def json_norm.simps list.map map_prod_simp jint_norm se by simp
  then show ?thesis by (intro source_pointer.equality) simp_all
qed

section \<open>A concrete capsule\<close>

definition example_lib :: capsule_lib where
  "example_lib = \<lparr>cl_sha = (\<lambda>b. word_of_nat (length b)), cl_time = (\<lambda>i. None), cl_parse = (\<lambda>b. None)\<rparr>"

definition empty_text :: text_field where
  "empty_text = \<lparr>tf_text = [], tf_portability = ''omitted'', tf_reason = [], tf_label = []\<rparr>"

definition empty_list :: list_field where
  "empty_list = \<lparr>lf_items = [], lf_portability = ''omitted'', lf_reason = [], lf_label = []\<rparr>"

definition example_capsule :: "string \<Rightarrow> capsule" where
  "example_capsule local = \<lparr>cp_schema = CapsuleSchema,
     cp_identity = \<lparr>id_id = [], id_lineage = [], id_parent = \<lparr>pr_agent = ''a'', pr_session = ''s'', pr_sha256 = [], pr_version = []\<rparr>, id_schema = 1\<rparr>,
     cp_raw = \<lparr>rs_agent = ''a'', rs_session = ''s'', rs_sha256 = [], rs_version = [], rs_offset = 0, rs_size = 0, rs_partial = False, rs_path = local\<rparr>,
     cp_task = \<lparr>tk_goal = empty_text, tk_intent = empty_text, tk_recent = empty_list, tk_constraints = empty_list, tk_decisions = empty_list,
        tk_rejected = empty_list, tk_completed = empty_list, tk_pending = empty_list, tk_changed = empty_list, tk_touched = empty_list,
        tk_tests = empty_list, tk_next = empty_text, tk_questions = empty_list\<rparr>,
     cp_workspace = \<lparr>ws_project = ''p'', ws_root = ''${REPO:p}'', ws_branch = [], ws_head = [], ws_dirty = False, ws_digest = [], ws_changed = [],
        ws_changed_omitted = 0, ws_tests = [], ws_path = local\<rparr>,
     cp_conversation = \<lparr>cv_events = None, cv_history = []\<rparr>,
     cp_capabilities = \<lparr>cd_source = None, cd_destination = None, cd_missing = []\<rparr>,
     cp_security = \<lparr>sc_redactions = [], sc_untrusted = True, sc_warning = [], sc_forced = False\<rparr>,
     cp_fidelity = \<lparr>fd_overall = ''exact'', fd_mode = FidelityModeStructuredHandoff, fd_components = None, fd_unsupported = []\<rparr>,
     cp_projection = \<lparr>pj_policy = [], pj_bytes = 0, pj_tokens = 0, pj_included = [], pj_sidecar = [], pj_bootstrap = [], pj_markdown = []\<rparr>\<rparr>"

lemma example_clock: "clock_ok example_lib"
  by (simp add: clock_ok_def example_lib_def)

lemma example_preimage [simp]: "id_preimage (example_capsule p) = example_capsule p"
  by (simp add: id_preimage_def example_capsule_def)

lemma example_capsule_text: "capsule_text L (example_capsule p)"
  by (simp add: capsule_text_def example_capsule_def texts_def identity_text_def parent_text_def raw_text_def task_text_def text_text_def
      list_text_def workspace_text_def events_of_def capabilities_text_def summary_text_def security_text_def fidelity_text_def some_list_def
      projection_text_def empty_text_def empty_list_def CapsuleSchema_def FidelityModeStructuredHandoff_def ascii_valid)

definition example_raw :: bytes where
  "example_raw = write_canonical (capsule_json example_lib (normalize_capsule (example_capsule [])))"

lemma example_fields: "\<forall>v \<in> set (checked_fields example_lib (normalize_capsule (example_capsule p))). \<not> path_forbidden (snd v)"
  by (simp add: checked_fields_def normalize_capsule_def example_capsule_def task_fields_def text_meta_def list_meta_def list_items_def field_meta_def
      each_def empty_text_def empty_list_def workspace_fields_def conversation_fields_def events_of_def capability_fields_def summary_fields_def
      sorted_entries_def redaction_fields_def fidelity_fields_def projection_fields_def CapsuleSchema_def FidelityModeStructuredHandoff_def
      path_forbidden_def is_token_def token_defs has_prefix_def is_absolute_platform_def is_abs_def slash_def backslash_def is_letter_def)

lemma example_canonical: "canonical_bytes example_lib (example_capsule p) = Inr example_raw"
proof -
  have "capsule_json example_lib (normalize_capsule (example_capsule p)) = capsule_json example_lib (normalize_capsule (example_capsule []))"
    by (simp add: capsule_json_def normalize_capsule_def example_capsule_def raw_json_def workspace_json_def)
  then show ?thesis unfolding canonical_bytes_Inr
    using example_fields [of p] by (simp add: example_raw_def times_printable_def events_of_def normalize_capsule_def example_capsule_def)
qed

theorem canonical_bytes_determine_capsule_witness:
  "public_capsule (example_capsule ''/home/a'') = public_capsule (example_capsule ''/home/b'')"
  by (rule canonical_bytes_determine_capsule [OF example_clock example_capsule_text example_capsule_text example_canonical example_canonical])

theorem capsule_id_identifies_content_witness:
  "public_capsule (id_preimage (example_capsule ''/home/a'')) = public_capsule (id_preimage (example_capsule ''/home/b''))"
proof (rule capsule_id_identifies_content [OF example_clock])
  show "canonical_bytes example_lib (id_preimage (example_capsule ''/home/a'')) = Inr example_raw" by (simp add: example_canonical)
  show "canonical_bytes example_lib (id_preimage (example_capsule ''/home/b'')) = Inr example_raw" by (simp add: example_canonical)
qed (simp_all add: example_capsule_text compute_id_def example_canonical)

theorem id_survives_installation_witness:
  "compute_id example_lib (install_id (digest_id example_lib example_raw) (cp_projection (example_capsule [])) (example_capsule []))
     = Inr (digest_id example_lib example_raw)"
proof (rule id_survives_installation)
  show "compute_id example_lib (example_capsule []) = Inr (digest_id example_lib example_raw)" by (simp add: compute_id_def example_canonical)
  show "id_lineage (cp_identity (example_capsule [])) \<noteq> digest_id example_lib example_raw"
    using digest_id_nonempty [of example_lib example_raw] by (simp add: example_capsule_def)
qed (simp add: example_capsule_def)

definition example_pointer :: source_pointer where
  "example_pointer = \<lparr>sp_agent = ''a'', sp_session = ''s'', sp_key = ''k'', sp_offset = 0, sp_index = 3\<rparr>"

theorem event_id_identifies_source_witness: "example_pointer = example_pointer\<lparr>sp_offset := 0\<rparr>"
  by (rule event_id_identifies_source [where L = example_lib]) (simp_all add: example_pointer_def texts_def ascii_valid)

end
