(* ===== verification/Recovery_Code.thy ===== *)
theory Recovery_Code
  imports Go_Base
begin

text \<open>
  Typed codes: \<^verbatim>\<open>internal/keyring/recovery.go\<close> (the recovery code) and the code half of
  \<^verbatim>\<open>internal/keyring/pairing.go\<close> (the pairing code). Random bytes and SHA-256 are
  parameters; letters are folded as ASCII.
\<close>

unbundle bit_operations_syntax

section \<open>Crockford base 32\<close>

definition crockford :: string where
  "crockford = ''0123456789ABCDEFGHJKMNPQRSTVWXYZ''"

definition recoveryGroupLen :: nat where "recoveryGroupLen = 4"
definition recoveryDataChars :: nat where "recoveryDataChars = 28"
definition recoveryTotalChars :: nat where "recoveryTotalChars = 32"
definition recoveryDataBytes :: nat where "recoveryDataBytes = 18"
definition pairingDataChars :: nat where "pairingDataChars = 12"
definition pairingTotalChars :: nat where "pairingTotalChars = 16"
definition pairingDataBytes :: nat where "pairingDataBytes = 8"

definition crock_char :: "32 word \<Rightarrow> char" where
  "crock_char acc = crockford ! unat (acc AND 31)"

text \<open>The inner loop: whole groups of five bits leave the accumulator while output is wanted.\<close>

fun emit_groups :: "nat \<Rightarrow> 32 word \<Rightarrow> nat \<Rightarrow> string \<Rightarrow> nat \<times> string" where
  "emit_groups chars acc bits out =
     (if 5 \<le> bits \<and> length out < chars
      then emit_groups chars acc (bits - 5) (out @ [crock_char (drop_bit (bits - 5) acc)])
      else (bits, out))"

declare emit_groups.simps [simp del]

fun crock_bytes :: "nat \<Rightarrow> bytes \<Rightarrow> 32 word \<Rightarrow> nat \<Rightarrow> string \<Rightarrow> 32 word \<times> nat \<times> string" where
  "crock_bytes chars [] acc bits out = (acc, bits, out)"
| "crock_bytes chars (b # bs) acc bits out =
     (let acc' = push_bit 8 acc OR of_nat (of_char b);
          (bits', out') = emit_groups chars acc' (bits + 8) out in
      if length out' = chars then (acc', bits', out') else crock_bytes chars bs acc' bits' out')"

fun crock_pad :: "nat \<Rightarrow> 32 word \<Rightarrow> nat \<Rightarrow> string \<Rightarrow> string" where
  "crock_pad 0 acc bits out = out"
| "crock_pad (Suc n) acc bits out =
     (let acc' = push_bit (5 - bits) acc in crock_pad n acc' 0 (out @ [crock_char acc']))"

definition encode_crockford :: "bytes \<Rightarrow> nat \<Rightarrow> string" where
  "encode_crockford raw chars =
     (let (acc, bits, out) = crock_bytes chars raw 0 0 [] in crock_pad (chars - length out) acc bits out)"

section \<open>Codes\<close>

datatype code_error = InvalidCharacter nat | WrongLength | ChecksumMismatch

definition recovery_checksum :: "sha256 \<Rightarrow> string \<Rightarrow> string" where
  "recovery_checksum sha data = encode_crockford (sum_bytes (sha (''reinstate/recovery-code/v1:'' @ data))) recoveryGroupLen"

definition pairing_checksum :: "sha256 \<Rightarrow> string \<Rightarrow> string" where
  "pairing_checksum sha data = encode_crockford (sum_bytes (sha (''reinstate/pairing-code/v1:'' @ data))) recoveryGroupLen"

fun code_groups :: "string \<Rightarrow> string list" where
  "code_groups [] = []"
| "code_groups (c # cs) = take recoveryGroupLen (c # cs) # code_groups (drop (recoveryGroupLen - 1) cs)"

definition format_recovery_code :: "string \<Rightarrow> string" where
  "format_recovery_code compact = join_with ''-'' (code_groups compact)"

definition code_separators :: "char list" where
  "code_separators = [CHR ''-'', CHR '' '', CHR 0x09, CHR 0x0D, CHR 0x0A]"

text \<open>\<open>i\<close> is the position of the character in the typed text.\<close>

fun compact_from :: "nat \<Rightarrow> string \<Rightarrow> (code_error, string) result" where
  "compact_from i [] = Inr []"
| "compact_from i (r # rs) =
     (if r \<in> set code_separators then compact_from (Suc i) rs
      else if r = CHR ''O'' then map_sum id ((#) CHR ''0'') (compact_from (Suc i) rs)
      else if r = CHR ''I'' \<or> r = CHR ''L'' then map_sum id ((#) CHR ''1'') (compact_from (Suc i) rs)
      else if r \<in> set crockford then map_sum id ((#) r) (compact_from (Suc i) rs)
      else Inl (InvalidCharacter (i + 1)))"

definition compact_crockford :: "string \<Rightarrow> (code_error, string) result" where
  "compact_crockford typed = compact_from 0 (to_upper typed)"

definition normalize_recovery_code :: "sha256 \<Rightarrow> string \<Rightarrow> (code_error, string) result" where
  "normalize_recovery_code sha typed =
     (case compact_crockford typed of Inl e \<Rightarrow> Inl e
      | Inr code \<Rightarrow>
          if length code \<noteq> recoveryTotalChars then Inl WrongLength
          else if drop recoveryDataChars code \<noteq> recovery_checksum sha (take recoveryDataChars code)
          then Inl ChecksumMismatch
          else Inr (format_recovery_code code))"

definition normalize_pairing_code :: "sha256 \<Rightarrow> string \<Rightarrow> (code_error, string) result" where
  "normalize_pairing_code sha typed =
     (case compact_crockford typed of Inl e \<Rightarrow> Inl e
      | Inr code \<Rightarrow>
          if length code \<noteq> pairingTotalChars then Inl WrongLength
          else if drop pairingDataChars code \<noteq> pairing_checksum sha (take pairingDataChars code)
          then Inl ChecksumMismatch
          else Inr (format_recovery_code code))"

text \<open>The generators, on the random bytes they draw.\<close>

definition generate_recovery_code :: "sha256 \<Rightarrow> bytes \<Rightarrow> string" where
  "generate_recovery_code sha raw =
     (let data = encode_crockford raw recoveryDataChars in format_recovery_code (data @ recovery_checksum sha data))"

definition generate_pairing_code :: "sha256 \<Rightarrow> bytes \<Rightarrow> string" where
  "generate_pairing_code sha raw =
     (let data = encode_crockford raw pairingDataChars in format_recovery_code (data @ pairing_checksum sha data))"

section \<open>The encoder against its specification\<close>

text \<open>
  The specification: the bytes are one big-endian number, and the code spells its leading groups of
  five bits. The accumulator is only 32 bits wide; no bit that is still needed is ever shifted out.
\<close>

definition group5 :: "nat \<Rightarrow> nat \<Rightarrow> nat \<Rightarrow> nat" where
  "group5 n bits k = (n div 2 ^ (bits - 5 * Suc k)) mod 32"

definition crockford_spec :: "bytes \<Rightarrow> nat \<Rightarrow> string" where
  "crockford_spec raw chars = map (\<lambda>k. crockford ! group5 (bytes_nat 0 raw) (8 * length raw) k) [0..<chars]"

lemma crock_char_nat:
  assumes "unat acc = n mod 2 ^ 32" "m \<le> 27"
  shows "crock_char (drop_bit m acc) = crockford ! ((n div 2 ^ m) mod 32)"
proof -
  have "unat (drop_bit m acc AND 31) = (unat acc div 2 ^ m) mod 32"
  proof -
    have "unat (drop_bit m acc AND mask 5) = take_bit 5 (drop_bit m (unat acc))"
      by (simp only: take_bit_eq_mask [symmetric] unsigned_take_bit_eq unat_drop_bit_eq)
    then show ?thesis by (simp add: mask_numeral take_bit_eq_mod drop_bit_eq_div)
  qed
  also have "\<dots> = (n div 2 ^ m) mod 32"
  proof -
    have "(n mod 2 ^ 32) div 2 ^ m mod 2 ^ 5 = (n div 2 ^ m) mod 2 ^ 5"
    proof -
      have "take_bit 5 (drop_bit m (take_bit 32 n)) = take_bit 5 (drop_bit m n)"
        using assms(2) by (auto simp: drop_bit_take_bit take_bit_take_bit min_def)
      then show ?thesis by (simp only: take_bit_eq_mod drop_bit_eq_div)
    qed
    then show ?thesis by (simp add: assms(1))
  qed
  finally show ?thesis by (simp add: crock_char_def)
qed

lemma mod_step: "(n mod k * a + c) mod k = (n * a + c) mod (k::nat)"
  by (metis mod_add_left_eq mod_mult_left_eq)

lemma push_byte_nat:
  assumes "unat (acc :: 32 word) = n mod 2 ^ 32"
  shows "unat (push_bit 8 acc OR of_nat (of_char b)) = (n * 256 + of_char b) mod 2 ^ 32"
proof -
  have disj: "push_bit 8 acc AND of_nat (of_char b) = 0"
  proof (rule bit_word_eqI)
    fix k assume "k < LENGTH(32)"
    have "\<not> bit (of_nat (of_char b) :: 32 word) k" if "8 \<le> k"
    proof -
      have "(of_char b :: nat) < 2 ^ k"
        using less_le_trans [OF of_char_less_256 [of b]] that power_increasing [of 8 k "2::nat"] by simp
      then show ?thesis by (simp add: bit_of_nat_iff) (simp add: bit_iff_odd)
    qed
    then show "bit (push_bit 8 acc AND of_nat (of_char b)) k = bit (0 :: 32 word) k"
      by (auto simp: bit_and_iff bit_push_bit_iff not_less)
  qed
  then have "push_bit 8 acc OR of_nat (of_char b) = push_bit 8 acc + of_nat (of_char b)"
    by (rule disjunctive_add_eq_or [symmetric])
  then have "push_bit 8 acc OR of_nat (of_char b) = (of_nat (unat acc * 256 + of_char b) :: 32 word)"
    by (simp add: push_bit_eq_mult)
  then have "unat (push_bit 8 acc OR of_nat (of_char b)) = unat (of_nat (unat acc * 256 + of_char b) :: 32 word)"
    by (rule arg_cong)
  also have "unat (of_nat (unat acc * 256 + of_char b) :: 32 word) = (unat acc * 256 + of_char b) mod 2 ^ 32"
    by (simp only: unat_of_nat) simp
  also have "\<dots> = (n * 256 + of_char b) mod 2 ^ 32"
    unfolding assms by (rule mod_step)
  finally show ?thesis .
qed

text \<open>
  The invariant of the loops: after \<open>p\<close> bytes of \<open>raw\<close> and \<open>j\<close> characters,
  the accumulator is the number read so far modulo \<open>2 ^ 32\<close> and \<open>bits\<close> of it are pending.
\<close>

definition crock_inv :: "nat \<Rightarrow> bytes \<Rightarrow> nat \<Rightarrow> 32 word \<Rightarrow> nat \<Rightarrow> string \<Rightarrow> bool" where
  "crock_inv chars raw p acc bits out \<longleftrightarrow> p \<le> length raw \<and> unat acc = bytes_nat 0 (take p raw) mod 2 ^ 32
     \<and> bits + 5 * length out = 8 * p \<and> bits \<le> 12 \<and> length out \<le> chars
     \<and> out = map (\<lambda>k. crockford ! group5 (bytes_nat 0 raw) (8 * length raw) k) [0..<length out]"

lemma bytes_nat_app: "bytes_nat a (xs @ ys) = bytes_nat a xs * 256 ^ length ys + bytes_nat 0 ys"
proof (induction ys rule: rev_induct)
  case (snoc y ys)
  then show ?case by (simp add: bytes_nat_append algebra_simps flip: append_assoc)
qed simp

lemma bytes_nat_less: "bytes_nat 0 ys < 256 ^ length ys"
proof (induction ys rule: rev_induct)
  case (snoc y ys)
  have "bytes_nat 0 ys * 256 + (of_char y :: nat) < 256 ^ length ys * 256"
    using snoc of_char_less_256 [of y] by linarith
  then show ?case by (simp add: bytes_nat_append mult.commute)
qed simp

lemma bytes_nat_prefix: "p \<le> length raw \<Longrightarrow> bytes_nat 0 raw div 256 ^ (length raw - p) = bytes_nat 0 (take p raw)"
  using bytes_nat_app [of 0 "take p raw" "drop p raw"] bytes_nat_less [of "drop p raw"] by simp

lemma group5_prefix:
  assumes "p \<le> length raw" "5 * Suc k \<le> 8 * p"
  shows "group5 (bytes_nat 0 raw) (8 * length raw) k = (bytes_nat 0 (take p raw) div 2 ^ (8 * p - 5 * Suc k)) mod 32"
proof -
  have "8 * length raw - 5 * Suc k = 8 * (length raw - p) + (8 * p - 5 * Suc k)" using assms by simp
  then have "(2::nat) ^ (8 * length raw - 5 * Suc k) = 256 ^ (length raw - p) * 2 ^ (8 * p - 5 * Suc k)"
    by (simp only: power_add power_mult) simp
  then show ?thesis
    using bytes_nat_prefix [OF assms(1)] by (simp add: group5_def div_mult2_eq)
qed

lemma emit_groups_inv:
  assumes "crock_inv chars raw p acc bits out" "emit_groups chars acc bits out = (bits', out')"
  shows "crock_inv chars raw p acc bits' out' \<and> (bits' < 5 \<or> length out' = chars)"
  using assms
proof (induction chars acc bits out rule: emit_groups.induct)
  case (1 chars acc bits out)
  show ?case
  proof (cases "5 \<le> bits \<and> length out < chars")
    case False
    with 1(2,3) show ?thesis by (auto simp: emit_groups.simps crock_inv_def)
  next
    case True
    let ?c = "crock_char (drop_bit (bits - 5) acc)"
    from 1(2) have inv: "p \<le> length raw" "unat acc = bytes_nat 0 (take p raw) mod 2 ^ 32"
      "bits + 5 * length out = 8 * p" "bits \<le> 12"
      "out = map (\<lambda>k. crockford ! group5 (bytes_nat 0 raw) (8 * length raw) k) [0..<length out]"
      by (auto simp: crock_inv_def)
    have le: "5 * Suc (length out) \<le> 8 * p" and e: "8 * p - 5 * Suc (length out) = bits - 5"
      using inv(3) True by simp_all
    have c: "?c = crockford ! group5 (bytes_nat 0 raw) (8 * length raw) (length out)"
      unfolding group5_prefix [OF inv(1) le] e using inv by (intro crock_char_nat) auto
    have "crock_inv chars raw p acc (bits - 5) (out @ [?c])"
      unfolding crock_inv_def using inv True c by (auto intro!: arg_cong2 [where f = append])
    with 1(1,3) True show ?thesis by (simp add: emit_groups.simps [of chars acc bits])
  qed
qed

lemma crock_bytes_inv:
  assumes "crock_inv chars raw p acc bits out" "bits < 5 \<or> length out = chars" "length out < chars"
    and "crock_bytes chars (drop p raw) acc bits out = (acc', bits', out')"
  shows "\<exists>q. crock_inv chars raw q acc' bits' out' \<and> (length out' = chars \<or> (q = length raw \<and> bits' < 5))"
  using assms
proof (induction "length raw - p" arbitrary: p acc bits out)
  case 0
  then have "drop p raw = []" "p = length raw" by (auto simp: crock_inv_def)
  with 0 show ?case by auto
next
  case (Suc m)
  then have p: "p < length raw" by simp
  then have d: "drop p raw = raw ! p # drop (Suc p) raw" by (simp add: Cons_nth_drop_Suc)
  let ?acc = "push_bit 8 acc OR of_nat (of_char (raw ! p))"
  obtain b2 o2 where e: "emit_groups chars ?acc (bits + 8) out = (b2, o2)" by (cases "emit_groups chars ?acc (bits + 8) out")
  have "crock_inv chars raw (Suc p) ?acc (bits + 8) out"
    using Suc.prems(1-3) p push_byte_nat [of acc "bytes_nat 0 (take p raw)" "raw ! p"]
    by (auto simp: crock_inv_def take_Suc_conv_app_nth bytes_nat_append)
  note inv = emit_groups_inv [OF this e]
  show ?case
  proof (cases "length o2 = chars")
    case True
    with inv Suc.prems(4) d e show ?thesis by (auto simp: Let_def)
  next
    case False
    with inv have "length o2 < chars" by (auto simp: crock_inv_def)
    moreover have "crock_bytes chars (drop (Suc p) raw) ?acc b2 o2 = (acc', bits', out')"
      using Suc.prems(4) d e False by (simp add: Let_def)
    moreover have "m = length raw - Suc p" using Suc(2) by simp
    ultimately show ?thesis using Suc.hyps(1) inv by blast
  qed
qed

lemma crockford_meets_spec:
  assumes "5 * chars \<le> 8 * length raw"
  shows "encode_crockford raw chars = crockford_spec raw chars"
proof (cases "chars = 0")
  case True
  have "length o' = 0" if "crock_bytes 0 raw acc bits [] = (a', b', o')" for acc bits a' b' o'
    using that
  proof (induction raw arbitrary: acc bits)
    case (Cons x xs)
    then show ?case by (auto simp: emit_groups.simps Let_def)
  qed simp
  with True show ?thesis by (simp add: encode_crockford_def crockford_spec_def split: prod.splits)
next
  case False
  obtain acc' bits' out' where r: "crock_bytes chars raw 0 0 [] = (acc', bits', out')"
    by (cases "crock_bytes chars raw 0 0 []")
  have "crock_inv chars raw 0 0 0 []" by (simp add: crock_inv_def)
  from crock_bytes_inv [OF this, of acc' bits' out'] r False obtain q where
    q: "crock_inv chars raw q acc' bits' out'" "length out' = chars \<or> (q = length raw \<and> bits' < 5)" by auto
  have "length out' = chars"
  proof (rule ccontr)
    assume "length out' \<noteq> chars"
    with q have "bits' + 5 * length out' = 8 * length raw" "bits' < 5" "length out' < chars"
      by (auto simp: crock_inv_def)
    with assms show False by linarith
  qed
  with q r show ?thesis by (simp add: encode_crockford_def crockford_spec_def crock_inv_def)
qed

text \<open>
  C39. The Crockford encoder meets its specification: for every byte string long enough for the
  characters asked for, the code is the sequence of the leading five-bit groups of the bytes read as
  one big-endian number; the 32-bit accumulator never loses a bit that is still needed.
\<close>
theorem encode_crockford_correct:
  assumes "5 * chars \<le> 8 * length raw"
  shows "encode_crockford raw chars = crockford_spec raw chars"
  using assms by (rule crockford_meets_spec)

theorem encode_crockford_correct_witness:
  "encode_crockford [CHR 0xFF, CHR 0x00, CHR 0x80] 4 = ''ZW08''"
proof -
  have "[0..<4] = [0, 1, 2, 3::nat]" by (simp add: upt_rec)
  then have "crockford_spec [CHR 0xFF, CHR 0x00, CHR 0x80] 4 = ''ZW08''"
    by (simp add: crockford_spec_def group5_def crockford_def)
  then show ?thesis using encode_crockford_correct [of 4 "[CHR 0xFF, CHR 0x00, CHR 0x80]"] by simp
qed

section \<open>Typed codes and their canonical form\<close>

text \<open>What a typed code says, whatever its case, separators and confusable letters.\<close>

definition fold_char :: "char \<Rightarrow> char" where
  "fold_char r = (if r = CHR ''O'' then CHR ''0'' else if r = CHR ''I'' \<or> r = CHR ''L'' then CHR ''1'' else r)"

definition code_fold :: "string \<Rightarrow> string" where
  "code_fold typed = map fold_char (filter (\<lambda>r. r \<notin> set code_separators) (to_upper typed))"

lemma compact_from_iff:
  "compact_from i s = Inr c \<longleftrightarrow> c = map fold_char (filter (\<lambda>r. r \<notin> set code_separators) s) \<and> set c \<subseteq> set crockford"
proof (induction s arbitrary: i c)
  case (Cons r rs)
  have "CHR ''0'' \<in> set crockford" "CHR ''1'' \<in> set crockford" "CHR ''O'' \<notin> set code_separators"
    "CHR ''I'' \<notin> set code_separators" "CHR ''L'' \<notin> set code_separators" "CHR ''O'' \<notin> set crockford"
    "CHR ''I'' \<notin> set crockford" "CHR ''L'' \<notin> set crockford"
    by (simp_all add: crockford_def code_separators_def)
  moreover have "map_sum id f q = Inr c \<longleftrightarrow> (\<exists>d. q = Inr d \<and> c = f d)" for f and q :: "(code_error, string) result"
    by (cases q) auto
  ultimately show ?case using Cons.IH [of "Suc i"] by (auto simp: fold_char_def)
qed auto

lemma compact_crockford_iff: "compact_crockford typed = Inr c \<longleftrightarrow> c = code_fold typed \<and> set c \<subseteq> set crockford"
  by (simp add: compact_crockford_def compact_from_iff code_fold_def)

lemma crockford_upper: "c \<in> set crockford \<Longrightarrow> upper_char c = c \<and> c \<notin> set code_separators \<and> fold_char c = c \<and> c \<noteq> CHR ''-''"
proof -
  have "\<forall>c \<in> set crockford. upper_char c = c \<and> c \<notin> set code_separators \<and> fold_char c = c \<and> c \<noteq> CHR ''-''" by code_simp
  then show "c \<in> set crockford \<Longrightarrow> upper_char c = c \<and> c \<notin> set code_separators \<and> fold_char c = c \<and> c \<noteq> CHR ''-''" by blast
qed

lemma code_fold_append: "code_fold (a @ b) = code_fold a @ code_fold b"
  by (simp add: code_fold_def to_upper_def)

lemma code_fold_plain: "set c \<subseteq> set crockford \<Longrightarrow> code_fold c = c"
  by (induction c) (auto simp: code_fold_def to_upper_def crockford_upper)

lemma code_fold_dash [simp]: "code_fold ''-'' = []"
  by (simp add: code_fold_def to_upper_def upper_char_def code_separators_def)

lemma code_fold_Nil [simp]: "code_fold [] = []"
  by (simp add: code_fold_def to_upper_def)

lemma code_fold_join: "(\<And>g. g \<in> set gs \<Longrightarrow> set g \<subseteq> set crockford) \<Longrightarrow> code_fold (join_with ''-'' gs) = concat gs"
proof (induction "''-''" gs rule: join_with.induct)
  case (3 x y ys)
  then have "code_fold (join_with ''-'' (y # ys)) = concat (y # ys)" by simp
  moreover have "code_fold x = x" using 3(2) by (intro code_fold_plain) simp
  ultimately show ?case using code_fold_append [of "''-''"] by (simp add: code_fold_append)
qed (auto simp: code_fold_plain)

lemma code_groups_concat: "concat (code_groups c) = c"
  by (induction c rule: code_groups.induct) (simp_all add: recoveryGroupLen_def)

lemma code_groups_set: "g \<in> set (code_groups c) \<Longrightarrow> set g \<subseteq> set c \<and> g \<noteq> []"
proof (induction c rule: code_groups.induct)
  case (2 x xs)
  show ?case
  proof (cases "g = take recoveryGroupLen (x # xs)")
    case True
    then show ?thesis using set_take_subset [of recoveryGroupLen "x # xs"] by (simp add: recoveryGroupLen_def)
  next
    case False
    with 2 have "set g \<subseteq> set (drop (recoveryGroupLen - 1) xs)" "g \<noteq> []" by simp_all
    then show ?thesis using set_drop_subset [of "recoveryGroupLen - 1" xs] by auto
  qed
qed simp

lemma code_groups_length: "4 dvd length c \<Longrightarrow> length (code_groups c) = length c div 4 \<and> (\<forall>g \<in> set (code_groups c). length g = 4)"
proof (induction c rule: code_groups.induct)
  case (2 x xs)
  from 2(2) obtain k where "length (x # xs) = 4 * k" by (rule dvdE)
  then have k: "Suc (length xs) = 4 * k" by simp
  then obtain j where "k = Suc j" by (cases k) auto
  with k have j: "length xs = 4 * j + 3" by simp
  then have "4 dvd length (drop 3 xs)" by simp
  with 2(1) have IH: "length (code_groups (drop 3 xs)) = j" "\<forall>g \<in> set (code_groups (drop 3 xs)). length g = 4"
    by (simp_all add: recoveryGroupLen_def j)
  have "code_groups (x # xs) = take 4 (x # xs) # code_groups (drop 3 xs)" by (simp add: recoveryGroupLen_def)
  moreover have "length (take 4 (x # xs)) = 4" using j by simp
  ultimately show ?case using IH j by simp
qed simp

lemma format_fold: "set c \<subseteq> set crockford \<Longrightarrow> code_fold (format_recovery_code c) = c"
  using code_groups_set [of _ c] by (subst format_recovery_code_def, subst code_fold_join) (auto simp: code_groups_concat)

text \<open>
  The contract both kinds of code share: so many characters, of which the last four are a checksum
  of the others.
\<close>

locale typed_code =
  fixes total data :: nat and checksum :: "string \<Rightarrow> string" and norm :: "string \<Rightarrow> (code_error, string) result"
  assumes norm: "norm typed = (case compact_crockford typed of Inl e \<Rightarrow> Inl e
      | Inr code \<Rightarrow> if length code \<noteq> total then Inl WrongLength
          else if drop data code \<noteq> checksum (take data code) then Inl ChecksumMismatch
          else Inr (format_recovery_code code))"
    and sizes: "total = data + 4" "4 dvd total"
    and checksum: "length (checksum d) = 4" "set (checksum d) \<subseteq> set crockford"
begin

lemma norm_iff:
  "norm typed = Inr c \<longleftrightarrow> set (code_fold typed) \<subseteq> set crockford \<and> length (code_fold typed) = total
     \<and> drop data (code_fold typed) = checksum (take data (code_fold typed)) \<and> c = format_recovery_code (code_fold typed)"
proof (cases "compact_crockford typed")
  case (Inl e)
  then show ?thesis using compact_crockford_iff [of typed "code_fold typed"] by (auto simp: norm)
next
  case (Inr code)
  then have "code = code_fold typed" "set code \<subseteq> set crockford" using compact_crockford_iff by auto
  with Inr show ?thesis by (auto simp: norm)
qed

lemma norm_canonical:
  assumes "norm typed = Inr c"
  shows "norm c = Inr c" and "code_fold c = code_fold typed"
proof -
  have "code_fold c = code_fold typed" using assms format_fold by (auto simp: norm_iff)
  then show "norm c = Inr c" "code_fold c = code_fold typed" using assms by (simp_all add: norm_iff)
qed

lemma norm_shape:
  assumes "norm typed = Inr c"
  shows "\<exists>gs. c = join_with ''-'' gs \<and> length gs = total div 4 \<and> (\<forall>g \<in> set gs. length g = 4 \<and> set g \<subseteq> set crockford)"
  using assms sizes code_groups_length [of "code_fold typed"] code_groups_set
  by (intro exI [of _ "code_groups (code_fold typed)"]) (auto simp: norm_iff format_recovery_code_def)

lemma norm_generated:
  assumes "length d = data" "set d \<subseteq> set crockford"
  shows "norm (format_recovery_code (d @ checksum d)) = Inr (format_recovery_code (d @ checksum d))"
proof -
  have "code_fold (format_recovery_code (d @ checksum d)) = d @ checksum d"
    using assms checksum by (intro format_fold) auto
  with assms checksum sizes show ?thesis by (simp add: norm_iff)
qed

end

lemma encode_crockford_shape:
  assumes "5 * chars \<le> 8 * length raw"
  shows "length (encode_crockford raw chars) = chars" "set (encode_crockford raw chars) \<subseteq> set crockford"
proof -
  have "crockford ! group5 n b k \<in> set crockford" for n b k
    by (intro nth_mem) (simp add: group5_def crockford_def)
  then show "length (encode_crockford raw chars) = chars" "set (encode_crockford raw chars) \<subseteq> set crockford"
    by (auto simp: crockford_meets_spec [OF assms] crockford_spec_def)
qed

interpretation recovery: typed_code recoveryTotalChars recoveryDataChars "recovery_checksum sha" "normalize_recovery_code sha"
  by unfold_locales
    (simp_all add: normalize_recovery_code_def recoveryTotalChars_def recoveryDataChars_def recovery_checksum_def
      recoveryGroupLen_def encode_crockford_shape)

interpretation pairing: typed_code pairingTotalChars pairingDataChars "pairing_checksum sha" "normalize_pairing_code sha"
  by unfold_locales
    (simp_all add: normalize_pairing_code_def pairingTotalChars_def pairingDataChars_def pairing_checksum_def
      recoveryGroupLen_def encode_crockford_shape)

section \<open>No entropy is lost\<close>

lemma base32_digits: "(\<And>k. k < n \<Longrightarrow> (a div 32 ^ k) mod 32 = (b div 32 ^ k) mod 32) \<Longrightarrow> a mod 32 ^ n = (b::nat) mod 32 ^ n"
proof (induction n arbitrary: a b)
  case (Suc n)
  have "(a div 32) mod 32 ^ n = (b div 32) mod 32 ^ n"
  proof (rule Suc.IH)
    fix k assume "k < n"
    with Suc.prems [of "Suc k"] show "(a div 32) div 32 ^ k mod 32 = (b div 32) div 32 ^ k mod 32"
      by (simp add: div_mult2_eq)
  qed
  moreover have "a mod 32 = b mod 32" using Suc.prems [of 0] by simp
  ultimately show ?case by (simp add: mod_mult2_eq)
qed simp

lemma group5_eq:
  assumes "4 + 5 * n = bits" "j < n"
  shows "group5 m bits (n - Suc j) = (m div 16) div 32 ^ j mod 32"
proof -
  have "bits - 5 * Suc (n - Suc j) = 4 + 5 * j" using assms by simp
  then have "(2::nat) ^ (bits - 5 * Suc (n - Suc j)) = 16 * 32 ^ j" by (simp add: power_add power_mult)
  then show ?thesis by (simp add: group5_def div_mult2_eq)
qed

lemma crockford_distinct: "distinct crockford" "length crockford = 32"
  by (simp_all add: crockford_def)

lemma encode_crockford_inj:
  assumes "4 + 5 * n = 8 * length r" "length r' = length r"
  shows "encode_crockford r n = encode_crockford r' n \<longleftrightarrow> bytes_nat 0 r div 16 = bytes_nat 0 r' div 16"
proof
  assume eq: "encode_crockford r n = encode_crockford r' n"
  have le: "5 * n \<le> 8 * length r" using assms(1) by simp
  have dig: "(bytes_nat 0 r div 16) div 32 ^ j mod 32 = (bytes_nat 0 r' div 16) div 32 ^ j mod 32" if "j < n" for j
  proof -
    have "crockford ! group5 (bytes_nat 0 r) (8 * length r) (n - Suc j) = crockford ! group5 (bytes_nat 0 r') (8 * length r) (n - Suc j)"
      using eq crockford_meets_spec [OF le] crockford_meets_spec [of n r'] le assms(2) that
      by (simp add: crockford_spec_def map_eq_conv)
    then have "group5 (bytes_nat 0 r) (8 * length r) (n - Suc j) = group5 (bytes_nat 0 r') (8 * length r) (n - Suc j)"
      using crockford_distinct by (subst (asm) nth_eq_iff_index_eq) (simp_all add: group5_def)
    then show ?thesis using group5_eq [OF assms(1) that] by simp
  qed
  have small: "bytes_nat 0 x div 16 < 32 ^ n" if "length x = length r" for x
  proof -
    have "(256::nat) ^ length r = 2 ^ (8 * length r)" by (simp add: power_mult)
    also have "\<dots> = 16 * 32 ^ n" unfolding assms(1) [symmetric] by (simp add: power_add power_mult)
    finally show ?thesis using bytes_nat_less [of x] that by (simp add: less_mult_imp_div_less mult.commute)
  qed
  from base32_digits [of n, OF dig] small [of r] small [OF assms(2)]
  show "bytes_nat 0 r div 16 = bytes_nat 0 r' div 16" by simp
next
  assume eq: "bytes_nat 0 r div 16 = bytes_nat 0 r' div 16"
  have le: "5 * n \<le> 8 * length r" using assms(1) by simp
  have "group5 (bytes_nat 0 r) (8 * length r) k = group5 (bytes_nat 0 r') (8 * length r) k" if "k < n" for k
    using group5_eq [OF assms(1), of "n - Suc k"] that eq by simp
  then show "encode_crockford r n = encode_crockford r' n"
    using le assms(2) by (simp add: crockford_meets_spec crockford_spec_def)
qed

lemma generated_data:
  assumes "length raw = recoveryDataBytes"
  shows "length (encode_crockford raw recoveryDataChars) = recoveryDataChars"
    "set (encode_crockford raw recoveryDataChars) \<subseteq> set crockford"
  using assms encode_crockford_shape [of recoveryDataChars raw] by (simp_all add: recoveryDataBytes_def recoveryDataChars_def)

text \<open>
  A generated recovery code is accepted as it is printed, and carries its 140 random bits
  unchanged: two codes are equal exactly when the leading 140 of the 144 random bits are.
\<close>
theorem generated_code_accepted:
  assumes "length raw = recoveryDataBytes" "length raw' = recoveryDataBytes"
  shows "normalize_recovery_code sha (generate_recovery_code sha raw) = Inr (generate_recovery_code sha raw)
    \<and> (generate_recovery_code sha raw = generate_recovery_code sha raw' \<longleftrightarrow> bytes_nat 0 raw div 16 = bytes_nat 0 raw' div 16)"
proof
  show "normalize_recovery_code sha (generate_recovery_code sha raw) = Inr (generate_recovery_code sha raw)"
    using recovery.norm_generated [OF generated_data [OF assms(1)]] by (simp add: generate_recovery_code_def Let_def)
  have fold: "code_fold (generate_recovery_code sha r) = encode_crockford r recoveryDataChars
      @ recovery_checksum sha (encode_crockford r recoveryDataChars)" if "length r = recoveryDataBytes" for r
    using generated_data [OF that] recovery.checksum(2) by (simp add: generate_recovery_code_def Let_def format_fold)
  have "generate_recovery_code sha raw = generate_recovery_code sha raw' \<longleftrightarrow>
      encode_crockford raw recoveryDataChars = encode_crockford raw' recoveryDataChars"
    using fold [OF assms(1)] fold [OF assms(2)] generated_data(1) [OF assms(1)] generated_data(1) [OF assms(2)]
    by (metis append_eq_append_conv generate_recovery_code_def)
  also have "\<dots> \<longleftrightarrow> bytes_nat 0 raw div 16 = bytes_nat 0 raw' div 16"
    using assms by (intro encode_crockford_inj) (simp_all add: recoveryDataBytes_def recoveryDataChars_def)
  finally show "generate_recovery_code sha raw = generate_recovery_code sha raw' \<longleftrightarrow> bytes_nat 0 raw div 16 = bytes_nat 0 raw' div 16" .
qed

theorem generated_code_accepted_witness:
  "normalize_recovery_code (\<lambda>_. 0) (generate_recovery_code (\<lambda>_. 0) (replicate 18 CHR 0x00))
     = Inr (generate_recovery_code (\<lambda>_. 0) (replicate 18 CHR 0x00))"
  using generated_code_accepted [of "replicate 18 CHR 0x00" "replicate 18 CHR 0x00"] by (simp add: recoveryDataBytes_def)

text \<open>
  C40. Normalization has one canonical form: an accepted recovery code says the same characters as
  what was typed (up to case, separators and the confusable letters), is eight dash-separated
  groups of four Crockford characters, and is accepted again unchanged; so the derivation only
  ever sees one spelling of a code.
\<close>
theorem recovery_code_canonical:
  assumes "normalize_recovery_code sha typed = Inr c"
  shows "normalize_recovery_code sha c = Inr c \<and> code_fold c = code_fold typed
    \<and> (\<forall>t. code_fold t = code_fold typed \<longrightarrow> normalize_recovery_code sha t = Inr c)
    \<and> (\<exists>gs. c = join_with ''-'' gs \<and> length gs = 8 \<and> (\<forall>g \<in> set gs. length g = 4 \<and> set g \<subseteq> set crockford))"
  using recovery.norm_canonical [OF assms] recovery.norm_shape [OF assms] assms recovery.norm_iff [of sha]
  by (simp add: recoveryTotalChars_def)

text \<open>
  The pairing code has the same contract: what is accepted is canonical, the same whatever the
  spelling, and four groups of four characters.
\<close>
theorem pairing_code_canonical:
  assumes "normalize_pairing_code sha typed = Inr c"
  shows "normalize_pairing_code sha c = Inr c \<and> code_fold c = code_fold typed
    \<and> (\<forall>t. code_fold t = code_fold typed \<longrightarrow> normalize_pairing_code sha t = Inr c)
    \<and> (\<exists>gs. c = join_with ''-'' gs \<and> length gs = 4 \<and> (\<forall>g \<in> set gs. length g = 4 \<and> set g \<subseteq> set crockford))"
  using pairing.norm_canonical [OF assms] pairing.norm_shape [OF assms] assms pairing.norm_iff [of sha]
  by (simp add: pairingTotalChars_def)

lemma zero_checksum: "recovery_checksum (\<lambda>_. 0) d = ''0000''" "pairing_checksum (\<lambda>_. 0) d = ''0000''"
proof -
  have "bytes_nat 0 (sum_bytes 0) = 0"
    by (simp add: sum_bytes_def word_bytes_def bytes_nat_app) (simp add: upt_rec)
  then have "crockford_spec (sum_bytes 0) 4 = ''0000''"
    by (simp add: crockford_spec_def group5_def crockford_def upt_rec)
  then show "recovery_checksum (\<lambda>_. 0) d = ''0000''" "pairing_checksum (\<lambda>_. 0) d = ''0000''"
    by (simp_all add: recovery_checksum_def pairing_checksum_def recoveryGroupLen_def crockford_meets_spec)
qed

theorem recovery_code_canonical_witness:
  "normalize_recovery_code (\<lambda>_. 0) ''0123-4567-89AB-CDEF-GHJK-MNPQ-RSTV-0000'' = Inr ''0123-4567-89AB-CDEF-GHJK-MNPQ-RSTV-0000''"
proof -
  have f: "code_fold ''o123 4567 89ab cdef ghjk mnpq rstv 0000'' = ''0123456789ABCDEFGHJKMNPQRSTV0000''" by code_simp
  have s: "set ''0123456789ABCDEFGHJKMNPQRSTV0000'' \<subseteq> set crockford" by code_simp
  have g: "format_recovery_code ''0123456789ABCDEFGHJKMNPQRSTV0000'' = ''0123-4567-89AB-CDEF-GHJK-MNPQ-RSTV-0000''" by code_simp
  have "normalize_recovery_code (\<lambda>_. 0) ''o123 4567 89ab cdef ghjk mnpq rstv 0000'' = Inr ''0123-4567-89AB-CDEF-GHJK-MNPQ-RSTV-0000''"
    unfolding recovery.norm_iff f g zero_checksum using s by (simp add: recoveryTotalChars_def recoveryDataChars_def)
  from recovery_code_canonical [OF this] show ?thesis by simp
qed

theorem pairing_code_canonical_witness:
  "normalize_pairing_code (\<lambda>_. 0) ''0123-4567-89AB-0000'' = Inr ''0123-4567-89AB-0000''"
proof -
  have f: "code_fold ''o123 4567 89ab 0000'' = ''0123456789AB0000''" by code_simp
  have s: "set ''0123456789AB0000'' \<subseteq> set crockford" by code_simp
  have g: "format_recovery_code ''0123456789AB0000'' = ''0123-4567-89AB-0000''" by code_simp
  have "normalize_pairing_code (\<lambda>_. 0) ''o123 4567 89ab 0000'' = Inr ''0123-4567-89AB-0000''"
    unfolding pairing.norm_iff f g zero_checksum using s by (simp add: pairingTotalChars_def pairingDataChars_def)
  from pairing_code_canonical [OF this] show ?thesis by simp
qed

end
