(* ===== verification/Root_Key.thy ===== *)
theory Root_Key
  imports Go_Base
begin

text \<open>
  \<^verbatim>\<open>internal/crypto/rootkey.go\<close>: the age identity derived from a root key, with the
  Bech32 encoding the program writes itself, and the key provider over the generations a device
  can read. HKDF and age are parameters. Go's \<^verbatim>\<open>uint32\<close> and \<^verbatim>\<open>byte\<close> are
  words of 32 and 8 bits.
\<close>

unbundle bit_operations_syntax

section \<open>Bech32\<close>

definition bech32_charset :: string where
  "bech32_charset = ''qpzry9x8gf2tvdw0s3jn54khce6mua7l''"

definition bech32_generator :: "32 word list" where
  "bech32_generator = [0x3b6a57b2, 0x26508e6d, 0x1ea119fa, 0x3d4233dd, 0x2a1462b3]"

definition polymod_step :: "32 word \<Rightarrow> 8 word \<Rightarrow> 32 word" where
  "polymod_step chk v =
     (let top = drop_bit 25 chk;
          start = push_bit 5 (chk AND 0x1ffffff) XOR ucast v in
      foldl (\<lambda>c i. if drop_bit i top AND 1 = 1 then c XOR bech32_generator ! i else c) start [0..<5])"

definition bech32_polymod :: "8 word list \<Rightarrow> 32 word" where
  "bech32_polymod values = foldl polymod_step 1 values"

definition bech32_hrp_expand :: "string \<Rightarrow> 8 word list" where
  "bech32_hrp_expand hrp = map (\<lambda>c. drop_bit 5 (of_char c)) hrp @ [0] @ map (\<lambda>c. of_char c AND 31) hrp"

definition bech32_checksum :: "string \<Rightarrow> 8 word list \<Rightarrow> 8 word list" where
  "bech32_checksum hrp data =
     (let md = bech32_polymod (bech32_hrp_expand hrp @ data @ replicate 6 0) XOR 1 in
      map (\<lambda>i. ucast (drop_bit (5 * (5 - i)) md) AND 31) [0..<6])"

fun convert_emit :: "nat \<Rightarrow> 32 word \<Rightarrow> nat \<Rightarrow> 8 word list \<Rightarrow> nat \<times> 8 word list" where
  "convert_emit to acc bits out =
     (if 0 < to \<and> to \<le> bits
      then convert_emit to acc (bits - to) (out @ [ucast (drop_bit (bits - to) acc) AND mask to])
      else (bits, out))"

declare convert_emit.simps [simp del]

fun convert_loop :: "nat \<Rightarrow> nat \<Rightarrow> 8 word list \<Rightarrow> 32 word \<Rightarrow> nat \<Rightarrow> 8 word list \<Rightarrow> (32 word \<times> nat \<times> 8 word list) option" where
  "convert_loop from_bits to [] acc bits out = Some (acc, bits, out)"
| "convert_loop from_bits to (v # vs) acc bits out =
     (if drop_bit from_bits v \<noteq> 0 then None
      else let acc' = push_bit from_bits acc OR ucast v; (bits', out') = convert_emit to acc' (bits + from_bits) out in
        convert_loop from_bits to vs acc' bits' out')"

definition bech32_convert_bits :: "8 word list \<Rightarrow> nat \<Rightarrow> nat \<Rightarrow> bool \<Rightarrow> 8 word list option" where
  "bech32_convert_bits data from_bits to pad =
     (case convert_loop from_bits to data 0 0 [] of None \<Rightarrow> None
      | Some (acc, bits, out) \<Rightarrow>
          Some (if pad \<and> 0 < bits then out @ [ucast (push_bit (to - bits) acc) AND mask to] else out))"

definition bech32_encode :: "string \<Rightarrow> bytes \<Rightarrow> string option" where
  "bech32_encode hrp data =
     (case bech32_convert_bits (map of_char data) 8 5 True of None \<Rightarrow> None
      | Some values \<Rightarrow> let hrp' = to_lower hrp in
          Some (hrp' @ ''1'' @ map (\<lambda>v. bech32_charset ! unat v) (values @ bech32_checksum hrp' values)))"

section \<open>The checksum is valid\<close>

text \<open>
  One step is a linear map of the state, followed by adding the value. A state below \<open>2 ^ 25\<close> is
  just shifted.
\<close>

definition pick :: "32 word \<Rightarrow> nat \<Rightarrow> 32 word \<Rightarrow> 32 word" where
  "pick c i g = (if bit c (25 + i) then g else 0)"

definition poly_lin :: "32 word \<Rightarrow> 32 word" where
  "poly_lin c = push_bit 5 (c AND 0x1ffffff) XOR pick c 0 0x3b6a57b2 XOR pick c 1 0x26508e6d
     XOR pick c 2 0x1ea119fa XOR pick c 3 0x3d4233dd XOR pick c 4 0x2a1462b3"

lemma low_bit: "drop_bit i (drop_bit 25 (c::32 word)) AND 1 = 1 \<longleftrightarrow> bit c (25 + i)"
  by (simp add: and_one_eq drop_bit_drop_bit bit_iff_odd_drop_bit odd_iff_mod_2_eq_one add.commute)

lemma polymod_step_lin: "polymod_step c v = poly_lin c XOR ucast v"
proof -
  have u: "[0..<5] = [0, 1, 2, 3, 4::nat]" by (simp add: upt_rec)
  have s: "(if bit c (25 + i) then x XOR g else x) = x XOR pick c i g" for x g i
    by (simp add: pick_def)
  have g: "bech32_generator ! 0 = 0x3b6a57b2" "bech32_generator ! 1 = 0x26508e6d" "bech32_generator ! 2 = 0x1ea119fa"
    "bech32_generator ! 3 = 0x3d4233dd" "bech32_generator ! 4 = 0x2a1462b3"
    by (simp_all add: bech32_generator_def)
  show ?thesis
    by (simp only: polymod_step_def Let_def u foldl_Cons foldl_Nil low_bit g s poly_lin_def)
      (simp only: ac_simps)
qed

lemma pick_xor: "pick (a XOR b) i g = pick a i g XOR pick b i g"
  by (simp add: pick_def bit_xor_iff)

lemma poly_lin_xor: "poly_lin (a XOR b) = poly_lin a XOR poly_lin b"
proof -
  have "push_bit 5 ((a XOR b) AND 0x1ffffff) = push_bit 5 (a AND 0x1ffffff) XOR push_bit 5 (b AND (0x1ffffff::32 word))"
    by (rule bit_word_eqI) (auto simp: bit_simps)
  then show ?thesis by (simp add: poly_lin_def pick_xor ac_simps)
qed

lemma poly_lin_0 [simp]: "poly_lin 0 = 0"
  by (simp add: poly_lin_def pick_def)

lemma and_mask_25: "c AND 0x1ffffff = take_bit 25 (c :: 32 word)"
  by (simp add: take_bit_eq_mask mask_numeral)

lemma poly_lin_small:
  assumes "take_bit 25 c = c"
  shows "poly_lin c = push_bit 5 c"
proof -
  have "\<not> bit c (25 + i)" for i
    using assms bit_take_bit_iff [of 25 c "25 + i"] by auto
  then have "pick c i g = 0" for i g by (simp add: pick_def)
  then show ?thesis by (simp only: poly_lin_def and_mask_25 assms xor.right_neutral)
qed

lemma poly_lin_range: "take_bit 30 (poly_lin c) = poly_lin c"
proof -
  have p: "take_bit 30 g = g \<Longrightarrow> take_bit 30 (pick c i g) = pick c i g" for i g by (simp add: pick_def)
  have "take_bit 30 (push_bit 5 (take_bit 25 c)) = push_bit 5 (take_bit 25 c)"
    by (rule bit_word_eqI) (auto simp: bit_simps)
  then show ?thesis by (simp add: poly_lin_def take_bit_xor p and_mask_25)
qed

lemma foldl_step_xor: "foldl polymod_step (a XOR b) (replicate n 0) = (poly_lin ^^ n) a XOR (poly_lin ^^ n) b"
  by (induction n arbitrary: a b) (simp_all add: polymod_step_lin poly_lin_xor funpow_swap1)

lemma poly_lin_digit: "k \<le> 5 \<Longrightarrow> (poly_lin ^^ k) (take_bit 5 y) = push_bit (5 * k) (take_bit 5 y)"
proof (induction k)
  case (Suc k)
  have "take_bit 25 (push_bit (5 * k) (take_bit 5 y)) = push_bit (5 * k) (take_bit 5 y)"
    by (rule bit_word_eqI) (use Suc.prems in \<open>auto simp: bit_simps\<close>)
  with Suc show ?case by (simp add: poly_lin_small push_bit_push_bit)
qed simp

lemma digit_bit:
  "k < 32 \<Longrightarrow> bit (push_bit n (take_bit 5 (drop_bit n (m :: 32 word)))) k \<longleftrightarrow> n \<le> k \<and> k < n + 5 \<and> bit m k"
  by (auto simp: bit_simps)

lemma digits_30:
  assumes "take_bit 30 (m :: 32 word) = m"
  shows "push_bit 25 (take_bit 5 (drop_bit 25 m)) XOR push_bit 20 (take_bit 5 (drop_bit 20 m))
     XOR push_bit 15 (take_bit 5 (drop_bit 15 m)) XOR push_bit 10 (take_bit 5 (drop_bit 10 m))
     XOR push_bit 5 (take_bit 5 (drop_bit 5 m)) XOR push_bit 0 (take_bit 5 (drop_bit 0 m)) = m"
proof (rule bit_word_eqI)
  fix k assume "k < LENGTH(32)"
  then have k: "k < 32" by simp
  have hi: "bit m k \<Longrightarrow> k < 30" using assms bit_take_bit_iff [of 30 m k] by auto
  show "bit (push_bit 25 (take_bit 5 (drop_bit 25 m)) XOR push_bit 20 (take_bit 5 (drop_bit 20 m))
     XOR push_bit 15 (take_bit 5 (drop_bit 15 m)) XOR push_bit 10 (take_bit 5 (drop_bit 10 m))
     XOR push_bit 5 (take_bit 5 (drop_bit 5 m)) XOR push_bit 0 (take_bit 5 (drop_bit 0 m))) k = bit m k"
  proof (cases "bit m k")
    case True
    with hi have "k < 30" by blast
    then show ?thesis unfolding bit_xor_iff digit_bit [OF k] using True by presburger
  qed (simp only: bit_xor_iff digit_bit [OF k] simp_thms)
qed

lemma push_zero: "push_bit 0 (w :: 32 word) = w"
  by simp

lemmas digits_sum = digits_30 [unfolded push_zero]

lemma poly_digits:
  "(poly_lin ^^ 5) (take_bit 5 y) = push_bit 25 (take_bit 5 y)"
  "(poly_lin ^^ 4) (take_bit 5 y) = push_bit 20 (take_bit 5 y)"
  "(poly_lin ^^ 3) (take_bit 5 y) = push_bit 15 (take_bit 5 y)"
  "(poly_lin ^^ 2) (take_bit 5 y) = push_bit 10 (take_bit 5 y)"
  "(poly_lin ^^ 1) (take_bit 5 y) = push_bit 5 (take_bit 5 y)"
  using poly_lin_digit [of 5 y] poly_lin_digit [of 4 y] poly_lin_digit [of 3 y] poly_lin_digit [of 2 y] poly_lin_digit [of 1 y]
  by simp_all

lemma digit_byte: "ucast (ucast (x :: 32 word) AND (31 :: 8 word)) = (take_bit 5 x :: 32 word)"
proof -
  have "ucast x AND (31 :: 8 word) = take_bit 5 (ucast x)" by (simp add: take_bit_eq_mask mask_numeral)
  moreover have "ucast (take_bit 5 (ucast x :: 8 word)) = take_bit 5 x"
    by (rule bit_word_eqI) (auto simp: bit_simps)
  ultimately show ?thesis by simp
qed

lemma funpow_poly_lin_0 [simp]: "(poly_lin ^^ n) 0 = 0"
  by (induction n) simp_all

lemma six_steps:
  assumes "ucast a5 = b5" "ucast a4 = b4" "ucast a3 = b3" "ucast a2 = b2" "ucast a1 = b1" "ucast a0 = b0"
  shows "foldl polymod_step s [a5, a4, a3, a2, a1, a0]
    = (poly_lin ^^ 6) s XOR ((poly_lin ^^ 5) b5 XOR (poly_lin ^^ 4) b4 XOR (poly_lin ^^ 3) b3
       XOR (poly_lin ^^ 2) b2 XOR (poly_lin ^^ 1) b1 XOR b0)"
  by (simp add: polymod_step_lin assms poly_lin_xor eval_nat_numeral xor.assoc)

text \<open>
  The checksum the program appends is a valid Bech32 checksum: whatever the prefix and the
  values, the polynomial of prefix, values and checksum is 1, the constant every reader checks.
\<close>
theorem bech32_checksum_valid:
  "bech32_polymod (bech32_hrp_expand hrp @ data @ bech32_checksum hrp data) = 1"
proof -
  let ?c = "foldl polymod_step 1 (bech32_hrp_expand hrp @ data)"
  let ?p = "(poly_lin ^^ 6) ?c"
  let ?m = "?p XOR 1"
  have z: "bech32_polymod (bech32_hrp_expand hrp @ data @ replicate 6 0) = ?p"
    using foldl_step_xor [of ?c 0 6] by (simp add: bech32_polymod_def)
  have u: "[0..<6] = [0, 1, 2, 3, 4, 5::nat]" by (simp add: upt_rec)
  have chk: "bech32_checksum hrp data = map (\<lambda>n. ucast (drop_bit n ?m) AND 31) [25, 20, 15, 10, 5, 0]"
    by (simp add: bech32_checksum_def z u)
  have r: "take_bit 30 ?m = ?m"
    using poly_lin_range [of "(poly_lin ^^ 5) ?c"] by (simp add: take_bit_xor eval_nat_numeral)
  have "bech32_polymod (bech32_hrp_expand hrp @ data @ bech32_checksum hrp data)
    = foldl polymod_step ?c [ucast (drop_bit 25 ?m) AND 31, ucast (drop_bit 20 ?m) AND 31, ucast (drop_bit 15 ?m) AND 31,
        ucast (drop_bit 10 ?m) AND 31, ucast (drop_bit 5 ?m) AND 31, ucast (drop_bit 0 ?m) AND 31]"
    by (simp only: bech32_polymod_def chk list.map foldl_append append_assoc [symmetric])
  also have "\<dots> = ?p XOR ((poly_lin ^^ 5) (take_bit 5 (drop_bit 25 ?m)) XOR (poly_lin ^^ 4) (take_bit 5 (drop_bit 20 ?m))
     XOR (poly_lin ^^ 3) (take_bit 5 (drop_bit 15 ?m)) XOR (poly_lin ^^ 2) (take_bit 5 (drop_bit 10 ?m))
     XOR (poly_lin ^^ 1) (take_bit 5 (drop_bit 5 ?m)) XOR take_bit 5 (drop_bit 0 ?m))"
    by (rule six_steps) (rule digit_byte)+
  also have "\<dots> = ?p XOR ?m"
    by (simp only: poly_digits digits_sum [OF r])
  finally show ?thesis by (simp add: xor.assoc [symmetric])
qed

section \<open>The encoding never leaves its alphabet\<close>

lemma convert_emit_shape:
  assumes "convert_emit 5 acc bits out = (bits', out')" "\<forall>v \<in> set out. unat v < 32"
  shows "bits' < 5 \<and> 5 * length out' + bits' = 5 * length out + bits \<and> (\<forall>v \<in> set out'. unat v < 32)"
  using assms
proof (induction "5::nat" acc bits out rule: convert_emit.induct)
  case (1 acc bits out)
  have small: "unat (w AND mask 5 :: 8 word) < 32" for w
    using take_bit_nat_less_exp [of 5 "unat w"] by (simp add: take_bit_eq_mask [symmetric] unsigned_take_bit_eq)
  show ?case
  proof (cases "5 \<le> bits")
    case True
    with 1(1) 1(2,3) small show ?thesis by (subst (asm) (2) convert_emit.simps) (auto split: if_splits)
  next
    case False
    with 1(2,3) show ?thesis by (subst (asm) convert_emit.simps) auto
  qed
qed

lemma byte_in_range: "drop_bit 8 (v :: 8 word) = 0"
  by (rule bit_word_eqI) (auto simp: bit_drop_bit_eq)

lemma convert_loop_shape:
  assumes "bits < 5" "\<forall>v \<in> set out. unat v < 32"
  shows "\<exists>acc' bits' out'. convert_loop 8 5 vs acc bits out = Some (acc', bits', out') \<and> bits' < 5
     \<and> 5 * length out' + bits' = 5 * length out + bits + 8 * length vs \<and> (\<forall>v \<in> set out'. unat v < 32)"
  using assms
proof (induction vs arbitrary: acc bits out)
  case (Cons v vs)
  obtain b2 o2 where e: "convert_emit 5 (push_bit 8 acc OR ucast v) (bits + 8) out = (b2, o2)"
    by (cases "convert_emit 5 (push_bit 8 acc OR ucast v) (bits + 8) out")
  note sh = convert_emit_shape [OF e Cons.prems(2)]
  with Cons.IH [of b2 o2] show ?case by (fastforce simp: byte_in_range e)
qed auto

lemma convert_bits_shape:
  "\<exists>vs. bech32_convert_bits data 8 5 True = Some vs \<and> length vs = (8 * length data + 4) div 5 \<and> (\<forall>v \<in> set vs. unat v < 32)"
proof -
  obtain acc bits out where c: "convert_loop 8 5 data 0 0 [] = Some (acc, bits, out)" "bits < 5"
    "5 * length out + bits = 8 * length data" "\<forall>v \<in> set out. unat v < 32"
    using convert_loop_shape [of 0 "[]" data 0] by auto
  have small: "unat (w AND mask 5 :: 8 word) < 32" for w
    using take_bit_nat_less_exp [of 5 "unat w"] by (simp add: take_bit_eq_mask [symmetric] unsigned_take_bit_eq)
  show ?thesis
  proof (cases "bits = 0")
    case True
    with c show ?thesis by (simp add: bech32_convert_bits_def)
  next
    case False
    with c(2,3) have "Suc (length out) = (8 * length data + 4) div 5" by linarith
    with False c small show ?thesis by (simp add: bech32_convert_bits_def)
  qed
qed

lemma checksum_shape: "length (bech32_checksum hrp vs) = 6 \<and> (\<forall>v \<in> set (bech32_checksum hrp vs). unat v < 32)"
proof -
  have "w AND 31 = take_bit 5 (w :: 8 word)" for w by (simp add: take_bit_eq_mask mask_numeral)
  then have "unat (w AND 31 :: 8 word) < 32" for w
    using take_bit_nat_less_exp [of 5 "unat w"] by (simp add: unsigned_take_bit_eq)
  then show ?thesis by (auto simp: bech32_checksum_def Let_def)
qed

lemma bech32_encode_shape:
  "\<exists>vs. bech32_encode hrp data = Some (to_lower hrp @ ''1'' @ vs) \<and> length vs = (8 * length data + 4) div 5 + 6
     \<and> set vs \<subseteq> set bech32_charset"
proof -
  obtain vs where vs: "bech32_convert_bits (map of_char data) 8 5 True = Some vs"
    "length vs = (8 * length data + 4) div 5" "\<forall>v \<in> set vs. unat v < 32"
    using convert_bits_shape [of "map of_char data"] by auto
  have len: "length bech32_charset = 32" by (simp add: bech32_charset_def)
  have "\<forall>v \<in> set (vs @ bech32_checksum (to_lower hrp) vs). unat v < 32"
    using vs(3) checksum_shape by auto
  then have "set (map (\<lambda>v. bech32_charset ! unat v) (vs @ bech32_checksum (to_lower hrp) vs)) \<subseteq> set bech32_charset"
    using len by auto
  with vs checksum_shape show ?thesis
    by (intro exI [of _ "map (\<lambda>v. bech32_charset ! unat v) (vs @ bech32_checksum (to_lower hrp) vs)"])
      (simp add: bech32_encode_def Let_def)
qed

section \<open>Root keys\<close>

text \<open>
  What the program uses of HKDF and of age: an identity is its canonical secret string,
  \<open>ag_parse\<close> is \<^verbatim>\<open>age.ParseX25519Identity\<close>, \<open>ag_recipient\<close> the public half, \<open>ag_seal\<close> and
  \<open>ag_open\<close> encryption to a recipient and decryption with an identity.
\<close>

record age_lib =
  ag_hkdf :: "bytes \<Rightarrow> string \<Rightarrow> 256 word"
  ag_parse :: "string \<Rightarrow> (string, string) result"
  ag_recipient :: "string \<Rightarrow> string"
  ag_parse_recipient :: "string \<Rightarrow> (string, string) result"
  ag_seal :: "nat \<Rightarrow> string \<Rightarrow> bytes \<Rightarrow> bytes"
  ag_open :: "string \<Rightarrow> bytes \<Rightarrow> (string, bytes) result"

datatype key_error = RootKeySize nat | EncodeFailed | IdentityInvalid string | NoCurrentGeneration | NoGenerations

definition root_key_size :: nat where "root_key_size = 32"

definition root_key_identity_info :: string where
  "root_key_identity_info = ''reinstate/root-key/age-x25519-identity/v1''"

definition root_key_identity :: "age_lib \<Rightarrow> bytes \<Rightarrow> (key_error, string) result" where
  "root_key_identity A key =
     (if length key \<noteq> root_key_size then Inl (RootKeySize (length key))
      else case bech32_encode ''AGE-SECRET-KEY-'' (sum_bytes (ag_hkdf A key root_key_identity_info)) of
        None \<Rightarrow> Inl EncodeFailed
      | Some encoded \<Rightarrow>
          (case ag_parse A (to_upper encoded) of Inl m \<Rightarrow> Inl (IdentityInvalid m) | Inr i \<Rightarrow> Inr i))"

record root_key_provider =
  rp_current :: "string option"
  rp_all :: "string list"

fun earlier_identities :: "age_lib \<Rightarrow> bytes list \<Rightarrow> (key_error, string list) result" where
  "earlier_identities A [] = Inr []"
| "earlier_identities A (k # ks) =
     (case root_key_identity A k of Inl e \<Rightarrow> Inl e
      | Inr i \<Rightarrow> (case earlier_identities A ks of Inl e \<Rightarrow> Inl e | Inr is \<Rightarrow> Inr (i # is)))"

definition new_root_key_provider :: "age_lib \<Rightarrow> bytes \<Rightarrow> bytes list \<Rightarrow> (key_error, root_key_provider) result" where
  "new_root_key_provider A current earlier =
     (case root_key_identity A current of Inl e \<Rightarrow> Inl e
      | Inr i \<Rightarrow> (case earlier_identities A earlier of Inl e \<Rightarrow> Inl e
          | Inr is \<Rightarrow> Inr \<lparr>rp_current = Some i, rp_all = i # is\<rparr>))"

text \<open>The methods accept a missing provider.\<close>

definition provider_recipients :: "age_lib \<Rightarrow> root_key_provider option \<Rightarrow> (key_error, string list) result" where
  "provider_recipients A p =
     (case p of None \<Rightarrow> Inl NoCurrentGeneration
      | Some q \<Rightarrow> (case rp_current q of None \<Rightarrow> Inl NoCurrentGeneration | Some i \<Rightarrow> Inr [ag_recipient A i]))"

definition provider_identities :: "root_key_provider option \<Rightarrow> (key_error, string list) result" where
  "provider_identities p =
     (case p of None \<Rightarrow> Inl NoGenerations | Some q \<Rightarrow> if rp_all q = [] then Inl NoGenerations else Inr (rp_all q))"

definition provider_generations :: "root_key_provider option \<Rightarrow> nat" where
  "provider_generations p = (case p of None \<Rightarrow> 0 | Some q \<Rightarrow> length (rp_all q))"

definition provider_recipient :: "age_lib \<Rightarrow> root_key_provider option \<Rightarrow> string" where
  "provider_recipient A p =
     (case p of None \<Rightarrow> [] | Some q \<Rightarrow> (case rp_current q of None \<Rightarrow> [] | Some i \<Rightarrow> ag_recipient A i))"

text \<open>
  A root key of the right size always yields an age secret key string of the standard form:
  deriving an identity can only fail by the size of the key or in age's own parser, which is given
  the upper-case prefix followed by 58 characters of the Bech32 alphabet.
\<close>
theorem root_key_identity_form:
  assumes "length key = root_key_size"
  shows "\<exists>vs. length vs = 58 \<and> set vs \<subseteq> set bech32_charset
    \<and> root_key_identity A key = map_sum IdentityInvalid id (ag_parse A (''AGE-SECRET-KEY-1'' @ to_upper vs))"
proof -
  obtain vs where vs: "bech32_encode ''AGE-SECRET-KEY-'' (sum_bytes (ag_hkdf A key root_key_identity_info))
      = Some (to_lower ''AGE-SECRET-KEY-'' @ ''1'' @ vs)" "length vs = 58" "set vs \<subseteq> set bech32_charset"
    using bech32_encode_shape [of "''AGE-SECRET-KEY-''" "sum_bytes (ag_hkdf A key root_key_identity_info)"] by auto
  have "to_upper (to_lower ''AGE-SECRET-KEY-'' @ ''1'' @ vs) = ''AGE-SECRET-KEY-1'' @ to_upper vs"
  proof -
    have "to_upper (to_lower ''AGE-SECRET-KEY-'') = ''AGE-SECRET-KEY-''" "to_upper ''1'' = ''1''" by code_simp+
    then show ?thesis by (simp add: to_upper_def)
  qed
  with vs assms show ?thesis
    by (intro exI [of _ vs]) (auto simp: root_key_identity_def split: sum.splits)
qed

lemma earlier_identities_Inr:
  "earlier_identities A ks = Inr is \<longleftrightarrow> list_all2 (\<lambda>k i. root_key_identity A k = Inr i) ks is"
proof (induction ks arbitrary: "is")
  case (Cons k ks)
  have "list_all2 (\<lambda>k i. root_key_identity A k = Inr i) ks js \<longleftrightarrow> earlier_identities A ks = Inr js" for js
    using Cons.IH by simp
  then show ?case
    by (cases "root_key_identity A k"; cases "is"; cases "earlier_identities A ks") auto
qed auto

text \<open>
  A provider opens with every key generation it was given and seals only to the current one: its
  identities are the ones derived from the current and then from each earlier root key, in order,
  and its one recipient belongs to the first of them.
\<close>
theorem provider_opens_all_seals_current:
  assumes "new_root_key_provider A current earlier = Inr p"
  shows "\<exists>ids. provider_identities (Some p) = Inr ids
    \<and> list_all2 (\<lambda>k i. root_key_identity A k = Inr i) (current # earlier) ids
    \<and> provider_recipients A (Some p) = Inr [ag_recipient A (hd ids)]
    \<and> provider_recipient A (Some p) = ag_recipient A (hd ids)
    \<and> provider_generations (Some p) = 1 + length earlier"
  using assms
  by (auto simp: new_root_key_provider_def provider_identities_def provider_recipients_def provider_recipient_def
      provider_generations_def earlier_identities_Inr list_all2_lengthD split: sum.splits)

text \<open>An instance of the parameters in which every key is its own identity.\<close>

definition toy_age :: age_lib where
  "toy_age = \<lparr>ag_hkdf = (\<lambda>k i. 0), ag_parse = Inr, ag_recipient = id, ag_parse_recipient = Inr,
     ag_seal = (\<lambda>_ _ p. p), ag_open = (\<lambda>_ c. Inr c)\<rparr>"

theorem root_key_identity_form_witness:
  "\<exists>vs. length vs = 58 \<and> root_key_identity toy_age (replicate 32 CHR ''k'') = Inr (''AGE-SECRET-KEY-1'' @ to_upper vs)"
  using root_key_identity_form [of "replicate 32 CHR ''k''" toy_age] by (auto simp: root_key_size_def toy_age_def)

theorem provider_opens_all_seals_current_witness:
  "\<exists>p. new_root_key_provider toy_age (replicate 32 CHR ''k'') [replicate 32 CHR ''j''] = Inr p \<and> provider_generations (Some p) = 2"
proof -
  have "\<exists>i. root_key_identity toy_age (replicate 32 c) = Inr i" for c
    using bech32_encode_shape [of "''AGE-SECRET-KEY-''" "sum_bytes 0"]
    by (auto simp: root_key_identity_def root_key_size_def toy_age_def)
  then obtain i j where "root_key_identity toy_age (replicate 32 CHR ''k'') = Inr i"
    "root_key_identity toy_age (replicate 32 CHR ''j'') = Inr j" by blast
  then have "new_root_key_provider toy_age (replicate 32 CHR ''k'') [replicate 32 CHR ''j'']
      = Inr \<lparr>rp_current = Some i, rp_all = [i, j]\<rparr>" (is "?l = Inr ?p") by (simp add: new_root_key_provider_def)
  from provider_opens_all_seals_current [OF this] this show ?thesis by auto
qed

end
