(* ===== verification/Keyring.thy ===== *)
theory Keyring
  imports Recovery_Code Root_Key
begin

text \<open>
  The keyring object of \<^verbatim>\<open>internal/keyring/keyring.go\<close> and
  \<^verbatim>\<open>internal/keyring/signing.go\<close>: key generations signed under the account key the
  recovery code derives, the root key wrapped for each device and under the recovery code, and the
  operations on it. Cryptography is a record of parameters; random bytes and seeds are arguments.
  A Go map from generation numbers to keys is an association list.
\<close>

section \<open>Data\<close>

record recovery_wrap =
  rw_kdf :: string
  rw_time :: "32 word"
  rw_memory :: "32 word"
  rw_threads :: "8 word"
  rw_salt :: string
  rw_wrap :: string
  rw_format :: int

record device_wrap =
  dw_device :: string
  dw_public :: string
  dw_enrolled_at :: string
  dw_wrap :: string
  dw_format :: int

record revocation =
  rv_device :: string
  rv_at :: string
  rv_by :: string

record generation =
  gn_number :: int
  gn_created_at :: string
  gn_recipient :: string
  gn_recovery :: recovery_wrap
  gn_devices :: "device_wrap list"
  gn_revoked :: "revocation list"
  gn_signature :: string

record keyring =
  kr_schema :: int
  kr_profile :: string
  kr_current :: int
  kr_account_key :: string
  kr_generations :: "generation list"

text \<open>\<^verbatim>\<open>binding\<close>: the profile and generation a wrap is tied to.\<close>

type_synonym binding = "string \<times> int"

datatype keyring_error =
    InvalidObject string
  | UnsupportedSchema int
  | ProfileAndGenerationRequired
  | NumberNotPositive int
  | NumberTwice int
  | DeviceWithoutId int
  | DeviceTwice int string
  | UnknownWrapFormat int int
  | Unauthenticated int
  | AccountKeyInvalid
  | AccountKeyMismatch
  | GenerationMissing int
  | CurrentNotPresent int
  | NoCurrent
  | NotEnrolled
  | DeviceKeyMismatch
  | WrapNotBase64
  | AgeFailed string
  | WrapSize nat nat
  | WrongBinding
  | NotGenerationKey int
  | RecoveryMismatch
  | RecoveryMalformed int
  | BadCode code_error
  | BadKey key_error
  | ProfileRequired
  | ArgumentsRequired
  | DeviceExists
  | StaleRootKey
  | AlreadyRevoked string
  | SelfRevoke
  | NothingToRevoke
  | RevokerNotEnrolled string
  | BadPublicKey string
  | GenerationNotPresent int
  | InGeneration int keyring_error

text \<open>\<^verbatim>\<open>errors.Is(err, ErrDeviceNotEnrolled)\<close> and \<^verbatim>\<open>ErrUnauthenticatedGeneration\<close>.\<close>

fun is_not_enrolled :: "keyring_error \<Rightarrow> bool" where
  "is_not_enrolled NotEnrolled = True"
| "is_not_enrolled DeviceKeyMismatch = True"
| "is_not_enrolled (AlreadyRevoked d) = True"
| "is_not_enrolled (RevokerNotEnrolled d) = True"
| "is_not_enrolled (InGeneration n e) = is_not_enrolled e"
| "is_not_enrolled _ = False"

fun is_unauthenticated :: "keyring_error \<Rightarrow> bool" where
  "is_unauthenticated (Unauthenticated n) = True"
| "is_unauthenticated AccountKeyInvalid = True"
| "is_unauthenticated _ = False"

record key_lib =
  kl_age :: age_lib
  kl_sha :: sha256
  kl_argon :: "string \<Rightarrow> bytes \<Rightarrow> 32 word \<Rightarrow> 32 word \<Rightarrow> 8 word \<Rightarrow> 256 word"
  kl_ed_public :: "256 word \<Rightarrow> 256 word"
  kl_ed_sign :: "256 word \<Rightarrow> bytes \<Rightarrow> 512 word"
  kl_ed_verify :: "bytes \<Rightarrow> bytes \<Rightarrow> bytes \<Rightarrow> bool"
  kl_seal :: "256 word \<Rightarrow> bytes \<Rightarrow> bytes \<Rightarrow> bytes \<Rightarrow> bytes"
  kl_open :: "256 word \<Rightarrow> bytes \<Rightarrow> bytes \<Rightarrow> bytes \<Rightarrow> bytes option"

definition keyring_schema_version :: int where "keyring_schema_version = 5"
definition wrap_format_bound :: int where "wrap_format_bound = 2"
definition argon2_time :: "32 word" where "argon2_time = 3"
definition argon2_memory :: "32 word" where "argon2_memory = 64 * 1024"
definition argon2_threads :: "8 word" where "argon2_threads = 4"
definition recovery_kdf_name :: string where "recovery_kdf_name = ''argon2id''"
definition nonce_size :: nat where "nonce_size = 24"
definition account_key_info :: string where "account_key_info = ''reinstate/keyring/account-signing-key/v1''"
definition generation_signature_info :: string where "generation_signature_info = ''reinstate/keyring/generation/v1''"
definition device_wrap_info :: string where "device_wrap_info = ''reinstate/keyring/device-wrap/v2''"
definition recovery_aad_bound :: string where "recovery_aad_bound = ''reinstate/keyring/recovery-wrap/v2''"

section \<open>The account signing key\<close>

record account_key =
  ak_public :: string
  ak_seed :: "256 word"

definition derive_account_key :: "key_lib \<Rightarrow> string \<Rightarrow> string \<Rightarrow> (keyring_error, account_key) result" where
  "derive_account_key L profile code =
     (if profile = [] then Inl ProfileRequired
      else case normalize_recovery_code (kl_sha L) code of Inl e \<Rightarrow> Inl (BadCode e)
      | Inr canonical \<Rightarrow>
          let salt = sum_bytes (kl_sha L (account_key_info @ [CHR 0x00] @ profile));
              seed = kl_argon L canonical salt argon2_time argon2_memory argon2_threads in
          Inr \<lparr>ak_public = b64_encode (sum_bytes (kl_ed_public L seed)), ak_seed = seed\<rparr>)"

definition account_sign :: "key_lib \<Rightarrow> account_key \<Rightarrow> bytes \<Rightarrow> string" where
  "account_sign L a message = b64_encode (word_bytes 64 (kl_ed_sign L (ak_seed a) message))"

definition parse_account_public_key :: "string \<Rightarrow> (keyring_error, bytes) result" where
  "parse_account_public_key encoded =
     (if encoded = [] then Inl AccountKeyInvalid
      else case b64_decode encoded of None \<Rightarrow> Inl AccountKeyInvalid
      | Some raw \<Rightarrow> if length raw \<noteq> 32 then Inl AccountKeyInvalid else Inr raw)"

section \<open>Reading the object\<close>

definition kr_generation :: "keyring \<Rightarrow> int \<Rightarrow> generation option" where
  "kr_generation k n = find (\<lambda>g. gn_number g = n) (kr_generations k)"

definition kr_current_generation :: "keyring \<Rightarrow> generation option" where
  "kr_current_generation k = kr_generation k (kr_current k)"

definition binding_for :: "keyring \<Rightarrow> generation \<Rightarrow> binding" where
  "binding_for k g = (kr_profile k, gn_number g)"

text \<open>Every field behind its length in eight bytes, big endian.\<close>

definition length_prefixed :: "string \<Rightarrow> bytes" where
  "length_prefixed f = word_bytes 8 (of_nat (length f) :: 64 word) @ f"

definition generation_fields :: "keyring \<Rightarrow> generation \<Rightarrow> generation option \<Rightarrow> string list" where
  "generation_fields k g prev =
     [generation_signature_info, kr_profile k, kr_account_key k, itoa (gn_number g), gn_created_at g, gn_recipient g,
      itoa (case prev of None \<Rightarrow> 0 | Some p \<Rightarrow> gn_number p), (case prev of None \<Rightarrow> [] | Some p \<Rightarrow> gn_recipient p),
      itoa (int (length (gn_revoked g)))]
     @ concat (map (\<lambda>r. [rv_device r, rv_at r, rv_by r]) (gn_revoked g))
     @ [rw_kdf (gn_recovery g), nat_dec (unat (rw_time (gn_recovery g))), nat_dec (unat (rw_memory (gn_recovery g))),
        nat_dec (unat (rw_threads (gn_recovery g))), itoa (rw_format (gn_recovery g)),
        rw_salt (gn_recovery g), rw_wrap (gn_recovery g)]"

definition generation_message :: "keyring \<Rightarrow> generation \<Rightarrow> generation option \<Rightarrow> bytes" where
  "generation_message k g prev = concat (map length_prefixed (generation_fields k g prev))"

definition generation_numbers :: "keyring \<Rightarrow> int list" where
  "generation_numbers k = sort (map gn_number (kr_generations k))"

definition verify_generation :: "key_lib \<Rightarrow> keyring \<Rightarrow> bytes \<Rightarrow> int \<Rightarrow> keyring_error option" where
  "verify_generation L k public n =
     (case kr_generation k n of None \<Rightarrow> Some (GenerationNotPresent n)
      | Some g \<Rightarrow>
        let prev = kr_generation k (n - 1) in
        if n > 1 \<and> prev = None then Some (Unauthenticated n)
        else (case b64_decode (gn_signature g) of None \<Rightarrow> Some (Unauthenticated n)
        | Some sig \<Rightarrow> if length sig \<noteq> 64 then Some (Unauthenticated n)
            else if \<not> kl_ed_verify L public (generation_message k g prev) sig then Some (Unauthenticated n)
            else None))"

fun first_error :: "('a \<Rightarrow> 'e option) \<Rightarrow> 'a list \<Rightarrow> 'e option" where
  "first_error f [] = None"
| "first_error f (x # xs) = (case f x of None \<Rightarrow> first_error f xs | Some e \<Rightarrow> Some e)"

definition verify_generations :: "key_lib \<Rightarrow> keyring \<Rightarrow> string \<Rightarrow> keyring_error option" where
  "verify_generations L k pinned =
     (case parse_account_public_key (kr_account_key k) of Inl e \<Rightarrow> Some e
      | Inr public \<Rightarrow>
          if pinned \<noteq> [] \<and> pinned \<noteq> kr_account_key k then Some AccountKeyMismatch
          else first_error (verify_generation L k public) (generation_numbers k))"

definition check_signature_shape :: "generation \<Rightarrow> keyring_error option" where
  "check_signature_shape g =
     (case b64_decode (gn_signature g) of None \<Rightarrow> Some (Unauthenticated (gn_number g))
      | Some sig \<Rightarrow> if length sig \<noteq> 64 then Some (Unauthenticated (gn_number g)) else None)"

text \<open>The device and format rules for one generation, then the rules over all of them.\<close>

fun check_devices :: "int \<Rightarrow> string list \<Rightarrow> device_wrap list \<Rightarrow> keyring_error option" where
  "check_devices n seen [] = None"
| "check_devices n seen (d # ds) =
     (if dw_device d = [] then Some (DeviceWithoutId n)
      else if dw_device d \<in> set seen then Some (DeviceTwice n (dw_device d))
      else check_devices n (dw_device d # seen) ds)"

definition device_formats :: "device_wrap list \<Rightarrow> int list" where
  "device_formats devices = map dw_format devices"

definition check_formats :: "generation \<Rightarrow> keyring_error option" where
  "check_formats g = first_error (\<lambda>w. if w \<noteq> wrap_format_bound then Some (UnknownWrapFormat (gn_number g) w) else None)
     (rw_format (gn_recovery g) # device_formats (gn_devices g))"

fun check_each :: "int list \<Rightarrow> generation list \<Rightarrow> keyring_error option" where
  "check_each seen [] = None"
| "check_each seen (g # gs) =
     (if gn_number g \<le> 0 then Some (NumberNotPositive (gn_number g))
      else if gn_number g \<in> set seen then Some (NumberTwice (gn_number g))
      else case check_devices (gn_number g) [] (gn_devices g) of Some e \<Rightarrow> Some e
      | None \<Rightarrow> (case check_formats g of Some e \<Rightarrow> Some e
      | None \<Rightarrow> (case check_signature_shape g of Some e \<Rightarrow> Some e
      | None \<Rightarrow> check_each (gn_number g # seen) gs)))"

definition check_keyring :: "key_lib \<Rightarrow> keyring \<Rightarrow> keyring_error option" where
  "check_keyring L k =
     (if kr_schema k \<noteq> keyring_schema_version then Some (UnsupportedSchema (kr_schema k))
      else if kr_profile k = [] \<or> kr_generations k = [] then Some ProfileAndGenerationRequired
      else case check_each [] (kr_generations k) of Some e \<Rightarrow> Some e
      | None \<Rightarrow>
        (case first_error (\<lambda>n. if n \<notin> set (map gn_number (kr_generations k)) then Some (GenerationMissing n) else None)
               (map int [1..<length (kr_generations k) + 1]) of Some e \<Rightarrow> Some e
      | None \<Rightarrow> if kr_current_generation k = None then Some (CurrentNotPresent (kr_current k))
      else verify_generations L k []))"

text \<open>\<^verbatim>\<open>Parse\<close> and \<^verbatim>\<open>Marshal\<close>, over a JSON decoder and encoder.\<close>

record keyring_json =
  kj_encode :: "keyring \<Rightarrow> bytes"
  kj_decode :: "bytes \<Rightarrow> (string, keyring) result"

definition parse_keyring :: "key_lib \<Rightarrow> keyring_json \<Rightarrow> bytes \<Rightarrow> (keyring_error, keyring) result" where
  "parse_keyring L J raw =
     (case kj_decode J raw of Inl m \<Rightarrow> Inl (InvalidObject m)
      | Inr k \<Rightarrow> (case check_keyring L k of Some e \<Rightarrow> Inl e | None \<Rightarrow> Inr k))"

definition marshal_keyring :: "keyring_json \<Rightarrow> keyring \<Rightarrow> bytes" where
  "marshal_keyring J k = kj_encode J (k\<lparr>kr_schema := keyring_schema_version\<rparr>) @ [CHR 0x0A]"

definition sign_generation :: "key_lib \<Rightarrow> keyring \<Rightarrow> account_key \<Rightarrow> generation \<Rightarrow> generation option \<Rightarrow> (keyring_error, generation) result" where
  "sign_generation L k a g prev =
     (if ak_public a \<noteq> kr_account_key k then Inl AccountKeyMismatch
      else Inr (g\<lparr>gn_signature := account_sign L a (generation_message k g prev)\<rparr>))"

definition generation_recipient :: "keyring \<Rightarrow> int \<Rightarrow> string" where
  "generation_recipient k n = (case kr_generation k n of Some g \<Rightarrow> gn_recipient g | None \<Rightarrow> [])"

definition kr_revocations :: "keyring \<Rightarrow> revocation list" where
  "kr_revocations k = concat (map (\<lambda>n. case kr_generation k n of Some g \<Rightarrow> gn_revoked g | None \<Rightarrow> []) (generation_numbers k))"

definition has_device :: "keyring \<Rightarrow> string \<Rightarrow> bool" where
  "has_device k d = (case kr_current_generation k of None \<Rightarrow> False | Some g \<Rightarrow> list_ex (\<lambda>w. dw_device w = d) (gn_devices g))"

definition revoked_device :: "keyring \<Rightarrow> string \<Rightarrow> bool" where
  "revoked_device k d = (if has_device k d then False else list_ex (\<lambda>r. rv_device r = d) (kr_revocations k))"

definition current_recipient :: "keyring \<Rightarrow> string" where
  "current_recipient k = (case kr_current_generation k of Some g \<Rightarrow> gn_recipient g | None \<Rightarrow> [])"

definition device_public_key :: "keyring \<Rightarrow> string \<Rightarrow> string" where
  "device_public_key k d = (case kr_current_generation k of None \<Rightarrow> []
     | Some g \<Rightarrow> (case find (\<lambda>w. dw_device w = d) (gn_devices g) of Some w \<Rightarrow> dw_public w | None \<Rightarrow> []))"

definition device_count :: "keyring \<Rightarrow> nat" where
  "device_count k = (case kr_current_generation k of Some g \<Rightarrow> length (gn_devices g) | None \<Rightarrow> 0)"

definition max_generation :: "keyring \<Rightarrow> int" where
  "max_generation k = foldl (\<lambda>n g. if gn_number g > n then gn_number g else n) 0 (kr_generations k)"

datatype membership = NotListed | Enrolled | KeyMismatch | KeyGone

definition device_membership :: "key_lib \<Rightarrow> keyring \<Rightarrow> string \<Rightarrow> string option \<Rightarrow> membership" where
  "device_membership L k d device =
     (let listed = device_public_key k d in
      if listed = [] then NotListed
      else case device of None \<Rightarrow> KeyGone
      | Some i \<Rightarrow> if listed \<noteq> ag_recipient (kl_age L) i then KeyMismatch else Enrolled)"

end
