(* ===== verification/Keyring_Ops.thy ===== *)
theory Keyring_Ops
  imports Keyring "HOL-Library.AList"
begin

text \<open>
  Wraps and the operations on a keyring (\<^verbatim>\<open>internal/keyring/keyring.go\<close> from
  \<^verbatim>\<open>New\<close> on): wrapping and unwrapping the root key, enrolment, roll-over and taking an
  enrolment back. An operation that fails leaves the keyring of its caller as it was, except
  \<^verbatim>\<open>EnrolAll\<close>, which reports the wraps it had written.
\<close>

section \<open>Wraps\<close>

definition nul :: string where "nul = [CHR 0x00]"

definition device_prefix :: "binding \<Rightarrow> bytes" where
  "device_prefix b = join_with nul [device_wrap_info, fst b, itoa (snd b)] @ nul"

definition recovery_aad :: "binding \<Rightarrow> bytes" where
  "recovery_aad b = join_with nul [recovery_aad_bound, fst b, itoa (snd b)]"

definition seal_for_device :: "key_lib \<Rightarrow> nat \<Rightarrow> bytes \<Rightarrow> string \<Rightarrow> binding \<Rightarrow> bytes" where
  "seal_for_device L seed root recipient b = ag_seal (kl_age L) seed recipient (device_prefix b @ root)"

definition wrap_for_device :: "key_lib \<Rightarrow> nat \<Rightarrow> bytes \<Rightarrow> string \<Rightarrow> string \<Rightarrow> string \<Rightarrow> binding \<Rightarrow> device_wrap" where
  "wrap_for_device L seed root device recipient now b =
     \<lparr>dw_device = device, dw_public = recipient, dw_enrolled_at = now,
      dw_wrap = b64_encode (seal_for_device L seed root recipient b), dw_format = wrap_format_bound\<rparr>"

definition derive_recovery_key :: "key_lib \<Rightarrow> string \<Rightarrow> bytes \<Rightarrow> recovery_wrap \<Rightarrow> 256 word" where
  "derive_recovery_key L code salt w = kl_argon L code salt (rw_time w) (rw_memory w) (rw_threads w)"

definition wrap_under_recovery_code :: "key_lib \<Rightarrow> bytes \<Rightarrow> bytes \<Rightarrow> bytes \<Rightarrow> string \<Rightarrow> binding \<Rightarrow> (keyring_error, recovery_wrap) result" where
  "wrap_under_recovery_code L salt nonce root code b =
     (case normalize_recovery_code (kl_sha L) code of Inl e \<Rightarrow> Inl (BadCode e)
      | Inr _ \<Rightarrow>
        let w = \<lparr>rw_kdf = recovery_kdf_name, rw_time = argon2_time, rw_memory = argon2_memory, rw_threads = argon2_threads,
                 rw_salt = b64_encode salt, rw_wrap = [], rw_format = wrap_format_bound\<rparr>;
            sealed = kl_seal L (derive_recovery_key L code salt w) nonce root (recovery_aad b) in
        Inr (w\<lparr>rw_wrap := b64_encode (nonce @ sealed)\<rparr>))"

definition unwrap_recovery :: "key_lib \<Rightarrow> recovery_wrap \<Rightarrow> string \<Rightarrow> binding \<Rightarrow> (keyring_error, bytes) result" where
  "unwrap_recovery L w code b =
     (case normalize_recovery_code (kl_sha L) code of Inl e \<Rightarrow> Inl (BadCode e)
      | Inr canonical \<Rightarrow>
        if rw_kdf w \<noteq> recovery_kdf_name then Inl (RecoveryMalformed (snd b))
        else if rw_format w \<noteq> wrap_format_bound then Inl (RecoveryMalformed (snd b))
        else (case b64_decode (rw_salt w) of None \<Rightarrow> Inl (RecoveryMalformed (snd b))
        | Some salt \<Rightarrow> (case b64_decode (rw_wrap w) of None \<Rightarrow> Inl (RecoveryMalformed (snd b))
        | Some cipher \<Rightarrow>
          if length cipher < nonce_size then Inl (RecoveryMalformed (snd b))
          else (case kl_open L (derive_recovery_key L canonical salt w) (take nonce_size cipher) (drop nonce_size cipher) (recovery_aad b) of
            None \<Rightarrow> Inl RecoveryMismatch
          | Some root \<Rightarrow> if length root \<noteq> root_key_size then Inl (RecoveryMalformed (snd b)) else Inr root))))"

definition unwrap_device :: "key_lib \<Rightarrow> generation \<Rightarrow> string \<Rightarrow> string \<Rightarrow> binding \<Rightarrow> (keyring_error, bytes) result" where
  "unwrap_device L g device identity b =
     (case find (\<lambda>d. dw_device d = device) (gn_devices g) of None \<Rightarrow> Inl NotEnrolled
      | Some d \<Rightarrow>
        if dw_public d \<noteq> ag_recipient (kl_age L) identity then Inl DeviceKeyMismatch
        else if dw_format d \<noteq> wrap_format_bound then Inl (UnknownWrapFormat (gn_number g) (dw_format d))
        else (case b64_decode (dw_wrap d) of None \<Rightarrow> Inl WrapNotBase64
        | Some cipher \<Rightarrow> (case ag_open (kl_age L) identity cipher of Inl m \<Rightarrow> Inl (AgeFailed m)
        | Inr plain \<Rightarrow>
          let prefix = device_prefix b; payload = take (length prefix + root_key_size + 1) plain in
          if length payload \<noteq> length prefix + root_key_size then Inl (WrapSize (length payload) (length prefix + root_key_size))
          else if take (length prefix) payload \<noteq> prefix then Inl WrongBinding
          else let key = drop (length prefix) payload in
            (case root_key_identity (kl_age L) key of Inl e \<Rightarrow> Inl (BadKey e)
             | Inr i \<Rightarrow> if ag_recipient (kl_age L) i \<noteq> gn_recipient g then Inl (NotGenerationKey (gn_number g)) else Inr key))))"

definition root_recipient :: "key_lib \<Rightarrow> bytes \<Rightarrow> (keyring_error, string) result" where
  "root_recipient L root = map_sum BadKey (ag_recipient (kl_age L)) (root_key_identity (kl_age L) root)"

section \<open>Creating, and reading keys back\<close>

definition new_keyring ::
  "key_lib \<Rightarrow> nat \<Rightarrow> bytes \<Rightarrow> bytes \<Rightarrow> string \<Rightarrow> bytes \<Rightarrow> string \<Rightarrow> string \<Rightarrow> string option \<Rightarrow> string \<Rightarrow> (keyring_error, keyring) result" where
  "new_keyring L seed salt nonce profile root code device identity now =
     (case identity of None \<Rightarrow> Inl ArgumentsRequired
      | Some i \<Rightarrow>
        if profile = [] \<or> device = [] then Inl ArgumentsRequired
        else (case root_recipient L root of Inl e \<Rightarrow> Inl e
        | Inr recipient \<Rightarrow>
        (case wrap_under_recovery_code L salt nonce root code (profile, 1) of Inl e \<Rightarrow> Inl e
        | Inr recovery \<Rightarrow>
        (case derive_account_key L profile code of Inl e \<Rightarrow> Inl e
        | Inr account \<Rightarrow>
          let g = \<lparr>gn_number = 1, gn_created_at = now, gn_recipient = recipient, gn_recovery = recovery,
                   gn_devices = [wrap_for_device L seed root device (ag_recipient (kl_age L) i) now (profile, 1)],
                   gn_revoked = [], gn_signature = []\<rparr>;
              k = \<lparr>kr_schema = keyring_schema_version, kr_profile = profile, kr_current = 1,
                   kr_account_key = ak_public account, kr_generations = [g]\<rparr> in
          Inr (k\<lparr>kr_generations := [g\<lparr>gn_signature := account_sign L account (generation_message k g None)\<rparr>]\<rparr>)))))"

definition unwrap_with_recovery_code :: "key_lib \<Rightarrow> keyring \<Rightarrow> string \<Rightarrow> (keyring_error, bytes) result" where
  "unwrap_with_recovery_code L k code =
     (case kr_current_generation k of None \<Rightarrow> Inl NoCurrent
      | Some g \<Rightarrow> unwrap_recovery L (gn_recovery g) code (binding_for k g))"

text \<open>The earlier generations, newest first; one that does not enrol the device is skipped.\<close>

fun unwrap_earlier :: "key_lib \<Rightarrow> keyring \<Rightarrow> string \<Rightarrow> string \<Rightarrow> int list \<Rightarrow> (keyring_error, bytes list) result" where
  "unwrap_earlier L k device identity [] = Inr []"
| "unwrap_earlier L k device identity (n # ns) =
     (if n = kr_current k then unwrap_earlier L k device identity ns
      else case kr_generation k n of None \<Rightarrow> Inl (GenerationNotPresent n)
      | Some g \<Rightarrow> (case unwrap_device L g device identity (binding_for k g) of
          Inl e \<Rightarrow> if is_not_enrolled e then unwrap_earlier L k device identity ns else Inl (InGeneration n e)
        | Inr key \<Rightarrow> (case unwrap_earlier L k device identity ns of Inl e \<Rightarrow> Inl e | Inr ks \<Rightarrow> Inr (key # ks))))"

definition unwrap_for_device :: "key_lib \<Rightarrow> keyring \<Rightarrow> string \<Rightarrow> string \<Rightarrow> (keyring_error, bytes \<times> bytes list) result" where
  "unwrap_for_device L k device identity =
     (case kr_current_generation k of None \<Rightarrow> Inl NoCurrent
      | Some g \<Rightarrow> (case unwrap_device L g device identity (binding_for k g) of Inl e \<Rightarrow> Inl e
      | Inr current \<Rightarrow> (case unwrap_earlier L k device identity (rev (generation_numbers k)) of Inl e \<Rightarrow> Inl e
      | Inr earlier \<Rightarrow> Inr (current, earlier))))"

definition generation_of :: "key_lib \<Rightarrow> keyring \<Rightarrow> bytes \<Rightarrow> int" where
  "generation_of L k root =
     (case root_recipient L root of Inl e \<Rightarrow> 0
      | Inr r \<Rightarrow> (case find (\<lambda>g. gn_recipient g = r) (kr_generations k) of None \<Rightarrow> 0 | Some g \<Rightarrow> gn_number g))"

type_synonym keys = "(int \<times> bytes) list"

definition unwrap_generations :: "key_lib \<Rightarrow> keyring \<Rightarrow> string \<Rightarrow> string \<Rightarrow> (keyring_error, keys) result" where
  "unwrap_generations L k device identity =
     (case unwrap_for_device L k device identity of Inl e \<Rightarrow> Inl e
      | Inr (current, earlier) \<Rightarrow>
          Inr (foldl (\<lambda>ks key. let n = generation_of L k key in if n = 0 then ks else AList.update n key ks)
                 [(kr_current k, current)] earlier))"

definition unwrap_generations_with_recovery_code :: "key_lib \<Rightarrow> keyring \<Rightarrow> string \<Rightarrow> (keyring_error, keys) result" where
  "unwrap_generations_with_recovery_code L k code =
     (case unwrap_with_recovery_code L k code of Inl e \<Rightarrow> Inl e
      | Inr current \<Rightarrow>
          Inr (foldl (\<lambda>ks n. if n = kr_current k then ks
                 else case kr_generation k n of None \<Rightarrow> ks
                 | Some g \<Rightarrow> (case unwrap_recovery L (gn_recovery g) code (binding_for k g) of Inl e \<Rightarrow> ks
                     | Inr key \<Rightarrow> AList.update n key ks))
               [(kr_current k, current)] (generation_numbers k)))"

section \<open>Enrolment\<close>

text \<open>Go edits one generation in place: the first with the number.\<close>

fun edit_generation :: "int \<Rightarrow> (generation \<Rightarrow> generation) \<Rightarrow> generation list \<Rightarrow> generation list" where
  "edit_generation n f [] = []"
| "edit_generation n f (g # gs) = (if gn_number g = n then f g # gs else g # edit_generation n f gs)"

definition edit_devices :: "int \<Rightarrow> (device_wrap list \<Rightarrow> device_wrap list) \<Rightarrow> keyring \<Rightarrow> keyring" where
  "edit_devices n f k = k\<lparr>kr_generations := edit_generation n (\<lambda>g. g\<lparr>gn_devices := f (gn_devices g)\<rparr>) (kr_generations k)\<rparr>"

definition check_current_root_key :: "key_lib \<Rightarrow> generation \<Rightarrow> bytes \<Rightarrow> keyring_error option" where
  "check_current_root_key L g root =
     (case root_recipient L root of Inl e \<Rightarrow> Some e | Inr r \<Rightarrow> if r \<noteq> gn_recipient g then Some StaleRootKey else None)"

definition enrol :: "key_lib \<Rightarrow> nat \<Rightarrow> bytes \<Rightarrow> string \<Rightarrow> string option \<Rightarrow> string \<Rightarrow> keyring \<Rightarrow> (keyring_error, keyring) result" where
  "enrol L seed root device recipient now k =
     (case kr_current_generation k of None \<Rightarrow> Inl NoCurrent
      | Some g \<Rightarrow>
        (case recipient of None \<Rightarrow> Inl ArgumentsRequired
         | Some r \<Rightarrow>
           if device = [] then Inl ArgumentsRequired
           else (case check_current_root_key L g root of Some e \<Rightarrow> Inl e
           | None \<Rightarrow> if has_device k device then Inl DeviceExists
             else Inr (edit_devices (kr_current k) (\<lambda>ds. ds @ [wrap_for_device L seed root device r now (binding_for k g)]) k))))"

text \<open>A wrap for the same public key is left alone, one for another key is replaced.\<close>

fun put_wrap :: "device_wrap \<Rightarrow> device_wrap list \<Rightarrow> device_wrap list" where
  "put_wrap w [] = [w]"
| "put_wrap w (d # ds) =
     (if dw_device d \<noteq> dw_device w then d # put_wrap w ds
      else if dw_public d = dw_public w then d # ds else w # ds)"

definition enrol_into :: "key_lib \<Rightarrow> nat \<Rightarrow> int \<Rightarrow> bytes \<Rightarrow> string \<Rightarrow> string option \<Rightarrow> string \<Rightarrow> keyring \<Rightarrow> (keyring_error, keyring) result" where
  "enrol_into L seed n root device recipient now k =
     (case kr_generation k n of None \<Rightarrow> Inl (GenerationNotPresent n)
      | Some g \<Rightarrow>
        if n = kr_current k then enrol L seed root device recipient now k
        else (case recipient of None \<Rightarrow> Inl ArgumentsRequired
         | Some r \<Rightarrow>
           if device = [] then Inl ArgumentsRequired
           else (case root_recipient L root of Inl e \<Rightarrow> Inl e
           | Inr rr \<Rightarrow> if rr \<noteq> gn_recipient g then Inl (NotGenerationKey n)
             else Inr (edit_devices n (put_wrap (wrap_for_device L seed root device r now (binding_for k g))) k))))"

definition device_wrap_of :: "keyring \<Rightarrow> int \<Rightarrow> string \<Rightarrow> device_wrap option" where
  "device_wrap_of k n device =
     (case kr_generation k n of None \<Rightarrow> None | Some g \<Rightarrow> find (\<lambda>d. dw_device d = device) (gn_devices g))"

type_synonym appended = "(int \<times> string) list"

text \<open>The earlier generations in turn; what had been written when an error stops it is reported.\<close>

fun enrol_earlier :: "key_lib \<Rightarrow> (int \<Rightarrow> nat) \<Rightarrow> keys \<Rightarrow> string \<Rightarrow> string option \<Rightarrow> string \<Rightarrow> int list \<Rightarrow> appended \<Rightarrow> keyring
   \<Rightarrow> (keyring_error option \<times> appended) \<times> keyring" where
  "enrol_earlier L seed keys device recipient now [] appended k = ((None, appended), k)"
| "enrol_earlier L seed keys device recipient now (n # ns) appended k =
     (let before = (case device_wrap_of k n device of None \<Rightarrow> [] | Some w \<Rightarrow> dw_wrap w) in
      case enrol_into L (seed n) n (the (map_of keys n)) device recipient now k of Inl e \<Rightarrow> ((Some e, appended), k)
      | Inr k' \<Rightarrow>
        let appended' = (case device_wrap_of k' n device of None \<Rightarrow> appended
              | Some w \<Rightarrow> if dw_wrap w \<noteq> before then appended @ [(n, dw_wrap w)] else appended) in
        enrol_earlier L seed keys device recipient now ns appended' k')"

definition enrol_all :: "key_lib \<Rightarrow> (int \<Rightarrow> nat) \<Rightarrow> keys \<Rightarrow> string \<Rightarrow> string option \<Rightarrow> string \<Rightarrow> keyring
   \<Rightarrow> (keyring_error option \<times> appended) \<times> keyring" where
  "enrol_all L seed keys device recipient now k =
     (case map_of keys (kr_current k) of None \<Rightarrow> ((Some StaleRootKey, []), k)
      | Some current \<Rightarrow>
        (case enrol L (seed (kr_current k)) current device recipient now k of Inl e \<Rightarrow> ((Some e, []), k)
        | Inr k1 \<Rightarrow>
          let first = (case device_wrap_of k1 (kr_current k) device of None \<Rightarrow> [] | Some w \<Rightarrow> dw_wrap w);
              ns = sort (remdups (filter (\<lambda>n. n \<noteq> kr_current k) (map fst keys)));
              ((err, appended), k2) = enrol_earlier L seed keys device recipient now ns [(kr_current k, first)] k1 in
          (case err of Some e \<Rightarrow> ((Some e, appended), k2) | None \<Rightarrow> ((None, sort_key fst appended), k2))))"

fun remove_wrap :: "string \<Rightarrow> string \<Rightarrow> device_wrap list \<Rightarrow> device_wrap list" where
  "remove_wrap device wrap [] = []"
| "remove_wrap device wrap (d # ds) = (if dw_device d = device \<and> dw_wrap d = wrap then ds else d # remove_wrap device wrap ds)"

fun unenrol_appended :: "string \<Rightarrow> appended \<Rightarrow> keyring \<Rightarrow> bool \<times> keyring" where
  "unenrol_appended device [] k = (False, k)"
| "unenrol_appended device ((n, w) # as) k =
     (case kr_generation k n of None \<Rightarrow> unenrol_appended device as k
      | Some g \<Rightarrow>
        if w = [] then unenrol_appended device as k
        else let hit = list_ex (\<lambda>d. dw_device d = device \<and> dw_wrap d = w) (gn_devices g);
                 (r, k') = unenrol_appended device as (edit_devices n (remove_wrap device w) k) in (hit \<or> r, k'))"

section \<open>Roll-over\<close>

fun check_revoke :: "keyring \<Rightarrow> string \<Rightarrow> string list \<Rightarrow> keyring_error option" where
  "check_revoke k by_device [] = None"
| "check_revoke k by_device (d # ds) =
     (if d = by_device then Some SelfRevoke
      else if \<not> has_device k d then Some (AlreadyRevoked d) else check_revoke k by_device ds)"

text \<open>The surviving devices get a wrap of the new key, the revoked ones a record.\<close>

fun rewrap :: "key_lib \<Rightarrow> (nat \<Rightarrow> nat) \<Rightarrow> nat \<Rightarrow> bytes \<Rightarrow> string list \<Rightarrow> string \<Rightarrow> string \<Rightarrow> binding \<Rightarrow> device_wrap list
   \<Rightarrow> (keyring_error, revocation list \<times> device_wrap list) result" where
  "rewrap L seed i root revoke by_device now b [] = Inr ([], [])"
| "rewrap L seed i root revoke by_device now b (d # ds) =
     (if dw_device d \<in> set revoke then
        (case rewrap L seed (Suc i) root revoke by_device now b ds of Inl e \<Rightarrow> Inl e
         | Inr (rs, ws) \<Rightarrow> Inr (\<lparr>rv_device = dw_device d, rv_at = now, rv_by = by_device\<rparr> # rs, ws))
      else case ag_parse_recipient (kl_age L) (dw_public d) of Inl m \<Rightarrow> Inl (BadPublicKey (dw_device d))
      | Inr recipient \<Rightarrow>
        (case rewrap L seed (Suc i) root revoke by_device now b ds of Inl e \<Rightarrow> Inl e
         | Inr (rs, ws) \<Rightarrow>
             Inr (rs, (wrap_for_device L (seed i) root (dw_device d) recipient now b)\<lparr>dw_enrolled_at := dw_enrolled_at d\<rparr> # ws)))"

definition rollover ::
  "key_lib \<Rightarrow> (nat \<Rightarrow> nat) \<Rightarrow> bytes \<Rightarrow> bytes \<Rightarrow> bytes \<Rightarrow> bytes \<Rightarrow> string \<Rightarrow> string list \<Rightarrow> string \<Rightarrow> string \<Rightarrow> keyring
   \<Rightarrow> (keyring_error, bytes \<times> keyring) result" where
  "rollover L seed fresh salt nonce root code revoke by_device now k =
     (case kr_current_generation k of None \<Rightarrow> Inl NoCurrent
      | Some g \<Rightarrow>
        if revoke = [] then Inl NothingToRevoke
        else (case check_current_root_key L g root of Some e \<Rightarrow> Inl e
        | None \<Rightarrow>
        (case unwrap_recovery L (gn_recovery g) code (binding_for k g) of Inl e \<Rightarrow> Inl e
        | Inr _ \<Rightarrow>
        (case derive_account_key L (kr_profile k) code of Inl e \<Rightarrow> Inl e
        | Inr account \<Rightarrow>
        if ak_public account \<noteq> kr_account_key k then Inl AccountKeyMismatch
        else (case check_revoke k by_device revoke of Some e \<Rightarrow> Inl e
        | None \<Rightarrow>
        if by_device \<noteq> [] \<and> \<not> has_device k by_device then Inl (RevokerNotEnrolled by_device)
        else let n = max_generation k + 1; b = (kr_profile k, n) in
        (case root_recipient L fresh of Inl e \<Rightarrow> Inl e
        | Inr recipient \<Rightarrow>
        (case wrap_under_recovery_code L salt nonce fresh code b of Inl e \<Rightarrow> Inl e
        | Inr recovery \<Rightarrow>
        (case rewrap L seed 0 fresh revoke by_device now b (gn_devices g) of Inl e \<Rightarrow> Inl e
        | Inr (revoked, devices) \<Rightarrow>
        (case sign_generation L k account
               \<lparr>gn_number = n, gn_created_at = now, gn_recipient = recipient, gn_recovery = recovery,
                gn_devices = devices, gn_revoked = revoked, gn_signature = []\<rparr> (Some g) of Inl e \<Rightarrow> Inl e
        | Inr next \<Rightarrow>
          Inr (fresh, k\<lparr>kr_generations := kr_generations k @ [next], kr_current := n, kr_schema := keyring_schema_version\<rparr>))))))))))"

end
