(* ===== verification/Keyring_Trust.thy ===== *)
theory Keyring_Trust
  imports Keyring_Ops
begin

text \<open>
  What the signatures buy: the signed message determines everything it covers, and a keyring that
  verifies under the account's key is one the account's own generations make up, so a party that can
  write the object can remove history or devices but cannot add or alter a generation.
\<close>

section \<open>The signed message is unambiguous\<close>

text \<open>A Go string is shorter than \<open>2 ^ 63\<close> bytes.\<close>

definition go_string :: "string \<Rightarrow> bool" where
  "go_string s \<longleftrightarrow> length s < 2 ^ 63"

lemma length_prefixed_inj:
  assumes "go_string a" "go_string b" "length_prefixed a @ x = length_prefixed b @ y"
  shows "a = b \<and> x = y"
proof -
  have "word_bytes 8 (of_nat (length a) :: 64 word) = word_bytes 8 (of_nat (length b) :: 64 word)"
    "a @ x = b @ y" using assms(3) by (auto simp: length_prefixed_def)
  then have "(of_nat (length a) :: 64 word) = of_nat (length b)" by (simp add: word_bytes_inj)
  then have "unat (of_nat (length a) :: 64 word) = unat (of_nat (length b) :: 64 word)" by simp
  moreover have "length a < 2 ^ 64" "length b < 2 ^ 64" using assms(1,2) by (simp_all add: go_string_def)
  ultimately have "length a = length b" by (simp only: unat_of_nat) simp
  with \<open>a @ x = b @ y\<close> show ?thesis by simp
qed

lemma length_prefixed_nonempty [simp]: "length_prefixed f \<noteq> []"
proof -
  have "length (length_prefixed f) = 8 + length f" by (simp add: length_prefixed_def)
  then show ?thesis by auto
qed

lemma prefixed_fields_inj:
  "\<forall>f \<in> set fs. go_string f \<Longrightarrow> \<forall>g \<in> set gs. go_string g \<Longrightarrow>
   concat (map length_prefixed fs) = concat (map length_prefixed gs) \<Longrightarrow> fs = gs"
proof (induction fs arbitrary: gs)
  case Nil
  then show ?case by (cases gs) auto
next
  case (Cons f fs)
  from Cons.prems(3) obtain g gs' where gs: "gs = g # gs'" by (cases gs) auto
  have eq: "length_prefixed f @ concat (map length_prefixed fs) = length_prefixed g @ concat (map length_prefixed gs')"
    using Cons.prems(3) gs by simp
  have "go_string f" "go_string g" using Cons.prems(1,2) gs by simp_all
  from length_prefixed_inj [OF this eq] have "f = g" "concat (map length_prefixed fs) = concat (map length_prefixed gs')" by blast+
  moreover have "\<forall>f \<in> set fs. go_string f" "\<forall>g \<in> set gs'. go_string g" using Cons.prems(1,2) gs by simp_all
  ultimately show ?case using Cons.IH [of gs'] gs by blast
qed

text \<open>What a signature covers of a generation: all of it but the device wraps.\<close>

definition signed_part :: "generation \<Rightarrow> generation" where
  "signed_part g = g\<lparr>gn_devices := [], gn_signature := []\<rparr>"

definition generation_small :: "keyring \<Rightarrow> generation \<Rightarrow> generation option \<Rightarrow> bool" where
  "generation_small k g prev \<longleftrightarrow> (\<forall>f \<in> set (generation_fields k g prev). go_string f)"

lemma revocation_fields_inj:
  "concat (map (\<lambda>r. [rv_device r, rv_at r, rv_by r]) rs) = concat (map (\<lambda>r. [rv_device r, rv_at r, rv_by r]) (ss :: revocation list)) \<Longrightarrow> rs = ss"
proof (induction rs arbitrary: ss)
  case (Cons r rs)
  then show ?case by (cases ss) auto
qed auto

lemma message_inj:
  assumes "generation_small k g prev" "generation_small k' g' prev'"
    and "generation_message k g prev = generation_message k' g' prev'"
  shows "kr_profile k = kr_profile k' \<and> kr_account_key k = kr_account_key k' \<and> signed_part g = signed_part g'
    \<and> (case prev of None \<Rightarrow> 0 | Some p \<Rightarrow> gn_number p) = (case prev' of None \<Rightarrow> 0 | Some p \<Rightarrow> gn_number p)
    \<and> (case prev of None \<Rightarrow> [] | Some p \<Rightarrow> gn_recipient p) = (case prev' of None \<Rightarrow> [] | Some p \<Rightarrow> gn_recipient p)"
proof -
  have f: "generation_fields k g prev = generation_fields k' g' prev'"
    using prefixed_fields_inj assms unfolding generation_small_def generation_message_def by blast
  let ?rf = "\<lambda>g. concat (map (\<lambda>r. [rv_device r, rv_at r, rv_by r]) (gn_revoked g))"
  let ?rec = "\<lambda>g. [rw_kdf (gn_recovery g), nat_dec (unat (rw_time (gn_recovery g))), nat_dec (unat (rw_memory (gn_recovery g))),
        nat_dec (unat (rw_threads (gn_recovery g))), itoa (rw_format (gn_recovery g)),
        rw_salt (gn_recovery g), rw_wrap (gn_recovery g)]"
  from f have heads: "kr_profile k = kr_profile k'" "kr_account_key k = kr_account_key k'" "gn_number g = gn_number g'"
    "gn_created_at g = gn_created_at g'" "gn_recipient g = gn_recipient g'"
    "(case prev of None \<Rightarrow> 0 | Some p \<Rightarrow> gn_number p) = (case prev' of None \<Rightarrow> 0 | Some p \<Rightarrow> gn_number p)"
    "(case prev of None \<Rightarrow> [] | Some p \<Rightarrow> gn_recipient p) = (case prev' of None \<Rightarrow> [] | Some p \<Rightarrow> gn_recipient p)"
    and tail: "?rf g @ ?rec g = ?rf g' @ ?rec g'"
    by (simp_all add: generation_fields_def itoa_inj)
  have len: "length (?rec g) = length (?rec g')" by simp
  have "?rf g = ?rf g'" "?rec g = ?rec g'"
    using tail append_eq_append_conv [of "?rf g" "?rf g'" "?rec g" "?rec g'"] len by blast+
  then have "gn_revoked g = gn_revoked g'" "gn_recovery g = gn_recovery g'"
    using revocation_fields_inj [of "gn_revoked g" "gn_revoked g'"]
    by (simp_all add: nat_dec_inj itoa_inj word_unat_eq_iff [symmetric])
  with heads show ?thesis by (simp add: signed_part_def)
qed

section \<open>What passes the checks\<close>

lemma first_error_None: "first_error f xs = None \<longleftrightarrow> (\<forall>x \<in> set xs. f x = None)"
  by (induction xs) (auto split: option.splits)

lemma check_devices_None:
  "check_devices n seen ds = None \<longleftrightarrow> [] \<notin> set (map dw_device ds) \<and> set (map dw_device ds) \<inter> set seen = {} \<and> distinct (map dw_device ds)"
  by (induction ds arbitrary: seen) auto

definition generation_ok :: "generation \<Rightarrow> bool" where
  "generation_ok g \<longleftrightarrow> 0 < gn_number g \<and> [] \<notin> set (map dw_device (gn_devices g)) \<and> distinct (map dw_device (gn_devices g))
     \<and> rw_format (gn_recovery g) = wrap_format_bound \<and> (\<forall>d \<in> set (gn_devices g). dw_format d = wrap_format_bound)
     \<and> check_signature_shape g = None"

lemma check_formats_None:
  "check_formats g = None \<longleftrightarrow> rw_format (gn_recovery g) = wrap_format_bound \<and> (\<forall>d \<in> set (gn_devices g). dw_format d = wrap_format_bound)"
  by (auto simp: check_formats_def first_error_None device_formats_def)

lemma check_each_step:
  "check_each seen (g # gs) = None \<longleftrightarrow> generation_ok g \<and> gn_number g \<notin> set seen \<and> check_each (gn_number g # seen) gs = None"
  by (cases "check_devices (gn_number g) [] (gn_devices g)"; cases "check_formats g"; cases "check_signature_shape g")
    (simp_all add: generation_ok_def check_formats_None [symmetric] check_devices_None [of "gn_number g" "[]", symmetric, simplified] not_le)

lemma check_each_None:
  "check_each seen gs = None \<longleftrightarrow> (\<forall>g \<in> set gs. generation_ok g) \<and> set (map gn_number gs) \<inter> set seen = {} \<and> distinct (map gn_number gs)"
proof (induction gs arbitrary: seen)
  case (Cons g gs)
  show ?case unfolding check_each_step Cons.IH by auto
qed simp

lemma check_keyring_None:
  "check_keyring L k = None \<longleftrightarrow> kr_schema k = keyring_schema_version \<and> kr_profile k \<noteq> [] \<and> kr_generations k \<noteq> []
     \<and> (\<forall>g \<in> set (kr_generations k). generation_ok g) \<and> distinct (map gn_number (kr_generations k))
     \<and> {1..int (length (kr_generations k))} \<subseteq> set (map gn_number (kr_generations k))
     \<and> kr_current_generation k \<noteq> None \<and> verify_generations L k [] = None"
proof -
  have s: "set (map int [1..<length (kr_generations k) + 1]) = {1..int (length (kr_generations k))}"
    by (simp only: set_map set_upt Suc_eq_plus1 [symmetric] atLeastLessThanSuc_atLeastAtMost image_int_atLeastAtMost of_nat_1)
  have "first_error (\<lambda>n. if n \<notin> set (map gn_number (kr_generations k)) then Some (GenerationMissing n) else None)
               (map int [1..<length (kr_generations k) + 1]) = None
      \<longleftrightarrow> {1..int (length (kr_generations k))} \<subseteq> set (map gn_number (kr_generations k))"
    unfolding first_error_None s by (auto split: if_splits)
  moreover have "check_each [] (kr_generations k) = None
      \<longleftrightarrow> (\<forall>g \<in> set (kr_generations k). generation_ok g) \<and> distinct (map gn_number (kr_generations k))"
    by (simp add: check_each_None)
  ultimately show ?thesis
    unfolding check_keyring_def
    by (cases "check_each [] (kr_generations k)"; cases "first_error (\<lambda>n. if n \<notin> set (map gn_number (kr_generations k)) then Some (GenerationMissing n) else None)
               (map int [1..<length (kr_generations k) + 1])") (auto simp del: set_map map_eq_conv upt_Suc)
qed

lemma kr_generation_Some: "kr_generation k n = Some g \<Longrightarrow> g \<in> set (kr_generations k) \<and> gn_number g = n"
  by (auto simp: kr_generation_def find_Some_iff)

lemma kr_generation_None: "kr_generation k n = None \<longleftrightarrow> n \<notin> set (map gn_number (kr_generations k))"
  by (auto simp: kr_generation_def find_None_iff)

lemma kr_generation_in:
  assumes "distinct (map gn_number (kr_generations k))" "g \<in> set (kr_generations k)"
  shows "kr_generation k (gn_number g) = Some g"
proof (cases "kr_generation k (gn_number g)")
  case None
  with assms(2) show ?thesis by (simp add: kr_generation_None)
next
  case (Some h)
  from kr_generation_Some [OF this] have "h \<in> set (kr_generations k)" "gn_number h = gn_number g" by simp_all
  with assms have "h = g" by (metis distinct_map inj_onD)
  with Some show ?thesis by simp
qed

lemma verify_generations_None:
  "verify_generations L k pinned = None \<longleftrightarrow> (\<exists>public. parse_account_public_key (kr_account_key k) = Inr public
     \<and> (pinned \<noteq> [] \<longrightarrow> pinned = kr_account_key k) \<and> (\<forall>g \<in> set (kr_generations k). verify_generation L k public (gn_number g) = None))"
  by (auto simp: verify_generations_def first_error_None generation_numbers_def split: sum.splits)

text \<open>Generation numbers of a keyring that passes are exactly one to the number of generations.\<close>

lemma checked_numbers:
  assumes "check_keyring L k = None"
  shows "set (map gn_number (kr_generations k)) = {1..int (length (kr_generations k))}"
proof -
  let ?ns = "map gn_number (kr_generations k)"
  from assms have "distinct ?ns" "{1..int (length ?ns)} \<subseteq> set ?ns" unfolding check_keyring_None by simp_all
  then have "card (set ?ns) = card {1..int (length ?ns)}" by (simp add: distinct_card del: set_map length_map)
  with \<open>{1..int (length ?ns)} \<subseteq> set ?ns\<close> show ?thesis
    using card_subset_eq [of "set ?ns" "{1..int (length ?ns)}"] by auto
qed

definition keyring_small :: "keyring \<Rightarrow> bool" where
  "keyring_small k \<longleftrightarrow> (\<forall>g \<in> set (kr_generations k). generation_small k g (kr_generation k (gn_number g - 1)))"

text \<open>
  C1. A keyring that can be trusted is a prefix of the account's own history. Assume the account key
  has only ever signed the generations of \<open>honest\<close> (so a signature that verifies is over one of their
  messages). Then any object that parses and verifies under that pinned key, whoever wrote it, has
  the profile of the account, no more generations than the account made, and each of its
  generations is the account's generation of that number in everything but the device wraps.
\<close>
theorem verified_keyring_is_honest_prefix:
  assumes parsed: "parse_keyring L J raw = Inr k"
    and pinned: "verify_generations L k (kr_account_key honest) = None" "kr_account_key honest \<noteq> []"
    and honest: "check_keyring L honest = None"
    and unforgeable: "\<And>public m sig. parse_account_public_key (kr_account_key honest) = Inr public \<Longrightarrow> kl_ed_verify L public m sig \<Longrightarrow>
        m \<in> (\<lambda>g. generation_message honest g (kr_generation honest (gn_number g - 1))) ` set (kr_generations honest)"
    and small: "keyring_small k" "keyring_small honest"
  shows "kr_profile k = kr_profile honest \<and> length (kr_generations k) \<le> length (kr_generations honest)
    \<and> (\<forall>n \<in> {1..int (length (kr_generations k))}.
          map_option signed_part (kr_generation k n) = map_option signed_part (kr_generation honest n))"
proof -
  have ck: "check_keyring L k = None" using parsed by (auto simp: parse_keyring_def split: sum.splits option.splits)
  have dk: "distinct (map gn_number (kr_generations k))" and dh: "distinct (map gn_number (kr_generations honest))"
    and ne: "kr_generations k \<noteq> []" using ck honest unfolding check_keyring_None by blast+
  from verify_generations_None [THEN iffD1, OF pinned(1)] pinned(2) obtain public where
      "parse_account_public_key (kr_account_key k) = Inr public" "kr_account_key honest = kr_account_key k"
    and ver: "\<forall>g \<in> set (kr_generations k). verify_generation L k public (gn_number g) = None" by blast
  then have pub: "parse_account_public_key (kr_account_key honest) = Inr public" by simp
  have each: "\<exists>h \<in> set (kr_generations honest). kr_profile k = kr_profile honest \<and> signed_part g = signed_part h"
    if g: "g \<in> set (kr_generations k)" for g
  proof -
    obtain sig where "kl_ed_verify L public (generation_message k g (kr_generation k (gn_number g - 1))) sig"
      using ver [rule_format, OF g] kr_generation_in [OF dk g] by (auto simp: verify_generation_def Let_def split: if_splits option.splits)
    from unforgeable [OF pub this] obtain h where h: "h \<in> set (kr_generations honest)"
      "generation_message k g (kr_generation k (gn_number g - 1)) = generation_message honest h (kr_generation honest (gn_number h - 1))"
      by blast
    have "generation_small k g (kr_generation k (gn_number g - 1))" "generation_small honest h (kr_generation honest (gn_number h - 1))"
      using small g h(1) unfolding keyring_small_def by blast+
    from message_inj [OF this h(2)] h(1) show ?thesis by blast
  qed
  have num: "signed_part g = signed_part h \<Longrightarrow> gn_number g = gn_number h" for g h
    by (drule arg_cong [of _ _ gn_number]) (simp add: signed_part_def)
  have "set (map gn_number (kr_generations k)) \<subseteq> set (map gn_number (kr_generations honest))"
  proof
    fix n assume "n \<in> set (map gn_number (kr_generations k))"
    then obtain g where g: "g \<in> set (kr_generations k)" "n = gn_number g" by auto
    from each [OF g(1)] obtain h where "h \<in> set (kr_generations honest)" "signed_part g = signed_part h" by blast
    with num [of g h] g(2) show "n \<in> set (map gn_number (kr_generations honest))" by auto
  qed
  then have "card (set (map gn_number (kr_generations k))) \<le> card (set (map gn_number (kr_generations honest)))"
    by (intro card_mono) simp_all
  then have len: "length (kr_generations k) \<le> length (kr_generations honest)"
    using distinct_card [OF dk] distinct_card [OF dh] by simp
  have "map_option signed_part (kr_generation k n) = map_option signed_part (kr_generation honest n)"
    if n: "n \<in> {1..int (length (kr_generations k))}" for n
  proof -
    from n checked_numbers [OF ck] have "n \<in> set (map gn_number (kr_generations k))" by blast
    then obtain g where g: "g \<in> set (kr_generations k)" "gn_number g = n" by auto
    from each [OF g(1)] obtain h where h: "h \<in> set (kr_generations honest)" "signed_part g = signed_part h" by blast
    then have "gn_number h = n" using num g(2) by metis
    then show ?thesis using kr_generation_in [OF dk g(1)] kr_generation_in [OF dh h(1)] g(2) h(2) by simp
  qed
  moreover have "kr_profile k = kr_profile honest"
    using each ne by (cases "kr_generations k") auto
  ultimately show ?thesis using len by blast
qed

end
