(* ===== verification/Keyring_Valid.thy ===== *)
theory Keyring_Valid
  imports Keyring_Trust
begin

text \<open>
  Every operation keeps a valid keyring valid, and does what it promises to the devices: enrolment
  and its undo, and the roll-over that revokes.
\<close>

section \<open>Laws of the cryptography\<close>

text \<open>
  The documented behaviour of the libraries: a signature made with a key verifies under it, a
  sealed text opens under the same key, nonce and associated data, and age opens what was sealed
  to an identity's recipient, never producing an empty text; a parsed recipient is spelled the way
  it was parsed.
\<close>

definition crypto_laws :: "key_lib \<Rightarrow> bool" where
  "crypto_laws L \<longleftrightarrow>
     (\<forall>seed m. kl_ed_verify L (sum_bytes (kl_ed_public L seed)) m (word_bytes 64 (kl_ed_sign L seed m)))
     \<and> (\<forall>key nonce p aad. kl_open L key nonce (kl_seal L key nonce p aad) aad = Some p)
     \<and> (\<forall>seed i p. ag_open (kl_age L) i (ag_seal (kl_age L) seed (ag_recipient (kl_age L) i) p) = Inr p)
     \<and> (\<forall>seed r p. ag_seal (kl_age L) seed r p \<noteq> [])
     \<and> (\<forall>s r. ag_parse_recipient (kl_age L) s = Inr r \<longrightarrow> r = s)"

section \<open>Editing the devices of one generation\<close>

lemma edit_generation_map:
  "distinct (map gn_number gs) \<Longrightarrow> edit_generation n f gs = map (\<lambda>g. if gn_number g = n then f g else g) gs"
proof (induction gs)
  case (Cons g gs)
  have "gn_number x \<noteq> n" if "gn_number g = n" "x \<in> set gs" for x
    using Cons.prems that by (metis distinct.simps(2) image_eqI list.simps(9) set_map)
  then have "gn_number g = n \<Longrightarrow> map (\<lambda>g. if gn_number g = n then f g else g) gs = gs"
    by (intro map_idI) simp
  with Cons show ?case by simp
qed simp

definition with_devices :: "int \<Rightarrow> (device_wrap list \<Rightarrow> device_wrap list) \<Rightarrow> generation \<Rightarrow> generation" where
  "with_devices n f g = (if gn_number g = n then g\<lparr>gn_devices := f (gn_devices g)\<rparr> else g)"

lemma with_devices_simps [simp]:
  "gn_number (with_devices n f g) = gn_number g" "gn_recipient (with_devices n f g) = gn_recipient g"
  "gn_signature (with_devices n f g) = gn_signature g" "gn_recovery (with_devices n f g) = gn_recovery g"
  "signed_part (with_devices n f g) = signed_part g"
  "gn_devices (with_devices n f g) = (if gn_number g = n then f (gn_devices g) else gn_devices g)"
  by (simp_all add: with_devices_def signed_part_def)

lemma with_devices_shape [simp]: "check_signature_shape (with_devices n f g) = check_signature_shape g"
  by (cases "b64_decode (gn_signature g)") (simp_all add: check_signature_shape_def)

lemma edit_devices_map:
  assumes "distinct (map gn_number (kr_generations k))"
  shows "edit_devices n f k = k\<lparr>kr_generations := map (with_devices n f) (kr_generations k)\<rparr>"
  by (simp add: edit_devices_def edit_generation_map [OF assms] with_devices_def cong: map_cong)

lemma edit_devices_fields [simp]:
  "kr_current (edit_devices n f k) = kr_current k" "kr_profile (edit_devices n f k) = kr_profile k"
  "kr_account_key (edit_devices n f k) = kr_account_key k" "kr_schema (edit_devices n f k) = kr_schema k"
  by (simp_all add: edit_devices_def)

lemma find_map_number:
  "(\<And>g. gn_number (h g) = gn_number g) \<Longrightarrow> find (\<lambda>g. gn_number g = m) (map h gs) = map_option h (find (\<lambda>g. gn_number g = m) gs)"
  by (induction gs) simp_all

lemma kr_generation_edit:
  assumes "distinct (map gn_number (kr_generations k))"
  shows "kr_generation (edit_devices n f k) m = map_option (with_devices n f) (kr_generation k m)"
  by (simp add: edit_devices_map [OF assms] kr_generation_def find_map_number)

text \<open>The message of a generation depends only on its signed part and its predecessor's name.\<close>

lemma generation_message_cong:
  assumes "kr_profile k' = kr_profile k" "kr_account_key k' = kr_account_key k" "signed_part g' = signed_part g"
    and "map_option (\<lambda>p. (gn_number p, gn_recipient p)) prev' = map_option (\<lambda>p. (gn_number p, gn_recipient p)) prev"
  shows "generation_message k' g' prev' = generation_message k g prev"
proof -
  have s: "gn_number g' = gn_number g" "gn_created_at g' = gn_created_at g" "gn_recipient g' = gn_recipient g"
    "gn_revoked g' = gn_revoked g" "gn_recovery g' = gn_recovery g"
    using assms(3) by (cases g; cases g'; simp add: signed_part_def)+
  have p: "(case prev' of None \<Rightarrow> 0 | Some p \<Rightarrow> gn_number p) = (case prev of None \<Rightarrow> 0 | Some p \<Rightarrow> gn_number p)"
    "(case prev' of None \<Rightarrow> [] | Some p \<Rightarrow> gn_recipient p) = (case prev of None \<Rightarrow> [] | Some p \<Rightarrow> gn_recipient p)"
    using assms(4) by (cases prev'; cases prev; simp)+
  show ?thesis unfolding generation_message_def generation_fields_def s p assms(1,2) ..
qed

lemma verify_generation_cong:
  assumes "kr_profile k' = kr_profile k" "kr_account_key k' = kr_account_key k"
    and "kr_generation k n = Some g" "kr_generation k' n = Some g'" "signed_part g' = signed_part g" "gn_signature g' = gn_signature g"
    and "map_option (\<lambda>p. (gn_number p, gn_recipient p)) (kr_generation k' (n - 1))
       = map_option (\<lambda>p. (gn_number p, gn_recipient p)) (kr_generation k (n - 1))"
  shows "verify_generation L k' public n = verify_generation L k public n"
proof -
  have "kr_generation k' (n - 1) = None \<longleftrightarrow> kr_generation k (n - 1) = None"
    using assms(7) by (cases "kr_generation k' (n - 1)"; cases "kr_generation k (n - 1)") simp_all
  then show ?thesis
    using generation_message_cong [OF assms(1,2,5,7)]
    by (cases "b64_decode (gn_signature g)") (simp_all add: verify_generation_def assms(3,4,6) Let_def)
qed

definition devices_ok :: "device_wrap list \<Rightarrow> bool" where
  "devices_ok ds \<longleftrightarrow> [] \<notin> set (map dw_device ds) \<and> distinct (map dw_device ds) \<and> (\<forall>d \<in> set ds. dw_format d = wrap_format_bound)"

lemma generation_ok_iff:
  "generation_ok g \<longleftrightarrow> 0 < gn_number g \<and> devices_ok (gn_devices g) \<and> rw_format (gn_recovery g) = wrap_format_bound
     \<and> check_signature_shape g = None"
  by (auto simp: generation_ok_def devices_ok_def)

lemma edit_devices_valid:
  assumes ok: "check_keyring L k = None"
    and f: "\<And>g. kr_generation k n = Some g \<Longrightarrow> devices_ok (f (gn_devices g))"
  shows "check_keyring L (edit_devices n f k) = None"
proof -
  let ?k = "edit_devices n f k"
  note c = check_keyring_None [THEN iffD1, OF ok]
  then have d: "distinct (map gn_number (kr_generations k))" by blast
  have gens: "kr_generations ?k = map (with_devices n f) (kr_generations k)" "kr_profile ?k = kr_profile k"
    "kr_account_key ?k = kr_account_key k" "kr_schema ?k = kr_schema k" "kr_current ?k = kr_current k"
    by (simp_all add: edit_devices_map [OF d])
  have nums: "map gn_number (kr_generations ?k) = map gn_number (kr_generations k)" by (simp add: gens)
  have "generation_ok (with_devices n f g)" if g: "g \<in> set (kr_generations k)" for g
  proof -
    have "generation_ok g" using c g by blast
    moreover have "gn_number g = n \<Longrightarrow> devices_ok (f (gn_devices g))" using f kr_generation_in [OF d g] by simp
    ultimately show ?thesis by (simp add: generation_ok_iff)
  qed
  then have each: "\<forall>g \<in> set (kr_generations ?k). generation_ok g" by (simp add: gens)
  from c obtain public where pub: "parse_account_public_key (kr_account_key k) = Inr public"
    and ver: "\<forall>g \<in> set (kr_generations k). verify_generation L k public (gn_number g) = None"
    unfolding verify_generations_None by blast
  have "verify_generation L ?k public (gn_number g) = None" if g: "g \<in> set (kr_generations k)" for g
  proof -
    have "verify_generation L ?k public (gn_number g) = verify_generation L k public (gn_number g)"
      by (rule verify_generation_cong [of _ _ _ g "with_devices n f g"])
        (simp_all add: gens kr_generation_edit [OF d] kr_generation_in [OF d g] option.map_comp comp_def)
    with ver g show ?thesis by simp
  qed
  then have "verify_generations L ?k [] = None"
    unfolding verify_generations_None using pub by (auto simp: gens)
  moreover have "kr_current_generation ?k \<noteq> None"
    using c by (simp add: kr_current_generation_def kr_generation_edit [OF d] gens)
  moreover have "length (kr_generations ?k) = length (kr_generations k)" "kr_generations ?k \<noteq> []" using c by (simp_all add: gens)
  ultimately show ?thesis
    unfolding check_keyring_None nums using c each gens(2-5) by auto
qed

section \<open>A wrap opens for its device and for nothing else\<close>

lemma b64_nonempty: "b \<noteq> [] \<Longrightarrow> b64_encode b \<noteq> []"
  by (metis b64_decode_encode b64_encode.simps(1) option.inject)

lemma root_recipient_size: "root_recipient L root = Inr r \<Longrightarrow> length root = root_key_size"
  by (auto simp: root_recipient_def root_key_identity_def split: if_splits)

lemma unwrap_device_hit:
  assumes laws: "crypto_laws L"
    and hit: "find (\<lambda>d. dw_device d = device) (gn_devices g) = Some w"
    and w: "dw_public w = ag_recipient (kl_age L) i" "dw_format w = wrap_format_bound"
      "dw_wrap w = b64_encode (seal_for_device L seed root (ag_recipient (kl_age L) i) b)"
    and root: "root_recipient L root = Inr (gn_recipient g)"
  shows "unwrap_device L g device i b = Inr root"
proof -
  have "ag_open (kl_age L) i (seal_for_device L seed root (ag_recipient (kl_age L) i) b) = Inr (device_prefix b @ root)"
    using laws by (simp add: crypto_laws_def seal_for_device_def)
  moreover obtain j where "root_key_identity (kl_age L) root = Inr j" "ag_recipient (kl_age L) j = gn_recipient g"
    using root by (cases "root_key_identity (kl_age L) root") (auto simp: root_recipient_def)
  ultimately show ?thesis
    using hit w root_recipient_size [OF root] by (simp add: unwrap_device_def b64_decode_encode Let_def)
qed

lemma unwrap_device_cong:
  assumes "find (\<lambda>d. dw_device d = e) (gn_devices g') = find (\<lambda>d. dw_device d = e) (gn_devices g)"
    and "gn_number g' = gn_number g" "gn_recipient g' = gn_recipient g"
  shows "unwrap_device L g' e j b = unwrap_device L g e j b"
  unfolding unwrap_device_def assms ..

lemma unwrap_device_Inr:
  assumes "unwrap_device L g device i b = Inr key"
  shows "root_recipient L key = Inr (gn_recipient g) \<and> (\<exists>d \<in> set (gn_devices g). dw_device d = device \<and> dw_public d = ag_recipient (kl_age L) i)"
proof -
  from assms obtain d where d: "find (\<lambda>d. dw_device d = device) (gn_devices g) = Some d" "dw_public d = ag_recipient (kl_age L) i"
    by (auto simp: unwrap_device_def split: option.splits if_splits)
  have "\<exists>j. root_key_identity (kl_age L) key = Inr j \<and> ag_recipient (kl_age L) j = gn_recipient g"
    using assms d by (auto simp: unwrap_device_def Let_def split: option.splits if_splits sum.splits)
  moreover from d(1) have "d \<in> set (gn_devices g)" "dw_device d = device" by (auto simp: find_Some_iff)
  ultimately show ?thesis using d(2) by (auto simp: root_recipient_def)
qed


section \<open>Enrolment\<close>

lemma find_append: "find P (xs @ ys) = (case find P xs of None \<Rightarrow> find P ys | Some x \<Rightarrow> Some x)"
  by (induction xs) auto

lemma enrol_facts:
  assumes "enrol L seed root device (Some r) now k = Inr k'"
  shows "\<exists>g. kr_current_generation k = Some g \<and> device \<noteq> [] \<and> root_recipient L root = Inr (gn_recipient g)
    \<and> device \<notin> set (map dw_device (gn_devices g))
    \<and> k' = edit_devices (kr_current k) (\<lambda>ds. ds @ [wrap_for_device L seed root device r now (binding_for k g)]) k"
  using assms
  by (auto simp: enrol_def check_current_root_key_def has_device_def list_ex_iff split: option.splits sum.splits if_splits)

text \<open>
  C19. Enrolment works and disturbs nothing: enrolling a device in a valid keyring leaves it valid,
  changes no signed part of any generation, unwraps the same root key for the new device, and leaves every
  other device's access to the current generation exactly as it was.
\<close>
theorem enrol_correct:
  assumes "crypto_laws L" "check_keyring L k = None"
    and "enrol L seed root device (Some (ag_recipient (kl_age L) i)) now k = Inr k'"
  shows "check_keyring L k' = None \<and> map signed_part (kr_generations k') = map signed_part (kr_generations k)
    \<and> (\<exists>g'. kr_current_generation k' = Some g' \<and> unwrap_device L g' device i (binding_for k' g') = Inr root
        \<and> (\<forall>g d j. kr_current_generation k = Some g \<longrightarrow> d \<noteq> device \<longrightarrow>
              unwrap_device L g' d j (binding_for k' g') = unwrap_device L g d j (binding_for k g)))"
proof -
  from enrol_facts [OF assms(3)] obtain g where g: "kr_current_generation k = Some g" "device \<noteq> []"
    "root_recipient L root = Inr (gn_recipient g)" "device \<notin> set (map dw_device (gn_devices g))"
    and k': "k' = edit_devices (kr_current k) (\<lambda>ds. ds @ [wrap_for_device L seed root device (ag_recipient (kl_age L) i) now (binding_for k g)]) k"
    by blast
  let ?w = "wrap_for_device L seed root device (ag_recipient (kl_age L) i) now (binding_for k g)"
  let ?g = "with_devices (kr_current k) (\<lambda>ds. ds @ [?w]) g"
  have c: "\<forall>g \<in> set (kr_generations k). generation_ok g" and d: "distinct (map gn_number (kr_generations k))"
    using check_keyring_None [THEN iffD1, OF assms(2)] by blast+
  have gk: "kr_generation k (kr_current k) = Some g" using g(1) by (simp add: kr_current_generation_def)
  note gm = kr_generation_Some [OF gk]
  have valid: "check_keyring L k' = None"
    unfolding k'
  proof (rule edit_devices_valid [OF assms(2)])
    fix h assume "kr_generation k (kr_current k) = Some h"
    with gk have "h = g" by simp
    with c gm have "devices_ok (gn_devices h)" by (simp add: generation_ok_iff)
    with g(2,4) \<open>h = g\<close> show "devices_ok (gn_devices h @ [?w])" by (auto simp: devices_ok_def wrap_for_device_def)
  qed
  have sp: "map signed_part (kr_generations k') = map signed_part (kr_generations k)"
    by (simp add: k' edit_devices_map [OF d])
  have cur: "kr_current_generation k' = Some ?g" "binding_for k' ?g = binding_for k g" "gn_devices ?g = gn_devices g @ [?w]"
    using gm by (simp_all add: k' kr_current_generation_def kr_generation_edit [OF d] gk binding_for_def)
  have "find (\<lambda>d. dw_device d = device) (gn_devices g) = None" using g(4) by (auto simp: find_None_iff)
  then have "find (\<lambda>d. dw_device d = device) (gn_devices ?g) = Some ?w"
    using gm by (simp add: find_append wrap_for_device_def)
  then have own: "unwrap_device L ?g device i (binding_for k' ?g) = Inr root"
    unfolding cur(2) by (rule unwrap_device_hit [OF assms(1)]) (simp_all add: wrap_for_device_def g(3))
  have "unwrap_device L ?g e j b = unwrap_device L g e j b" if "e \<noteq> device" for e j b
  proof -
    have "find (\<lambda>d. dw_device d = e) (gn_devices ?g) = find (\<lambda>d. dw_device d = e) (gn_devices g)"
      using that gm by (simp add: find_append wrap_for_device_def split: option.splits)
    then show ?thesis by (rule unwrap_device_cong) simp_all
  qed
  with valid sp cur own g(1) show ?thesis by auto
qed

section \<open>Roll-over\<close>

lemma rewrap_facts:
  assumes "rewrap L seed i root revoke by_device now b ds = Inr (rs, ws)"
    and parse: "\<And>s r. ag_parse_recipient (kl_age L) s = Inr r \<Longrightarrow> r = s"
  shows "map dw_device ws = map dw_device (filter (\<lambda>d. dw_device d \<notin> set revoke) ds)
    \<and> map rv_device rs = map dw_device (filter (\<lambda>d. dw_device d \<in> set revoke) ds)
    \<and> (\<forall>w \<in> set ws. dw_format w = wrap_format_bound
         \<and> (\<exists>d \<in> set ds. dw_device w = dw_device d \<and> dw_public w = dw_public d \<and> dw_enrolled_at w = dw_enrolled_at d)
         \<and> (\<exists>sd. dw_wrap w = b64_encode (seal_for_device L sd root (dw_public w) b)))"
  using assms(1)
proof (induction ds arbitrary: i rs ws)
  case (Cons d ds)
  show ?case
  proof (cases "dw_device d \<in> set revoke")
    case True
    with Cons.prems obtain rs' where "rewrap L seed (Suc i) root revoke by_device now b ds = Inr (rs', ws)"
      "rs = \<lparr>rv_device = dw_device d, rv_at = now, rv_by = by_device\<rparr> # rs'" by (auto split: sum.splits)
    with Cons.IH [OF this(1)] True show ?thesis by auto
  next
    case False
    with Cons.prems obtain r ws' where r: "ag_parse_recipient (kl_age L) (dw_public d) = Inr r"
      and rest: "rewrap L seed (Suc i) root revoke by_device now b ds = Inr (rs, ws')"
      and ws: "ws = (wrap_for_device L (seed i) root (dw_device d) r now b)\<lparr>dw_enrolled_at := dw_enrolled_at d\<rparr> # ws'"
      by (auto split: sum.splits)
    have "r = dw_public d" using parse [OF r] .
    with Cons.IH [OF rest] False ws show ?thesis by (auto simp: wrap_for_device_def)
  qed
qed simp

lemma wrap_recovery_facts:
  assumes "wrap_under_recovery_code L salt nonce root code b = Inr w"
  shows "rw_format w = wrap_format_bound \<and> rw_kdf w = recovery_kdf_name \<and> rw_salt w = b64_encode salt
    \<and> rw_wrap w = b64_encode (nonce @ kl_seal L (derive_recovery_key L code salt w) nonce root (recovery_aad b))"
  using assms by (auto simp: wrap_under_recovery_code_def Let_def derive_recovery_key_def split: sum.splits)

lemma unwrap_recovery_hit:
  assumes laws: "crypto_laws L" and wrap: "wrap_under_recovery_code L salt nonce root code b = Inr w"
    and canonical: "normalize_recovery_code (kl_sha L) code = Inr code"
    and sizes: "length nonce = nonce_size" "length root = root_key_size"
  shows "unwrap_recovery L w code b = Inr root"
  using wrap_recovery_facts [OF wrap] laws canonical sizes
  by (simp add: unwrap_recovery_def b64_decode_encode crypto_laws_def)

lemma account_signature_verifies:
  assumes "crypto_laws L" "derive_account_key L profile code = Inr a"
  shows "parse_account_public_key (ak_public a) = Inr (sum_bytes (kl_ed_public L (ak_seed a)))"
    and "b64_decode (account_sign L a m) = Some (word_bytes 64 (kl_ed_sign L (ak_seed a) m))"
    and "kl_ed_verify L (sum_bytes (kl_ed_public L (ak_seed a))) m (word_bytes 64 (kl_ed_sign L (ak_seed a) m))"
    and "profile \<noteq> []"
proof -
  have pub: "ak_public a = b64_encode (sum_bytes (kl_ed_public L (ak_seed a)))" and prof: "profile \<noteq> []"
    using assms(2) by (auto simp: derive_account_key_def Let_def split: if_splits sum.splits)
  have "sum_bytes (kl_ed_public L (ak_seed a)) \<noteq> []"
    by (metis length_sum_bytes list.size(3) zero_neq_numeral)
  then show "parse_account_public_key (ak_public a) = Inr (sum_bytes (kl_ed_public L (ak_seed a)))"
    using b64_nonempty by (simp add: parse_account_public_key_def pub b64_decode_encode)
  show "b64_decode (account_sign L a m) = Some (word_bytes 64 (kl_ed_sign L (ak_seed a) m))"
    by (simp add: account_sign_def b64_decode_encode)
  show "kl_ed_verify L (sum_bytes (kl_ed_public L (ak_seed a))) m (word_bytes 64 (kl_ed_sign L (ak_seed a) m))"
    using assms(1) by (simp add: crypto_laws_def)
  show "profile \<noteq> []" by (rule prof)
qed

text \<open>In a valid keyring the highest generation number is the number of generations.\<close>

lemma foldl_max: "foldl (\<lambda>n g. if gn_number g > n then gn_number g else n) m gs = fold max (map gn_number gs) m"
  by (induction gs arbitrary: m) (auto simp: max_def)

lemma max_generation_length:
  assumes "check_keyring L k = None"
  shows "max_generation k = int (length (kr_generations k))"
proof -
  have "max_generation k = Max (set (0 # map gn_number (kr_generations k)))"
    unfolding max_generation_def foldl_max by (rule Max.set_eq_fold [symmetric])
  also have "set (0 # map gn_number (kr_generations k)) = {0..int (length (kr_generations k))}"
    using checked_numbers [OF assms] by auto
  also have "Max {0..int (length (kr_generations k))} = int (length (kr_generations k))" by (rule Max_eqI) auto
  finally show ?thesis .
qed

definition unsigned_generation :: "keyring \<Rightarrow> string \<Rightarrow> string \<Rightarrow> recovery_wrap \<Rightarrow> device_wrap list \<Rightarrow> revocation list \<Rightarrow> generation" where
  "unsigned_generation k now recipient recovery devices revoked =
     \<lparr>gn_number = max_generation k + 1, gn_created_at = now, gn_recipient = recipient, gn_recovery = recovery,
      gn_devices = devices, gn_revoked = revoked, gn_signature = []\<rparr>"

lemma rollover_facts:
  assumes "rollover L seed fresh salt nonce root code revoke by_device now k = Inr (fresh', k')"
  obtains g account recovery recipient revoked devices where "kr_current_generation k = Some g" "fresh' = fresh"
    "derive_account_key L (kr_profile k) code = Inr account" "ak_public account = kr_account_key k"
    "check_revoke k by_device revoke = None" "root_recipient L fresh = Inr recipient"
    "wrap_under_recovery_code L salt nonce fresh code (kr_profile k, max_generation k + 1) = Inr recovery"
    "rewrap L seed 0 fresh revoke by_device now (kr_profile k, max_generation k + 1) (gn_devices g) = Inr (revoked, devices)"
    "k' = k\<lparr>kr_generations := kr_generations k @ [(unsigned_generation k now recipient recovery devices revoked)
           \<lparr>gn_signature := account_sign L account (generation_message k (unsigned_generation k now recipient recovery devices revoked) (Some g))\<rparr>],
         kr_current := max_generation k + 1, kr_schema := keyring_schema_version\<rparr>"
proof -
  obtain g where g: "kr_current_generation k = Some g"
    using assms by (auto simp: rollover_def split: option.splits)
  note r1 = assms [unfolded rollover_def g Let_def, simplified option.case]
  have "revoke \<noteq> []" "check_current_root_key L g root = None" using r1 by (auto split: if_splits option.splits)
  note r2 = r1 [unfolded this(2), simplified this(1) if_False option.case]
  obtain old where "unwrap_recovery L (gn_recovery g) code (binding_for k g) = Inr old" using r2 by (auto split: sum.splits)
  note r3 = r2 [unfolded this, simplified sum.case]
  obtain account where acc: "derive_account_key L (kr_profile k) code = Inr account" using r3 by (auto split: sum.splits)
  note r4 = r3 [unfolded this, simplified sum.case]
  have key: "ak_public account = kr_account_key k" using r4 by (auto split: if_splits)
  have rev: "check_revoke k by_device revoke = None" using r4 key by (auto split: if_splits option.splits)
  obtain recipient where rc: "root_recipient L fresh = Inr recipient"
    using r4 key rev by (auto split: if_splits sum.splits)
  obtain recovery where rw: "wrap_under_recovery_code L salt nonce fresh code (kr_profile k, max_generation k + 1) = Inr recovery"
    using r4 key rev rc by (auto split: if_splits sum.splits)
  obtain revoked devices where rd: "rewrap L seed 0 fresh revoke by_device now (kr_profile k, max_generation k + 1) (gn_devices g) = Inr (revoked, devices)"
    using r4 key rev rc rw by (auto split: if_splits sum.splits)
  have "fresh' = fresh" "k' = k\<lparr>kr_generations := kr_generations k @ [(unsigned_generation k now recipient recovery devices revoked)
           \<lparr>gn_signature := account_sign L account (generation_message k (unsigned_generation k now recipient recovery devices revoked) (Some g))\<rparr>],
         kr_current := max_generation k + 1, kr_schema := keyring_schema_version\<rparr>"
    using r4 key rev rc rw rd by (auto simp: sign_generation_def unsigned_generation_def split: if_splits)
  with that g acc key rev rc rw rd show thesis by blast
qed

lemma check_revoke_None: "check_revoke k by_device ds = None \<longleftrightarrow> (\<forall>d \<in> set ds. d \<noteq> by_device \<and> has_device k d)"
  by (induction ds) auto

text \<open>A keyring with one more generation at the end, signed over its last one.\<close>

lemma append_generation_valid:
  assumes ok: "check_keyring L k = None"
    and N: "gn_number N = int (length (kr_generations k)) + 1" "generation_ok N"
    and k': "k' = k\<lparr>kr_generations := kr_generations k @ [N], kr_current := gn_number N, kr_schema := keyring_schema_version\<rparr>"
    and pub: "parse_account_public_key (kr_account_key k) = Inr public"
    and sig: "b64_decode (gn_signature N) = Some sig" "length sig = 64"
      "kl_ed_verify L public (generation_message k N (kr_generation k (int (length (kr_generations k))))) sig"
  shows "check_keyring L k' = None"
proof -
  let ?n = "int (length (kr_generations k))"
  note c = check_keyring_None [THEN iffD1, OF ok] and nums = checked_numbers [OF ok]
  then have d: "distinct (map gn_number (kr_generations k))" and ne: "kr_generations k \<noteq> []" by blast+
  have fields: "kr_profile k' = kr_profile k" "kr_account_key k' = kr_account_key k" "kr_schema k' = keyring_schema_version"
    "kr_generations k' = kr_generations k @ [N]" "kr_current k' = ?n + 1" by (simp_all add: k' N(1))
  have old: "kr_generation k' m = kr_generation k m" if "m \<noteq> ?n + 1" for m
    using that N(1) by (simp add: kr_generation_def fields find_append split: option.splits)
  have new: "kr_generation k' (?n + 1) = Some N"
  proof -
    have "kr_generation k (?n + 1) = None" unfolding kr_generation_None nums by simp
    then show ?thesis using N(1) by (simp add: kr_generation_def fields find_append)
  qed
  have d': "distinct (map gn_number (kr_generations k'))"
  proof -
    have "?n + 1 \<notin> set (map gn_number (kr_generations k))" unfolding nums by simp
    with d show ?thesis by (simp add: fields N(1))
  qed
  have cover: "{1..int (length (kr_generations k'))} \<subseteq> set (map gn_number (kr_generations k'))"
  proof -
    have "set (map gn_number (kr_generations k')) = insert (?n + 1) {1..?n}" using nums by (simp add: fields N(1))
    then show ?thesis by (auto simp: fields)
  qed
  have ver_old: "verify_generation L k' public (gn_number g) = None" if g: "g \<in> set (kr_generations k)" for g
  proof -
    have "gn_number g \<in> {1..?n}" using g nums by force
    then have "verify_generation L k' public (gn_number g) = verify_generation L k public (gn_number g)"
      by (intro verify_generation_cong [of _ _ _ g g]) (simp_all add: fields old kr_generation_in [OF d g])
    moreover from c obtain p2 where "parse_account_public_key (kr_account_key k) = Inr p2"
      "\<forall>g \<in> set (kr_generations k). verify_generation L k p2 (gn_number g) = None" unfolding verify_generations_None by blast
    ultimately show ?thesis using pub g by auto
  qed
  have prev: "kr_generation k' ?n = kr_generation k ?n" by (rule old) simp
  have "kr_generation k ?n \<noteq> None" using nums ne unfolding kr_generation_None by (cases "kr_generations k") auto
  then obtain p where p: "kr_generation k ?n = Some p" by blast
  have "generation_message k' N (Some p) = generation_message k N (Some p)"
    by (rule generation_message_cong) (simp_all add: fields)
  then have msg: "kl_ed_verify L public (generation_message k' N (Some p)) sig" using sig(3) p by simp
  have ver_new: "verify_generation L k' public (?n + 1) = None"
    using sig(1,2) msg p by (simp add: verify_generation_def new prev)
  have "verify_generations L k' [] = None"
    unfolding verify_generations_None using pub ver_old ver_new by (auto simp: fields N(1))
  moreover have "kr_current_generation k' \<noteq> None" by (simp add: kr_current_generation_def fields new)
  ultimately show ?thesis
    unfolding check_keyring_None using c N(2) d' cover fields by auto
qed

text \<open>
  C2. Revocation by roll-over. Rolling a valid keyring over (from its last generation, with the
  canonical recovery code) appends exactly one generation and touches no other; the result is valid; no
  revoked device can unwrap it under any identity; every other enrolled device unwraps the fresh
  root key with the identity its listed public key belongs to; and the recovery code unwraps it.
\<close>
theorem rollover_revokes:
  assumes laws: "crypto_laws L" and ok: "check_keyring L k = None" and last: "kr_current k = max_generation k"
    and canonical: "normalize_recovery_code (kl_sha L) code = Inr code" and nonce: "length nonce = nonce_size"
    and run: "rollover L seed fresh salt nonce root code revoke by_device now k = Inr (fresh', k')"
  shows "check_keyring L k' = None \<and> fresh' = fresh \<and> kr_current k' = kr_current k + 1
    \<and> (\<exists>g'. kr_generations k' = kr_generations k @ [g'] \<and> kr_current_generation k' = Some g'
        \<and> (\<forall>d \<in> set revoke. \<forall>j. unwrap_device L g' d j (binding_for k' g') = Inl NotEnrolled)
        \<and> (\<forall>d j. has_device k d \<longrightarrow> d \<notin> set revoke \<longrightarrow> device_public_key k d = ag_recipient (kl_age L) j \<longrightarrow>
              unwrap_device L g' d j (binding_for k' g') = Inr fresh))
    \<and> unwrap_with_recovery_code L k' code = Inr fresh"
proof -
  obtain g account recovery recipient revoked devices where f: "kr_current_generation k = Some g" "fresh' = fresh"
    "derive_account_key L (kr_profile k) code = Inr account" "ak_public account = kr_account_key k"
    "root_recipient L fresh = Inr recipient"
    "wrap_under_recovery_code L salt nonce fresh code (kr_profile k, max_generation k + 1) = Inr recovery"
    "rewrap L seed 0 fresh revoke by_device now (kr_profile k, max_generation k + 1) (gn_devices g) = Inr (revoked, devices)"
    and k': "k' = k\<lparr>kr_generations := kr_generations k @ [(unsigned_generation k now recipient recovery devices revoked)
           \<lparr>gn_signature := account_sign L account (generation_message k (unsigned_generation k now recipient recovery devices revoked) (Some g))\<rparr>],
         kr_current := max_generation k + 1, kr_schema := keyring_schema_version\<rparr>"
    using rollover_facts [OF run] by metis
  let ?U = "unsigned_generation k now recipient recovery devices revoked"
  let ?N = "?U\<lparr>gn_signature := account_sign L account (generation_message k ?U (Some g))\<rparr>"
  let ?n = "int (length (kr_generations k))"
  have mx: "max_generation k = ?n" by (rule max_generation_length [OF ok])
  note sv = account_signature_verifies [OF laws f(3)]
  have parse: "\<And>s r. ag_parse_recipient (kl_age L) s = Inr r \<Longrightarrow> r = s" using laws by (simp add: crypto_laws_def)
  note rw = rewrap_facts [OF f(7) parse]
  note c = check_keyring_None [THEN iffD1, OF ok]
  then have d: "distinct (map gn_number (kr_generations k))" by blast
  have gk: "kr_generation k (max_generation k) = Some g" using f(1) last by (simp add: kr_current_generation_def)
  have "generation_ok g" using c kr_generation_Some [OF gk] by blast
  then have gd: "[] \<notin> set (map dw_device (gn_devices g))" "distinct (map dw_device (gn_devices g))" by (simp_all add: generation_ok_def)
  have devs: "map dw_device devices = map dw_device (filter (\<lambda>d. dw_device d \<notin> set revoke) (gn_devices g))" using rw by blast
  have dd: "distinct (map dw_device devices)" "[] \<notin> set (map dw_device devices)"
    unfolding devs using gd by (auto simp: distinct_map_filter)
  have N: "gn_number ?N = ?n + 1" "gn_devices ?N = devices" "gn_recipient ?N = recipient" "gn_recovery ?N = recovery"
    by (simp_all add: unsigned_generation_def mx)
  have "generation_ok ?N"
    unfolding generation_ok_def check_signature_shape_def
    using dd rw wrap_recovery_facts [OF f(6)] sv(2) by (simp add: unsigned_generation_def mx)
  moreover have "generation_message k ?N (kr_generation k ?n) = generation_message k ?U (Some g)"
    using gk mx by (intro generation_message_cong) (simp_all add: signed_part_def)
  ultimately have msg: "generation_ok ?N" "generation_message k ?N (kr_generation k ?n) = generation_message k ?U (Some g)"
    by blast+
  have valid: "check_keyring L k' = None"
  proof (rule append_generation_valid [OF ok N(1) msg(1)])
    show "k' = k\<lparr>kr_generations := kr_generations k @ [?N], kr_current := gn_number ?N, kr_schema := keyring_schema_version\<rparr>"
      unfolding N(1) k' mx by (rule refl)
    show "parse_account_public_key (kr_account_key k) = Inr (sum_bytes (kl_ed_public L (ak_seed account)))"
      using sv(1) f(4) by simp
    show "b64_decode (gn_signature ?N) = Some (word_bytes 64 (kl_ed_sign L (ak_seed account) (generation_message k ?U (Some g))))"
      using sv(2) by simp
    show "kl_ed_verify L (sum_bytes (kl_ed_public L (ak_seed account))) (generation_message k ?N (kr_generation k ?n))
        (word_bytes 64 (kl_ed_sign L (ak_seed account) (generation_message k ?U (Some g))))"
      unfolding msg(2) by (rule sv(3))
  qed (rule length_word_bytes)
  have "kr_generation k (?n + 1) = None" unfolding kr_generation_None checked_numbers [OF ok] by simp
  then have cur: "kr_current_generation k' = Some ?N"
    using N(1) by (simp add: k' kr_current_generation_def kr_generation_def find_append mx)
  have bind: "binding_for k' ?N = (kr_profile k, max_generation k + 1)" using N(1) by (simp add: binding_for_def k' mx)
  have gone: "unwrap_device L ?N x j b = Inl NotEnrolled" if "x \<in> set revoke" for x j b
  proof -
    have "x \<notin> set (map dw_device devices)" unfolding devs using that by auto
    then have "find (\<lambda>d. dw_device d = x) devices = None" by (auto simp: find_None_iff)
    then show ?thesis using N(2) by (simp add: unwrap_device_def)
  qed
  have keep: "unwrap_device L ?N x j (binding_for k' ?N) = Inr fresh"
    if x: "has_device k x" "x \<notin> set revoke" "device_public_key k x = ag_recipient (kl_age L) j" for x j
  proof -
    have "x \<in> set (map dw_device devices)" unfolding devs using x(1,2) f(1) by (auto simp: has_device_def list_ex_iff)
    then obtain w where w: "find (\<lambda>d. dw_device d = x) devices = Some w"
      by (cases "find (\<lambda>d. dw_device d = x) devices") (auto simp: find_None_iff)
    then have wm: "w \<in> set devices" "dw_device w = x" by (auto simp: find_Some_iff)
    with rw obtain e sd where e: "e \<in> set (gn_devices g)" "dw_device w = dw_device e" "dw_public w = dw_public e"
      and fmt: "dw_format w = wrap_format_bound"
      and sd: "dw_wrap w = b64_encode (seal_for_device L sd fresh (dw_public w) (kr_profile k, max_generation k + 1))" by blast
    have "find (\<lambda>d. dw_device d = x) (gn_devices g) = Some e"
    proof (cases "find (\<lambda>d. dw_device d = x) (gn_devices g)")
      case None
      with e wm(2) show ?thesis by (auto simp: find_None_iff)
    next
      case (Some e')
      then have "e' \<in> set (gn_devices g)" "dw_device e' = x" by (auto simp: find_Some_iff)
      with e wm(2) gd(2) have "e' = e" by (metis distinct_map inj_onD)
      with Some show ?thesis by simp
    qed
    with x(3) f(1) have "dw_public e = ag_recipient (kl_age L) j" by (simp add: device_public_key_def)
    with e fmt sd w f(5) N show ?thesis
      unfolding bind by (intro unwrap_device_hit [OF laws, of x _ w]) simp_all
  qed
  have code: "unwrap_with_recovery_code L k' code = Inr fresh"
    using unwrap_recovery_hit [OF laws f(6) canonical nonce root_recipient_size [OF f(5)]] N(4)
    by (simp add: unwrap_with_recovery_code_def cur bind)
  have gens: "kr_generations k' = kr_generations k @ [?N]" "kr_current k' = kr_current k + 1" by (simp_all add: k' last)
  show ?thesis
    using valid f(2) gens(2) code by (intro conjI exI [of _ ?N] gens(1) cur ballI allI impI gone keep) assumption+
qed

end
