(* ===== verification/Keyring_Create.thy ===== *)
theory Keyring_Create
  imports Keyring_Valid
begin

text \<open>
  A new keyring is valid and opens both ways; with it, concrete keyrings on which the properties of
  the other keyring theories are exercised. The last section shows what a roll-over from a
  keyring whose current generation is not its last one writes.
\<close>

section \<open>Creating a keyring\<close>

lemma new_keyring_facts:
  assumes "new_keyring L seed salt nonce profile root code device (Some i) now = Inr k"
  obtains recipient recovery account where "profile \<noteq> []" "device \<noteq> []" "root_recipient L root = Inr recipient"
    "wrap_under_recovery_code L salt nonce root code (profile, 1) = Inr recovery"
    "derive_account_key L profile code = Inr account"
    "kr_schema k = keyring_schema_version" "kr_profile k = profile" "kr_current k = 1" "kr_account_key k = ak_public account"
    "\<exists>g. kr_generations k = [g] \<and> gn_number g = 1 \<and> gn_recipient g = recipient \<and> gn_recovery g = recovery \<and> gn_created_at g = now
        \<and> gn_devices g = [wrap_for_device L seed root device (ag_recipient (kl_age L) i) now (profile, 1)] \<and> gn_revoked g = []
        \<and> gn_signature g = account_sign L account (generation_message k g None)"
proof -
  have args: "profile \<noteq> []" "device \<noteq> []" using assms by (auto simp: new_keyring_def split: if_splits)
  note a0 = assms [unfolded new_keyring_def option.case, simplified args simp_thms if_False]
  obtain recipient where 1: "root_recipient L root = Inr recipient" using a0 by (auto split: sum.splits)
  note a1 = a0 [unfolded 1 sum.case]
  obtain recovery where 2: "wrap_under_recovery_code L salt nonce root code (profile, 1) = Inr recovery"
    using a1 by (auto split: sum.splits)
  note a2 = a1 [unfolded 2 sum.case]
  obtain account where 3: "derive_account_key L profile code = Inr account" using a2 by (auto split: sum.splits)
  let ?g = "\<lparr>gn_number = 1, gn_created_at = now, gn_recipient = recipient, gn_recovery = recovery,
                   gn_devices = [wrap_for_device L seed root device (ag_recipient (kl_age L) i) now (profile, 1)],
                   gn_revoked = [], gn_signature = []\<rparr>"
  let ?k = "\<lparr>kr_schema = keyring_schema_version, kr_profile = profile, kr_current = 1,
                   kr_account_key = ak_public account, kr_generations = [?g]\<rparr>"
  let ?s = "?g\<lparr>gn_signature := account_sign L account (generation_message ?k ?g None)\<rparr>"
  have k: "k = ?k\<lparr>kr_generations := [?s]\<rparr>" using a2 [unfolded 3 sum.case] by (simp add: Let_def)
  have "generation_message k ?s None = generation_message ?k ?g None"
    by (rule generation_message_cong) (simp_all add: k signed_part_def)
  then have "\<exists>g. kr_generations k = [g] \<and> gn_number g = 1 \<and> gn_recipient g = recipient \<and> gn_recovery g = recovery \<and> gn_created_at g = now
        \<and> gn_devices g = [wrap_for_device L seed root device (ag_recipient (kl_age L) i) now (profile, 1)] \<and> gn_revoked g = []
        \<and> gn_signature g = account_sign L account (generation_message k g None)"
    by (intro exI [of _ ?s]) (simp add: k)
  with that [OF args 1 2 3] show thesis by (simp add: k)
qed

lemma new_keyring_valid:
  assumes "new_keyring L seed salt nonce profile root code device (Some i) now = Inr k"
    and "\<And>g sd. kr_generations k = [g] \<Longrightarrow> kl_ed_verify L (sum_bytes (kl_ed_public L sd))
        (generation_message k g None) (word_bytes 64 (kl_ed_sign L sd (generation_message k g None)))"
  shows "check_keyring L k = None \<and> verify_generations L k (kr_account_key k) = None \<and> kr_account_key k \<noteq> []"
proof -
  obtain recipient recovery account g where f: "profile \<noteq> []" "device \<noteq> []"
    "wrap_under_recovery_code L salt nonce root code (profile, 1) = Inr recovery" "derive_account_key L profile code = Inr account"
    "kr_schema k = keyring_schema_version" "kr_profile k = profile" "kr_current k = 1" "kr_account_key k = ak_public account"
    and g: "kr_generations k = [g]" "gn_number g = 1" "gn_recovery g = recovery"
      "gn_devices g = [wrap_for_device L seed root device (ag_recipient (kl_age L) i) now (profile, 1)]"
      "gn_signature g = account_sign L account (generation_message k g None)"
    using new_keyring_facts [OF assms(1)] by metis
  let ?sig = "word_bytes 64 (kl_ed_sign L (ak_seed account) (generation_message k g None))"
  have key: "ak_public account = b64_encode (sum_bytes (kl_ed_public L (ak_seed account)))"
    using f(4) by (auto simp: derive_account_key_def Let_def split: if_splits sum.splits)
  have ne: "b64_encode (sum_bytes (kl_ed_public L (ak_seed account))) \<noteq> []"
    using b64_nonempty by (metis length_sum_bytes list.size(3) zero_neq_numeral)
  have sig: "b64_decode (gn_signature g) = Some ?sig" by (simp add: g(5) account_sign_def b64_decode_encode)
  have at: "kr_generation k 1 = Some g" "kr_generation k 0 = None" using g(1,2) by (simp_all add: kr_generation_def)
  have "verify_generation L k (sum_bytes (kl_ed_public L (ak_seed account))) 1 = None"
    using assms(2) [OF g(1), of "ak_seed account"] by (simp add: verify_generation_def at sig)
  then have ver: "verify_generations L k p = None" if "p \<in> {[], kr_account_key k}" for p
    using that g(1,2) f(8) ne by (auto simp: verify_generations_None key parse_account_public_key_def b64_decode_encode)
  have "generation_ok g"
    using g f(2) wrap_recovery_facts [OF f(3)] sig
    by (simp add: generation_ok_def check_signature_shape_def wrap_for_device_def)
  then have "check_keyring L k = None"
    unfolding check_keyring_None using f(1,5-7) g(1,2) at ver by (simp add: kr_current_generation_def)
  with ver f(8) ne show ?thesis by (simp add: key)
qed

lemma new_keyring_opens:
  assumes "crypto_laws L" "normalize_recovery_code (kl_sha L) code = Inr code" "length nonce = nonce_size"
    and run: "new_keyring L seed salt nonce profile root code device (Some i) now = Inr k"
  shows "unwrap_for_device L k device i = Inr (root, [])" and "unwrap_with_recovery_code L k code = Inr root"
proof -
  obtain recipient recovery g where f: "root_recipient L root = Inr recipient"
    "wrap_under_recovery_code L salt nonce root code (profile, 1) = Inr recovery" "kr_profile k = profile" "kr_current k = 1"
    and g: "kr_generations k = [g]" "gn_number g = 1" "gn_recipient g = recipient" "gn_recovery g = recovery"
      "gn_devices g = [wrap_for_device L seed root device (ag_recipient (kl_age L) i) now (profile, 1)]"
    using new_keyring_facts [OF run] by metis
  have cur: "kr_current_generation k = Some g" using g(1,2) f(4) by (simp add: kr_current_generation_def kr_generation_def)
  have "unwrap_device L g device i (profile, 1) = Inr root"
    by (rule unwrap_device_hit [OF assms(1), of device g "wrap_for_device L seed root device (ag_recipient (kl_age L) i) now (profile, 1)"])
      (simp_all add: g f wrap_for_device_def)
  then show "unwrap_for_device L k device i = Inr (root, [])"
    by (simp add: unwrap_for_device_def cur binding_for_def f(3,4) g(1,2) generation_numbers_def)
  show "unwrap_with_recovery_code L k code = Inr root"
    using unwrap_recovery_hit [OF assms(1) f(2) assms(2,3) root_recipient_size [OF f(1)]]
    by (simp add: unwrap_with_recovery_code_def cur binding_for_def f(3) g(2,4))
qed

text \<open>
  C35. Creating a keyring gives an object that every reader accepts, verified under its own account
  key, whose one device unwraps exactly the root key it was made for (and no earlier one), and which
  the recovery code opens to the same key.
\<close>
theorem new_keyring_correct:
  assumes "crypto_laws L" "normalize_recovery_code (kl_sha L) code = Inr code" "length nonce = nonce_size"
    and run: "new_keyring L seed salt nonce profile root code device (Some i) now = Inr k"
  shows "check_keyring L k = None \<and> verify_generations L k (kr_account_key k) = None
    \<and> unwrap_for_device L k device i = Inr (root, []) \<and> unwrap_with_recovery_code L k code = Inr root"
proof -
  have "check_keyring L k = None \<and> verify_generations L k (kr_account_key k) = None"
    using new_keyring_valid [OF run] assms(1) by (auto simp: crypto_laws_def)
  with new_keyring_opens [OF assms] show ?thesis by blast
qed

section \<open>Concrete keyrings\<close>

text \<open>A library that satisfies the laws: every text is sealed as itself, every signature verifies.\<close>

definition toy_keys :: key_lib where
  "toy_keys = \<lparr>kl_age = toy_age\<lparr>ag_seal := (\<lambda>_ _ p. CHR ''!'' # p), ag_open := (\<lambda>_ c. Inr (tl c))\<rparr>,
     kl_sha = (\<lambda>_. 0), kl_argon = (\<lambda>_ _ _ _ _. 0), kl_ed_public = id, kl_ed_sign = (\<lambda>_ _. 0), kl_ed_verify = (\<lambda>_ _ _. True),
     kl_seal = (\<lambda>_ _ p _. p), kl_open = (\<lambda>_ _ c _. Some c)\<rparr>"

definition toy_code :: string where
  "toy_code = ''0123-4567-89AB-CDEF-GHJK-MNPQ-RSTV-0000''"

definition toy_root :: bytes where "toy_root = replicate 32 CHR ''k''"
definition toy_nonce :: bytes where "toy_nonce = replicate 24 CHR ''n''"

lemma toy_laws: "crypto_laws toy_keys"
  by (simp add: crypto_laws_def toy_keys_def toy_age_def)

lemma toy_code_canonical: "normalize_recovery_code (\<lambda>_. 0) toy_code = Inr toy_code"
proof -
  have f: "code_fold toy_code = ''0123456789ABCDEFGHJKMNPQRSTV0000''" by code_simp
  have s: "set ''0123456789ABCDEFGHJKMNPQRSTV0000'' \<subseteq> set crockford" by code_simp
  have g: "format_recovery_code ''0123456789ABCDEFGHJKMNPQRSTV0000'' = toy_code" by code_simp
  show ?thesis unfolding recovery.norm_iff f g zero_checksum using s by (simp add: recoveryTotalChars_def recoveryDataChars_def)
qed

lemma toy_root_recipient:
  assumes "kl_age L = kl_age toy_keys" "length root = 32"
  shows "\<exists>vs. length vs = 58 \<and> root_recipient L root = Inr (''AGE-SECRET-KEY-1'' @ to_upper vs)"
proof -
  obtain vs where "bech32_encode ''AGE-SECRET-KEY-'' (sum_bytes 0) = Some (to_lower ''AGE-SECRET-KEY-'' @ ''1'' @ vs)" "length vs = 58"
    using bech32_encode_shape [of "''AGE-SECRET-KEY-''" "sum_bytes 0"] by auto
  moreover have "to_upper (to_lower ''AGE-SECRET-KEY-'' @ ''1'' @ vs) = ''AGE-SECRET-KEY-1'' @ to_upper vs"
  proof -
    have "to_upper (to_lower ''AGE-SECRET-KEY-'') = ''AGE-SECRET-KEY-''" "to_upper ''1'' = ''1''" by code_simp+
    then show ?thesis by (simp add: to_upper_def)
  qed
  ultimately show ?thesis
    using assms by (auto simp: root_recipient_def root_key_identity_def root_key_size_def toy_keys_def toy_age_def)
qed

definition toy_create :: "key_lib \<Rightarrow> (keyring_error, keyring) result" where
  "toy_create L = new_keyring L 0 [] toy_nonce ''p'' toy_root toy_code ''d'' (Some ''i'') ''t''"

lemma toy_create_runs:
  assumes "kl_age L = kl_age toy_keys" "kl_sha L = (\<lambda>_. 0)"
  shows "\<exists>k. toy_create L = Inr k"
  using toy_root_recipient [OF assms(1), of toy_root] toy_code_canonical assms(2)
  by (auto simp: toy_create_def new_keyring_def wrap_under_recovery_code_def derive_account_key_def toy_root_def Let_def)

lemma toy_ring:
  obtains k g where "toy_create toy_keys = Inr k" "check_keyring toy_keys k = None" "kr_current_generation k = Some g"
    "root_recipient toy_keys toy_root = Inr (gn_recipient g)" "map dw_device (gn_devices g) = [''d'']" "map dw_public (gn_devices g) = [''i'']"
    "kr_current k = 1" "max_generation k = 1" "kr_profile k = ''p''" "kr_account_key k = b64_encode (sum_bytes 0)"
    "unwrap_recovery toy_keys (gn_recovery g) toy_code (binding_for k g) = Inr toy_root"
    "unwrap_for_device toy_keys k ''d'' ''i'' = Inr (toy_root, [])"
proof -
  obtain k where k: "toy_create toy_keys = Inr k" using toy_create_runs [of toy_keys] by (auto simp: toy_keys_def)
  note run = k [unfolded toy_create_def]
  have pre: "length toy_nonce = nonce_size" "normalize_recovery_code (kl_sha toy_keys) toy_code = Inr toy_code"
    using toy_code_canonical by (simp_all add: toy_nonce_def nonce_size_def toy_keys_def)
  obtain recipient account g where f: "root_recipient toy_keys toy_root = Inr recipient" "derive_account_key toy_keys ''p'' toy_code = Inr account"
    "kr_profile k = ''p''" "kr_current k = 1" "kr_account_key k = ak_public account"
    and g: "kr_generations k = [g]" "gn_number g = 1" "gn_recipient g = recipient"
      "gn_devices g = [wrap_for_device toy_keys 0 toy_root ''d'' (ag_recipient (kl_age toy_keys) ''i'') ''t'' (''p'', 1)]"
    using new_keyring_facts [OF run] by metis
  have cur: "kr_current_generation k = Some g" using g(1,2) f(4) by (simp add: kr_current_generation_def kr_generation_def)
  have "ak_public account = b64_encode (sum_bytes 0)"
    using f(2) by (auto simp: derive_account_key_def Let_def toy_keys_def split: sum.splits)
  moreover have "check_keyring toy_keys k = None"
    using new_keyring_valid [OF run] toy_laws by (auto simp: crypto_laws_def)
  moreover have "unwrap_recovery toy_keys (gn_recovery g) toy_code (binding_for k g) = Inr toy_root"
    using new_keyring_opens(2) [OF toy_laws pre(2,1) run] by (simp add: unwrap_with_recovery_code_def cur)
  ultimately show thesis
    using that [OF k _ cur] f g new_keyring_opens(1) [OF toy_laws pre(2,1) run]
    by (simp add: wrap_for_device_def max_generation_def toy_keys_def toy_age_def)
qed

theorem new_keyring_correct_witness:
  "\<exists>k. toy_create toy_keys = Inr k \<and> unwrap_for_device toy_keys k ''d'' ''i'' = Inr (toy_root, [])
    \<and> unwrap_with_recovery_code toy_keys k toy_code = Inr toy_root"
proof -
  obtain k where k: "toy_create toy_keys = Inr k" using toy_create_runs [of toy_keys] by (auto simp: toy_keys_def)
  have "length toy_nonce = nonce_size" "normalize_recovery_code (kl_sha toy_keys) toy_code = Inr toy_code"
    using toy_code_canonical by (simp_all add: toy_nonce_def nonce_size_def toy_keys_def)
  from new_keyring_correct [OF toy_laws this(2,1) k [unfolded toy_create_def]] k show ?thesis by blast
qed


theorem enrol_correct_witness:
  "\<exists>k k' g'. toy_create toy_keys = Inr k \<and> enrol toy_keys 0 toy_root ''e'' (Some ''j'') ''u'' k = Inr k'
    \<and> check_keyring toy_keys k' = None \<and> kr_current_generation k' = Some g'
    \<and> unwrap_device toy_keys g' ''e'' ''j'' (binding_for k' g') = Inr toy_root"
proof -
  obtain k g where k: "toy_create toy_keys = Inr k" "check_keyring toy_keys k = None" "kr_current_generation k = Some g"
    "root_recipient toy_keys toy_root = Inr (gn_recipient g)" "map dw_device (gn_devices g) = [''d'']" by (rule toy_ring)
  have "\<not> has_device k ''e''" using k(3,5) by (auto simp: has_device_def list_ex_iff)
  with k(3,4) obtain k' where run: "enrol toy_keys 0 toy_root ''e'' (Some ''j'') ''u'' k = Inr k'"
    by (auto simp: enrol_def check_current_root_key_def)
  have "ag_recipient (kl_age toy_keys) ''j'' = ''j''" by (simp add: toy_keys_def toy_age_def)
  with enrol_correct [OF toy_laws k(2), of 0 toy_root "''e''" "''j''" "''u''" k'] run k(1) show ?thesis by auto
qed

theorem rollover_revokes_witness:
  "\<exists>k k' g'. toy_create toy_keys = Inr k
    \<and> rollover toy_keys (\<lambda>_. 0) toy_root [] toy_nonce toy_root toy_code [''d''] [] ''u'' k = Inr (toy_root, k')
    \<and> check_keyring toy_keys k' = None \<and> kr_current k' = 2 \<and> kr_current_generation k' = Some g'
    \<and> unwrap_device toy_keys g' ''d'' ''i'' (binding_for k' g') = Inl NotEnrolled
    \<and> unwrap_with_recovery_code toy_keys k' toy_code = Inr toy_root"
proof -
  obtain k g where k: "toy_create toy_keys = Inr k" "check_keyring toy_keys k = None" "kr_current_generation k = Some g"
    "root_recipient toy_keys toy_root = Inr (gn_recipient g)" "map dw_device (gn_devices g) = [''d'']" "map dw_public (gn_devices g) = [''i'']"
    "kr_current k = 1" "max_generation k = 1" "kr_profile k = ''p''" "kr_account_key k = b64_encode (sum_bytes 0)"
    "unwrap_recovery toy_keys (gn_recovery g) toy_code (binding_for k g) = Inr toy_root" by (rule toy_ring)
  obtain d where d: "gn_devices g = [d]" "dw_device d = ''d''" using k(5) by auto
  have "\<exists>k'. rollover toy_keys (\<lambda>_. 0) toy_root [] toy_nonce toy_root toy_code [''d''] [] ''u'' k = Inr (toy_root, k')"
    using k(3,4,7-11) d toy_code_canonical
    by (auto simp: rollover_def check_current_root_key_def derive_account_key_def Let_def has_device_def
        wrap_under_recovery_code_def sign_generation_def toy_keys_def)
  then obtain k' where run: "rollover toy_keys (\<lambda>_. 0) toy_root [] toy_nonce toy_root toy_code [''d''] [] ''u'' k = Inr (toy_root, k')"
    by blast
  have pre: "kr_current k = max_generation k" "normalize_recovery_code (kl_sha toy_keys) toy_code = Inr toy_code" "length toy_nonce = nonce_size"
    using k(7,8) toy_code_canonical by (simp_all add: toy_nonce_def nonce_size_def toy_keys_def)
  from rollover_revokes [OF toy_laws k(2) pre run] run k(1,7) show ?thesis by auto
qed


text \<open>
  For the history an object is verified against: a library that accepts exactly the signatures
  over the messages of one keyring, and that keyring.
\<close>

definition toy_verifier :: "keyring \<Rightarrow> key_lib" where
  "toy_verifier h = toy_keys\<lparr>kl_ed_verify := (\<lambda>_ m _. m \<in> (\<lambda>g. generation_message h g (kr_generation h (gn_number g - 1))) ` set (kr_generations h))\<rparr>"

lemma length_b64_encode: "length (b64_encode b) = 4 * ((length b + 2) div 3)"
proof (induction b rule: b64_encode.induct)
  case (4 a b c r)
  have "(length r + 2 + 3) div 3 = (length r + 2) div 3 + 1" by (rule div_add_self2) simp
  with 4 show ?case by (simp add: Let_def add.commute)
qed (simp_all add: Let_def)

lemma toy_create_verifier: "toy_create (toy_verifier h) = toy_create toy_keys"
  by (simp add: toy_create_def new_keyring_def toy_verifier_def root_recipient_def wrap_under_recovery_code_def
      derive_account_key_def derive_recovery_key_def wrap_for_device_def seal_for_device_def account_sign_def Let_def
      cong: sum.case_cong option.case_cong)

lemma itoa_one: "itoa 1 = ''1''" "itoa 0 = ''0''" "itoa 2 = ''2''"
  by code_simp+

theorem verified_keyring_is_honest_prefix_witness:
  "\<exists>k J. toy_create toy_keys = Inr k \<and> parse_keyring (toy_verifier k) J [] = Inr k
     \<and> (\<forall>n \<in> {1..int (length (kr_generations k))}. map_option signed_part (kr_generation k n) = map_option signed_part (kr_generation k n))"
proof -
  obtain k where k: "toy_create toy_keys = Inr k" using toy_create_runs [of toy_keys] by (auto simp: toy_keys_def)
  let ?L = "toy_verifier k"
  let ?J = "\<lparr>kj_encode = (\<lambda>_. []), kj_decode = (\<lambda>_. Inr k)\<rparr>"
  note run = k [unfolded toy_create_def]
  note run' = k [folded toy_create_verifier [of k], unfolded toy_create_def]
  obtain recipient recovery account g where f: "root_recipient toy_keys toy_root = Inr recipient"
    "wrap_under_recovery_code toy_keys [] toy_nonce toy_root toy_code (''p'', 1) = Inr recovery"
    "derive_account_key toy_keys ''p'' toy_code = Inr account"
    "kr_profile k = ''p''" "kr_account_key k = ak_public account"
    and g: "kr_generations k = [g]" "gn_number g = 1" "gn_recipient g = recipient" "gn_recovery g = recovery"
      "gn_created_at g = ''t''" "gn_revoked g = []"
    using new_keyring_facts [OF run] by metis
  have none: "kr_generation k 0 = None" using g(1,2) by (simp add: kr_generation_def)
  have ok: "check_keyring ?L k = None" "verify_generations ?L k (kr_account_key k) = None" "kr_account_key k \<noteq> []"
    using new_keyring_valid [OF run'] g(1,2) none by (simp_all add: toy_verifier_def)
  then have parsed: "parse_keyring ?L ?J [] = Inr k" by (simp add: parse_keyring_def)
  obtain vs where "recipient = ''AGE-SECRET-KEY-1'' @ to_upper vs" "length vs = 58"
    using toy_root_recipient [of toy_keys toy_root] f(1) by (auto simp: toy_root_def)
  then have rlen: "length recipient = 74" by (simp add: to_upper_def)
  have klen: "length (ak_public account) = 44"
    using f(3) by (auto simp: derive_account_key_def Let_def length_b64_encode split: sum.splits)
  have rec: "rw_kdf recovery = recovery_kdf_name" "rw_time recovery = argon2_time" "rw_memory recovery = argon2_memory"
    "rw_threads recovery = argon2_threads" "rw_format recovery = 2" "rw_salt recovery = []" "length (rw_wrap recovery) = 76"
    using f(2) by (auto simp: wrap_under_recovery_code_def Let_def toy_keys_def length_b64_encode toy_nonce_def toy_root_def
        wrap_format_bound_def split: sum.splits)
  have dec: "length (nat_dec (unat argon2_time)) = 1" "length (nat_dec (unat argon2_memory)) = 5" "length (nat_dec (unat argon2_threads)) = 1"
    by (simp_all add: argon2_time_def argon2_memory_def argon2_threads_def nat_dec.simps)
  have "\<forall>f \<in> set (generation_fields k g None). length f \<le> 76"
    by (simp add: generation_fields_def g f(4,5) klen rlen rec dec itoa_one generation_signature_info_def recovery_kdf_name_def)
  then have small: "keyring_small k"
    by (force simp: keyring_small_def generation_small_def go_string_def g(1,2) none)
  have "kl_ed_verify ?L public m sig \<Longrightarrow> m \<in> (\<lambda>g. generation_message k g (kr_generation k (gn_number g - 1))) ` set (kr_generations k)"
    for public m sig by (simp add: toy_verifier_def)
  from verified_keyring_is_honest_prefix [OF parsed ok(2,3,1) this small small] k parsed show ?thesis by blast
qed

section \<open>Rolling over from a keyring whose current generation is not its last\<close>

text \<open>
  Nothing ties the current generation an object names to its highest one, and the number is not
  signed. The roll-over signs the generation it appends over the current generation as its
  predecessor, while verification takes the generation one below the appended one: for such an object
  the signature is over another message than the one it is checked against.
\<close>

lemma rollover_from_an_earlier_generation:
  assumes ok: "check_keyring L k = None" and behind: "kr_current k < max_generation k"
    and run: "rollover L seed fresh salt nonce root code revoke by_device now k = Inr (fresh', k')"
    and small: "\<And>g p. g \<in> set (kr_generations k') \<Longrightarrow> p \<in> set (kr_generations k') \<Longrightarrow> generation_small k g (Some p)"
  shows "\<exists>g m account. last (kr_generations k') = g \<and> gn_signature g = account_sign L account m
    \<and> m \<noteq> generation_message k' g (kr_generation k' (gn_number g - 1))"
proof -
  obtain g account recipient recovery revoked devices where g: "kr_current_generation k = Some g"
    and k': "k' = k\<lparr>kr_generations := kr_generations k @ [(unsigned_generation k now recipient recovery devices revoked)
           \<lparr>gn_signature := account_sign L account (generation_message k (unsigned_generation k now recipient recovery devices revoked) (Some g))\<rparr>],
         kr_current := max_generation k + 1, kr_schema := keyring_schema_version\<rparr>"
    using rollover_facts [OF run] by metis
  let ?U = "unsigned_generation k now recipient recovery devices revoked"
  let ?m = "generation_message k ?U (Some g)"
  let ?N = "?U\<lparr>gn_signature := account_sign L account ?m\<rparr>"
  have N: "gn_number ?N = max_generation k + 1" "?N \<in> set (kr_generations k')" by (simp_all add: unsigned_generation_def k')
  have gs: "g \<in> set (kr_generations k')" "gn_number g = kr_current k"
    using kr_generation_Some [of k "kr_current k" g] g by (simp_all add: kr_current_generation_def k')
  have mx: "max_generation k = int (length (kr_generations k))" by (rule max_generation_length [OF ok])
  have "1 \<le> max_generation k" using check_keyring_None [THEN iffD1, OF ok] unfolding mx by (cases "kr_generations k") simp_all
  then obtain p where p: "kr_generation k (max_generation k) = Some p"
    using checked_numbers [OF ok] mx kr_generation_None [of k "max_generation k"] by (cases "kr_generation k (max_generation k)") auto
  have pk: "kr_generation k' (gn_number ?N - 1) = Some p" using p by (simp add: k' kr_generation_def find_append unsigned_generation_def)
  have ps: "p \<in> set (kr_generations k')" "gn_number p = max_generation k" using kr_generation_Some [OF p] by (simp_all add: k')
  have same: "generation_message k ?N x = generation_message k ?U x" "generation_message k' ?N x = generation_message k ?N x" for x
    by (rule generation_message_cong; simp add: k' signed_part_def)+
  have "?m \<noteq> generation_message k' ?N (kr_generation k' (gn_number ?N - 1))"
  proof
    assume "?m = generation_message k' ?N (kr_generation k' (gn_number ?N - 1))"
    then have "?m = generation_message k' ?N (Some p)" unfolding pk .
    then have "generation_message k ?N (Some g) = generation_message k ?N (Some p)" by (metis same)
    from message_inj [OF small [OF N(2) gs(1)] small [OF N(2) ps(1)] this] gs(2) ps(2) behind show False by simp
  qed
  moreover have "last (kr_generations k') = ?N" by (simp add: k')
  ultimately show ?thesis by (intro exI [of _ ?N] exI [of _ ?m] exI [of _ account]) simp
qed

end
