(* ===== verification/Keyring_Store.thy ===== *)
theory Keyring_Store
  imports Keyring_Create Object_Store
begin

text \<open>
  The keyring object in the remote store (\<^verbatim>\<open>internal/keyring/store.go\<close>): loading it, creating it
  once, and the compare-and-swap loop every change goes through. Between any two calls on the store
  other devices act: \<open>others j\<close> is what they do before the \<open>j\<close>-th call of the loop.
\<close>

section \<open>Operations\<close>

definition maxObjectBytes :: nat where "maxObjectBytes = 1048576"
definition maxWriteBytes :: nat where "maxWriteBytes = maxObjectBytes * 3 div 4"
definition maxUpdateRetries :: nat where "maxUpdateRetries = 8"

datatype store_error =
    KeyringNotFound
  | FetchFailed backend_error
  | ObjectExceedsMaximum
  | KeyringRejected keyring_error
  | KeyringTooLarge nat nat
  | KeyringAlreadyExists
  | CreateFailed backend_error
  | KeyringUpdateFailed backend_error
  | KeyringConflict

text \<open>What \<^verbatim>\<open>Update\<close> returns: an error of the store, or the one the change itself returned.\<close>

datatype 'e update_error = StoreFailed store_error | MutateFailed 'e

definition check_write_size :: "keyring \<Rightarrow> bytes \<Rightarrow> store_error option" where
  "check_write_size k raw =
     (if length raw \<le> maxWriteBytes then None else Some (KeyringTooLarge (length raw) (length (kr_generations k))))"

definition load_keyring :: "key_lib \<Rightarrow> keyring_json \<Rightarrow> 's backend \<Rightarrow> string \<Rightarrow> 's \<Rightarrow> (store_error, keyring \<times> string) result" where
  "load_keyring L J B key s =
     (case be_get B key s of
        Inl e \<Rightarrow> if errors_is e ErrNotFound then Inl KeyringNotFound else Inl (FetchFailed e)
      | Inr (d, meta) \<Rightarrow>
          let raw = take (maxObjectBytes + 1) d in
          if length raw > maxObjectBytes then Inl ObjectExceedsMaximum
          else (case parse_keyring L J raw of Inl e \<Rightarrow> Inl (KeyringRejected e) | Inr k \<Rightarrow> Inr (k, om_etag meta)))"

definition create_options :: put_options where
  "create_options = \<lparr>po_if_match = [], po_if_none_match = True, po_content_type = ''application/json''\<rparr>"

definition swap_options :: "string \<Rightarrow> put_options" where
  "swap_options etag = \<lparr>po_if_match = etag, po_if_none_match = False, po_content_type = ''application/json''\<rparr>"

definition create_keyring :: "keyring_json \<Rightarrow> 's backend \<Rightarrow> string \<Rightarrow> keyring \<Rightarrow> 's \<Rightarrow> (store_error, unit) result \<times> 's" where
  "create_keyring J B key k s =
     (let raw = marshal_keyring J k in
      case check_write_size k raw of Some e \<Rightarrow> (Inl e, s)
      | None \<Rightarrow>
        (case be_put B key raw create_options s of
          (Inl e, s') \<Rightarrow> (Inl (if lost_race e then KeyringAlreadyExists else CreateFailed e), s')
        | (Inr _, s') \<Rightarrow> (Inr (), s')))"

text \<open>
  The loop of \<^verbatim>\<open>Update\<close>, over the attempts left and the number of the next one. Besides the keyring it
  changes, the closure of the caller may leave a value behind in the caller's variables.
\<close>

fun update_keyring_loop :: "key_lib \<Rightarrow> keyring_json \<Rightarrow> 's backend \<Rightarrow> string \<Rightarrow> (nat \<Rightarrow> 's \<Rightarrow> 's)
   \<Rightarrow> (nat \<Rightarrow> keyring \<Rightarrow> ('e, keyring \<times> 'v) result) \<Rightarrow> nat \<Rightarrow> nat \<Rightarrow> 's \<Rightarrow> ('e update_error, keyring \<times> 'v) result \<times> 's" where
  "update_keyring_loop L J B key others mutate 0 i s = (Inl (StoreFailed KeyringConflict), s)"
| "update_keyring_loop L J B key others mutate (Suc n) i s =
     (let s1 = others (2 * i) s in
      case load_keyring L J B key s1 of Inl e \<Rightarrow> (Inl (StoreFailed e), s1)
      | Inr (k, etag) \<Rightarrow>
        (case mutate i k of Inl e \<Rightarrow> (Inl (MutateFailed e), s1)
      | Inr r \<Rightarrow>
        let raw = marshal_keyring J (fst r) in
        (case check_write_size (fst r) raw of Some e \<Rightarrow> (Inl (StoreFailed e), s1)
      | None \<Rightarrow>
        let s2 = others (2 * i + 1) s1 in
        (case be_put B key raw (swap_options etag) s2 of
          (Inl e, s3) \<Rightarrow> if lost_race e then update_keyring_loop L J B key others mutate n (Suc i) s3
                       else (Inl (StoreFailed (KeyringUpdateFailed e)), s3)
        | (Inr _, s3) \<Rightarrow> (Inr r, s3)))))"

definition update_keyring :: "key_lib \<Rightarrow> keyring_json \<Rightarrow> 's backend \<Rightarrow> string \<Rightarrow> (nat \<Rightarrow> 's \<Rightarrow> 's)
   \<Rightarrow> (nat \<Rightarrow> keyring \<Rightarrow> ('e, keyring \<times> 'v) result) \<Rightarrow> 's \<Rightarrow> ('e update_error, keyring \<times> 'v) result \<times> 's" where
  "update_keyring L J B key others mutate s = update_keyring_loop L J B key others mutate maxUpdateRetries 0 s"

section \<open>One swap, of the keyring that was there\<close>

text \<open>
  The whole effect of an update that succeeds: the keyring in the store at the moment of the write
  is replaced by what the change makes of it.
\<close>

definition keyring_swapped :: "key_lib \<Rightarrow> keyring_json \<Rightarrow> string \<Rightarrow> (nat \<Rightarrow> keyring \<Rightarrow> ('e, keyring \<times> 'v) result)
   \<Rightarrow> keyring \<times> 'v \<Rightarrow> (string \<Rightarrow> (bytes \<times> string) option) \<Rightarrow> (string \<Rightarrow> (bytes \<times> string) option) \<Rightarrow> bool" where
  "keyring_swapped L J key mutate k' before after \<longleftrightarrow>
     (\<exists>d t k i t'. before key = Some (d, t) \<and> length d \<le> maxObjectBytes \<and> parse_keyring L J d = Inr k \<and> mutate i k = Inr k'
        \<and> after = before(key \<mapsto> (marshal_keyring J (fst k'), t')) \<and> length (marshal_keyring J (fst k')) \<le> maxWriteBytes)"

context object_store begin

lemma load_keyring_Inr:
  assumes "load_keyring L J B key s = Inr (k, etag)"
  shows "\<exists>d. obj s key = Some (d, etag) \<and> length d \<le> maxObjectBytes \<and> parse_keyring L J d = Inr k"
proof -
  obtain d m where g: "be_get B key s = Inr (d, m)" using assms by (auto simp: load_keyring_def split: sum.splits if_splits)
  have small: "length d \<le> maxObjectBytes" using assms by (auto simp: load_keyring_def g Let_def split: if_splits)
  then have "take (maxObjectBytes + 1) d = d" by simp
  with assms have "parse_keyring L J d = Inr k" "om_etag m = etag"
    by (auto simp: load_keyring_def g Let_def split: if_splits sum.splits)
  with get_Inr [OF g] small show ?thesis by auto
qed

lemma update_keyring_loop_Suc:
  assumes "update_keyring_loop L J B key others mutate (Suc n) i s = (Inr k', s')"
  obtains k etag where "load_keyring L J B key (others (2 * i) s) = Inr (k, etag)"
    and "(\<exists>k1 e s3. mutate i k = Inr k1 \<and> lost_race e
            \<and> be_put B key (marshal_keyring J (fst k1)) (swap_options etag) (others (2 * i + 1) (others (2 * i) s)) = (Inl e, s3)
            \<and> update_keyring_loop L J B key others mutate n (Suc i) s3 = (Inr k', s'))
       \<or> (\<exists>m. mutate i k = Inr k' \<and> length (marshal_keyring J (fst k')) \<le> maxWriteBytes
            \<and> be_put B key (marshal_keyring J (fst k')) (swap_options etag) (others (2 * i + 1) (others (2 * i) s)) = (Inr m, s'))"
proof -
  obtain k etag where load: "load_keyring L J B key (others (2 * i) s) = Inr (k, etag)"
    using assms by (auto simp: Let_def split: sum.splits)
  obtain k1 where mut: "mutate i k = Inr k1" using assms load by (auto simp: Let_def split: sum.splits)
  have size: "check_write_size (fst k1) (marshal_keyring J (fst k1)) = None"
    using assms load mut by (auto simp: Let_def split: option.splits)
  obtain r s3 where put: "be_put B key (marshal_keyring J (fst k1)) (swap_options etag) (others (2 * i + 1) (others (2 * i) s)) = (r, s3)"
    by (cases "be_put B key (marshal_keyring J (fst k1)) (swap_options etag) (others (2 * i + 1) (others (2 * i) s))")
  have run: "(case r of Inl e \<Rightarrow> if lost_race e then update_keyring_loop L J B key others mutate n (Suc i) s3
                       else (Inl (StoreFailed (KeyringUpdateFailed e)), s3) | Inr _ \<Rightarrow> (Inr k1, s3)) = (Inr k', s')"
    using assms load mut size put by (cases r) (simp_all add: Let_def)
  have len: "length (marshal_keyring J (fst k1)) \<le> maxWriteBytes" using size by (simp add: check_write_size_def split: if_splits)
  show thesis
  proof (cases r)
    case (Inl e)
    with run have again: "lost_race e" "update_keyring_loop L J B key others mutate n (Suc i) s3 = (Inr k', s')"
      by (simp_all split: if_splits)
    show thesis
      by (rule that [OF load], rule disjI1, intro exI conjI) (rule mut, rule again(1), rule put [unfolded Inl], rule again(2))
  next
    case (Inr m)
    with run have same: "k1 = k'" "s3 = s'" by simp_all
    show thesis
      by (rule that [OF load], rule disjI2, intro exI conjI)
        (rule mut [unfolded same], rule len [unfolded same], rule put [unfolded same Inr])
  qed
qed

lemma update_keyring_loop_swaps:
  assumes run: "update_keyring_loop L J B key others mutate n i s = (Inr k', s')"
    and P: "P s" and P_sinv: "\<And>s. P s \<Longrightarrow> sinv s"
    and P_others: "\<And>j s. P s \<Longrightarrow> P (others j s)"
    and P_put: "\<And>k d po err s s'. P s \<Longrightarrow> be_put B k d po s = (Inl err, s') \<Longrightarrow> lost_race err \<Longrightarrow> P s'"
    and P_etag: "\<And>s1 s2 d1 d2 t. P s1 \<Longrightarrow> P s2 \<Longrightarrow> obj s1 key = Some (d1, t) \<Longrightarrow> obj s2 key = Some (d2, t) \<Longrightarrow> d1 = d2"
  shows "\<exists>s2. P s2 \<and> keyring_swapped L J key mutate k' (obj s2) (obj s')"
  using run P
proof (induction n arbitrary: i s)
  case (Suc n)
  let ?s1 = "others (2 * i) s" and ?s2 = "others (2 * i + 1) (others (2 * i) s)"
  have P1: "P ?s1" and P2: "P ?s2" using Suc.prems(2) P_others by auto
  from update_keyring_loop_Suc [OF Suc.prems(1)] obtain k etag where load: "load_keyring L J B key ?s1 = Inr (k, etag)"
    and rest: "(\<exists>k1 e s3. mutate i k = Inr k1 \<and> lost_race e
            \<and> be_put B key (marshal_keyring J (fst k1)) (swap_options etag) ?s2 = (Inl e, s3)
            \<and> update_keyring_loop L J B key others mutate n (Suc i) s3 = (Inr k', s'))
       \<or> (\<exists>m. mutate i k = Inr k' \<and> length (marshal_keyring J (fst k')) \<le> maxWriteBytes
            \<and> be_put B key (marshal_keyring J (fst k')) (swap_options etag) ?s2 = (Inr m, s'))" by blast
  from load_keyring_Inr [OF load] obtain d where d: "obj ?s1 key = Some (d, etag)" "length d \<le> maxObjectBytes"
    "parse_keyring L J d = Inr k" by blast
  from rest show ?case
  proof
    assume "\<exists>k1 e s3. mutate i k = Inr k1 \<and> lost_race e
            \<and> be_put B key (marshal_keyring J (fst k1)) (swap_options etag) ?s2 = (Inl e, s3)
            \<and> update_keyring_loop L J B key others mutate n (Suc i) s3 = (Inr k', s')"
    then obtain k1 e s3 where "mutate i k = Inr k1" and lost: "be_put B key (marshal_keyring J (fst k1)) (swap_options etag) ?s2 = (Inl e, s3)" "lost_race e"
      and again: "update_keyring_loop L J B key others mutate n (Suc i) s3 = (Inr k', s')" by blast
    from P_put [OF P2 lost] have "P s3" .
    with again show ?thesis by (rule Suc.IH)
  next
    assume "\<exists>m. mutate i k = Inr k' \<and> length (marshal_keyring J (fst k')) \<le> maxWriteBytes
            \<and> be_put B key (marshal_keyring J (fst k')) (swap_options etag) ?s2 = (Inr m, s')"
    then obtain m where mut: "mutate i k = Inr k'" "length (marshal_keyring J (fst k')) \<le> maxWriteBytes"
      and put: "be_put B key (marshal_keyring J (fst k')) (swap_options etag) ?s2 = (Inr m, s')" by blast
    have "etag \<noteq> []" using etag_nonempty [OF P_sinv [OF P1] d(1)] .
    with put_Inr [OF put] obtain d0 where d0: "obj ?s2 key = Some (d0, etag)" by (auto simp: swap_options_def)
    with P_etag [OF P1 P2 d(1)] have "d0 = d" by simp
    with d0 d(2,3) mut put_Inr [OF put] P2 show ?thesis unfolding keyring_swapped_def by blast
  qed
qed simp

text \<open>What an update that fails has written: nothing of its own.\<close>

lemma update_keyring_loop_fails:
  assumes run: "update_keyring_loop L J B key others mutate n i s = (Inl e, s')"
    and P: "P s" and P_others: "\<And>j s. P s \<Longrightarrow> P (others j s)"
    and P_put: "\<And>k d po err s s'. P s \<Longrightarrow> be_put B k d po s = (Inl err, s') \<Longrightarrow> P s'"
  shows "P s'"
  using run P
proof (induction n arbitrary: i s)
  case (Suc n)
  let ?s1 = "others (2 * i) s" and ?s2 = "others (2 * i + 1) (others (2 * i) s)"
  have P1: "P ?s1" and P2: "P ?s2" using Suc.prems(2) P_others by auto
  show ?case
  proof (cases "load_keyring L J B key ?s1")
    case (Inl e1)
    with Suc.prems(1) P1 show ?thesis by (auto simp: Let_def)
  next
    case (Inr r)
    obtain k etag where r: "r = (k, etag)" by (cases r)
    show ?thesis
    proof (cases "mutate i k")
      case (Inl e1)
      with Suc.prems(1) \<open>load_keyring L J B key ?s1 = Inr r\<close> r P1 show ?thesis by (auto simp: Let_def)
    next
      case (Inr k1)
      note mut = Inr
      show ?thesis
      proof (cases "check_write_size (fst k1) (marshal_keyring J (fst k1))")
        case (Some e1)
        with Suc.prems(1) \<open>load_keyring L J B key ?s1 = Inr r\<close> r mut P1 show ?thesis by (auto simp: Let_def)
      next
        case None
        obtain o3 s3 where put: "be_put B key (marshal_keyring J (fst k1)) (swap_options etag) ?s2 = (o3, s3)"
          by (cases "be_put B key (marshal_keyring J (fst k1)) (swap_options etag) ?s2")
        have run: "(case o3 of Inl e \<Rightarrow> if lost_race e then update_keyring_loop L J B key others mutate n (Suc i) s3
                       else (Inl (StoreFailed (KeyringUpdateFailed e)), s3) | Inr _ \<Rightarrow> (Inr k1, s3)) = (Inl e, s')"
          using Suc.prems(1) \<open>load_keyring L J B key ?s1 = Inr r\<close> r mut None put by (cases o3) (simp_all add: Let_def)
        show ?thesis
        proof (cases o3)
          case (Inl e1)
          from P_put [OF P2] put Inl have "P s3" by blast
          with run Inl Suc.IH show ?thesis by (auto split: if_splits)
        next
          case (Inr m)
          with run show ?thesis by simp
        qed
      qed
    qed
  qed
qed simp

end


section \<open>On the memory store\<close>

definition others_acted :: "(nat \<Rightarrow> 's \<Rightarrow> 's) \<Rightarrow> nat list \<Rightarrow> 's \<Rightarrow> 's" where
  "others_acted others js s = foldl (\<lambda>x j. others j x) s js"

lemma others_acted_simps [simp]:
  "others_acted others [] s = s"
  "others j (others_acted others js s) = others_acted others (js @ [j]) s"
  by (simp_all add: others_acted_def)

definition keyring_bytes_in :: "bytes set \<Rightarrow> string \<Rightarrow> mem_store \<Rightarrow> bool" where
  "keyring_bytes_in D key s \<longleftrightarrow> (\<forall>d t. mem_obj s key = Some (d, t) \<longrightarrow> d \<in> D)"

lemma keyring_etag_identifies:
  assumes "mem_ok sha s1" "mem_ok sha s2" "keyring_bytes_in D key s1" "keyring_bytes_in D key s2" "inj_on (etag_of sha) D"
    and "mem_obj s1 key = Some (d1, t)" "mem_obj s2 key = Some (d2, t)"
  shows "d1 = d2"
proof -
  from assms have "etag_of sha d1 = etag_of sha d2" "d1 \<in> D" "d2 \<in> D"
    by (auto simp: keyring_bytes_in_def mem_obj_def mem_ok_lookup)
  with assms(5) show ?thesis by (auto dest: inj_onD)
qed

lemma update_keyring_swaps:
  assumes "update_keyring L J (mem_backend sha) key others mutate s = (Inr k', s')"
    and "mem_ok sha s" and "\<And>j s. mem_ok sha s \<Longrightarrow> mem_ok sha (others j s)"
    and "keyring_bytes_in D key s" and "\<And>j s. keyring_bytes_in D key s \<Longrightarrow> keyring_bytes_in D key (others j s)"
    and "inj_on (etag_of sha) D"
  shows "\<exists>js. keyring_swapped L J key mutate k' (mem_obj (others_acted others js s)) (mem_obj s')"
proof -
  let ?P = "\<lambda>x. mem_ok sha x \<and> keyring_bytes_in D key x \<and> (\<exists>js. x = others_acted others js s)"
  have "\<exists>s2. ?P s2 \<and> keyring_swapped L J key mutate k' (mem_obj s2) (mem_obj s')"
  proof (rule mem.update_keyring_loop_swaps [OF assms(1) [unfolded update_keyring_def], where P = ?P])
    show "?P s" using assms(2,4) others_acted_simps(1) by metis
    show "?P x \<Longrightarrow> ?P (others j x)" for j x using assms(3,5) by auto
    show "?P x \<Longrightarrow> be_put (mem_backend sha) k d po x = (Inl err, x') \<Longrightarrow> lost_race err \<Longrightarrow> ?P x'" for k d po err x x'
      using mem_put_Inl [of sha k d po x err x'] by (simp add: mem_backend_simps)
    show "?P x1 \<Longrightarrow> ?P x2 \<Longrightarrow> mem_obj x1 key = Some (d1, t) \<Longrightarrow> mem_obj x2 key = Some (d2, t) \<Longrightarrow> d1 = d2" for x1 x2 d1 d2 t
      using keyring_etag_identifies assms(6) by blast
  qed simp
  then show ?thesis by auto
qed

lemma update_keyring_untouched:
  assumes "update_keyring L J (mem_backend sha) key others mutate s = (Inl e, s')"
  shows "\<exists>js. s' = others_acted others js s"
proof (rule mem.update_keyring_loop_fails [OF assms [unfolded update_keyring_def], where P = "\<lambda>x. \<exists>js. x = others_acted others js s"])
  show "\<exists>js. s = others_acted others js s" using others_acted_simps(1) by metis
  show "\<exists>js. x = others_acted others js s \<Longrightarrow> \<exists>js. others j x = others_acted others js s" for j x by auto
  show "\<exists>js. x = others_acted others js s \<Longrightarrow> be_put (mem_backend sha) k d po x = (Inl err, x') \<Longrightarrow>
      \<exists>js. x' = others_acted others js s" for k d po err x x'
    using mem_put_Inl [of sha k d po x err x'] by (simp add: mem_backend_simps)
qed


text \<open>The documented behaviour of the JSON encoding: a keyring that was encoded decodes to itself.\<close>

definition json_law :: "keyring_json \<Rightarrow> keyring \<Rightarrow> bool" where
  "json_law J k \<longleftrightarrow> kj_decode J (kj_encode J k @ [CHR 0x0A]) = Inr k"

lemma marshalled_loads:
  assumes "json_law J k" "check_keyring L k = None" "length (marshal_keyring J k) \<le> maxWriteBytes"
    and "mem_obj s key = Some (marshal_keyring J k, t)"
  shows "load_keyring L J (mem_backend sha) key s = Inr (k, t)"
proof -
  have "kr_schema k = keyring_schema_version" using assms(2) unfolding check_keyring_None by blast
  then have "k\<lparr>kr_schema := keyring_schema_version\<rparr> = k" by simp
  then have p: "parse_keyring L J (marshal_keyring J k) = Inr k"
    using assms(1,2) by (simp add: parse_keyring_def marshal_keyring_def json_law_def)
  obtain ob where ob: "map_of s key = Some ob" "ob_data ob = marshal_keyring J k" "ob_etag ob = t"
    using assms(4) by (auto simp: mem_obj_def)
  have len: "length (marshal_keyring J k) \<le> maxObjectBytes"
    using assms(3) by (simp add: maxWriteBytes_def maxObjectBytes_def)
  then have "take (maxObjectBytes + 1) (marshal_keyring J k) = marshal_keyring J k" by simp
  then show ?thesis
    using ob p len by (simp add: load_keyring_def mem_backend_simps mem_get_def object_head_def)
qed

text \<open>
  A keyring that was written can be read back. Whatever change an update applies, as long as the
  change keeps a valid keyring valid, the keyring it returns is the one the next load returns: the
  write bound keeps the object below the size a load refuses.
\<close>
theorem updated_keyring_loads:
  assumes "update_keyring L J (mem_backend sha) key others mutate s = (Inr (k', v), s')"
    and "mem_ok sha s" and "\<And>j s. mem_ok sha s \<Longrightarrow> mem_ok sha (others j s)"
    and "keyring_bytes_in D key s" and "\<And>j s. keyring_bytes_in D key s \<Longrightarrow> keyring_bytes_in D key (others j s)"
    and "inj_on (etag_of sha) D"
    and "json_law J k'" and "\<And>i k k' v. check_keyring L k = None \<Longrightarrow> mutate i k = Inr (k', v) \<Longrightarrow> check_keyring L k' = None"
  shows "\<exists>t. load_keyring L J (mem_backend sha) key s' = Inr (k', t)"
proof -
  from update_keyring_swaps [OF assms(1-6)] obtain d k i t' where w: "parse_keyring L J d = Inr k" "mutate i k = Inr (k', v)"
    "mem_obj s' key = Some (marshal_keyring J k', t')" "length (marshal_keyring J k') \<le> maxWriteBytes"
    by (auto simp: keyring_swapped_def)
  then have "check_keyring L k = None" by (auto simp: parse_keyring_def split: sum.splits option.splits)
  with assms(8) w(2) have "check_keyring L k' = None" by blast
  from marshalled_loads [OF assms(7) this w(4,3)] show ?thesis by blast
qed

text \<open>
  There is one first keyring. Creating succeeds only where no keyring object was, and then the
  very keyring loads; where one was, the store is left as it was.
\<close>
theorem create_keyring_once:
  assumes "json_law J k" "check_keyring L k = None"
  shows "case create_keyring J (mem_backend sha) key k s of
      (Inr u, s') \<Rightarrow> mem_obj s key = None \<and> (\<exists>t. load_keyring L J (mem_backend sha) key s' = Inr (k, t))
    | (Inl e, s') \<Rightarrow> s' = s \<and> (mem_obj s key = None \<longrightarrow> length (marshal_keyring J k) > maxWriteBytes)"
proof (cases "check_write_size k (marshal_keyring J k)")
  case (Some e)
  then show ?thesis by (auto simp: create_keyring_def check_write_size_def split: if_splits)
next
  case None
  then have len: "length (marshal_keyring J k) \<le> maxWriteBytes" by (simp add: check_write_size_def split: if_splits)
  obtain r s' where put: "mem_put sha key (marshal_keyring J k) create_options s = (r, s')"
    by (cases "mem_put sha key (marshal_keyring J k) create_options s")
  show ?thesis
  proof (cases r)
    case (Inl e)
    with mem_put_Inl [of sha key "marshal_keyring J k" create_options s e s'] put have "s' = s" by simp
    moreover have "mem_obj s key \<noteq> None"
      using put Inl by (auto simp: mem_put_def create_options_def mem_obj_def Let_def split: if_splits)
    ultimately show ?thesis using None put Inl by (auto simp: create_keyring_def mem_backend_simps)
  next
    case (Inr m)
    note p = mem_put_Inr [of sha key "marshal_keyring J k" create_options s m s']
    have "map_of s key = None" using p(3) put Inr by (simp add: create_options_def)
    moreover have "mem_obj s' key = Some (marshal_keyring J k, etag_of sha (marshal_keyring J k))"
      using p(2) put Inr by (simp add: mem_obj_def update_conv')
    ultimately show ?thesis
      using None put Inr marshalled_loads [OF assms len]
      by (simp add: create_keyring_def mem_backend_simps) (simp add: mem_obj_def)
  qed
qed

section \<open>Enrolment through the store\<close>

lemma enrol_keeps_valid:
  assumes "check_keyring L k = None" "enrol L seed root device (Some r) now k = Inr k'"
  shows "check_keyring L k' = None"
proof -
  from enrol_facts [OF assms(2)] obtain g where g: "kr_current_generation k = Some g" "device \<noteq> []"
    "device \<notin> set (map dw_device (gn_devices g))"
    and k': "k' = edit_devices (kr_current k) (\<lambda>ds. ds @ [wrap_for_device L seed root device r now (binding_for k g)]) k"
    by blast
  have gk: "kr_generation k (kr_current k) = Some g" using g(1) by (simp add: kr_current_generation_def)
  have ok: "generation_ok g" using kr_generation_Some [OF gk] check_keyring_None [THEN iffD1, OF assms(1)] by blast
  show ?thesis
    unfolding k'
  proof (rule edit_devices_valid [OF assms(1)])
    fix h assume "kr_generation k (kr_current k) = Some h"
    with gk ok g(2,3) show "devices_ok (gn_devices h @ [wrap_for_device L seed root device r now (binding_for k g)])"
      by (auto simp: devices_ok_def generation_ok_iff wrap_for_device_def)
  qed
qed

section \<open>Witnesses\<close>

text \<open>A store holding a fresh keyring, into which a second device is enrolled.\<close>

definition toy_ring_json :: "keyring \<Rightarrow> keyring \<Rightarrow> keyring_json" where
  "toy_ring_json k k' = \<lparr>kj_encode = (\<lambda>_. ''{2}''), kj_decode = (\<lambda>d. if d = ''{1}'' then Inr k else Inr k')\<rparr>"

definition toy_keyring_store :: mem_store where
  "toy_keyring_store = [(''kr'', \<lparr>ob_data = ''{1}'', ob_etag = etag_of (\<lambda>_. 0) ''{1}''\<rparr>)]"

definition toy_enrol :: "nat \<Rightarrow> keyring \<Rightarrow> (keyring_error, keyring \<times> unit) result" where
  "toy_enrol i k = map_sum id (\<lambda>k'. (k', ())) (enrol toy_keys i toy_root ''e'' (Some ''j'') ''u'' k)"

lemma toy_ring_update:
  obtains k k' s' where "check_keyring toy_keys k = None" "toy_enrol 0 k = Inr (k', ())" "k' \<noteq> k"
    "update_keyring toy_keys (toy_ring_json k k') (mem_backend (\<lambda>_. 0)) ''kr'' (\<lambda>_ x. x) toy_enrol toy_keyring_store = (Inr (k', ()), s')"
proof -
  obtain k g where k: "toy_create toy_keys = Inr k" "check_keyring toy_keys k = None" "kr_current_generation k = Some g"
    "root_recipient toy_keys toy_root = Inr (gn_recipient g)" "map dw_device (gn_devices g) = [''d'']" by (rule toy_ring)
  have "\<not> has_device k ''e''" using k(3,5) by (auto simp: has_device_def list_ex_iff)
  with k(3,4) obtain k' where e0: "enrol toy_keys 0 toy_root ''e'' (Some ''j'') ''u'' k = Inr k'"
    by (auto simp: enrol_def check_current_root_key_def)
  then have e: "toy_enrol 0 k = Inr (k', ())" by (simp add: toy_enrol_def)
  have "k' \<noteq> k"
  proof
    assume same: "k' = k"
    from enrol_facts [OF e0] k(3) obtain w where
      k': "k' = edit_devices (kr_current k) (\<lambda>ds. ds @ [w]) k" by auto
    have d: "distinct (map gn_number (kr_generations k))" using k(2) unfolding check_keyring_None by blast
    have gk: "kr_generation k (kr_current k) = Some g" using k(3) by (simp add: kr_current_generation_def)
    then have "kr_generation k' (kr_current k) = Some (with_devices (kr_current k) (\<lambda>ds. ds @ [w]) g)"
      by (simp add: k' kr_generation_edit [OF d])
    with gk same have "with_devices (kr_current k) (\<lambda>ds. ds @ [w]) g = g" by simp
    with kr_generation_Some [OF gk] have "gn_devices g @ [w] = gn_devices g" by (metis with_devices_simps(6))
    then show False by simp
  qed
  have load: "load_keyring toy_keys (toy_ring_json k k') (mem_backend (\<lambda>_. 0)) ''kr'' toy_keyring_store = Inr (k, etag_of (\<lambda>_. 0) ''{1}'')"
    using k(2) by (simp add: load_keyring_def mem_backend_simps mem_get_def toy_keyring_store_def object_head_def
        parse_keyring_def toy_ring_json_def maxObjectBytes_def)
  have "\<exists>m s'. mem_put (\<lambda>_. 0) ''kr'' (marshal_keyring (toy_ring_json k k') k') (swap_options (etag_of (\<lambda>_. 0) ''{1}'')) toy_keyring_store = (Inr m, s')"
    by (simp add: mem_put_def toy_keyring_store_def swap_options_def Let_def)
  then obtain m s' where put: "mem_put (\<lambda>_. 0) ''kr'' (marshal_keyring (toy_ring_json k k') k') (swap_options (etag_of (\<lambda>_. 0) ''{1}'')) toy_keyring_store = (Inr m, s')"
    by blast
  have retries: "maxUpdateRetries = Suc 7" by (simp add: maxUpdateRetries_def)
  have "check_write_size k' (marshal_keyring (toy_ring_json k k') k') = None"
    by (simp add: check_write_size_def marshal_keyring_def toy_ring_json_def maxWriteBytes_def maxObjectBytes_def)
  then have "update_keyring toy_keys (toy_ring_json k k') (mem_backend (\<lambda>_. 0)) ''kr'' (\<lambda>_ x. x) toy_enrol toy_keyring_store = (Inr (k', ()), s')"
    unfolding update_keyring_def retries update_keyring_loop.simps(2) using load e put by (simp add: mem_backend_simps)
  with that k(2) e \<open>k' \<noteq> k\<close> show thesis by blast
qed

lemma toy_keyring_store_ok: "mem_ok (\<lambda>_. 0) toy_keyring_store" "keyring_bytes_in {''{1}''} ''kr'' toy_keyring_store"
  by (simp_all add: mem_ok_def toy_keyring_store_def keyring_bytes_in_def mem_obj_def)


theorem updated_keyring_loads_witness:
  "\<exists>k k' s' t. k' \<noteq> k \<and> load_keyring toy_keys (toy_ring_json k k') (mem_backend (\<lambda>_. 0)) ''kr'' s' = Inr (k', t)"
proof -
  obtain k k' s' where e: "k' \<noteq> k"
    and u: "update_keyring toy_keys (toy_ring_json k k') (mem_backend (\<lambda>_. 0)) ''kr'' (\<lambda>_ x. x) toy_enrol toy_keyring_store = (Inr (k', ()), s')"
    by (rule toy_ring_update)
  have "\<exists>t. load_keyring toy_keys (toy_ring_json k k') (mem_backend (\<lambda>_. 0)) ''kr'' s' = Inr (k', t)"
  proof (rule updated_keyring_loads [OF u toy_keyring_store_ok(1) _ toy_keyring_store_ok(2)])
    show "check_keyring toy_keys a = None \<Longrightarrow> toy_enrol i a = Inr (b, v) \<Longrightarrow> check_keyring toy_keys b = None" for i a b v
      using enrol_keeps_valid by (auto simp: toy_enrol_def map_sum_def split: sum.splits)
  qed (simp_all add: json_law_def toy_ring_json_def)
  with e show ?thesis by blast
qed

theorem create_keyring_once_witness:
  "\<exists>k s' t. create_keyring (toy_ring_json k k) (mem_backend (\<lambda>_. 0)) ''kr'' k mem_new = (Inr (), s')
    \<and> load_keyring toy_keys (toy_ring_json k k) (mem_backend (\<lambda>_. 0)) ''kr'' s' = Inr (k, t)"
proof -
  obtain k where k: "check_keyring toy_keys k = None" by (rule toy_ring)
  have "json_law (toy_ring_json k k) k" by (simp add: json_law_def toy_ring_json_def)
  note once = create_keyring_once [OF this k, where sha = "\<lambda>_. 0" and key = "''kr''" and s = mem_new]
  have "length (marshal_keyring (toy_ring_json k k) k) \<le> maxWriteBytes" "mem_obj mem_new ''kr'' = None"
    by (simp_all add: marshal_keyring_def toy_ring_json_def maxWriteBytes_def maxObjectBytes_def mem_obj_def mem_new_def)
  with once show ?thesis
    by (cases "create_keyring (toy_ring_json k k) (mem_backend (\<lambda>_. 0)) ''kr'' k mem_new") (auto split: sum.splits)
qed

end
