(* ===== verification/Keyring_Enrol.thy ===== *)
theory Keyring_Enrol
  imports Keyring_Store
begin

text \<open>
  Enrolling a device into every generation at once (\<^verbatim>\<open>EnrolAll\<close>) and taking exactly that back
  (\<^verbatim>\<open>UnenrolAppended\<close>): what the two commands that admit a device rest on.
\<close>

section \<open>One wrap put into a list of wraps\<close>

lemma put_wrap_find:
  "find (\<lambda>d. dw_device d = dw_device w) (put_wrap w ds)
     = Some (case find (\<lambda>d. dw_device d = dw_device w) ds of None \<Rightarrow> w | Some d \<Rightarrow> if dw_public d = dw_public w then d else w)"
  by (induction ds) auto

lemma put_wrap_other: "e \<noteq> dw_device w \<Longrightarrow> find (\<lambda>d. dw_device d = e) (put_wrap w ds) = find (\<lambda>d. dw_device d = e) ds"
  by (induction ds) auto

lemma put_wrap_new: "dw_device w \<notin> set (map dw_device ds) \<Longrightarrow> put_wrap w ds = ds @ [w]"
  by (induction ds) auto

lemma put_wrap_same: "find (\<lambda>d. dw_device d = dw_device w) ds = Some d \<Longrightarrow> dw_public d = dw_public w \<Longrightarrow> put_wrap w ds = ds"
  by (induction ds) (auto split: if_splits)

lemma put_wrap_names: "set (map dw_device (put_wrap w ds)) = insert (dw_device w) (set (map dw_device ds))"
  by (induction ds) auto

lemma put_wrap_ok:
  assumes "devices_ok ds" "dw_device w \<noteq> []" "dw_format w = wrap_format_bound"
  shows "devices_ok (put_wrap w ds)"
proof -
  have "distinct (map dw_device ds) \<Longrightarrow> distinct (map dw_device (put_wrap w ds))"
    using put_wrap_names [of w] by (induction ds) (auto simp del: set_map)
  moreover have "\<forall>d \<in> set ds. dw_format d = wrap_format_bound \<Longrightarrow> \<forall>d \<in> set (put_wrap w ds). dw_format d = wrap_format_bound"
    using assms(3) by (induction ds) auto
  ultimately show ?thesis using assms put_wrap_names [of w ds] by (simp add: devices_ok_def del: set_map)
qed

lemma remove_appended:
  "dw_device w \<notin> set (map dw_device ds) \<Longrightarrow> remove_wrap (dw_device w) (dw_wrap w) (ds @ [w]) = ds"
  by (induction ds) auto

section \<open>The wraps of all generations\<close>

definition wraps_put :: "(int \<Rightarrow> device_wrap) \<Rightarrow> int set \<Rightarrow> keyring \<Rightarrow> keyring" where
  "wraps_put W N k = k\<lparr>kr_generations := map (\<lambda>g. if gn_number g \<in> N
       then g\<lparr>gn_devices := put_wrap (W (gn_number g)) (gn_devices g)\<rparr> else g) (kr_generations k)\<rparr>"

lemma wraps_put_fields [simp]:
  "kr_current (wraps_put W N k) = kr_current k" "kr_profile (wraps_put W N k) = kr_profile k"
  "map gn_number (kr_generations (wraps_put W N k)) = map gn_number (kr_generations k)"
  by (simp_all add: wraps_put_def)

lemma wraps_put_none [simp]: "wraps_put W {} k = k"
  by (simp add: wraps_put_def)

lemma wraps_put_generation:
  "kr_generation (wraps_put W N k) n = map_option (\<lambda>g. if n \<in> N then g\<lparr>gn_devices := put_wrap (W n) (gn_devices g)\<rparr> else g) (kr_generation k n)"
proof -
  let ?h = "\<lambda>g. if gn_number g \<in> N then g\<lparr>gn_devices := put_wrap (W (gn_number g)) (gn_devices g)\<rparr> else g"
  have "kr_generation (wraps_put W N k) n = map_option ?h (kr_generation k n)"
    unfolding wraps_put_def kr_generation_def by (simp add: find_map_number [of ?h])
  then show ?thesis using kr_generation_Some [of k n] by (cases "kr_generation k n") auto
qed

lemma wraps_put_edit:
  assumes "distinct (map gn_number (kr_generations k))" "n \<notin> N"
  shows "wraps_put W N (edit_devices n (put_wrap (W n)) k) = wraps_put W (insert n N) k"
  using assms(2) by (auto simp: wraps_put_def edit_devices_map [OF assms(1)] with_devices_def)

lemma device_wrap_of_edit:
  assumes "distinct (map gn_number (kr_generations k))"
  shows "device_wrap_of (edit_devices n f k) m device =
    (if m = n then (case kr_generation k n of None \<Rightarrow> None | Some g \<Rightarrow> find (\<lambda>d. dw_device d = device) (f (gn_devices g)))
     else device_wrap_of k m device)"
  using kr_generation_Some [of k n] kr_generation_Some [of k m]
  by (auto simp: device_wrap_of_def kr_generation_edit [OF assms] split: option.splits)

text \<open>Whether putting a wrap changes what the generation holds for the device, as \<^verbatim>\<open>EnrolAll\<close> tests it.\<close>

definition put_changes :: "keyring \<Rightarrow> device_wrap \<Rightarrow> int \<Rightarrow> bool" where
  "put_changes k w n = (case device_wrap_of k n (dw_device w) of None \<Rightarrow> dw_wrap w \<noteq> []
     | Some d \<Rightarrow> dw_public d \<noteq> dw_public w \<and> dw_wrap w \<noteq> dw_wrap d)"

text \<open>Enrolling into one generation, the current one included, puts one wrap.\<close>

lemma enrol_into_facts:
  assumes "enrol_into L seed n root device (Some r) now k = Inr k'"
  shows "device \<noteq> [] \<and> (\<exists>g. kr_generation k n = Some g \<and> root_recipient L root = Inr (gn_recipient g)
     \<and> (n = kr_current k \<longrightarrow> device \<notin> set (map dw_device (gn_devices g))))
     \<and> k' = edit_devices n (put_wrap (wrap_for_device L seed root device r now (kr_profile k, n))) k"
proof -
  obtain g where g: "kr_generation k n = Some g" using assms by (auto simp: enrol_into_def split: option.splits)
  note num = kr_generation_Some [OF g]
  then have b: "binding_for k g = (kr_profile k, n)" by (simp add: binding_for_def)
  show ?thesis
  proof (cases "n = kr_current k")
    case True
    with assms g have "enrol L seed root device (Some r) now k = Inr k'" by (simp add: enrol_into_def)
    from enrol_facts [OF this] g True have e: "device \<noteq> []" "root_recipient L root = Inr (gn_recipient g)"
      "device \<notin> set (map dw_device (gn_devices g))"
      and k': "k' = edit_devices n (\<lambda>ds. ds @ [wrap_for_device L seed root device r now (binding_for k g)]) k"
      by (auto simp: kr_current_generation_def)
    let ?w = "wrap_for_device L seed root device r now (kr_profile k, n)"
    have "find (\<lambda>x. gn_number x = n) gs = Some g \<Longrightarrow>
        edit_generation n (\<lambda>g. g\<lparr>gn_devices := gn_devices g @ [?w]\<rparr>) gs = edit_generation n (\<lambda>g. g\<lparr>gn_devices := put_wrap ?w (gn_devices g)\<rparr>) gs" for gs
      using e(3) put_wrap_new [of ?w "gn_devices g"] by (induction gs) (auto simp: wrap_for_device_def)
    with g have "k' = edit_devices n (put_wrap ?w) k"
      unfolding k' b edit_devices_def kr_generation_def by (simp add: kr_generation_def)
    with e g show ?thesis by blast
  next
    case False
    with assms g b show ?thesis by (auto simp: enrol_into_def split: if_splits sum.splits)
  qed
qed

lemma enrol_earlier_put:
  assumes "distinct (map gn_number (kr_generations k))" "distinct ns"
    and "enrol_earlier L seed keys device (Some r) now ns app k = ((None, app'), k')"
    and W: "W = (\<lambda>n. wrap_for_device L (seed n) (the (map_of keys n)) device r now (kr_profile k, n))"
  shows "k' = wraps_put W (set ns) k
    \<and> app' = app @ map (\<lambda>n. (n, dw_wrap (W n))) (filter (\<lambda>n. put_changes k (W n) n) ns)
    \<and> (\<forall>n \<in> set ns. \<exists>g. kr_generation k n = Some g \<and> root_recipient L (the (map_of keys n)) = Inr (gn_recipient g))"
  using assms
proof (induction ns arbitrary: app k)
  case (Cons n ns)
  have dev: "dw_device (W m) = device" for m by (simp add: Cons.prems(4) wrap_for_device_def)
  obtain k1 where one: "enrol_into L (seed n) n (the (map_of keys n)) device (Some r) now k = Inr k1"
    using Cons.prems(3) by (auto simp: Let_def split: sum.splits)
  from enrol_into_facts [OF one] obtain g where g: "kr_generation k n = Some g"
      "root_recipient L (the (map_of keys n)) = Inr (gn_recipient g)"
    and k1: "k1 = edit_devices n (put_wrap (W n)) k" using Cons.prems(4) by auto
  have d1: "distinct (map gn_number (kr_generations k1))"
    using Cons.prems(1) unfolding k1 edit_devices_map [OF Cons.prems(1)] by (simp add: comp_def)
  have after: "device_wrap_of k1 n device = Some (case device_wrap_of k n device of None \<Rightarrow> W n
       | Some d \<Rightarrow> if dw_public d = dw_public (W n) then d else W n)"
    using put_wrap_find [of "W n" "gn_devices g"] unfolding dev
    by (simp add: k1 device_wrap_of_edit [OF Cons.prems(1)] g(1)) (simp add: device_wrap_of_def g(1))
  have rest: "device_wrap_of k1 m device = device_wrap_of k m device" if "m \<noteq> n" for m
    using that by (simp add: k1 device_wrap_of_edit [OF Cons.prems(1)])
  let ?app = "if put_changes k (W n) n then app @ [(n, dw_wrap (W n))] else app"
  have "enrol_earlier L seed keys device (Some r) now ns ?app k1 = ((None, app'), k')"
  proof -
    have "(case device_wrap_of k1 n device of None \<Rightarrow> app
        | Some w \<Rightarrow> if dw_wrap w \<noteq> (case device_wrap_of k n device of None \<Rightarrow> [] | Some w \<Rightarrow> dw_wrap w) then app @ [(n, dw_wrap w)] else app) = ?app"
      unfolding after put_changes_def dev by (cases "device_wrap_of k n device") auto
    with Cons.prems(3) one show ?thesis by (simp add: Let_def)
  qed
  moreover have "kr_profile k1 = kr_profile k" by (simp add: k1)
  ultimately have IH: "k' = wraps_put W (set ns) k1
    \<and> app' = ?app @ map (\<lambda>n. (n, dw_wrap (W n))) (filter (\<lambda>n. put_changes k1 (W n) n) ns)
    \<and> (\<forall>n \<in> set ns. \<exists>g. kr_generation k1 n = Some g \<and> root_recipient L (the (map_of keys n)) = Inr (gn_recipient g))"
    using Cons.IH [OF d1] Cons.prems(2,4) by simp
  have same: "filter (\<lambda>n. put_changes k1 (W n) n) ns = filter (\<lambda>n. put_changes k (W n) n) ns"
  proof (rule filter_cong [OF refl])
    fix m assume "m \<in> set ns"
    with Cons.prems(2) have "m \<noteq> n" by auto
    from rest [OF this] show "put_changes k1 (W m) m = put_changes k (W m) m" by (simp add: put_changes_def dev)
  qed
  have "\<exists>h. kr_generation k m = Some h \<and> root_recipient L (the (map_of keys m)) = Inr (gn_recipient h)" if "m \<in> set ns" for m
    using IH that by (auto simp: k1 kr_generation_edit [OF Cons.prems(1)])
  moreover have "k' = wraps_put W (set (n # ns)) k"
    using IH wraps_put_edit [OF Cons.prems(1)] Cons.prems(2) by (simp add: k1)
  ultimately show ?case using IH g unfolding same by auto
qed simp


section \<open>Enrolment into every generation\<close>

lemma enrol_all_put:
  assumes d: "distinct (map gn_number (kr_generations k))"
    and run: "enrol_all L seed keys device (Some r) now k = ((None, app), k')"
    and W: "W = (\<lambda>n. wrap_for_device L (seed n) (the (map_of keys n)) device r now (kr_profile k, n))"
  shows "device \<noteq> [] \<and> kr_current k \<in> fst ` set keys \<and> \<not> has_device k device \<and> k' = wraps_put W (fst ` set keys) k
    \<and> set app = (\<lambda>n. (n, dw_wrap (W n))) ` {n \<in> fst ` set keys. n = kr_current k \<or> put_changes k (W n) n}
    \<and> distinct (map fst app)
    \<and> (\<forall>n \<in> fst ` set keys. \<exists>g. kr_generation k n = Some g \<and> root_recipient L (the (map_of keys n)) = Inr (gn_recipient g))"
proof -
  let ?c = "kr_current k"
  obtain current where cur: "map_of keys ?c = Some current" using run by (auto simp: enrol_all_def split: option.splits)
  obtain k1 where one: "enrol L (seed ?c) current device (Some r) now k = Inr k1"
    using run cur by (auto simp: enrol_all_def split: sum.splits)
  have into: "enrol_into L (seed ?c) ?c current device (Some r) now k = Inr k1"
    using one enrol_facts [OF one] by (auto simp: enrol_into_def kr_current_generation_def split: option.splits)
  from enrol_into_facts [OF into] obtain g where dev: "device \<noteq> []" and g: "kr_generation k ?c = Some g"
      "root_recipient L current = Inr (gn_recipient g)" "device \<notin> set (map dw_device (gn_devices g))"
    and k1: "k1 = edit_devices ?c (put_wrap (W ?c)) k" using W cur by auto
  have wd: "dw_device (W m) = device" for m by (simp add: W wrap_for_device_def)
  have none: "device_wrap_of k ?c device = None" using g by (auto simp: device_wrap_of_def find_None_iff)
  have d1: "distinct (map gn_number (kr_generations k1))"
    using d unfolding k1 edit_devices_map [OF d] by (simp add: comp_def)
  have first: "device_wrap_of k1 ?c device = Some (W ?c)"
    using put_wrap_find [of "W ?c" "gn_devices g"] g(3) find_None_iff [of "\<lambda>d. dw_device d = device" "gn_devices g"] unfolding wd
    by (auto simp: k1 device_wrap_of_edit [OF d] g(1) split: option.splits)
  let ?ns = "sort (remdups (filter (\<lambda>n. n \<noteq> ?c) (map fst keys)))"
  have sns: "set ?ns = fst ` set keys - {?c}" "distinct ?ns" by auto
  have cin: "?c \<in> fst ` set keys" using map_of_SomeD [OF cur] by (metis fst_conv image_eqI)
  obtain app0 where run1: "enrol_earlier L seed keys device (Some r) now ?ns [(?c, dw_wrap (W ?c))] k1 = ((None, app0), k')"
    and app: "app = sort_key fst app0"
    using run cur one first by (auto simp: enrol_all_def Let_def split: prod.splits option.splits)
  have prof: "kr_profile k1 = kr_profile k" by (simp add: k1)
  from enrol_earlier_put [OF d1 sns(2) run1] W prof have fin: "k' = wraps_put W (set ?ns) k1"
    "app0 = [(?c, dw_wrap (W ?c))] @ map (\<lambda>n. (n, dw_wrap (W n))) (filter (\<lambda>n. put_changes k1 (W n) n) ?ns)"
    "\<forall>n \<in> set ?ns. \<exists>g. kr_generation k1 n = Some g \<and> root_recipient L (the (map_of keys n)) = Inr (gn_recipient g)" by auto
  have same: "put_changes k1 (W n) n = put_changes k (W n) n" if "n \<noteq> ?c" for n
    using that by (simp add: put_changes_def wd k1 device_wrap_of_edit [OF d])
  have k': "k' = wraps_put W (fst ` set keys) k"
    using fin(1) wraps_put_edit [OF d, of ?c "set ?ns" W] cin unfolding sns(1) by (simp add: k1 insert_absorb)
  have "set app0 = (\<lambda>n. (n, dw_wrap (W n))) ` {n \<in> fst ` set keys. n = ?c \<or> put_changes k (W n) n}"
  proof -
    have later: "set (filter (\<lambda>n. put_changes k1 (W n) n) ?ns) = {n \<in> fst ` set keys. n \<noteq> ?c \<and> put_changes k (W n) n}"
      using sns(1) same by auto
    have split: "{n \<in> fst ` set keys. n = ?c \<or> put_changes k (W n) n} = insert ?c {n \<in> fst ` set keys. n \<noteq> ?c \<and> put_changes k (W n) n}"
      using cin by auto
    show ?thesis unfolding fin(2) split later [symmetric] image_insert by (simp only: set_append set_map list.set append.simps insert_is_Un [symmetric])
  qed
  moreover have "distinct (map fst app0)" unfolding fin(2) using sns by (simp add: comp_def)
  then have "distinct (map fst app)" by (metis app distinct_map distinct_sort inj_on_def set_sort sort_key_simps)
  moreover have "\<exists>g. kr_generation k n = Some g \<and> root_recipient L (the (map_of keys n)) = Inr (gn_recipient g)" if "n \<in> fst ` set keys" for n
  proof (cases "n = ?c")
    case True
    with g cur show ?thesis by simp
  next
    case False
    with that fin(3) sns(1) obtain h where "kr_generation k1 n = Some h" "root_recipient L (the (map_of keys n)) = Inr (gn_recipient h)" by blast
    then show ?thesis by (auto simp: k1 kr_generation_edit [OF d])
  qed
  moreover have "\<not> has_device k device"
    using g by (auto simp: has_device_def kr_current_generation_def list_ex_iff split: option.splits)
  ultimately show ?thesis using dev cin k' by (simp add: app)
qed


text \<open>
  A device that is admitted gets in everywhere the admitting device is, and nothing else changes.
  Enrolling into every generation leaves a valid keyring valid and changes no signed part; the new device
  then unwraps the current root key, and in each earlier generation whose key was handed over it either
  unwraps that key or keeps the wrap it already had there for the same public key; every other device's
  access to every generation is as it was.
\<close>
theorem enrol_all_correct:
  assumes "crypto_laws L" "check_keyring L k = None"
    and "enrol_all L seed keys device (Some (ag_recipient (kl_age L) i)) now k = ((None, app), k')"
  shows "check_keyring L k' = None \<and> map signed_part (kr_generations k') = map signed_part (kr_generations k)
    \<and> kr_current k' = kr_current k
    \<and> (\<forall>n root. map_of keys n = Some root \<longrightarrow> (\<exists>g g'. kr_generation k n = Some g \<and> kr_generation k' n = Some g'
         \<and> (unwrap_device L g' device i (binding_for k' g') = Inr root
            \<or> n \<noteq> kr_current k \<and> gn_devices g' = gn_devices g \<and> (\<exists>d \<in> set (gn_devices g). dw_device d = device \<and> dw_public d = ag_recipient (kl_age L) i))))
    \<and> (\<forall>n g g' e j. e \<noteq> device \<longrightarrow> kr_generation k n = Some g \<longrightarrow> kr_generation k' n = Some g' \<longrightarrow>
         unwrap_device L g' e j (binding_for k' g') = unwrap_device L g e j (binding_for k g))"
proof -
  let ?r = "ag_recipient (kl_age L) i"
  define W where W: "W = (\<lambda>n. wrap_for_device L (seed n) (the (map_of keys n)) device ?r now (kr_profile k, n))"
  note c = check_keyring_None [THEN iffD1, OF assms(2)]
  then have d: "distinct (map gn_number (kr_generations k))" by blast
  note f = enrol_all_put [OF d assms(3) W]
  then have k': "k' = wraps_put W (fst ` set keys) k" and dev: "device \<noteq> []" by blast+
  have wd: "dw_device (W n) = device" "dw_public (W n) = ?r" "dw_format (W n) = wrap_format_bound" for n
    by (simp_all add: W wrap_for_device_def)
  have valid: "check_keyring L (wraps_put W N k) = None" if "finite N" for N
    using that
  proof (induction N rule: finite_induct)
    case empty
    show ?case using assms(2) by simp
  next
    case (insert n N)
    have dN: "distinct (map gn_number (kr_generations (wraps_put W N k)))" using d by simp
    have "edit_devices n (put_wrap (W n)) (wraps_put W N k) = wraps_put W (insert n N) k"
      unfolding edit_devices_map [OF dN] using insert.hyps(2) by (auto simp: wraps_put_def with_devices_def comp_def intro!: map_cong)
    moreover have "check_keyring L (edit_devices n (put_wrap (W n)) (wraps_put W N k)) = None"
    proof (rule edit_devices_valid [OF insert.IH])
      fix g assume "kr_generation (wraps_put W N k) n = Some g"
      then have "generation_ok g" using kr_generation_Some check_keyring_None [THEN iffD1, OF insert.IH] by blast
      then show "devices_ok (put_wrap (W n) (gn_devices g))"
        using dev wd by (intro put_wrap_ok) (simp_all add: generation_ok_iff)
    qed
    ultimately show ?case by simp
  qed
  have one: "\<exists>g g'. kr_generation k n = Some g \<and> kr_generation k' n = Some g'
         \<and> (unwrap_device L g' device i (binding_for k' g') = Inr root
            \<or> n \<noteq> kr_current k \<and> gn_devices g' = gn_devices g \<and> (\<exists>d \<in> set (gn_devices g). dw_device d = device \<and> dw_public d = ?r))"
    if n: "map_of keys n = Some root" for n root
  proof -
    have inn: "n \<in> fst ` set keys" using map_of_SomeD [OF n] by (metis fst_conv image_eqI)
    with f n obtain g where g: "kr_generation k n = Some g" "root_recipient L root = Inr (gn_recipient g)" by fastforce
    let ?g = "g\<lparr>gn_devices := put_wrap (W n) (gn_devices g)\<rparr>"
    have g': "kr_generation k' n = Some ?g" using g inn by (simp add: k' wraps_put_generation)
    have b: "binding_for k' ?g = (kr_profile k, n)" using kr_generation_Some [OF g(1)] by (simp add: binding_for_def k')
    have hit: "unwrap_device L ?g device i (kr_profile k, n) = Inr root" if "find (\<lambda>d. dw_device d = device) (gn_devices ?g) = Some (W n)"
      using that by (rule unwrap_device_hit [OF assms(1), where seed = "seed n"]) (simp_all add: W wrap_for_device_def n g(2))
    show ?thesis
    proof (cases "find (\<lambda>d. dw_device d = device) (gn_devices g)")
      case None
      with put_wrap_find [of "W n" "gn_devices g"] wd have "find (\<lambda>d. dw_device d = device) (gn_devices ?g) = Some (W n)" by simp
      with hit g g' b show ?thesis by metis
    next
      case (Some w)
      show ?thesis
      proof (cases "dw_public w = ?r")
        case True
        with Some put_wrap_same [of "W n" "gn_devices g" w] wd have "gn_devices ?g = gn_devices g" by simp
        moreover have w: "w \<in> set (gn_devices g)" "dw_device w = device" using Some by (auto simp: find_Some_iff)
        moreover have "n \<noteq> kr_current k"
          using f w g(1) by (auto simp: has_device_def kr_current_generation_def list_ex_iff)
        ultimately show ?thesis using True g g' by blast
      next
        case False
        with Some put_wrap_find [of "W n" "gn_devices g"] wd have "find (\<lambda>d. dw_device d = device) (gn_devices ?g) = Some (W n)" by simp
        with hit g g' b show ?thesis by metis
      qed
    qed
  qed
  have other: "unwrap_device L g' e j (binding_for k' g') = unwrap_device L g e j (binding_for k g)"
    if "e \<noteq> device" "kr_generation k n = Some g" "kr_generation k' n = Some g'" for n g g' e j
  proof -
    have g': "g' = (if n \<in> fst ` set keys then g\<lparr>gn_devices := put_wrap (W n) (gn_devices g)\<rparr> else g)"
      using that by (simp add: k' wraps_put_generation)
    have "binding_for k' g' = binding_for k g" by (simp add: binding_for_def k' g')
    moreover have "unwrap_device L g' e j b = unwrap_device L g e j b" for b
      using put_wrap_other [of e "W n"] that(1) wd by (intro unwrap_device_cong) (simp_all add: g')
    ultimately show ?thesis by simp
  qed
  have "map signed_part (kr_generations k') = map signed_part (kr_generations k)"
    by (simp add: k' wraps_put_def signed_part_def comp_def)
  moreover have "check_keyring L k' = None" unfolding k' by (rule valid) simp
  moreover have "kr_current k' = kr_current k" by (simp add: k')
  ultimately show ?thesis using one other by blast
qed

section \<open>Taking an enrolment back\<close>

lemma unenrol_put:
  assumes "distinct (map gn_number (kr_generations k))" and "distinct (map fst aps)"
    and "\<And>n w. (n, w) \<in> set aps \<Longrightarrow> n \<in> N \<and> w = dw_wrap (W n) \<and> w \<noteq> [] \<and> device_wrap_of k n device = None"
    and "\<And>n. dw_device (W n) = device"
  shows "snd (unenrol_appended device aps (wraps_put W N k)) = wraps_put W (N - fst ` set aps) k"
  using assms(2,3)
proof (induction aps arbitrary: N)
  case (Cons a aps)
  obtain n w where a: "a = (n, w)" by (cases a)
  with Cons.prems(2) have n: "n \<in> N" "w = dw_wrap (W n)" "w \<noteq> []" "device_wrap_of k n device = None" by auto
  have later: "(m, v) \<in> set aps \<Longrightarrow> m \<noteq> n" for m v using Cons.prems(1) a by force
  have dN: "distinct (map gn_number (kr_generations (wraps_put W N k)))" using assms(1) by simp
  have step: "edit_devices n (remove_wrap device w) (wraps_put W N k) = wraps_put W (N - {n}) k"
    if "kr_generation k n \<noteq> None"
  proof -
    have "remove_wrap device w (put_wrap (W n) (gn_devices g)) = gn_devices g" if g: "g \<in> set (kr_generations k)" "gn_number g = n" for g
    proof -
      have "device \<notin> set (map dw_device (gn_devices g))"
        using n(4) kr_generation_in [OF assms(1) g(1)] g(2) by (auto simp: device_wrap_of_def find_None_iff)
      then show ?thesis using remove_appended [of "W n" "gn_devices g"] put_wrap_new [of "W n" "gn_devices g"] assms(4) n(2) by simp
    qed
    then have "with_devices n (remove_wrap device w) (if gn_number g \<in> N then g\<lparr>gn_devices := put_wrap (W (gn_number g)) (gn_devices g)\<rparr> else g)
      = (if gn_number g \<in> N - {n} then g\<lparr>gn_devices := put_wrap (W (gn_number g)) (gn_devices g)\<rparr> else g)"
      if "g \<in> set (kr_generations k)" for g
      using n(1) that by (cases "gn_number g = n"; cases "gn_number g \<in> N") (simp_all add: with_devices_def)
    then show ?thesis
      unfolding edit_devices_map [OF dN] by (simp add: wraps_put_def comp_def)
  qed
  have rest: "snd (unenrol_appended device aps (wraps_put W (N - {n}) k)) = wraps_put W (N - {n} - fst ` set aps) k"
    using Cons.prems later by (intro Cons.IH) auto
  have diff: "N - {n} - fst ` set aps = N - fst ` set (a # aps)" using a by auto
  show ?case
  proof (cases "kr_generation k n")
    case None
    have "wraps_put W (N - {n}) k = wraps_put W N k"
      unfolding wraps_put_def using None by (intro arg_cong [where f = "\<lambda>gs. k\<lparr>kr_generations := gs\<rparr>"] map_cong) (auto simp: kr_generation_None)
    with None rest diff show ?thesis by (simp add: a wraps_put_generation)
  next
    case (Some g)
    then obtain g' where "kr_generation (wraps_put W N k) n = Some g'" by (simp add: wraps_put_generation)
    with Some rest diff step n(3) show ?thesis
      by (cases "unenrol_appended device aps (wraps_put W (N - {n}) k)") (simp add: a Let_def)
  qed
qed simp

text \<open>
  An approval that is refused leaves no trace. Taking back the wraps an enrolment reports restores
  the keyring exactly, provided the device held no wrap for another key: in every generation the
  wrap it wrote is gone, and a wrap that was there before for the same key is still there.
\<close>
theorem enrolment_taken_back:
  assumes "crypto_laws L" "check_keyring L k = None"
    and "enrol_all L seed keys device (Some r) now k = ((None, app), k')"
    and "\<And>g d. g \<in> set (kr_generations k) \<Longrightarrow> d \<in> set (gn_devices g) \<Longrightarrow> dw_device d = device \<Longrightarrow> dw_public d = r"
  shows "snd (unenrol_appended device app k') = k"
proof -
  define W where W: "W = (\<lambda>n. wrap_for_device L (seed n) (the (map_of keys n)) device r now (kr_profile k, n))"
  have d: "distinct (map gn_number (kr_generations k))" using check_keyring_None [THEN iffD1, OF assms(2)] by blast
  note f = enrol_all_put [OF d assms(3) W]
  have wd: "dw_device (W n) = device" "dw_public (W n) = r" for n by (simp_all add: W wrap_for_device_def)
  have wne: "dw_wrap (W n) \<noteq> []" for n
    using assms(1) by (simp add: W wrap_for_device_def seal_for_device_def crypto_laws_def b64_nonempty)
  have listed: "dw_public w = r \<and> \<not> put_changes k (W n) n" if "device_wrap_of k n device = Some w" for n w
  proof -
    from that obtain g where "kr_generation k n = Some g" "w \<in> set (gn_devices g)" "dw_device w = device"
      by (auto simp: device_wrap_of_def find_Some_iff split: option.splits)
    with assms(4) kr_generation_Some have "dw_public w = r" by blast
    with that wd show ?thesis by (simp add: put_changes_def)
  qed
  have cur: "device_wrap_of k (kr_current k) device = None"
    using f by (auto simp: has_device_def device_wrap_of_def kr_current_generation_def list_ex_iff find_None_iff split: option.splits)
  have app: "n \<in> fst ` set keys \<and> w = dw_wrap (W n) \<and> w \<noteq> [] \<and> device_wrap_of k n device = None" if "(n, w) \<in> set app" for n w
  proof -
    from that f have "n \<in> fst ` set keys" "w = dw_wrap (W n)" "n = kr_current k \<or> put_changes k (W n) n" by auto
    with wne cur listed show ?thesis by (cases "device_wrap_of k n device") auto
  qed
  have k': "k' = wraps_put W (fst ` set keys) k" and "distinct (map fst app)" using f by blast+
  then have undone: "snd (unenrol_appended device app k') = wraps_put W (fst ` set keys - fst ` set app) k"
    using unenrol_put [OF d _ app wd(1)] by blast
  have "put_wrap (W n) (gn_devices g) = gn_devices g"
    if g: "g \<in> set (kr_generations k)" "gn_number g = n" "n \<in> fst ` set keys - fst ` set app" for g n
  proof -
    have gn: "kr_generation k n = Some g" using kr_generation_in [OF d g(1)] g(2) by simp
    have "\<not> (n = kr_current k \<or> put_changes k (W n) n)"
    proof
      assume "n = kr_current k \<or> put_changes k (W n) n"
      with g(3) f have "(n, dw_wrap (W n)) \<in> set app" by blast
      then have "n \<in> fst ` set app" by (rule image_eqI [rotated]) simp
      with g(3) show False by simp
    qed
    with wne wd have "device_wrap_of k n device \<noteq> None" by (auto simp: put_changes_def split: option.splits)
    then obtain w where w: "device_wrap_of k n device = Some w" by blast
    with gn have "find (\<lambda>d. dw_device d = device) (gn_devices g) = Some w" by (simp add: device_wrap_of_def)
    with listed [OF w] wd show ?thesis by (simp add: put_wrap_same)
  qed
  then have "map (\<lambda>g. if gn_number g \<in> fst ` set keys - fst ` set app
      then g\<lparr>gn_devices := put_wrap (W (gn_number g)) (gn_devices g)\<rparr> else g) (kr_generations k) = kr_generations k"
    by (intro map_idI) simp
  then show ?thesis unfolding undone by (simp add: wraps_put_def)
qed

text \<open>
  The exception the premise names. Where an earlier generation held a wrap for another key of the device,
  the enrolment replaces it, and taking the written wrap back leaves the device without any, so that
  generation does not keep what it held when the approval ran.
\<close>

lemma replaced_wrap_is_lost:
  assumes "distinct (map dw_device ds)" "find (\<lambda>d. dw_device d = dw_device w) ds = Some d" "dw_public d \<noteq> dw_public w"
  shows "dw_device w \<notin> set (map dw_device (remove_wrap (dw_device w) (dw_wrap w) (put_wrap w ds)))"
  using assms by (induction ds) (auto split: if_splits)

section \<open>A concrete enrolment\<close>

lemma toy_enrol_all:
  obtains k app k' where "toy_create toy_keys = Inr k" "check_keyring toy_keys k = None" "kr_current k = 1"
    "\<forall>g \<in> set (kr_generations k). map dw_device (gn_devices g) = [''d'']"
    "enrol_all toy_keys (\<lambda>_. 0) [(1, toy_root)] ''e'' (Some ''j'') ''u'' k = ((None, app), k')" "app \<noteq> []"
proof -
  obtain k g where k: "toy_create toy_keys = Inr k" "check_keyring toy_keys k = None" "kr_current_generation k = Some g"
    "root_recipient toy_keys toy_root = Inr (gn_recipient g)" "map dw_device (gn_devices g) = [''d'']" "map dw_public (gn_devices g) = [''i'']"
    "kr_current k = 1" by (rule toy_ring)
  obtain h where h: "kr_generations k = [h]" using new_keyring_facts [OF k(1) [unfolded toy_create_def]] by metis
  with k(3,7) have "h = g" by (simp add: kr_current_generation_def kr_generation_def split: if_splits)
  with h k(5) have one: "\<forall>g \<in> set (kr_generations k). map dw_device (gn_devices g) = [''d'']" by simp
  have "\<not> has_device k ''e''" using k(3,5) by (auto simp: has_device_def list_ex_iff)
  with k(3,4) obtain k' where "enrol toy_keys 0 toy_root ''e'' (Some ''j'') ''u'' k = Inr k'"
    by (auto simp: enrol_def check_current_root_key_def)
  then have "\<exists>app. app \<noteq> [] \<and> enrol_all toy_keys (\<lambda>_. 0) [(1, toy_root)] ''e'' (Some ''j'') ''u'' k = ((None, app), k')"
    by (simp add: enrol_all_def k(7))
  with that [OF k(1,2,7) one] show thesis by blast
qed

theorem enrol_all_correct_witness:
  "\<exists>k app k' g'. enrol_all toy_keys (\<lambda>_. 0) [(1, toy_root)] ''e'' (Some ''j'') ''u'' k = ((None, app), k')
    \<and> check_keyring toy_keys k' = None \<and> kr_generation k' 1 = Some g'
    \<and> unwrap_device toy_keys g' ''e'' ''j'' (binding_for k' g') = Inr toy_root"
proof -
  obtain k app k' where k: "check_keyring toy_keys k = None" "kr_current k = 1"
    "enrol_all toy_keys (\<lambda>_. 0) [(1, toy_root)] ''e'' (Some ''j'') ''u'' k = ((None, app), k')" by (rule toy_enrol_all)
  have j: "''j'' = ag_recipient (kl_age toy_keys) ''j''" by (simp add: toy_keys_def toy_age_def)
  from enrol_all_correct [OF toy_laws k(1), of "\<lambda>_. 0" "[(1, toy_root)]" "''e''" "''j''" "''u''" app k'] k j
  have "check_keyring toy_keys k' = None \<and> (\<exists>g'. kr_generation k' 1 = Some g' \<and> unwrap_device toy_keys g' ''e'' ''j'' (binding_for k' g') = Inr toy_root)"
    by (metis map_of_Cons_code(2))
  with k(3) show ?thesis by blast
qed

theorem enrolment_taken_back_witness:
  "\<exists>k app k'. enrol_all toy_keys (\<lambda>_. 0) [(1, toy_root)] ''e'' (Some ''j'') ''u'' k = ((None, app), k')
    \<and> app \<noteq> [] \<and> snd (unenrol_appended ''e'' app k') = k"
proof -
  obtain k app k' where k: "check_keyring toy_keys k = None" "\<forall>g \<in> set (kr_generations k). map dw_device (gn_devices g) = [''d'']"
    "enrol_all toy_keys (\<lambda>_. 0) [(1, toy_root)] ''e'' (Some ''j'') ''u'' k = ((None, app), k')" "app \<noteq> []" by (rule toy_enrol_all)
  have "snd (unenrol_appended ''e'' app k') = k"
  proof (rule enrolment_taken_back [OF toy_laws k(1,3)])
    fix g d assume "g \<in> set (kr_generations k)" "d \<in> set (gn_devices g)" "dw_device d = ''e''"
    then have "''e'' \<in> set (map dw_device (gn_devices g))" by (metis image_eqI list.set_map)
    moreover have "map dw_device (gn_devices g) = [''d'']" using k(2) \<open>g \<in> set (kr_generations k)\<close> by blast
    ultimately show "dw_public d = ''j''" by simp
  qed
  with k(3,4) show ?thesis by blast
qed

end
