(* ===== verification/Pairing.thy ===== *)
theory Pairing
  imports Keyring_Store
begin

text \<open>
  Moving the root key to a joining device (\<^verbatim>\<open>internal/keyring/pairing.go\<close>), and the bindings that
  keep a sealed key where it was meant to be: a pairing payload to its request, a device wrap of the
  keyring to its profile and generation. HMAC and HKDF are parameters, as is the rest of the
  cryptography.
\<close>

section \<open>A pairing\<close>

record pairing_lib =
  pb_keys :: key_lib
  pb_hmac :: "256 word \<Rightarrow> bytes \<Rightarrow> 256 word"
  pb_hkdf :: "256 word \<Rightarrow> string \<Rightarrow> 256 word"

record pairing =
  pg_version :: int
  pg_code :: string
  pg_salt :: bytes
  pg_key :: "256 word"

datatype pairing_error =
    UnsupportedPairingVersion int
  | BadPairingCode code_error
  | PairingSaltSize nat
  | PairingRootKeySize
  | PayloadNotBase64
  | PayloadTruncated
  | PairingMismatch
  | PayloadNotForDevice string
  | PayloadSize nat

definition pairingSaltSize :: nat where "pairingSaltSize = 16"
definition pairingV1BindInfo :: string where "pairingV1BindInfo = ''reinstate/pairing/v1/bind''"
definition pairingV1PayloadInfo :: string where "pairingV1PayloadInfo = ''reinstate/pairing/v1/payload''"
definition pairingV2BindInfo :: string where "pairingV2BindInfo = ''reinstate/pairing/v2/bind''"
definition pairingV2PayloadInfo :: string where "pairingV2PayloadInfo = ''reinstate/pairing/v2/payload''"

definition derive_pairing_key :: "pairing_lib \<Rightarrow> string \<Rightarrow> bytes \<Rightarrow> 256 word" where
  "derive_pairing_key P code salt = kl_argon (pb_keys P) code salt argon2_time argon2_memory argon2_threads"

definition new_pairing :: "pairing_lib \<Rightarrow> bytes \<Rightarrow> bytes \<Rightarrow> pairing" where
  "new_pairing P raw salt =
     (let code = generate_pairing_code (kl_sha (pb_keys P)) raw in
      \<lparr>pg_version = 2, pg_code = code, pg_salt = salt, pg_key = derive_pairing_key P code salt\<rparr>)"

definition normalize_pairing_version :: "int \<Rightarrow> (pairing_error, int) result" where
  "normalize_pairing_version v =
     (if v = 0 then Inr 1 else if v \<noteq> 1 \<and> v \<noteq> 2 then Inl (UnsupportedPairingVersion v) else Inr v)"

definition pairing_from_code :: "pairing_lib \<Rightarrow> string \<Rightarrow> bytes \<Rightarrow> int \<Rightarrow> (pairing_error, pairing) result" where
  "pairing_from_code P typed salt version =
     (case normalize_pairing_version version of Inl e \<Rightarrow> Inl e
      | Inr v \<Rightarrow>
        (case normalize_pairing_code (kl_sha (pb_keys P)) typed of Inl e \<Rightarrow> Inl (BadPairingCode e)
        | Inr code \<Rightarrow>
          if length salt \<noteq> pairingSaltSize then Inl (PairingSaltSize (length salt))
          else Inr \<lparr>pg_version = v, pg_code = code, pg_salt = salt, pg_key = derive_pairing_key P code salt\<rparr>))"

definition pairing_binding_key :: "pairing_lib \<Rightarrow> pairing \<Rightarrow> 256 word" where
  "pairing_binding_key P g = (if pg_version g = 1 then pg_key g else pb_hkdf P (pg_key g) pairingV2BindInfo)"

definition pairing_payload_key :: "pairing_lib \<Rightarrow> pairing \<Rightarrow> string \<Rightarrow> 256 word" where
  "pairing_payload_key P g request =
     (if pg_version g = 1 then pg_key g else pb_hkdf P (pg_key g) (pairingV2PayloadInfo @ nul @ request))"

definition pairing_binding :: "pairing_lib \<Rightarrow> pairing \<Rightarrow> string \<Rightarrow> string" where
  "pairing_binding P g public =
     b64_encode (sum_bytes (pb_hmac P (pairing_binding_key P g)
       ((if pg_version g = 1 then pairingV1BindInfo @ nul else []) @ public)))"

definition verify_binding :: "pairing_lib \<Rightarrow> pairing \<Rightarrow> string \<Rightarrow> string \<Rightarrow> bool" where
  "verify_binding P g public bound =
     (case b64_decode bound of None \<Rightarrow> False
      | Some want \<Rightarrow> Some want = b64_decode (pairing_binding P g public))"

definition pairing_aad :: "pairing \<Rightarrow> string \<Rightarrow> string \<Rightarrow> int \<Rightarrow> bytes" where
  "pairing_aad g request public generation =
     join_with nul [if pg_version g = 1 then pairingV1PayloadInfo else pairingV2PayloadInfo, request, public, itoa generation]"

definition seal_root_key :: "pairing_lib \<Rightarrow> nat \<Rightarrow> bytes \<Rightarrow> pairing \<Rightarrow> bytes \<Rightarrow> string \<Rightarrow> string \<Rightarrow> int \<Rightarrow> (pairing_error, string) result" where
  "seal_root_key P seed nonce g root request recipient generation =
     (if length root \<noteq> root_key_size then Inl PairingRootKeySize
      else let inner = ag_seal (kl_age (pb_keys P)) seed recipient root;
               sealed = kl_seal (pb_keys P) (pairing_payload_key P g request) nonce inner (pairing_aad g request recipient generation) in
        Inr (b64_encode (nonce @ sealed)))"

definition open_root_key :: "pairing_lib \<Rightarrow> pairing \<Rightarrow> string \<Rightarrow> string \<Rightarrow> string \<Rightarrow> int \<Rightarrow> (pairing_error, bytes) result" where
  "open_root_key P g payload request identity generation =
     (case b64_decode payload of None \<Rightarrow> Inl PayloadNotBase64
      | Some raw \<Rightarrow>
        if length raw < nonce_size then Inl PayloadTruncated
        else (case kl_open (pb_keys P) (pairing_payload_key P g request) (take nonce_size raw) (drop nonce_size raw)
                    (pairing_aad g request (ag_recipient (kl_age (pb_keys P)) identity) generation) of
          None \<Rightarrow> Inl PairingMismatch
        | Some inner \<Rightarrow>
          (case ag_open (kl_age (pb_keys P)) identity inner of Inl m \<Rightarrow> Inl (PayloadNotForDevice m)
          | Inr plain \<Rightarrow> let key = take (root_key_size + 1) plain in
              if length key \<noteq> root_key_size then Inl (PayloadSize (length key)) else Inr key)))"

section \<open>The hand-over\<close>

lemma new_pairing_code:
  assumes "length raw = pairingDataBytes"
  shows "normalize_pairing_code sha (generate_pairing_code sha raw) = Inr (generate_pairing_code sha raw)"
proof -
  have "length (encode_crockford raw pairingDataChars) = pairingDataChars" "set (encode_crockford raw pairingDataChars) \<subseteq> set crockford"
    using assms encode_crockford_shape [of pairingDataChars raw] by (simp_all add: pairingDataBytes_def pairingDataChars_def)
  from pairing.norm_generated [OF this] show ?thesis by (simp add: generate_pairing_code_def Let_def)
qed

lemma typed_same_code:
  assumes "length raw = pairingDataBytes" "code_fold typed = code_fold (generate_pairing_code sha raw)"
  shows "normalize_pairing_code sha typed = Inr (generate_pairing_code sha raw)"
  using new_pairing_code [OF assms(1), of sha] assms(2) unfolding pairing.norm_iff by simp

lemma open_sealed:
  assumes laws: "crypto_laws (pb_keys P)" and sizes: "length nonce = nonce_size"
    and seal: "seal_root_key P seed nonce g root request (ag_recipient (kl_age (pb_keys P)) i) generation = Inr payload"
  shows "open_root_key P g payload request i generation = Inr root"
proof -
  have "length root = root_key_size" using seal by (auto simp: seal_root_key_def split: if_splits)
  then show ?thesis
    using seal laws sizes by (auto simp: seal_root_key_def open_root_key_def b64_decode_encode crypto_laws_def)
qed

text \<open>
  C18. The hand-over works from the spoken code alone. A joining device draws a code and a salt and
  publishes the salt, its public key and the binding; an approving device on which that code is typed in
  any spelling derives the same pairing, finds the binding in order, and what it seals for the request opens on
  the joining device to exactly the root key.
\<close>
theorem pairing_hands_over_root_key:
  assumes "crypto_laws (pb_keys P)" "length nonce = nonce_size" "length salt = pairingSaltSize"
    and "length raw = pairingDataBytes" "length root = root_key_size"
    and "code_fold typed = code_fold (pg_code (new_pairing P raw salt))"
  shows "\<exists>g payload. pairing_from_code P typed salt 2 = Inr g
    \<and> verify_binding P g public (pairing_binding P (new_pairing P raw salt) public)
    \<and> seal_root_key P seed nonce g root request (ag_recipient (kl_age (pb_keys P)) i) generation = Inr payload
    \<and> open_root_key P (new_pairing P raw salt) payload request i generation = Inr root"
proof -
  have "normalize_pairing_code (kl_sha (pb_keys P)) typed = Inr (generate_pairing_code (kl_sha (pb_keys P)) raw)"
    using assms(6) by (intro typed_same_code [OF assms(4)]) (simp add: new_pairing_def Let_def)
  then have g: "pairing_from_code P typed salt 2 = Inr (new_pairing P raw salt)"
    using assms(3) by (simp add: pairing_from_code_def normalize_pairing_version_def new_pairing_def Let_def)
  obtain payload where s: "seal_root_key P seed nonce (new_pairing P raw salt) root request (ag_recipient (kl_age (pb_keys P)) i) generation = Inr payload"
    using assms(5) by (auto simp: seal_root_key_def Let_def)
  have "verify_binding P (new_pairing P raw salt) public (pairing_binding P (new_pairing P raw salt) public)"
    by (simp add: verify_binding_def pairing_binding_def b64_decode_encode)
  with g s open_sealed [OF assms(1,2) s] show ?thesis by blast
qed

section \<open>Bindings\<close>

lemma itoa_no_nul: "CHR 0x00 \<notin> set (itoa i)"
  using nat_dec_digits [of "CHR 0x00"] by (auto simp: itoa_def)

text \<open>The data a payload is bound to tells requests apart, as long as no field holds a NUL byte.\<close>

lemma pairing_aad_inj:
  assumes "pairing_aad g request public generation = pairing_aad g' request' public' generation'"
    and "CHR 0x00 \<notin> set request" "CHR 0x00 \<notin> set public" "CHR 0x00 \<notin> set request'" "CHR 0x00 \<notin> set public'"
  shows "(pg_version g = 1 \<longleftrightarrow> pg_version g' = 1) \<and> request = request' \<and> public = public' \<and> generation = generation'"
proof -
  let ?f = "\<lambda>v. if v = (1::int) then pairingV1PayloadInfo else pairingV2PayloadInfo"
  have info: "CHR 0x00 \<notin> set (?f v)" for v by (simp add: pairingV1PayloadInfo_def pairingV2PayloadInfo_def)
  have split: "split_on CHR 0x00 (pairing_aad h r p n) = [?f (pg_version h), r, p, itoa n]"
    if "CHR 0x00 \<notin> set r" "CHR 0x00 \<notin> set p" for h r p n
    unfolding pairing_aad_def nul_def using that info itoa_no_nul by (intro split_on_join) auto
  have "[?f (pg_version g), request, public, itoa generation] = [?f (pg_version g'), request', public', itoa generation']"
    using split assms by metis
  then show ?thesis by (auto simp: itoa_inj pairingV1PayloadInfo_def pairingV2PayloadInfo_def split: if_splits)
qed


lemma device_prefix_inj: "device_prefix b = device_prefix b' \<longleftrightarrow> b = b'"
proof
  assume "device_prefix b = device_prefix b'"
  then have eq: "fst b @ [CHR 0x00] @ itoa (snd b) = fst b' @ [CHR 0x00] @ itoa (snd b')"
    by (simp add: device_prefix_def nul_def)
  have last: "split_on CHR 0x00 (p @ [CHR 0x00] @ q) = split_on CHR 0x00 p @ [q]" if "CHR 0x00 \<notin> set q" for p q
    using that by (induction p) (auto simp: split_on_single split: list.splits)
  from eq have "split_on CHR 0x00 (fst b) @ [itoa (snd b)] = split_on CHR 0x00 (fst b') @ [itoa (snd b')]"
    using last itoa_no_nul by metis
  then have "split_on CHR 0x00 (fst b) = split_on CHR 0x00 (fst b')" "itoa (snd b) = itoa (snd b')" by simp_all
  then show "b = b'" by (metis itoa_inj join_split_on prod_eqI)
qed simp

text \<open>
  A wrap cannot be transplanted. A device wrap made for one profile and generation, copied into another
  generation (of this or any other account's keyring), never unwraps there, even for the device it was made for and
  whatever generation it is put into.
\<close>
theorem transplanted_wrap_refused:
  assumes "crypto_laws L" "b' \<noteq> b" "length root = root_key_size"
    and "find (\<lambda>d. dw_device d = device) (gn_devices g) = Some w" "dw_public w = ag_recipient (kl_age L) i"
    and "dw_wrap w = b64_encode (seal_for_device L seed root (ag_recipient (kl_age L) i) b')"
  shows "\<exists>e. unwrap_device L g device i b = Inl e"
proof -
  have opens: "ag_open (kl_age L) i (seal_for_device L seed root (ag_recipient (kl_age L) i) b') = Inr (device_prefix b' @ root)"
    using assms(1) by (simp add: crypto_laws_def seal_for_device_def)
  let ?payload = "take (length (device_prefix b) + root_key_size + 1) (device_prefix b' @ root)"
  have "length ?payload \<noteq> length (device_prefix b) + root_key_size \<or> take (length (device_prefix b)) ?payload \<noteq> device_prefix b"
  proof (rule ccontr)
    assume "\<not> ?thesis"
    then have len: "length ?payload = length (device_prefix b) + root_key_size" and pre: "take (length (device_prefix b)) ?payload = device_prefix b" by blast+
    then have "length (device_prefix b') = length (device_prefix b)" using assms(3) by (auto simp: min_def split: if_splits)
    with pre have "device_prefix b' = device_prefix b" using assms(3) by simp
    with assms(2) device_prefix_inj show False by blast
  qed
  then show ?thesis
    using assms(4-6) opens by (auto simp: unwrap_device_def b64_decode_encode Let_def split: if_splits)
qed

section \<open>Witnesses\<close>

definition toy_pairing_lib :: pairing_lib where
  "toy_pairing_lib = \<lparr>pb_keys = toy_keys, pb_hmac = (\<lambda>_ _. 0), pb_hkdf = (\<lambda>_ _. 0)\<rparr>"

definition toy_salt :: bytes where "toy_salt = replicate 16 CHR ''s''"

theorem pairing_hands_over_root_key_witness:
  "\<exists>g payload. pairing_from_code toy_pairing_lib (pg_code (new_pairing toy_pairing_lib (replicate 8 CHR ''r'') toy_salt)) toy_salt 2 = Inr g
    \<and> seal_root_key toy_pairing_lib 0 toy_nonce g toy_root ''r1'' ''i'' 1 = Inr payload
    \<and> open_root_key toy_pairing_lib (new_pairing toy_pairing_lib (replicate 8 CHR ''r'') toy_salt) payload ''r1'' ''i'' 1 = Inr toy_root"
proof -
  have pre: "crypto_laws (pb_keys toy_pairing_lib)" "length toy_nonce = nonce_size" "length toy_salt = pairingSaltSize"
    "length (replicate 8 CHR ''r'') = pairingDataBytes" "length toy_root = root_key_size"
    using toy_laws by (simp_all add: toy_pairing_lib_def toy_nonce_def nonce_size_def toy_salt_def pairingSaltSize_def
        pairingDataBytes_def toy_root_def root_key_size_def)
  have "ag_recipient (kl_age (pb_keys toy_pairing_lib)) ''i'' = ''i''" by (simp add: toy_pairing_lib_def toy_keys_def toy_age_def)
  with pairing_hands_over_root_key [OF pre refl, of "[]" 0 "''r1''" "''i''" 1] show ?thesis by auto
qed

text \<open>A library that opens only what was sealed for request \<open>r1\<close>, device \<open>i\<close>, generation 1.\<close>

definition toy_pairing :: pairing where
  "toy_pairing = \<lparr>pg_version = 2, pg_code = [], pg_salt = [], pg_key = 0\<rparr>"

definition toy_request_lib :: pairing_lib where
  "toy_request_lib = toy_pairing_lib\<lparr>pb_keys := toy_keys\<lparr>kl_open := (\<lambda>k n c aad.
     if aad = pairing_aad toy_pairing ''r1'' ''i'' 1 then Some (CHR ''!'' # toy_root) else None)\<rparr>\<rparr>"


theorem transplanted_wrap_refused_witness:
  "\<exists>w. dw_device w = ''d'' \<and> (\<forall>g. gn_devices g = [w] \<longrightarrow> (\<exists>e. unwrap_device toy_keys g ''d'' ''i'' (''p'', 2) = Inl e))"
proof -
  let ?w = "wrap_for_device toy_keys 0 toy_root ''d'' ''i'' ''t'' (''p'', 1)"
  have "ag_recipient (kl_age toy_keys) ''i'' = ''i''" by (simp add: toy_keys_def toy_age_def)
  then have "\<exists>e. unwrap_device toy_keys g ''d'' ''i'' (''p'', 2) = Inl e" if "gn_devices g = [?w]" for g
    by (intro transplanted_wrap_refused [OF toy_laws, of "(''p'', 1)" _ toy_root _ _ ?w])
      (simp_all add: that wrap_for_device_def toy_root_def root_key_size_def)
  moreover have "dw_device ?w = ''d''" by (simp add: wrap_for_device_def)
  ultimately show ?thesis by blast
qed

end
