(* ===== verification/Config_Files.thy ===== *)
theory Config_Files
  imports Schema Local_Files Go_Unicode
begin

text \<open>
  The files of the local home directory (\<^verbatim>\<open>internal/config\<close>): \<^verbatim>\<open>config.toml\<close>, \<^verbatim>\<open>state.json\<close> and
  \<^verbatim>\<open>account.json\<close>, each validated when it is read and before it is written, and written through a
  temporary sibling. TOML and JSON are parameters. A command may write several times: the number of a
  write selects its temporary name and the faults the operating system injects into it.
\<close>

section \<open>Paths\<close>

record home_env =
  he_home :: string
  he_fault :: "nat \<Rightarrow> faults"
  he_tmp :: "nat \<Rightarrow> string"

definition account_path :: "string \<Rightarrow> string" where "account_path home = path_join home ''account.json''"
definition config_path :: "string \<Rightarrow> string" where "config_path home = path_join home ''config.toml''"
definition state_path :: "string \<Rightarrow> string" where "state_path home = path_join home ''state.json''"

datatype config_error =
    FileError string
  | DecodeError string
  | SecretField string
  | SchemaRejected schema_error
  | WriteFailed string
  | HomeNotAbsolute string
  | NoUserHome string

text \<open>\<^verbatim>\<open>Home\<close>: the variable, else a directory below the user's home.\<close>

definition config_home :: "bytes \<Rightarrow> (string, string) result \<Rightarrow> (config_error, string) result" where
  "config_home env user =
     (let v = trim_space env in
      if v \<noteq> [] then (if \<not> is_abs v then Inl (HomeNotAbsolute v) else Inr (path_clean v))
      else case user of Inl m \<Rightarrow> Inl (NoUserHome m) | Inr h \<Rightarrow> Inr (path_join h ''.reinstate''))"

text \<open>\<^verbatim>\<open>os.IsNotExist\<close>.\<close>

definition is_not_exist :: "config_error \<Rightarrow> bool" where
  "is_not_exist e \<longleftrightarrow> e = FileError ''not exist''"

section \<open>Secret-looking keys in the configuration\<close>

fun contains_text :: "string \<Rightarrow> string \<Rightarrow> bool" where
  "contains_text needle [] = (needle = [])"
| "contains_text needle (c # s) = (has_prefix (c # s) needle \<or> contains_text needle s)"

text \<open>
  \<^verbatim>\<open>strings.ToLower\<close> as far as a search for ASCII text can tell: besides the ASCII letters only the
  Kelvin sign and the dotted capital I have an ASCII lower case.
\<close>

fun lower_text :: "bytes \<Rightarrow> bytes" where
  "lower_text [] = []"
| "lower_text (c # s) =
     (if has_prefix (c # s) [CHR 0xE2, CHR 0x84, CHR 0xAA] then CHR ''k'' # lower_text (drop 2 s)
      else if has_prefix (c # s) [CHR 0xC4, CHR 0xB0] then CHR ''i'' # lower_text (drop 1 s)
      else lower_char c # lower_text s)"

definition forbidden_config_keys :: "string list" where
  "forbidden_config_keys = [''password'', ''passphrase'', ''secret'', ''api_key'', ''apikey'', ''token'',
     ''access_key'', ''secret_key'', ''private_key'', ''auth'', ''credential'']"

definition forbidden_line :: "string \<Rightarrow> bytes \<Rightarrow> bool" where
  "forbidden_line key line0 =
     (let line = trim_space line0 in
      if line = [] \<or> has_prefix line ''#'' then False
      else if has_prefix line ''['' then False
      else if CHR ''='' \<notin> set line then False
      else let k = trim_space (lower_text (takeWhile (\<lambda>c. c \<noteq> CHR ''='') line)) in
        (k = key \<or> has_suffix k (''.'' @ key)) \<and> k \<noteq> ''credential_ref'')"

definition contains_forbidden_key :: "bytes \<Rightarrow> string \<Rightarrow> bool" where
  "contains_forbidden_key raw key = list_ex (forbidden_line key) (split_on CHR 0x0A raw)"

definition key_refused :: "bytes \<Rightarrow> string \<Rightarrow> bool" where
  "key_refused raw k =
     (let lower = lower_text raw in
      if contains_text (k @ '' '') lower \<or> contains_text (k @ ''='') lower \<or> contains_text (k @ '' ='') lower then
        (if k = ''credential'' \<and> contains_text ''credential_ref'' lower then False
         else if k = ''secret'' \<and> contains_text ''secret_key'' lower then True
         else if k = ''credential'' then False
         else contains_forbidden_key raw k)
      else False)"

section \<open>Loading and saving\<close>

record toml_lib =
  tl_decode :: "bytes \<Rightarrow> (string, config) result"
  tl_encode :: "config \<Rightarrow> (string, bytes) result"

definition load_config :: "toml_lib \<Rightarrow> home_env \<Rightarrow> disk \<Rightarrow> (config_error, config) result" where
  "load_config T E d =
     (case read_file (config_path (he_home E)) d of Inl m \<Rightarrow> Inl (FileError m)
      | Inr b \<Rightarrow>
        (case find (key_refused b) forbidden_config_keys of Some k \<Rightarrow> Inl (SecretField k)
      | None \<Rightarrow>
        (case tl_decode T b of Inl m \<Rightarrow> Inl (DecodeError m)
      | Inr c \<Rightarrow> (case validate_config (Some c) of (Some e, _) \<Rightarrow> Inl (SchemaRejected e)
      | (None, None) \<Rightarrow> Inl (SchemaRejected NilDocument)
      | (None, Some c') \<Rightarrow> Inr c'))))"

text \<open>Saving fills the defaults of the caller's document; they are what is written.\<close>

definition save_config :: "toml_lib \<Rightarrow> home_env \<Rightarrow> nat \<Rightarrow> config \<Rightarrow> disk \<Rightarrow> config_error option \<times> disk" where
  "save_config T E i c d =
     (case validate_config (Some c) of (Some e, _) \<Rightarrow> (Some (SchemaRejected e), d)
      | (None, None) \<Rightarrow> (Some (SchemaRejected NilDocument), d)
      | (None, Some c') \<Rightarrow>
        (case tl_encode T c' of Inl m \<Rightarrow> (Some (DecodeError m), d)
      | Inr b \<Rightarrow> let (e, d') = write_file_atomic (he_fault E i) (he_tmp E i) (config_path (he_home E)) b d in
          (map_option WriteFailed e, d')))"

record account_json =
  aj_decode :: "bytes \<Rightarrow> (string, account) result"
  aj_encode :: "account \<Rightarrow> bytes"

definition load_account :: "account_json \<Rightarrow> home_env \<Rightarrow> disk \<Rightarrow> (config_error, account) result" where
  "load_account J E d =
     (case read_file (account_path (he_home E)) d of Inl m \<Rightarrow> Inl (FileError m)
      | Inr b \<Rightarrow> (case aj_decode J b of Inl m \<Rightarrow> Inl (DecodeError m)
      | Inr a \<Rightarrow> (case validate_account (Some a) of Some e \<Rightarrow> Inl (SchemaRejected e) | None \<Rightarrow> Inr a)))"

definition save_account :: "account_json \<Rightarrow> home_env \<Rightarrow> nat \<Rightarrow> account \<Rightarrow> disk \<Rightarrow> config_error option \<times> disk" where
  "save_account J E i a d =
     (case validate_account (Some a) of Some e \<Rightarrow> (Some (SchemaRejected e), d)
      | None \<Rightarrow> let (e, d') = write_file_atomic (he_fault E i) (he_tmp E i) (account_path (he_home E)) (aj_encode J a @ [CHR 0x0A]) d in
          (map_option WriteFailed e, d'))"

text \<open>
  \<open>sj_version\<close> is the \<^verbatim>\<open>schema_version\<close> member of the document read as a generic object, cut to an
  integer, if it is there and a number.
\<close>

record state_json =
  sj_version :: "bytes \<Rightarrow> (string, int option) result"
  sj_decode :: "bytes \<Rightarrow> (string, local_state) result"
  sj_encode :: "local_state \<Rightarrow> bytes"

definition load_state :: "state_json \<Rightarrow> home_env \<Rightarrow> disk \<Rightarrow> (config_error, local_state) result" where
  "load_state J E d =
     (case read_file (state_path (he_home E)) d of Inl m \<Rightarrow> Inl (FileError m)
      | Inr b \<Rightarrow>
        (case sj_version J b of Inl m \<Rightarrow> Inl (DecodeError m)
      | Inr v \<Rightarrow>
        let ver = (case v of None \<Rightarrow> 0 | Some n \<Rightarrow> n) in
        if ver \<noteq> 0 \<and> ver \<noteq> StateSchemaVersion then
          (case migrate_state ver of Inl e \<Rightarrow> Inl (SchemaRejected e) | Inr s \<Rightarrow> Inl (SchemaRejected NilDocument))
        else (case sj_decode J b of Inl m \<Rightarrow> Inl (DecodeError m)
      | Inr s \<Rightarrow> (case validate_state (Some s) of (Some e, _) \<Rightarrow> Inl (SchemaRejected e)
      | (None, None) \<Rightarrow> Inl (SchemaRejected NilDocument)
      | (None, Some s') \<Rightarrow> Inr s'))))"

definition save_state :: "state_json \<Rightarrow> home_env \<Rightarrow> nat \<Rightarrow> string \<Rightarrow> local_state \<Rightarrow> disk \<Rightarrow> config_error option \<times> disk" where
  "save_state J E i now s0 d =
     (let s1 = (if ls_sessions s0 = None then s0\<lparr>ls_sessions := Some []\<rparr> else s0);
          s2 = s1\<lparr>ls_updated_at := now\<rparr> in
      case validate_state (Some s2) of (Some e, _) \<Rightarrow> (Some (SchemaRejected e), d)
      | (None, _) \<Rightarrow> let (e, d') = write_file_atomic (he_fault E i) (he_tmp E i) (state_path (he_home E)) (sj_encode J s2 @ [CHR 0x0A]) d in
          (map_option WriteFailed e, d'))"

text \<open>\<^verbatim>\<open>EnsureLayout\<close>: the home and its directories; it stops at the first failure.\<close>

definition layout_dirs :: "string \<Rightarrow> string list" where
  "layout_dirs home = home # map (path_join home) [''cache'', ''backups'', ''conflicts'', ''locks'', ''logs'']"

fun ensure_dirs :: "(string \<Rightarrow> faults) \<Rightarrow> string list \<Rightarrow> disk \<Rightarrow> string option \<times> disk" where
  "ensure_dirs fault [] d = (None, d)"
| "ensure_dirs fault (p # ps) d =
     (case ensure_owner_only_dir (fault p) p d of (Some m, d') \<Rightarrow> (Some m, d') | (None, d') \<Rightarrow> ensure_dirs fault ps d')"

definition ensure_layout :: "(string \<Rightarrow> faults) \<Rightarrow> string \<Rightarrow> disk \<Rightarrow> string option \<times> disk" where
  "ensure_layout fault home d = ensure_dirs fault (layout_dirs home) d"

section \<open>A document behind a file\<close>

text \<open>
  What the commands rely on: a document that was saved is the one loaded next (as the save completed
  it, \<open>norm\<close>), and a save that failed leaves the stored document as it was. \<open>ready\<close> is what a save needs
  of the disk, \<open>sound\<close> says that the document survives its encoding.
\<close>

locale saved_document =
  fixes load :: "disk \<Rightarrow> ('e, 'a) result"
    and save :: "nat \<Rightarrow> 'a \<Rightarrow> disk \<Rightarrow> 'e option \<times> disk"
    and norm :: "'a \<Rightarrow> 'a"
    and sound :: "'a \<Rightarrow> bool"
    and ready :: "nat \<Rightarrow> disk \<Rightarrow> bool"
  assumes saved_loads: "ready i d \<Longrightarrow> sound a \<Longrightarrow> save i a d = (None, d') \<Longrightarrow> load d' = Inr (norm a)"
    and failed_keeps: "ready i d \<Longrightarrow> save i a d = (Some e, d') \<Longrightarrow> load d' = Inr b \<longleftrightarrow> load d = Inr b"
begin

lemma load_after_save:
  assumes "ready i d" "save i a d = (err, d')" "sound a"
  shows "load d' = Inr b \<longleftrightarrow> (if err = None then b = norm a else load d = Inr b)"
  using saved_loads [OF assms(1)] failed_keeps [OF assms(1)] assms(2,3) by (cases err) auto

end

text \<open>The temporary name of a write is one that is not in use.\<close>

definition fresh_tmp :: "home_env \<Rightarrow> string \<Rightarrow> nat \<Rightarrow> disk \<Rightarrow> bool" where
  "fresh_tmp E p i d \<longleftrightarrow> map_of d (he_tmp E i) = None \<and> he_tmp E i \<noteq> p"

lemma atomic_reads:
  assumes "write_file_atomic (he_fault E i) (he_tmp E i) p b d = (err, d')" "fresh_tmp E p i d"
  shows "err = None \<Longrightarrow> read_file p d' = Inr b" and "err \<noteq> None \<Longrightarrow> read_file q d' = Inr c \<longleftrightarrow> read_file q d = Inr c"
    and "q \<noteq> p \<Longrightarrow> read_file q d' = Inr c \<longleftrightarrow> read_file q d = Inr c"
  using write_file_atomic_all_or_nothing [OF assms(1)] assms(2) unfolding fresh_tmp_def by (cases err; simp)+

lemma load_account_Inr:
  "load_account J E d = Inr a \<longleftrightarrow>
     (\<exists>b. read_file (account_path (he_home E)) d = Inr b \<and> aj_decode J b = Inr a \<and> validate_account (Some a) = None)"
  by (auto simp: load_account_def split: sum.splits option.splits)

lemma save_account_cases:
  assumes "save_account J E i a d = (err, d')"
  obtains (invalid) e where "validate_account (Some a) = Some e" "err = Some (SchemaRejected e)" "d' = d"
  | (wrote) w where "validate_account (Some a) = None" "err = map_option WriteFailed w"
      "write_file_atomic (he_fault E i) (he_tmp E i) (account_path (he_home E)) (aj_encode J a @ [CHR 0x0A]) d = (w, d')"
  using assms by (auto simp: save_account_def split: option.splits prod.splits)

text \<open>The documented behaviour of the JSON library on a record: what was encoded decodes to itself.\<close>

definition account_sound :: "account_json \<Rightarrow> account \<Rightarrow> bool" where
  "account_sound J a \<longleftrightarrow> aj_decode J (aj_encode J a @ [CHR 0x0A]) = Inr a"

interpretation account_file: saved_document "load_account J E" "save_account J E" "\<lambda>a. a" "account_sound J"
    "fresh_tmp E (account_path (he_home E))" for J E
proof
  fix i d a d' assume r: "fresh_tmp E (account_path (he_home E)) i d"
  { assume "account_sound J a" "save_account J E i a d = (None, d')"
    from this(2) show "load_account J E d' = Inr a"
      by (rule save_account_cases) (use atomic_reads(1) [OF _ r] \<open>account_sound J a\<close> in \<open>auto simp: load_account_Inr account_sound_def\<close>) }
  fix e b
  assume "save_account J E i a d = (Some e, d')"
  then show "load_account J E d' = Inr b \<longleftrightarrow> load_account J E d = Inr b"
  proof (rule save_account_cases)
    fix w assume w: "Some e = map_option WriteFailed w"
      and a: "write_file_atomic (he_fault E i) (he_tmp E i) (account_path (he_home E)) (aj_encode J a @ [CHR 0x0A]) d = (w, d')"
    from w have "w \<noteq> None" by (cases w) simp_all
    from atomic_reads(2) [OF a r this] show ?thesis unfolding load_account_Inr by simp
  qed simp
qed

text \<open>The configuration: sound when the text the encoder writes names no secret and decodes to the document.\<close>

definition config_defaults :: "config \<Rightarrow> config" where
  "config_defaults c = (case snd (validate_config (Some c)) of Some c' \<Rightarrow> c' | None \<Rightarrow> c)"

definition config_sound :: "toml_lib \<Rightarrow> config \<Rightarrow> bool" where
  "config_sound T c \<longleftrightarrow> (\<forall>b. tl_encode T (config_defaults c) = Inr b \<longrightarrow>
     tl_decode T b = Inr (config_defaults c) \<and> find (key_refused b) forbidden_config_keys = None)"

lemma load_config_Inr:
  "load_config T E d = Inr c \<longleftrightarrow>
     (\<exists>b c0. read_file (config_path (he_home E)) d = Inr b \<and> find (key_refused b) forbidden_config_keys = None
        \<and> tl_decode T b = Inr c0 \<and> validate_config (Some c0) = (None, Some c))"
  by (auto simp: load_config_def split: sum.splits option.splits prod.splits)

lemma save_config_cases:
  assumes "save_config T E i c d = (err, d')"
  obtains (refused) e where "err = Some e" "d' = d"
  | (wrote) b w where "validate_config (Some c) = (None, Some (config_defaults c))" "tl_encode T (config_defaults c) = Inr b"
      "err = map_option WriteFailed w"
      "write_file_atomic (he_fault E i) (he_tmp E i) (config_path (he_home E)) b d = (w, d')"
  using assms by (auto simp: save_config_def config_defaults_def Let_def split: option.splits prod.splits sum.splits)

interpretation config_file: saved_document "load_config T E" "save_config T E" config_defaults "config_sound T"
    "fresh_tmp E (config_path (he_home E))" for T E
proof
  fix i d c d' assume r: "fresh_tmp E (config_path (he_home E)) i d"
  { assume s: "config_sound T c" and "save_config T E i c d = (None, d')"
    from this(2) show "load_config T E d' = Inr (config_defaults c)"
    proof (rule save_config_cases)
      fix b w
      assume v: "validate_config (Some c) = (None, Some (config_defaults c))" and b: "tl_encode T (config_defaults c) = Inr b"
        and w: "None = map_option WriteFailed w"
        and a: "write_file_atomic (he_fault E i) (he_tmp E i) (config_path (he_home E)) b d = (w, d')"
      have "config_valid (config_defaults c)" using validate_config_accepts [OF v] by blast
      with validate_config_valid s b atomic_reads(1) [OF a r] w show ?thesis
        unfolding load_config_Inr config_sound_def by auto
    qed simp }
  fix e b
  assume "save_config T E i c d = (Some e, d')"
  then show "load_config T E d' = Inr b \<longleftrightarrow> load_config T E d = Inr b"
  proof (rule save_config_cases)
    fix t w assume w: "Some e = map_option WriteFailed w"
      and a: "write_file_atomic (he_fault E i) (he_tmp E i) (config_path (he_home E)) t d = (w, d')"
    from w have "w \<noteq> None" by (cases w) simp_all
    from atomic_reads(2) [OF a r this] show ?thesis unfolding load_config_Inr by simp
  qed simp
qed

text \<open>The local state: saving stamps it and fills in the missing map of sessions.\<close>

definition stamped_state :: "string \<Rightarrow> local_state \<Rightarrow> local_state" where
  "stamped_state now s = (if ls_sessions s = None then s\<lparr>ls_sessions := Some []\<rparr> else s)\<lparr>ls_updated_at := now\<rparr>"

definition state_sound :: "state_json \<Rightarrow> string \<Rightarrow> local_state \<Rightarrow> bool" where
  "state_sound J now s \<longleftrightarrow> (let b = sj_encode J (stamped_state now s) @ [CHR 0x0A] in
     sj_version J b = Inr (Some StateSchemaVersion) \<and> sj_decode J b = Inr (stamped_state now s))"

lemma load_state_Inr:
  "load_state J E d = Inr s \<longleftrightarrow>
     (\<exists>b v s0. read_file (state_path (he_home E)) d = Inr b \<and> sj_version J b = Inr v
        \<and> (v = None \<or> v = Some 0 \<or> v = Some StateSchemaVersion) \<and> sj_decode J b = Inr s0 \<and> validate_state (Some s0) = (None, Some s))"
  by (auto simp: load_state_def Let_def split: sum.splits option.splits prod.splits if_splits)

interpretation state_file: saved_document "load_state J E" "\<lambda>i. save_state J E i now" "stamped_state now" "state_sound J now"
    "fresh_tmp E (state_path (he_home E))" for J E now
proof
  fix i d s d' assume r: "fresh_tmp E (state_path (he_home E)) i d"
  have val: "validate_state (Some (stamped_state now s)) = (None, x) \<Longrightarrow> x = Some (stamped_state now s)" for x
    by (auto simp: validate_state_def stamped_state_def split: if_splits)
  { assume "state_sound J now s" "save_state J E i now s d = (None, d')"
    then show "load_state J E d' = Inr (stamped_state now s)"
      using atomic_reads(1) [OF _ r] val
      by (auto simp: save_state_def state_sound_def load_state_Inr Let_def simp flip: stamped_state_def split: prod.splits option.splits) }
  fix e b
  assume "save_state J E i now s d = (Some e, d')"
  then have "d' = d \<or> (\<exists>m t. write_file_atomic (he_fault E i) (he_tmp E i) (state_path (he_home E)) t d = (Some m, d'))"
    by (auto simp: save_state_def Let_def split: prod.splits option.splits)
  with atomic_reads(2) [OF _ r] show "load_state J E d' = Inr b \<longleftrightarrow> load_state J E d = Inr b"
    unfolding load_state_Inr by auto
qed

section \<open>The documents do not disturb each other\<close>

lemma path_join_proper:
  assumes "proper_comp c" "home \<noteq> []"
  shows "path_join home c = render_path (is_abs home) (clean_comps (is_abs home) home @ [c])"
proof -
  have ne: "c \<noteq> []" "slash \<notin> set c" using proper_comp_chars [OF assms(1)] by auto
  have ab: "is_abs (home @ [slash] @ c) = is_abs home"
    using assms(2) by (cases home) (auto simp: is_abs_def has_prefix_def)
  have "clean_comps r (home @ [slash] @ c) = clean_comps r home @ [c]" for r
    using assms(1) unfolding clean_comps_snoc [OF ne] by (auto simp: push_comp_def proper_comp_def)
  with ab ne assms(2) show ?thesis by (simp add: path_join_def path_clean_def)
qed

lemma path_join_inj:
  assumes "proper_comp c" "proper_comp c'" "home \<noteq> []" "path_join home c = path_join home c'"
  shows "c = c'"
proof -
  let ?r = "is_abs home" and ?cs = "clean_comps (is_abs home) home"
  have "clean_comps ?r (render_path ?r (?cs @ [c])) = clean_comps ?r (render_path ?r (?cs @ [c']))"
    using assms(4) path_join_proper [OF assms(1,3)] path_join_proper [OF assms(2,3)] by simp
  then show ?thesis
    using clean_comps_render comps_ok_snoc_proper [OF clean_comps_ok] assms(1,2) by simp
qed

lemma home_files_apart:
  assumes "home \<noteq> []"
  shows "account_path home \<noteq> config_path home"
proof
  assume "account_path home = config_path home"
  then have "''account.json'' = ''config.toml''"
    unfolding account_path_def config_path_def by (rule path_join_inj [rotated 3]) (use assms in \<open>simp_all add: proper_comp_def slash_def\<close>)
  then show False by simp
qed

lemma save_config_keeps_account:
  assumes "save_config T E i c d = (err, d')" "fresh_tmp E (config_path (he_home E)) i d" "he_home E \<noteq> []"
  shows "load_account J E d' = Inr a \<longleftrightarrow> load_account J E d = Inr a"
  using assms(1)
proof (rule save_config_cases)
  fix b w assume a: "write_file_atomic (he_fault E i) (he_tmp E i) (config_path (he_home E)) b d = (w, d')"
  from atomic_reads(3) [OF a assms(2) home_files_apart [OF assms(3)]] show ?thesis unfolding load_account_Inr by simp
qed simp

section \<open>The search for secrets\<close>

text \<open>
  The search looks for a key followed by a space or an equals sign before it looks at the lines: a key
  with a tab before the equals sign, or in quotes, is TOML all the same and is not refused.
\<close>

lemma key_not_seen:
  assumes "list_all (\<lambda>k. \<not> contains_text (k @ '' '') (lower_text raw) \<and> \<not> contains_text (k @ ''='') (lower_text raw)
      \<and> \<not> contains_text (k @ '' ='') (lower_text raw)) forbidden_config_keys"
  shows "find (key_refused raw) forbidden_config_keys = None"
  using assms by (auto simp: find_None_iff key_refused_def Let_def list_all_iff)

lemma tab_hides_a_secret:
  "find (key_refused (''token'' @ [CHR 0x09] @ ''= 1'')) forbidden_config_keys = None"
  "find (key_refused ([CHR 0x22] @ ''token'' @ [CHR 0x22] @ ''= 1'')) forbidden_config_keys = None"
  by (rule key_not_seen, code_simp)+

end
