(* ===== verification/Credentials.thy ===== *)
theory Credentials
  imports Go_Unicode Go_Filepath
begin

text \<open>
  Secrets outside the configuration (package \<^verbatim>\<open>credentials\<close>): storage keys, the device token and the
  device key, each in the operating system's keyring or in process memory. The keyring of the operating
  system is a parameter (\<open>os_keyring\<close>); a message is the constructor that names its case.
\<close>

section \<open>The operating system's keyring\<close>

datatype os_error = OsNotFound | OsFailed string

text \<open>Every entry has a service and a user name.\<close>

record 'k os_keyring =
  ok_set :: "string \<Rightarrow> string \<Rightarrow> string \<Rightarrow> 'k \<Rightarrow> os_error option \<times> 'k"
  ok_get :: "string \<Rightarrow> string \<Rightarrow> 'k \<Rightarrow> (os_error, string) result"
  ok_delete :: "string \<Rightarrow> string \<Rightarrow> 'k \<Rightarrow> os_error option \<times> 'k"

definition keyring_service :: string where "keyring_service = ''reinstate''"

datatype cred_error =
    EmptyRef
  | EmptySecret
  | IncompleteCredentials
  | BothVariablesRequired
  | ReadOnlyStore
  | CredentialsNotFound string
  | SecretNotFound
  | IncompleteToken
  | NoDeviceToken
  | OsFault os_error
  | Undecodable string
  | Unencodable string

section \<open>Opaque secrets (secrets.go)\<close>

record 'k secret_ops =
  se_set :: "string \<Rightarrow> bytes \<Rightarrow> 'k \<Rightarrow> cred_error option \<times> 'k"
  se_get :: "string \<Rightarrow> 'k \<Rightarrow> (cred_error, bytes) result"
  se_delete :: "string \<Rightarrow> 'k \<Rightarrow> cred_error option \<times> 'k"

definition os_set_secret :: "'k os_keyring \<Rightarrow> string \<Rightarrow> bytes \<Rightarrow> 'k \<Rightarrow> cred_error option \<times> 'k" where
  "os_set_secret K ref secret k =
     (if ref = [] then (Some EmptyRef, k)
      else if secret = [] then (Some EmptySecret, k)
      else case ok_set K keyring_service ref secret k of (Some e, k') \<Rightarrow> (Some (OsFault e), k') | (None, k') \<Rightarrow> (None, k'))"

definition os_get_secret :: "'k os_keyring \<Rightarrow> string \<Rightarrow> 'k \<Rightarrow> (cred_error, bytes) result" where
  "os_get_secret K ref k =
     (if ref = [] then Inl EmptyRef
      else case ok_get K keyring_service ref k of
        Inl e \<Rightarrow> Inl (if e = OsNotFound then SecretNotFound else OsFault e)
      | Inr raw \<Rightarrow> Inr raw)"

definition os_delete :: "'k os_keyring \<Rightarrow> string \<Rightarrow> 'k \<Rightarrow> cred_error option \<times> 'k" where
  "os_delete K ref k =
     (case ok_delete K keyring_service ref k of
        (Some e, k') \<Rightarrow> (if e = OsNotFound then None else Some (OsFault e), k')
      | (None, k') \<Rightarrow> (None, k'))"

definition os_secrets :: "'k os_keyring \<Rightarrow> 'k secret_ops" where
  "os_secrets K = \<lparr>se_set = os_set_secret K, se_get = os_get_secret K, se_delete = os_delete K\<rparr>"

type_synonym mem_secrets = "string \<rightharpoonup> bytes"

definition mem_set_secret :: "string \<Rightarrow> bytes \<Rightarrow> mem_secrets \<Rightarrow> cred_error option \<times> mem_secrets" where
  "mem_set_secret ref secret m = (if ref = [] then (Some EmptyRef, m) else (None, m(ref \<mapsto> secret)))"

definition mem_get_secret :: "string \<Rightarrow> mem_secrets \<Rightarrow> (cred_error, bytes) result" where
  "mem_get_secret ref m = (case m ref of None \<Rightarrow> Inl SecretNotFound | Some b \<Rightarrow> Inr b)"

definition mem_delete_secret :: "string \<Rightarrow> mem_secrets \<Rightarrow> cred_error option \<times> mem_secrets" where
  "mem_delete_secret ref m = (None, m(ref := None))"

definition mem_secret_ops :: "mem_secrets secret_ops" where
  "mem_secret_ops = \<lparr>se_set = mem_set_secret, se_get = mem_get_secret, se_delete = mem_delete_secret\<rparr>"

text \<open>
  What a command relies on. \<open>held\<close> reads a store's content: a read tells it, a write or a removal that
  reports success changes the one entry, one that reports an error changes nothing.
\<close>

locale secret_store =
  fixes S :: "'k secret_ops" and held :: "'k \<Rightarrow> string \<rightharpoonup> bytes"
  assumes get_held: "se_get S ref k = Inr b \<Longrightarrow> held k ref = Some b"
    and get_missing: "se_get S ref k = Inl SecretNotFound \<Longrightarrow> held k ref = None"
    and set_done: "se_set S ref b k = (None, k') \<Longrightarrow> held k' = (held k)(ref \<mapsto> b)"
    and set_failed: "se_set S ref b k = (Some e, k') \<Longrightarrow> held k' = held k"
    and delete_done: "se_delete S ref k = (None, k') \<Longrightarrow> held k' = (held k)(ref := None)"
    and delete_failed: "se_delete S ref k = (Some e, k') \<Longrightarrow> held k' = held k"
begin

text \<open>A secret that was set reads back as long as a read finds anything at all.\<close>

lemma get_after_set:
  assumes "se_set S ref b k = (None, k')" "se_get S ref k' = Inr b'"
  shows "b' = b"
  using get_held [OF assms(2)] set_done [OF assms(1)] by simp

lemma set_other:
  assumes "se_set S ref b k = (e, k')" "ref' \<noteq> ref"
  shows "held k' ref' = held k ref'"
  using set_done [of ref b k k'] set_failed [of ref b k] assms by (cases e) auto

lemma delete_other:
  assumes "se_delete S ref k = (e, k')" "ref' \<noteq> ref"
  shows "held k' ref' = held k ref'"
  using delete_done [of ref k k'] delete_failed [of ref k] assms by (cases e) auto

text \<open>A new secret that is removed again leaves what was there, at the worst with the new one.\<close>

lemma set_then_delete:
  assumes "held k ref = None" "se_set S ref b k = (None, k1)" "se_delete S ref k1 = (e, k2)"
  shows "held k2 = (case e of None \<Rightarrow> held k | Some _ \<Rightarrow> (held k)(ref \<mapsto> b))"
  using set_done [OF assms(2)] delete_done [of ref k1 k2] delete_failed [of ref k1] assms(1,3) by (cases e) auto

end

interpretation mem_secret: secret_store mem_secret_ops "\<lambda>m. m"
  by unfold_locales (auto simp: mem_secret_ops_def mem_set_secret_def mem_get_secret_def mem_delete_secret_def split: if_splits option.splits)

text \<open>
  The operating system's keyring keeps the contract when it does itself: an entry is what was set last,
  an error changes nothing. These are the documented rules of a credential store.
\<close>

definition os_keyring_laws :: "'k os_keyring \<Rightarrow> ('k \<Rightarrow> string \<Rightarrow> string \<rightharpoonup> bytes) \<Rightarrow> bool" where
  "os_keyring_laws K at \<longleftrightarrow>
     (\<forall>s u k b. ok_get K s u k = Inr b \<longrightarrow> at k s u = Some b)
   \<and> (\<forall>s u k. ok_get K s u k = Inl OsNotFound \<longrightarrow> at k s u = None)
   \<and> (\<forall>s u b k k'. ok_set K s u b k = (None, k') \<longrightarrow> at k' = (at k)(s := (at k s)(u \<mapsto> b)))
   \<and> (\<forall>s u b e k k'. ok_set K s u b k = (Some e, k') \<longrightarrow> at k' = at k)
   \<and> (\<forall>s u k k'. ok_delete K s u k = (None, k') \<longrightarrow> at k' = (at k)(s := (at k s)(u := None)))
   \<and> (\<forall>s u e k k'. ok_delete K s u k = (Some e, k') \<longrightarrow> at k' = at k \<and> (e = OsNotFound \<longrightarrow> at k s u = None))"

lemma os_secrets_keep_contract:
  assumes "os_keyring_laws K at"
  shows "secret_store (os_secrets K) (\<lambda>k. at k keyring_service)"
proof
  note l = assms [unfolded os_keyring_laws_def]
  fix ref b e and k k' :: 'a
  show "se_get (os_secrets K) ref k = Inr b \<Longrightarrow> at k keyring_service ref = Some b"
    using l by (auto simp: os_secrets_def os_get_secret_def split: if_splits sum.splits)
  show "se_get (os_secrets K) ref k = Inl SecretNotFound \<Longrightarrow> at k keyring_service ref = None"
    using l by (auto simp: os_secrets_def os_get_secret_def split: if_splits sum.splits)
  show "at k' keyring_service = (at k keyring_service)(ref \<mapsto> b)" if r: "se_set (os_secrets K) ref b k = (None, k')"
  proof -
    from r have "ok_set K keyring_service ref b k = (None, k')"
      by (auto simp: os_secrets_def os_set_secret_def split: if_splits prod.splits option.splits)
    with l have "at k' = (at k)(keyring_service := (at k keyring_service)(ref \<mapsto> b))" by blast
    then show ?thesis by simp
  qed
  show "at k' keyring_service = at k keyring_service" if r: "se_set (os_secrets K) ref b k = (Some e, k')"
  proof -
    from r have "k' = k \<or> (\<exists>f. ok_set K keyring_service ref b k = (Some f, k'))"
      by (auto simp: os_secrets_def os_set_secret_def split: if_splits prod.splits option.splits)
    with l have "at k' = at k" by blast
    then show ?thesis by simp
  qed
  show "at k' keyring_service = (at k keyring_service)(ref := None)" if r: "se_delete (os_secrets K) ref k = (None, k')"
  proof -
    from r have "ok_delete K keyring_service ref k = (None, k') \<or> ok_delete K keyring_service ref k = (Some OsNotFound, k')"
      by (auto simp: os_secrets_def os_delete_def split: if_splits prod.splits option.splits)
    then show ?thesis
    proof
      assume "ok_delete K keyring_service ref k = (None, k')"
      with l have "at k' = (at k)(keyring_service := (at k keyring_service)(ref := None))" by blast
      then show ?thesis by simp
    next
      assume "ok_delete K keyring_service ref k = (Some OsNotFound, k')"
      with l have "at k' = at k" "at k keyring_service ref = None" by blast+
      then show ?thesis by (simp add: fun_upd_idem)
    qed
  qed
  show "at k' keyring_service = at k keyring_service" if r: "se_delete (os_secrets K) ref k = (Some e, k')"
  proof -
    from r have "\<exists>f. ok_delete K keyring_service ref k = (Some f, k')"
      by (auto simp: os_secrets_def os_delete_def split: if_splits prod.splits option.splits)
    with l have "at k' = at k" by blast
    then show ?thesis by simp
  qed
qed

section \<open>Storage keys (store.go, keyring.go)\<close>

record storage_credentials =
  sc_access_key :: string
  sc_secret_key :: string

record credentials_json =
  cj_encode :: "storage_credentials \<Rightarrow> (string, string) result"
  cj_decode :: "string \<Rightarrow> (string, storage_credentials) result"

definition complete_credentials :: "storage_credentials \<Rightarrow> bool" where
  "complete_credentials c \<longleftrightarrow> sc_access_key c \<noteq> [] \<and> sc_secret_key c \<noteq> []"

definition os_set_credentials :: "credentials_json \<Rightarrow> 'k os_keyring \<Rightarrow> string \<Rightarrow> storage_credentials \<Rightarrow> 'k \<Rightarrow> cred_error option \<times> 'k" where
  "os_set_credentials J K ref c k =
     (if ref = [] then (Some EmptyRef, k)
      else if sc_access_key c = [] \<or> sc_secret_key c = [] then (Some IncompleteCredentials, k)
      else case cj_encode J c of Inl m \<Rightarrow> (Some (Unencodable m), k)
      | Inr raw \<Rightarrow>
        (case ok_set K keyring_service ref raw k of (Some e, k') \<Rightarrow> (Some (OsFault e), k') | (None, k') \<Rightarrow> (None, k')))"

definition os_get_credentials :: "credentials_json \<Rightarrow> 'k os_keyring \<Rightarrow> string \<Rightarrow> 'k \<Rightarrow> (cred_error, storage_credentials) result" where
  "os_get_credentials J K ref k =
     (if ref = [] then Inl EmptyRef
      else case ok_get K keyring_service ref k of Inl e \<Rightarrow> Inl (OsFault e)
      | Inr raw \<Rightarrow>
        (case cj_decode J raw of Inl m \<Rightarrow> Inl (Undecodable m)
      | Inr c \<Rightarrow> if sc_access_key c = [] \<or> sc_secret_key c = [] then Inl IncompleteCredentials else Inr c))"

definition os_probe :: "'k os_keyring \<Rightarrow> 'k \<Rightarrow> cred_error option" where
  "os_probe K k = (case ok_get K keyring_service ''__reinstate_probe_missing__'' k of
     Inl e \<Rightarrow> if e = OsNotFound then None else Some (OsFault e) | Inr raw \<Rightarrow> None)"

type_synonym mem_credentials = "string \<rightharpoonup> storage_credentials"

definition mem_set_credentials :: "string \<Rightarrow> storage_credentials \<Rightarrow> mem_credentials \<Rightarrow> cred_error option \<times> mem_credentials" where
  "mem_set_credentials ref c m = (if ref = [] then (Some EmptyRef, m) else (None, m(ref \<mapsto> c)))"

definition mem_get_credentials :: "string \<Rightarrow> mem_credentials \<Rightarrow> (cred_error, storage_credentials) result" where
  "mem_get_credentials ref m = (case m ref of None \<Rightarrow> Inl (CredentialsNotFound ref) | Some c \<Rightarrow> Inr c)"

definition mem_delete_credentials :: "string \<Rightarrow> mem_credentials \<Rightarrow> cred_error option \<times> mem_credentials" where
  "mem_delete_credentials ref m = (None, m(ref := None))"

text \<open>The two variables of the environment, empty when they are not set.\<close>

definition env_set_credentials :: "string \<Rightarrow> storage_credentials \<Rightarrow> cred_error option" where
  "env_set_credentials ref c = Some ReadOnlyStore"

definition env_get_credentials :: "string \<times> string \<Rightarrow> (cred_error, storage_credentials) result" where
  "env_get_credentials env = (if fst env = [] \<or> snd env = [] then Inl IncompleteCredentials
     else Inr \<lparr>sc_access_key = fst env, sc_secret_key = snd env\<rparr>)"

definition resolve_credentials :: "credentials_json \<Rightarrow> 'k os_keyring \<Rightarrow> string \<times> string \<Rightarrow> string \<Rightarrow> 'k \<Rightarrow> (cred_error, storage_credentials) result" where
  "resolve_credentials J K env ref k =
     (if fst env \<noteq> [] \<or> snd env \<noteq> [] then
        (if fst env = [] \<or> snd env = [] then Inl BothVariablesRequired
         else Inr \<lparr>sc_access_key = fst env, sc_secret_key = snd env\<rparr>)
      else os_get_credentials J K ref k)"

lemma resolve_credentials_complete:
  "resolve_credentials J K env ref k = Inr c \<Longrightarrow> complete_credentials c"
  by (auto simp: resolve_credentials_def os_get_credentials_def complete_credentials_def split: if_splits sum.splits)

section \<open>The device token (devicetoken.go)\<close>

record device_token =
  dt_token :: string
  dt_url :: string
  dt_account :: string
  dt_device :: string

record token_json =
  tj_encode :: "device_token \<Rightarrow> (string, string) result"
  tj_decode :: "string \<Rightarrow> (string, device_token) result"

definition DeviceTokenRef :: string where "DeviceTokenRef = ''hop/device-token''"

text \<open>The entry's name depends on the home of the process (on Windows in lower case, which is left out), not on its configuration.\<close>

definition device_token_entry :: "sha256 \<Rightarrow> bytes \<Rightarrow> string" where
  "device_token_entry sha home0 =
     (let home = trim_space home0 in
      if home = [] then DeviceTokenRef
      else DeviceTokenRef @ ''@'' @ hex_encode (take 8 (sum_bytes (sha (path_clean home)))))"

definition os_set_token :: "token_json \<Rightarrow> sha256 \<Rightarrow> 'k os_keyring \<Rightarrow> bytes \<Rightarrow> device_token \<Rightarrow> 'k \<Rightarrow> cred_error option \<times> 'k" where
  "os_set_token J sha K home t k =
     (if dt_token t = [] \<or> dt_url t = [] then (Some IncompleteToken, k)
      else case tj_encode J t of Inl m \<Rightarrow> (Some (Unencodable m), k)
      | Inr raw \<Rightarrow>
        (case ok_set K keyring_service (device_token_entry sha home) raw k of
          (Some e, k') \<Rightarrow> (Some (OsFault e), k') | (None, k') \<Rightarrow> (None, k')))"

definition os_get_token :: "token_json \<Rightarrow> sha256 \<Rightarrow> 'k os_keyring \<Rightarrow> bytes \<Rightarrow> 'k \<Rightarrow> (cred_error, device_token) result" where
  "os_get_token J sha K home k =
     (case ok_get K keyring_service (device_token_entry sha home) k of
        Inl e \<Rightarrow> Inl (if e = OsNotFound then NoDeviceToken else OsFault e)
      | Inr raw \<Rightarrow>
        (case tj_decode J raw of Inl m \<Rightarrow> Inl (Undecodable m)
      | Inr t \<Rightarrow> if dt_token t = [] then Inl NoDeviceToken else Inr t))"

definition os_delete_token :: "sha256 \<Rightarrow> 'k os_keyring \<Rightarrow> bytes \<Rightarrow> 'k \<Rightarrow> cred_error option \<times> 'k" where
  "os_delete_token sha K home k = os_delete K (device_token_entry sha home) k"

definition mem_set_token :: "device_token \<Rightarrow> device_token option \<Rightarrow> cred_error option \<times> device_token option" where
  "mem_set_token t m = (if dt_token t = [] \<or> dt_url t = [] then (Some IncompleteToken, m) else (None, Some t))"

definition mem_get_token :: "device_token option \<Rightarrow> (cred_error, device_token) result" where
  "mem_get_token m = (case m of None \<Rightarrow> Inl NoDeviceToken | Some t \<Rightarrow> Inr t)"

text \<open>Signing in and out.\<close>

lemma token_round_trip:
  assumes "os_keyring_laws K at" "tj_encode J t = Inr raw" "tj_decode J raw = Inr t"
    and "os_set_token J sha K home t k = (None, k')" "os_get_token J sha K home k' = r"
  shows "r = Inr t \<or> (\<exists>m. r = Inl (OsFault m))"
proof -
  note l = assms(1) [unfolded os_keyring_laws_def]
  let ?e = "device_token_entry sha home"
  have t: "dt_token t \<noteq> []" and s: "ok_set K keyring_service ?e raw k = (None, k')"
    using assms(2,4) by (auto simp: os_set_token_def split: if_splits prod.splits option.splits)
  from l s have a: "at k' = (at k)(keyring_service := (at k keyring_service)(?e \<mapsto> raw))" by blast
  show ?thesis
  proof (cases "ok_get K keyring_service ?e k'")
    case (Inl e)
    have "e \<noteq> OsNotFound"
    proof
      assume "e = OsNotFound"
      with Inl have "ok_get K keyring_service ?e k' = Inl OsNotFound" by simp
      then have "at k' keyring_service ?e = None" by (rule l [THEN conjunct2, THEN conjunct1, rule_format])
      with a show False by simp
    qed
    with Inl assms(5) show ?thesis by (auto simp: os_get_token_def)
  next
    case (Inr b)
    from l [THEN conjunct1, rule_format, OF this] have "at k' keyring_service ?e = Some b" .
    with a have "b = raw" by simp
    with Inr assms(3,5) t show ?thesis by (auto simp: os_get_token_def)
  qed
qed

section \<open>The device key's entry (cli/account.go)\<close>

definition device_secret_ref :: "string \<Rightarrow> string \<Rightarrow> string" where
  "device_secret_ref profile device = ''reinstate/'' @ profile @ ''/device/'' @ device"

text \<open>Two devices, or two profiles, never share an entry, as long as the profile's name has no slash.\<close>

lemma device_secret_ref_inj:
  assumes "device_secret_ref p d = device_secret_ref p' d'" "slash \<notin> set p" "slash \<notin> set p'"
  shows "p = p' \<and> d = d'"
proof -
  have eq: "p @ slash # ''device/'' @ d = p' @ slash # ''device/'' @ d'" using assms(1) by (simp add: device_secret_ref_def slash_def)
  have "takeWhile (\<lambda>c. c \<noteq> slash) (q @ slash # r) = q" if "slash \<notin> set q" for q r
    using that by (induction q) auto
  with assms(2,3) eq have "p = p'" by metis
  with eq show ?thesis by simp
qed

lemma device_key_is_not_the_token: "device_secret_ref p d \<noteq> device_token_entry sha home"
  by (simp add: device_secret_ref_def device_token_entry_def DeviceTokenRef_def Let_def)

end
