(* ===== verification/Hop_Client.thy ===== *)
theory Hop_Client
  imports Go_Unicode Go_Filepath Schema
begin

text \<open>
  The client of the control plane (package \<^verbatim>\<open>hop\<close>): one definition per request, on the reply the HTTP
  client got, the polling loops of sign-in and pairing, the reading of refusals, and the credential
  source of the locker. HTTP and the JSON decoder are parameters: a reply is a value of \<open>http_reply\<close>, and
  a decoder gives what is left in a zero struct (\<^verbatim>\<open>do\<close> ignores its error).
\<close>

section \<open>One exchange (client.go)\<close>

text \<open>Why a request got no answer, as far as the code tells the causes apart.\<close>

datatype transport = Cancelled | DnsFailed string | ConnectionRefused | TlsFailed | TransportFailed string

datatype http_reply = NoReply transport | BrokenReply transport | HttpReply int bytes

datatype hop_error = HopRefused int string string | HopUnreached transport | HopBroken transport

datatype quota_kind = QuotaStorage | QuotaDevices | QuotaPushRate

text \<open>Every error a method of the client returns.\<close>

datatype hop_problem =
    HopCall hop_error
  | HopUnauthorized
  | HopIncomplete string
  | SignInRefused string bytes
  | SignInExpired
  | SessionIs string
  | WaitStopped transport
  | UnsupportedVersion int
  | WrongPairingVersion string int int
  | PairingExpired
  | PairingDecided
  | PairingConsumed
  | PairingRate
  | WrongAccount
  | HopSelfRevoke
  | DeviceUnknown
  | GenerationNotNewer
  | RevocationDecided
  | RequestIs string
  | NoLocker
  | StorageUnavailable
  | OverQuota quota_kind string
  | NoReference
  | KeyGenerationRange string
  | NoKeyGenerationFloor
  | NegativeGeneration int
  | NotReportable int
  | AnswerTooLow int int
  | HopUnreachable string string transport

definition maxReplyBytes :: nat where "maxReplyBytes = 2 ^ 20"

text \<open>The error and what is in the answer's struct afterwards: a refusal may carry fields too.\<close>

definition hop_do :: "(bytes \<Rightarrow> string \<times> string) \<Rightarrow> (bytes \<Rightarrow> 'a) \<Rightarrow> 'a \<Rightarrow> http_reply \<Rightarrow> hop_error option \<times> 'a" where
  "hop_do err dec zero reply = (case reply of
     NoReply t \<Rightarrow> (Some (HopUnreached t), zero)
   | BrokenReply t \<Rightarrow> (Some (HopBroken t), zero)
   | HttpReply status body \<Rightarrow>
       let raw = take maxReplyBytes body; out = (if raw = [] then zero else dec raw) in
       if status div 100 \<noteq> 2 then (Some (HopRefused status (fst (err raw)) (snd (err raw))), out)
       else (None, out))"

definition unreachable :: "hop_problem \<Rightarrow> bool" where
  "unreachable p = (case p of HopCall (HopUnreached t) \<Rightarrow> True | HopUnreachable u s t \<Rightarrow> True | _ \<Rightarrow> False)"

text \<open>\<^verbatim>\<open>ClassifyUnreachable\<close> (unreachable.go).\<close>

definition classify_unreachable :: "string \<Rightarrow> hop_problem \<Rightarrow> hop_problem option" where
  "classify_unreachable base p =
     (case p of
        HopUnreachable u s t \<Rightarrow> Some p
      | HopCall (HopUnreached (DnsFailed name)) \<Rightarrow>
          Some (HopUnreachable base (''no DNS answer'' @ (if name \<noteq> [] then '' for '' @ name else [])) (DnsFailed name))
      | HopCall (HopUnreached ConnectionRefused) \<Rightarrow> Some (HopUnreachable base ''connection refused'' ConnectionRefused)
      | HopCall (HopUnreached TlsFailed) \<Rightarrow> Some (HopUnreachable base ''the TLS handshake failed'' TlsFailed)
      | _ \<Rightarrow> None)"

text \<open>\<^verbatim>\<open>errors.Is(err, context.Canceled)\<close>: the transport error of a call stays in the chain.\<close>

definition is_cancelled :: "hop_problem \<Rightarrow> bool" where
  "is_cancelled p \<longleftrightarrow> p \<in> {HopCall (HopUnreached Cancelled), HopCall (HopBroken Cancelled), WaitStopped Cancelled}"

definition trim_right_slashes :: "string \<Rightarrow> string" where
  "trim_right_slashes s = rev (dropWhile (\<lambda>c. c = slash) (rev s))"

definition DefaultURL :: string where "DefaultURL = ''https://hop.reinstate.dev''"

definition resolve_url :: "bytes \<Rightarrow> config option \<Rightarrow> string" where
  "resolve_url env cfg =
     (if trim_space env \<noteq> [] then trim_right_slashes (trim_space env)
      else case cfg of None \<Rightarrow> DefaultURL
      | Some c \<Rightarrow> if trim_space (hop_url (cf_hop c)) \<noteq> [] then trim_right_slashes (trim_space (hop_url (cf_hop c))) else DefaultURL)"

section \<open>What the answers carry\<close>

record hop_account =
  ha_id :: string
  ha_email :: string
  ha_github :: string
  ha_plan :: string
  ha_location :: string
  ha_created_at :: string

record hop_device =
  hd_id :: string
  hd_name :: string
  hd_platform :: string
  hd_location :: string
  hd_created_at :: string
  hd_last_seen_at :: string
  hd_revoked_at :: string

definition no_device :: hop_device where
  "no_device = \<lparr>hd_id = [], hd_name = [], hd_platform = [], hd_location = [], hd_created_at = [], hd_last_seen_at = [], hd_revoked_at = []\<rparr>"

definition no_account :: hop_account where
  "no_account = \<lparr>ha_id = [], ha_email = [], ha_github = [], ha_plan = [], ha_location = [], ha_created_at = []\<rparr>"

definition hop_device_revoked :: "hop_device \<Rightarrow> bool" where
  "hop_device_revoked d \<longleftrightarrow> hd_revoked_at d \<noteq> []"

record login_session =
  lg_id :: string
  lg_secret :: string
  lg_method :: string
  lg_url :: string
  lg_expires_at :: string
  lg_interval :: int

record approval =
  av_token :: string
  av_account :: hop_account
  av_device :: hop_device

record poll_response =
  pr_status :: string
  pr_token :: string
  pr_account :: "hop_account option"
  pr_device :: "hop_device option"
  pr_code :: bytes
  pr_reason :: bytes

record pairing_request =
  pq_id :: string
  pq_version :: int
  pq_status :: string
  pq_device :: hop_device
  pq_public_key :: string
  pq_salt :: string
  pq_binding :: string
  pq_created_at :: string
  pq_expires_at :: string
  pq_interval :: int

record pairing_payload =
  pp_version :: int
  pp_payload :: string
  pp_generation :: int
  pp_approved_by :: hop_device

record claim_response =
  cl_status :: string
  cl_version :: int
  cl_payload :: string
  cl_generation :: int
  cl_approved_by :: "hop_device option"

record hop_revocation =
  hr_device :: hop_device
  hr_revoked :: bool

record revocation_request =
  rr_id :: string
  rr_status :: string
  rr_target :: hop_device
  rr_requested_generation :: int
  rr_requested_at :: string
  rr_confirmed_at :: string
  rr_confirmed_by :: string
  rr_confirmed_generation :: int

record locker =
  lk_endpoint :: string
  lk_bucket :: string
  lk_region :: string
  lk_prefix :: string
  lk_first_push_at :: string

record locker_credentials =
  lc_access_key :: string
  lc_secret_key :: string
  lc_session_token :: string
  lc_expires_at :: string

record reference =
  rf_endpoint :: string
  rf_bucket :: string
  rf_region :: string
  rf_key :: string

record key_generation =
  kg_generation :: int
  kg_raised_at :: string
  kg_raised_by :: string
  kg_raised :: bool

text \<open>The zero structs.\<close>

definition no_login :: login_session where
  "no_login = \<lparr>lg_id = [], lg_secret = [], lg_method = [], lg_url = [], lg_expires_at = [], lg_interval = 0\<rparr>"

definition no_poll :: poll_response where
  "no_poll = \<lparr>pr_status = [], pr_token = [], pr_account = None, pr_device = None, pr_code = [], pr_reason = []\<rparr>"

definition no_claim :: claim_response where
  "no_claim = \<lparr>cl_status = [], cl_version = 0, cl_payload = [], cl_generation = 0, cl_approved_by = None\<rparr>"

definition no_revocation :: hop_revocation where
  "no_revocation = \<lparr>hr_device = no_device, hr_revoked = False\<rparr>"

definition no_confirmation :: revocation_request where
  "no_confirmation = \<lparr>rr_id = [], rr_status = [], rr_target = no_device, rr_requested_generation = 0, rr_requested_at = [], rr_confirmed_at = [], rr_confirmed_by = [], rr_confirmed_generation = 0\<rparr>"

definition no_credentials :: locker_credentials where
  "no_credentials = \<lparr>lc_access_key = [], lc_secret_key = [], lc_session_token = [], lc_expires_at = []\<rparr>"

definition no_reference :: reference where
  "no_reference = \<lparr>rf_endpoint = [], rf_bucket = [], rf_region = [], rf_key = []\<rparr>"

text \<open>The decoders, each applied to a body that is not empty; \<open>hj_error\<close> gives message and code.\<close>

record hop_json =
  hj_error :: "bytes \<Rightarrow> string \<times> string"
  hj_login :: "bytes \<Rightarrow> login_session"
  hj_poll :: "bytes \<Rightarrow> poll_response"
  hj_identity :: "bytes \<Rightarrow> hop_account \<times> hop_device"
  hj_pairing :: "bytes \<Rightarrow> pairing_request"
  hj_pairings :: "bytes \<Rightarrow> pairing_request list"
  hj_approved :: "bytes \<Rightarrow> string \<times> int"
  hj_claim :: "bytes \<Rightarrow> claim_response"
  hj_devices :: "bytes \<Rightarrow> hop_device list"
  hj_revocation :: "bytes \<Rightarrow> hop_revocation"
  hj_revocations :: "bytes \<Rightarrow> revocation_request list"
  hj_confirmed :: "bytes \<Rightarrow> revocation_request"
  hj_locker :: "bytes \<Rightarrow> locker"
  hj_credentials :: "bytes \<Rightarrow> locker_credentials"
  hj_first :: "bytes \<Rightarrow> bool"
  hj_reference :: "bytes \<Rightarrow> reference"
  hj_floor :: "bytes \<Rightarrow> key_generation"

section \<open>Waiting\<close>

text \<open>
  The two polling loops: a round that asks ends the loop with an error or an answer, or the caller sleeps
  and asks again. \<open>ask i\<close> and \<open>sleep i\<close> are the outcomes of round \<open>i\<close>; a loop that never ends is \<^term>\<open>None\<close>.
\<close>

partial_function (option) poll_loop :: "(nat \<Rightarrow> ('e, 'a option) result) \<Rightarrow> (nat \<Rightarrow> 'e option) \<Rightarrow> nat \<Rightarrow> ('e, 'a) result option" where
  "poll_loop ask sleep i = (case ask i of
     Inl e \<Rightarrow> Some (Inl e)
   | Inr (Some x) \<Rightarrow> Some (Inr x)
   | Inr None \<Rightarrow> (case sleep i of Some e \<Rightarrow> Some (Inl e) | None \<Rightarrow> poll_loop ask sleep (Suc i)))"

text \<open>A round after which the loop goes on, and what a round that ends it returns.\<close>

definition poll_again :: "(nat \<Rightarrow> ('e, 'a option) result) \<Rightarrow> (nat \<Rightarrow> 'e option) \<Rightarrow> nat \<Rightarrow> bool" where
  "poll_again ask sleep i \<longleftrightarrow> ask i = Inr None \<and> sleep i = None"

definition poll_end :: "(nat \<Rightarrow> ('e, 'a option) result) \<Rightarrow> (nat \<Rightarrow> 'e option) \<Rightarrow> nat \<Rightarrow> ('e, 'a) result" where
  "poll_end ask sleep i = (case ask i of Inl e \<Rightarrow> Inl e | Inr (Some x) \<Rightarrow> Inr x | Inr None \<Rightarrow> Inl (the (sleep i)))"

lemma poll_loop_again: "poll_again ask sleep i \<Longrightarrow> poll_loop ask sleep i = poll_loop ask sleep (Suc i)"
  by (subst poll_loop.simps) (simp add: poll_again_def)

lemma poll_loop_end: "\<not> poll_again ask sleep i \<Longrightarrow> poll_loop ask sleep i = Some (poll_end ask sleep i)"
  by (subst poll_loop.simps) (auto simp: poll_again_def poll_end_def split: sum.splits option.splits)

lemma poll_loop_first:
  assumes "\<not> poll_again ask sleep (i + n)" "\<And>j. j < n \<Longrightarrow> poll_again ask sleep (i + j)"
  shows "poll_loop ask sleep i = Some (poll_end ask sleep (i + n))"
  using assms
proof (induction n arbitrary: i)
  case 0
  then show ?case by (simp add: poll_loop_end)
next
  case (Suc n)
  have "poll_again ask sleep i" using Suc.prems(2) [of 0] by simp
  moreover have "poll_loop ask sleep (Suc i) = Some (poll_end ask sleep (Suc i + n))"
    using Suc.prems by (intro Suc.IH) (use Suc.prems(2) [of "Suc _"] in auto)
  ultimately show ?case by (simp add: poll_loop_again)
qed

text \<open>That the loop does not end shows in no finite number of rounds: by fixpoint induction on its result.\<close>

definition poll_ends_at :: "(nat \<Rightarrow> ('e, 'a option) result) \<Rightarrow> (nat \<Rightarrow> 'e option) \<Rightarrow> nat \<Rightarrow> ('e, 'a) result \<Rightarrow> nat \<Rightarrow> bool" where
  "poll_ends_at ask sleep i r n \<longleftrightarrow> \<not> poll_again ask sleep (i + n) \<and> (\<forall>j < n. poll_again ask sleep (i + j)) \<and> r = poll_end ask sleep (i + n)"

lemma poll_loop_Some:
  assumes "poll_loop ask sleep i = Some r"
  shows "\<exists>n. poll_ends_at ask sleep i r n"
proof (rule poll_loop.raw_induct [where P = "\<lambda>ask sleep i r. \<exists>n. poll_ends_at ask sleep i r n", OF _ assms])
  fix go ask sleep i r
  assume IH: "\<And>ask sleep i r. go ask sleep i = Some r \<Longrightarrow> \<exists>n. poll_ends_at ask sleep i r n"
    and step: "(case ask i of Inl e \<Rightarrow> Some (Inl e) | Inr None \<Rightarrow> (case sleep i of None \<Rightarrow> go ask sleep (Suc i) | Some e \<Rightarrow> Some (Inl e))
      | Inr (Some x) \<Rightarrow> Some (Inr x)) = Some r"
  show "\<exists>n. poll_ends_at ask sleep i r n"
  proof (cases "poll_again ask sleep i")
    case True
    with step have "go ask sleep (Suc i) = Some r" by (simp add: poll_again_def)
    from IH [OF this] obtain n where n: "poll_ends_at ask sleep (Suc i) r n" by blast
    have "poll_again ask sleep (i + j)" if "j < Suc n" for j
      using True n that by (cases j) (auto simp: poll_ends_at_def)
    with n show ?thesis by (intro exI [of _ "Suc n"]) (simp add: poll_ends_at_def)
  next
    case False
    with step have "r = poll_end ask sleep i"
      by (auto simp: poll_again_def poll_end_def split: sum.splits option.splits)
    with False show ?thesis by (intro exI [of _ 0]) (simp add: poll_ends_at_def)
  qed
qed

lemma poll_loop_ends_iff: "(\<exists>r. poll_loop ask sleep i = Some r) \<longleftrightarrow> (\<exists>n. \<not> poll_again ask sleep (i + n))"
proof
  assume "\<exists>n. \<not> poll_again ask sleep (i + n)"
  then have "\<not> poll_again ask sleep (i + (LEAST n. \<not> poll_again ask sleep (i + n)))" by (rule LeastI_ex)
  then show "\<exists>r. poll_loop ask sleep i = Some r" using poll_loop_first not_less_Least by metis
qed (use poll_loop_Some [of ask sleep i, unfolded poll_ends_at_def] in blast)

section \<open>Sign-in (client.go, refusal.go)\<close>

definition StatusApproved :: string where "StatusApproved = ''approved''"
definition StatusPending :: string where "StatusPending = ''pending''"
definition StatusExpired :: string where "StatusExpired = ''expired''"
definition StatusRefused :: string where "StatusRefused = ''refused''"
definition StatusConsumed :: string where "StatusConsumed = ''consumed''"

definition start_login :: "hop_json \<Rightarrow> http_reply \<Rightarrow> (hop_problem, login_session) result" where
  "start_login J reply =
     (case hop_do (hj_error J) (hj_login J) no_login reply of
        (Some e, _) \<Rightarrow> Inl (HopCall e)
      | (None, out) \<Rightarrow> if lg_id out = [] \<or> lg_secret out = [] then Inl (HopIncomplete ''login session'') else Inr out)"

text \<open>The status and, once, the approval. A refusal is recognized by the body's own status.\<close>

definition poll_login :: "hop_json \<Rightarrow> http_reply \<Rightarrow> (hop_problem, string \<times> approval option) result" where
  "poll_login J reply =
     (let (err, out) = hop_do (hj_error J) (hj_poll J)
         no_poll reply in
      if pr_status out = StatusRefused then Inl (SignInRefused (trim_space (pr_code out)) (pr_reason out))
      else case err of
        Some e \<Rightarrow> (case e of HopRefused status m c \<Rightarrow> if status = 410 \<and> pr_status out \<noteq> [] then Inr (pr_status out, None) else Inl (HopCall e)
                   | _ \<Rightarrow> Inl (HopCall e))
      | None \<Rightarrow>
        if pr_status out = StatusApproved then
          (case (pr_account out, pr_device out) of
             (Some a, Some d) \<Rightarrow> if pr_token out = [] then Inl (HopIncomplete ''approval'')
                               else Inr (pr_status out, Some \<lparr>av_token = pr_token out, av_account = a, av_device = d\<rparr>)
           | _ \<Rightarrow> Inl (HopIncomplete ''approval''))
        else Inr (pr_status out, None))"

text \<open>One round of \<^verbatim>\<open>WaitForApproval\<close>: an approved status ends it with whatever came with it, as in the code.\<close>

definition login_round :: "hop_json \<Rightarrow> http_reply \<Rightarrow> (hop_problem, approval option option) result" where
  "login_round J reply =
     (case poll_login J reply of Inl e \<Rightarrow> Inl e
      | Inr (status, approval) \<Rightarrow>
          if status = StatusApproved then Inr (Some approval)
          else if status = StatusPending then Inr None
          else if status = StatusExpired then Inl SignInExpired
          else Inl (SessionIs status))"

definition wait_for_approval :: "hop_json \<Rightarrow> (nat \<Rightarrow> http_reply) \<Rightarrow> (nat \<Rightarrow> transport option) \<Rightarrow> (hop_problem, approval option) result option" where
  "wait_for_approval J replies sleeps = poll_loop (\<lambda>i. login_round J (replies i)) (\<lambda>i. map_option WaitStopped (sleeps i)) 0"

definition GenericRefusalReason :: string where
  "GenericRefusalReason = ''This sign-in was refused. Run `rein login` again.''"

definition refusal_sentence :: "bytes \<Rightarrow> string" where
  "refusal_sentence reason = (if trim_space reason \<noteq> [] then trim_space reason else GenericRefusalReason)"

definition whoami :: "hop_json \<Rightarrow> http_reply \<Rightarrow> (hop_problem, hop_account \<times> hop_device) result" where
  "whoami J reply =
     (case hop_do (hj_error J) (hj_identity J) (no_account, no_device) reply of
        (Some e, _) \<Rightarrow> Inl (case e of HopRefused status m c \<Rightarrow> if status = 401 then HopUnauthorized else HopCall e | _ \<Rightarrow> HopCall e)
      | (None, out) \<Rightarrow> Inr out)"

section \<open>Pairing and revocation (pairing.go)\<close>

definition CodePairingExpired :: string where "CodePairingExpired = ''pairing_expired''"
definition CodePairingDecided :: string where "CodePairingDecided = ''pairing_decided''"
definition CodePairingRate :: string where "CodePairingRate = ''pairing_rate''"
definition CodeWrongAccount :: string where "CodeWrongAccount = ''wrong_account''"
definition CodeSelfRevoke :: string where "CodeSelfRevoke = ''self_revoke''"
definition CodeDeviceUnknown :: string where "CodeDeviceUnknown = ''device_unknown''"
definition CodeGenerationNotNewer :: string where "CodeGenerationNotNewer = ''generation_not_newer''"
definition CodeRevocationDecided :: string where "CodeRevocationDecided = ''revocation_decided''"

definition pairing_problem :: "hop_error \<Rightarrow> hop_problem" where
  "pairing_problem e = (case e of
     HopRefused status m code \<Rightarrow>
       if code = CodePairingExpired then PairingExpired
       else if code = CodePairingDecided then PairingDecided
       else if code = CodePairingRate then PairingRate
       else if code = CodeWrongAccount then WrongAccount
       else if code = CodeSelfRevoke then HopSelfRevoke
       else if code = CodeDeviceUnknown then DeviceUnknown
       else if status = 401 then HopUnauthorized
       else HopCall e
   | _ \<Rightarrow> HopCall e)"

definition protocol_version :: "int \<Rightarrow> (hop_problem, int) result" where
  "protocol_version v = (if v = 0 then Inr 1 else if v \<noteq> 1 \<and> v \<noteq> 2 then Inl (UnsupportedVersion v) else Inr v)"

definition no_pairing_request :: pairing_request where
  "no_pairing_request = \<lparr>pq_id = [], pq_version = 0, pq_status = [], pq_device = no_device, pq_public_key = [], pq_salt = [],
     pq_binding = [], pq_created_at = [], pq_expires_at = [], pq_interval = 0\<rparr>"

definition create_pairing :: "hop_json \<Rightarrow> http_reply \<Rightarrow> (hop_problem, pairing_request) result" where
  "create_pairing J reply =
     (case hop_do (hj_error J) (hj_pairing J) no_pairing_request reply of
        (Some e, _) \<Rightarrow> Inl (pairing_problem e)
      | (None, out) \<Rightarrow> if pq_id out = [] \<or> protocol_version (pq_version out) \<noteq> Inr 2 then Inl (HopIncomplete ''pairing request'') else Inr out)"

definition pending_pairings :: "hop_json \<Rightarrow> http_reply \<Rightarrow> (hop_problem, pairing_request list) result" where
  "pending_pairings J reply =
     (case hop_do (hj_error J) (hj_pairings J) [] reply of (Some e, _) \<Rightarrow> Inl (pairing_problem e) | (None, out) \<Rightarrow> Inr out)"

definition get_pairing :: "hop_json \<Rightarrow> http_reply \<Rightarrow> (hop_problem, pairing_request) result" where
  "get_pairing J reply =
     (case hop_do (hj_error J) (hj_pairing J) no_pairing_request reply of (Some e, _) \<Rightarrow> Inl (pairing_problem e) | (None, out) \<Rightarrow> Inr out)"

definition approve_pairing :: "hop_json \<Rightarrow> string \<Rightarrow> int \<Rightarrow> http_reply \<Rightarrow> hop_problem option" where
  "approve_pairing J request expected reply =
     (case hop_do (hj_error J) (hj_approved J) ([], 0) reply of (Some e, _) \<Rightarrow> Some (pairing_problem e)
      | (None, out) \<Rightarrow>
        (case protocol_version (snd out) of Inl e \<Rightarrow> Some e
        | Inr version \<Rightarrow> if version \<noteq> expected then Some (WrongPairingVersion request version expected) else None))"

definition expire_pairing :: "hop_json \<Rightarrow> http_reply \<Rightarrow> hop_problem option" where
  "expire_pairing J reply = map_option pairing_problem (fst (hop_do (hj_error J) (\<lambda>_. ()) () reply))"

definition claim_pairing :: "hop_json \<Rightarrow> string \<Rightarrow> int \<Rightarrow> http_reply \<Rightarrow> (hop_problem, string \<times> pairing_payload option) result" where
  "claim_pairing J request expected reply =
     (let (err, out) = hop_do (hj_error J) (hj_claim J)
            no_claim reply;
          gone = (case err of Some (HopRefused status m c) \<Rightarrow> status = 410 \<and> cl_status out \<noteq> [] | _ \<Rightarrow> False) in
      if err \<noteq> None \<and> \<not> gone then Inl (pairing_problem (the err))
      else case protocol_version (cl_version out) of Inl e \<Rightarrow> Inl e
      | Inr version \<Rightarrow>
        if version \<noteq> expected then Inl (WrongPairingVersion request version expected)
        else if gone then Inr (cl_status out, None)
        else if cl_status out = StatusApproved then
          (if cl_payload out = [] \<or> cl_generation out \<le> 0 then Inl (HopIncomplete ''payload'')
           else Inr (cl_status out, Some \<lparr>pp_version = version, pp_payload = cl_payload out, pp_generation = cl_generation out,
                  pp_approved_by = (case cl_approved_by out of None \<Rightarrow> no_device | Some d \<Rightarrow> d)\<rparr>))
        else Inr (cl_status out, None))"

definition pairing_round :: "hop_json \<Rightarrow> string \<Rightarrow> int \<Rightarrow> http_reply \<Rightarrow> (hop_problem, pairing_payload option option) result" where
  "pairing_round J request version reply =
     (case claim_pairing J request version reply of Inl e \<Rightarrow> Inl e
      | Inr (status, payload) \<Rightarrow>
          if status = StatusApproved then Inr (Some payload)
          else if status = StatusPending then Inr None
          else if status = StatusExpired then Inl PairingExpired
          else if status = StatusConsumed then Inl PairingConsumed
          else Inl (RequestIs status))"

definition wait_for_pairing :: "hop_json \<Rightarrow> pairing_request \<Rightarrow> (nat \<Rightarrow> http_reply) \<Rightarrow> (nat \<Rightarrow> transport option)
   \<Rightarrow> (hop_problem, pairing_payload option) result option" where
  "wait_for_pairing J q replies sleeps =
     (case protocol_version (pq_version q) of Inl e \<Rightarrow> Some (Inl e)
      | Inr version \<Rightarrow> poll_loop (\<lambda>i. pairing_round J (pq_id q) version (replies i)) (\<lambda>i. map_option WaitStopped (sleeps i)) 0)"

definition list_devices :: "hop_json \<Rightarrow> http_reply \<Rightarrow> (hop_problem, hop_device list) result" where
  "list_devices J reply =
     (case hop_do (hj_error J) (hj_devices J) [] reply of (Some e, _) \<Rightarrow> Inl (pairing_problem e) | (None, out) \<Rightarrow> Inr out)"

definition revoke_device :: "hop_json \<Rightarrow> http_reply \<Rightarrow> (hop_problem, hop_revocation) result" where
  "revoke_device J reply =
     (case hop_do (hj_error J) (hj_revocation J) no_revocation reply of
        (Some e, _) \<Rightarrow> Inl (pairing_problem e)
      | (None, out) \<Rightarrow> if hd_id (hr_device out) = [] then Inl (HopIncomplete ''revocation'') else Inr out)"

text \<open>A control plane without the route has no requests.\<close>

definition pending_revocations :: "hop_json \<Rightarrow> http_reply \<Rightarrow> (hop_problem, revocation_request list) result" where
  "pending_revocations J reply =
     (case hop_do (hj_error J) (hj_revocations J) [] reply of
        (Some e, _) \<Rightarrow> (case e of HopRefused status m c \<Rightarrow> if status = 404 then Inr [] else Inl (pairing_problem e) | _ \<Rightarrow> Inl (pairing_problem e))
      | (None, out) \<Rightarrow> Inr out)"

definition confirm_revocation :: "hop_json \<Rightarrow> http_reply \<Rightarrow> (hop_problem, revocation_request) result" where
  "confirm_revocation J reply =
     (case hop_do (hj_error J) (hj_confirmed J) no_confirmation reply of
        (Some e, _) \<Rightarrow> Inl (case e of HopRefused status m c \<Rightarrow>
             if c = CodeGenerationNotNewer then GenerationNotNewer else if c = CodeRevocationDecided then RevocationDecided else pairing_problem e
           | _ \<Rightarrow> pairing_problem e)
      | (None, out) \<Rightarrow> if rr_id out = [] \<or> hd_id (rr_target out) = [] \<or> rr_status out \<noteq> ''confirmed'' then Inl (HopIncomplete ''confirmation'')
          else Inr out)"

section \<open>The key generation floor (keygeneration.go)\<close>

definition no_answer :: key_generation where
  "no_answer = \<lparr>kg_generation = 0, kg_raised_at = [], kg_raised_by = [], kg_raised = False\<rparr>"

definition CodeKeyGenerationRange :: string where "CodeKeyGenerationRange = ''key_generation_range''"

definition key_generation_error :: "hop_error \<Rightarrow> hop_problem" where
  "key_generation_error e = (case e of
     HopRefused status message code \<Rightarrow>
       if code = CodeKeyGenerationRange then KeyGenerationRange message
       else if status = 404 then NoKeyGenerationFloor
       else if status = 401 then HopUnauthorized
       else HopCall e
   | _ \<Rightarrow> HopCall e)"

definition read_floor :: "hop_json \<Rightarrow> http_reply \<Rightarrow> (hop_problem, key_generation) result" where
  "read_floor J reply =
     (case hop_do (hj_error J) (hj_floor J) no_answer reply of (Some e, _) \<Rightarrow> Inl (key_generation_error e)
      | (None, out) \<Rightarrow> if kg_generation out < 0 then Inl (NegativeGeneration (kg_generation out)) else Inr out)"

definition raise_floor :: "hop_json \<Rightarrow> http_reply \<Rightarrow> int \<Rightarrow> (hop_problem, key_generation) result" where
  "raise_floor J reply generation =
     (if generation < 1 then Inl (NotReportable generation)
      else case hop_do (hj_error J) (hj_floor J) no_answer reply of (Some e, _) \<Rightarrow> Inl (key_generation_error e)
      | (None, out) \<Rightarrow> if kg_generation out < generation then Inl (AnswerTooLow (kg_generation out) generation) else Inr out)"

section \<open>The locker and its credentials (locker.go, source.go, verify.go)\<close>

definition CodeQuotaStorage :: string where "CodeQuotaStorage = ''quota_storage''"
definition CodeQuotaDevices :: string where "CodeQuotaDevices = ''quota_devices''"
definition CodeQuotaPushRate :: string where "CodeQuotaPushRate = ''quota_push_rate''"

definition locker_problem :: "hop_error \<Rightarrow> hop_problem" where
  "locker_problem e = (case e of
     HopRefused status message code \<Rightarrow>
       if code = CodeQuotaStorage then OverQuota QuotaStorage message
       else if code = CodeQuotaDevices then OverQuota QuotaDevices message
       else if code = CodeQuotaPushRate then OverQuota QuotaPushRate message
       else if code = ''no_locker'' then NoLocker
       else if code = ''storage_unavailable'' then StorageUnavailable
       else if status = 401 then HopUnauthorized
       else HopCall e
   | _ \<Rightarrow> HopCall e)"

definition no_locker :: locker where
  "no_locker = \<lparr>lk_endpoint = [], lk_bucket = [], lk_region = [], lk_prefix = [], lk_first_push_at = []\<rparr>"

definition provision_locker :: "hop_json \<Rightarrow> http_reply \<Rightarrow> (hop_problem, locker) result" where
  "provision_locker J reply =
     (case hop_do (hj_error J) (hj_locker J) no_locker reply of (Some e, _) \<Rightarrow> Inl (locker_problem e)
      | (None, out) \<Rightarrow> if lk_endpoint out = [] \<or> lk_bucket out = [] then Inl (HopIncomplete ''locker'') else Inr out)"

definition locker_status :: "hop_json \<Rightarrow> http_reply \<Rightarrow> (hop_problem, locker) result" where
  "locker_status J reply =
     (case hop_do (hj_error J) (hj_locker J) no_locker reply of (Some e, _) \<Rightarrow> Inl (locker_problem e) | (None, out) \<Rightarrow> Inr out)"

definition mint_credentials :: "hop_json \<Rightarrow> http_reply \<Rightarrow> (hop_problem, locker_credentials) result" where
  "mint_credentials J reply =
     (case hop_do (hj_error J) (hj_credentials J) no_credentials reply of
        (Some e, _) \<Rightarrow> Inl (locker_problem e)
      | (None, out) \<Rightarrow> if lc_access_key out = [] \<or> lc_secret_key out = [] then Inl (HopIncomplete ''credentials'') else Inr out)"

definition report_first_push :: "hop_json \<Rightarrow> http_reply \<Rightarrow> (hop_problem, bool) result" where
  "report_first_push J reply =
     (case hop_do (hj_error J) (hj_first J) False reply of (Some e, _) \<Rightarrow> Inl (locker_problem e) | (None, out) \<Rightarrow> Inr out)"

definition verify_reference :: "hop_json \<Rightarrow> http_reply \<Rightarrow> (hop_problem, reference) result" where
  "verify_reference J reply =
     (case hop_do (hj_error J) (hj_reference J) no_reference reply of
        (Some e, _) \<Rightarrow> Inl (case e of HopRefused status m c \<Rightarrow> if c = ''no_reference'' then NoReference else locker_problem e | _ \<Rightarrow> locker_problem e)
      | (None, out) \<Rightarrow> if rf_endpoint out = [] \<or> rf_bucket out = [] \<or> rf_key out = [] then Inl (HopIncomplete ''reference'') else Inr out)"

text \<open>
  The source keeps the locker it found, counts what it minted and remembers the last refusal. Each call
  takes the replies it may use; \<open>instant\<close> parses an expiry (the zero time is \<^term>\<open>None\<close>).
\<close>

record hop_source =
  so_locker :: "locker option"
  so_mints :: nat
  so_error :: "hop_problem option"

record s3_credentials =
  s3_access_key :: string
  s3_secret_key :: string
  s3_session_token :: string
  s3_expires :: "int option"

definition new_source :: hop_source where
  "new_source = \<lparr>so_locker = None, so_mints = 0, so_error = None\<rparr>"

definition source_locker :: "hop_json \<Rightarrow> http_reply \<Rightarrow> http_reply \<Rightarrow> hop_source \<Rightarrow> (hop_problem, locker) result \<times> hop_source" where
  "source_locker J status_reply provision_reply s =
     (case so_locker s of Some l \<Rightarrow> (Inr l, s)
      | None \<Rightarrow>
        let first = locker_status J status_reply;
            r = (if first = Inl NoLocker then provision_locker J provision_reply else first) in
        (case r of Inl e \<Rightarrow> (Inl e, s\<lparr>so_error := Some e\<rparr>) | Inr l \<Rightarrow> (Inr l, s\<lparr>so_locker := Some l\<rparr>)))"

definition source_credentials :: "hop_json \<Rightarrow> (string \<Rightarrow> int option) \<Rightarrow> http_reply \<Rightarrow> hop_source \<Rightarrow> (hop_problem, s3_credentials) result \<times> hop_source" where
  "source_credentials J instant reply s =
     (case mint_credentials J reply of Inl e \<Rightarrow> (Inl e, s\<lparr>so_error := Some e\<rparr>)
      | Inr c \<Rightarrow> (Inr \<lparr>s3_access_key = lc_access_key c, s3_secret_key = lc_secret_key c, s3_session_token = lc_session_token c,
                     s3_expires = instant (lc_expires_at c)\<rparr>,
                 s\<lparr>so_mints := Suc (so_mints s), so_error := None\<rparr>))"

definition source_report_first_push :: "hop_json \<Rightarrow> http_reply \<Rightarrow> hop_source \<Rightarrow> hop_problem option \<times> hop_source" where
  "source_report_first_push J reply s =
     (if (case so_locker s of Some l \<Rightarrow> lk_first_push_at l \<noteq> [] | None \<Rightarrow> False) then (None, s)
      else case report_first_push J reply of Inl e \<Rightarrow> (Some e, s)
      | Inr first \<Rightarrow>
          (None, case so_locker s of None \<Rightarrow> s
             | Some l \<Rightarrow> if lk_first_push_at l = [] then s\<lparr>so_locker := Some (l\<lparr>lk_first_push_at := ''reported''\<rparr>)\<rparr> else s))"

definition is_refusal :: "hop_problem \<Rightarrow> bool" where
  "is_refusal p = (case p of OverQuota k m \<Rightarrow> True | HopUnauthorized \<Rightarrow> True | NoLocker \<Rightarrow> True | _ \<Rightarrow> False)"

text \<open>The nearest storage region, from the name of the time zone.\<close>

definition east_europe :: "string list" where
  "east_europe = [''Moscow'', ''Istanbul'', ''Kyiv'', ''Kiev'', ''Minsk'', ''Warsaw'', ''Helsinki'', ''Bucharest'', ''Sofia'', ''Athens'',
     ''Riga'', ''Tallinn'', ''Vilnius'', ''Samara'', ''Volgograd'', ''Simferopol'', ''Chisinau'']"

definition west_america :: "string list" where
  "west_america = [''Los_Angeles'', ''Vancouver'', ''Tijuana'', ''Phoenix'', ''Denver'', ''Edmonton'', ''Boise'', ''Juneau'', ''Anchorage'',
     ''Adak'', ''Whitehorse'', ''Dawson'', ''Yellowknife'', ''Pacific'', ''Mountain'', ''Alaska'', ''Hawaii'', ''Arizona'', ''Hermosillo'',
     ''Mazatlan'', ''Chihuahua'']"

definition location_hint_for_zone :: "string \<Rightarrow> string" where
  "location_hint_for_zone zone =
     (let region = takeWhile (\<lambda>c. c \<noteq> slash) zone; city = drop (length region + 1) zone in
      if region \<in> {''Europe'', ''Atlantic'', ''Africa''} then (if city \<in> set east_europe then ''eeur'' else ''weur'')
      else if region \<in> {''America'', ''Canada'', ''US'', ''Mexico'', ''Cuba'', ''Jamaica''} then (if city \<in> set west_america then ''wnam'' else ''enam'')
      else if region \<in> {''Pacific'', ''Australia'', ''Antarctica''} then (if city = ''Honolulu'' then ''wnam'' else ''oc'')
      else ''apac'')"

definition location_hint :: "bytes \<Rightarrow> bytes \<Rightarrow> string \<Rightarrow> string" where
  "location_hint override tz local =
     (let v = to_lower (trim_space override) in
      if v \<noteq> [] then v else location_hint_for_zone (if trim_space tz \<noteq> [] then trim_space tz else local))"

section \<open>Properties\<close>

text \<open>A device joins only with an answer that says approved, for the version asked, and carries a payload.\<close>

lemma claim_pairing_payload:
  assumes "claim_pairing J request version reply = Inr (status, Some p)"
  shows "status = StatusApproved \<and> pp_version p = version \<and> pp_payload p \<noteq> [] \<and> pp_generation p \<ge> 1
    \<and> (\<exists>code body. reply = HttpReply code body \<and> code div 100 = 2)"
proof -
  obtain err out where d: "hop_do (hj_error J) (hj_claim J)
      no_claim reply = (err, out)"
    by (cases "hop_do (hj_error J) (hj_claim J)
      no_claim reply")
  have "err = None" using assms d by (auto simp: claim_pairing_def Let_def split: if_splits sum.splits option.splits hop_error.splits)
  then have "\<exists>code body. reply = HttpReply code body \<and> code div 100 = 2"
    using d by (auto simp: hop_do_def Let_def split: http_reply.splits if_splits)
  moreover have "status = StatusApproved \<and> pp_version p = version \<and> pp_payload p \<noteq> [] \<and> pp_generation p \<ge> 1"
    using assms d \<open>err = None\<close> by (auto simp: claim_pairing_def Let_def split: if_splits sum.splits)
  ultimately show ?thesis by blast
qed

text \<open>A wait still open after round \<open>i\<close>: the answer was pending for the version asked and the sleep was not cut short.\<close>

definition still_pending :: "hop_json \<Rightarrow> pairing_request \<Rightarrow> (nat \<Rightarrow> http_reply) \<Rightarrow> (nat \<Rightarrow> transport option) \<Rightarrow> nat \<Rightarrow> bool" where
  "still_pending J q replies sleeps i \<longleftrightarrow> (\<exists>v payload. protocol_version (pq_version q) = Inr v
     \<and> claim_pairing J (pq_id q) v (replies i) = Inr (StatusPending, payload)) \<and> sleeps i = None"

lemma pairing_poll_again:
  assumes "protocol_version (pq_version q) = Inr v"
  shows "poll_again (\<lambda>i. pairing_round J (pq_id q) v (replies i)) (\<lambda>i. map_option WaitStopped (sleeps i)) i
    \<longleftrightarrow> still_pending J q replies sleeps i"
proof -
  have "pairing_round J (pq_id q) v (replies i) = Inr None \<longleftrightarrow> (\<exists>payload. claim_pairing J (pq_id q) v (replies i) = Inr (StatusPending, payload))"
    by (auto simp: pairing_round_def StatusApproved_def StatusPending_def StatusExpired_def StatusConsumed_def split: sum.splits if_splits)
  then show ?thesis using assms by (simp add: poll_again_def still_pending_def)
qed

text \<open>
  C9. Waiting for an approval ends exactly when it should. The loop of \<^verbatim>\<open>WaitForPairing\<close> runs forever only if
  every poll is answered as pending in the version asked and no sleep is cut short; otherwise it
  returns, and with a payload only if some poll was answered as approved with one.
\<close>
theorem wait_for_pairing_terminates:
  "(wait_for_pairing J q replies sleeps = None \<longleftrightarrow> (\<forall>i. still_pending J q replies sleeps i))
   \<and> (\<forall>p. wait_for_pairing J q replies sleeps = Some (Inr (Some p)) \<longrightarrow>
        (\<exists>n v. protocol_version (pq_version q) = Inr v \<and> claim_pairing J (pq_id q) v (replies n) = Inr (StatusApproved, Some p)
            \<and> (\<forall>i < n. still_pending J q replies sleeps i)))"
proof (cases "protocol_version (pq_version q)")
  case (Inl e)
  then show ?thesis by (simp add: wait_for_pairing_def still_pending_def)
next
  case (Inr v)
  let ?ask = "\<lambda>i. pairing_round J (pq_id q) v (replies i)" and ?sleep = "\<lambda>i. map_option WaitStopped (sleeps i)"
  note again = pairing_poll_again [OF Inr, of J replies sleeps]
  have w: "wait_for_pairing J q replies sleeps = poll_loop ?ask ?sleep 0" by (simp add: wait_for_pairing_def Inr)
  have "poll_loop ?ask ?sleep 0 = None \<longleftrightarrow> \<not> (\<exists>r. poll_loop ?ask ?sleep 0 = Some r)" by (cases "poll_loop ?ask ?sleep 0") simp_all
  also have "\<dots> \<longleftrightarrow> (\<forall>i. still_pending J q replies sleeps i)" unfolding poll_loop_ends_iff again by simp
  finally have none: "poll_loop ?ask ?sleep 0 = None \<longleftrightarrow> (\<forall>i. still_pending J q replies sleeps i)" .
  have "\<exists>n v. protocol_version (pq_version q) = Inr v \<and> claim_pairing J (pq_id q) v (replies n) = Inr (StatusApproved, Some p)
            \<and> (\<forall>i < n. still_pending J q replies sleeps i)" if p: "poll_loop ?ask ?sleep 0 = Some (Inr (Some p))" for p
  proof -
    from poll_loop_Some [OF p] obtain n where n: "\<forall>j < n. poll_again ?ask ?sleep j" "Inr (Some p) = poll_end ?ask ?sleep n"
      by (auto simp: poll_ends_at_def)
    from n(2) have "?ask n = Inr (Some (Some p))" by (auto simp: poll_end_def split: sum.splits option.splits)
    then have "claim_pairing J (pq_id q) v (replies n) = Inr (StatusApproved, Some p)"
      by (auto simp: pairing_round_def split: sum.splits if_splits)
    with n(1) Inr again show ?thesis by blast
  qed
  with none w show ?thesis by simp
qed

text \<open>
  An answer of status 410 whose body says approved ends the wait without a payload: the caller gets
  neither an error nor something to read, and both callers read it.
\<close>

lemma gone_but_approved:
  assumes "hj_claim J body = \<lparr>cl_status = StatusApproved, cl_version = 2, cl_payload = x, cl_generation = n, cl_approved_by = None\<rparr>"
    and "body \<noteq> []" "length body \<le> maxReplyBytes" "pq_version q = 2"
  shows "wait_for_pairing J q (\<lambda>i. HttpReply 410 body) sleeps = Some (Inr None)"
proof -
  have pos: "0 < maxReplyBytes" "StatusApproved \<noteq> []" by (simp_all add: maxReplyBytes_def StatusApproved_def)
  have "pairing_round J (pq_id q) 2 (HttpReply 410 body) = Inr (Some None)"
    using assms pos by (simp add: pairing_round_def claim_pairing_def hop_do_def protocol_version_def Let_def)
  then have "poll_loop (\<lambda>i. pairing_round J (pq_id q) 2 (HttpReply 410 body)) (\<lambda>i. map_option WaitStopped (sleeps i)) 0 = Some (Inr None)"
    by (subst poll_loop_end) (simp_all add: poll_again_def poll_end_def)
  with assms(4) show ?thesis by (simp add: wait_for_pairing_def protocol_version_def)
qed

text \<open>A locker that was found is not asked for again, and provisioning is asked only when there is none.\<close>

lemma source_locker_cached:
  assumes "source_locker J a b s = (Inr l, s')"
  shows "source_locker J a' b' s' = (Inr l, s')"
  using assms by (auto simp: source_locker_def Let_def split: option.splits sum.splits if_splits)

lemma source_provisions_only_without_locker:
  assumes "locker_status J a \<noteq> Inl NoLocker"
  shows "source_locker J a b s = source_locker J a b' s"
  using assms by (cases "so_locker s") (simp_all add: source_locker_def Let_def)

lemma refusals_stop_the_wait:
  assumes "poll_login J reply = Inl (SignInRefused code reason)" "replies 0 = reply"
  shows "wait_for_approval J replies sleeps = Some (Inl (SignInRefused code reason))"
  unfolding wait_for_approval_def
  using assms by (subst poll_loop_end) (simp_all add: poll_again_def poll_end_def login_round_def)

end
