(* ===== verification/Keyring_Anchor.thy ===== *)
theory Keyring_Anchor
  imports Keyring_Store Pairing Config_Files Exit_Codes Credentials Hop_Client
begin

text \<open>
  What a command knows about its account's keyring before it opens one: the enrolment record of this
  device and the account-wide key generation floor of the control plane (\<^verbatim>\<open>hop/keygeneration.go\<close>,
  \<^verbatim>\<open>cli/keyring_floor.go\<close> and the anchor of \<^verbatim>\<open>cli/account.go\<close>). A keyring is checked against both before
  any of its keys is used, and the record moves forward after it was. A message is the constructor
  that names its case; HTTP, JSON and the clock are parameters.
\<close>

section \<open>Errors of a command\<close>

datatype floor_source = NoSource | FromLocalRecord | FromControlPlane | FromLastConfirmed | FromNoControlPlane

datatype anchor_error =
    AnchorKeyring keyring_error
  | FloorUndecided
  | RolledBack int int floor_source string
  | AnchorBroken string
  | Rewritten int string string

datatype cli_reason =
    NotSignedIn
  | TokenUnreadable cred_error
  | HomeUnknown config_error
  | ConfigMissing
  | ConfigRefused config_error
  | BackendFailed string
  | CredentialsFailed cred_error
  | HopFailed hop_problem
  | AccountUnreadable config_error
  | SaveFailed config_error
  | KeyringRefused anchor_error
  | ObservedRefused anchor_error
  | KeyringStoreFailed store_error
  | KeyringUnusable anchor_error
  | KeyringMissing
  | RecoveryDamaged keyring_error string
  | RecoveryWrong string
  | AlreadyEnrolledHere
  | KeyringExists
  | ConfirmationMismatch
  | PromptFailed string
  | CodeRejected code_error
  | SecretsFailed cred_error
  | SecretMalformed string
  | SecretExists string
  | RandomFailed string
  | RingRejected keyring_error
  | NotThisProfile string string
  | NoDeviceInToken
  | NotThisDevice string string
  | ListedWithoutKey string
  | ListedOtherKey string
  | ListedWrapBroken string keyring_error
  | UnlistedKeyHere string
  | NotEnrolledHere
  | NoAccountKey
  | DeviceKeyMissing
  | DeviceKeyMalformed
  | DeviceNotInGeneration int
  | ProviderFailed key_error
  | PairingCancelled
  | PayloadRejected pairing_error
  | ApprovalGeneration int int
  | NoWorkingWrap anchor_error
  | RelayedKeyInvalid key_error
  | RelayedKeyMismatch
  | NoSuchRequest string
  | NoPendingRequest
  | SeveralRequests nat
  | SaltMalformed
  | VersionRefused hop_problem
  | PairingCodeRejected pairing_error
  | CodeNotForRequest
  | RequestKeyMalformed
  | ExpiryMalformed
  | RequestExpired string
  | NotRootKeyModel
  | ListedUnderOtherKey string
  | SealFailed pairing_error
  | CannotOpenCurrent keyring_error
  | RelayRefused hop_problem
  | RelayRefusedAndKept hop_problem
  | RevokesItself string
  | DeviceTargetEmpty
  | NoSuchDevice string
  | AmbiguousDevice nat
  | ConfirmationNotTold hop_problem
  | RevocationNotTold hop_problem
  | FloorOutOfRange hop_problem
  | FloorNotRaised hop_problem
  | FloorNotRemembered cli_reason

datatype cli_error = CliError (ce_code: int) (ce_reason: cli_reason)

text \<open>\<^verbatim>\<open>hopExitError\<close>.\<close>

definition hop_exit_error :: "hop_problem \<Rightarrow> cli_error" where
  "hop_exit_error p = CliError (case p of
     OverQuota k m \<Rightarrow> ExitAuthStorage
   | HopUnauthorized \<Rightarrow> ExitAuthStorage
   | NoLocker \<Rightarrow> ExitAuthStorage
   | StorageUnavailable \<Rightarrow> ExitRuntime
   | PairingExpired \<Rightarrow> ExitAuthStorage
   | PairingDecided \<Rightarrow> ExitAuthStorage
   | PairingConsumed \<Rightarrow> ExitAuthStorage
   | PairingRate \<Rightarrow> ExitAuthStorage
   | WrongAccount \<Rightarrow> ExitAuthStorage
   | HopSelfRevoke \<Rightarrow> ExitUsage
   | DeviceUnknown \<Rightarrow> ExitUsage
   | _ \<Rightarrow> ExitRuntime) (HopFailed p)"

text \<open>\<^verbatim>\<open>hostedSession\<close>: the token of this home, and the refusal without one.\<close>

definition hosted_session :: "(cred_error, device_token) result \<Rightarrow> (cli_error, device_token) result" where
  "hosted_session token =
     (case token of Inl e \<Rightarrow> Inl (CliError ExitAuthStorage (if e = NoDeviceToken then NotSignedIn else TokenUnreadable e))
      | Inr t \<Rightarrow> Inr t)"

section \<open>The floor of one command (cli/keyring_floor.go)\<close>

record keyring_floor =
  fl_decided :: bool
  fl_generation :: int
  fl_source :: floor_source
  fl_confirmed_at :: string

definition undecided_floor :: keyring_floor where
  "undecided_floor = \<lparr>fl_decided = False, fl_generation = 0, fl_source = NoSource, fl_confirmed_at = []\<rparr>"

definition no_key_generation_floor :: "floor_source \<Rightarrow> keyring_floor" where
  "no_key_generation_floor source = \<lparr>fl_decided = True, fl_generation = 0, fl_source = source, fl_confirmed_at = []\<rparr>"

definition last_confirmed_floor :: "account_json \<Rightarrow> home_env \<Rightarrow> disk \<Rightarrow> (cli_error, keyring_floor) result" where
  "last_confirmed_floor J E d =
     (case load_account J E d of
        Inl e \<Rightarrow> if is_not_exist e then Inr (no_key_generation_floor FromLastConfirmed)
                 else Inl (CliError ExitConfig (AccountUnreadable e))
      | Inr a \<Rightarrow> Inr \<lparr>fl_decided = True, fl_generation = ac_control_plane_key_generation a,
                      fl_source = FromLastConfirmed, fl_confirmed_at = ac_control_plane_confirmed_at a\<rparr>)"

text \<open>\<open>now\<close> is the instant as it is printed into the record.\<close>

definition remember_floor :: "account_json \<Rightarrow> home_env \<Rightarrow> nat \<Rightarrow> string \<Rightarrow> keyring_floor \<Rightarrow> disk \<Rightarrow> cli_error option \<times> disk" where
  "remember_floor J E i now floor d =
     (if \<not> fl_decided floor \<or> fl_generation floor \<le> 0 then (None, d)
      else case load_account J E d of
        Inl e \<Rightarrow> (if is_not_exist e then None else Some (CliError ExitConfig (AccountUnreadable e)), d)
      | Inr a \<Rightarrow>
          if ac_control_plane_key_generation a \<ge> fl_generation floor then (None, d)
          else (case save_account J E i (a\<lparr>ac_control_plane_key_generation := fl_generation floor,
                                          ac_control_plane_confirmed_at := now\<rparr>) d of
              (Some e, d') \<Rightarrow> (Some (CliError ExitConfig (SaveFailed e)), d')
            | (None, d') \<Rightarrow> (None, d')))"

text \<open>
  \<open>storage\<close> is the profile's storage type if there is a configuration, \<open>session\<close> the signed-in session
  (the device it names), \<open>reply\<close> what the control plane answers.
\<close>

definition confirm_floor ::
  "hop_json \<Rightarrow> account_json \<Rightarrow> home_env \<Rightarrow> nat \<Rightarrow> string \<Rightarrow> string option \<Rightarrow> (cli_error, device_token) result \<Rightarrow> http_reply
   \<Rightarrow> disk \<Rightarrow> (cli_error, keyring_floor) result \<times> disk" where
  "confirm_floor G J E i now storage session reply d =
     (if storage \<noteq> Some StorageHop then (Inr (no_key_generation_floor FromNoControlPlane), d)
      else case session of Inl e \<Rightarrow> (Inl e, d)
      | Inr _ \<Rightarrow>
        (case read_floor G reply of
          Inl e \<Rightarrow> if e = NoKeyGenerationFloor then (last_confirmed_floor J E d, d) else (Inl (hop_exit_error e), d)
        | Inr got \<Rightarrow>
            let floor = \<lparr>fl_decided = True, fl_generation = kg_generation got, fl_source = FromControlPlane,
                         fl_confirmed_at = kg_raised_at got\<rparr> in
            (case remember_floor J E i now floor d of
              (Some e, d') \<Rightarrow> (Inl e, d') | (None, d') \<Rightarrow> (Inr floor, d'))))"

datatype raise_error = RaiseSession cli_error | RaiseFailed int hop_problem | RaiseNotRemembered cli_error

text \<open>\<^verbatim>\<open>raiseKeyGenerationFloor\<close>: whether the control plane carries the floor, and the error.\<close>

definition raise_account_floor ::
  "hop_json \<Rightarrow> account_json \<Rightarrow> home_env \<Rightarrow> nat \<Rightarrow> string \<Rightarrow> string option \<Rightarrow> (cli_error, device_token) result \<Rightarrow> http_reply
   \<Rightarrow> int \<Rightarrow> disk \<Rightarrow> (bool \<times> raise_error option) \<times> disk" where
  "raise_account_floor G J E i now storage session reply generation d =
     (if storage \<noteq> Some StorageHop \<or> generation < 1 then ((False, None), d)
      else case session of Inl e \<Rightarrow> ((False, Some (RaiseSession e)), d)
      | Inr _ \<Rightarrow>
        (case raise_floor G reply generation of
          Inl e \<Rightarrow> ((False, if e = NoKeyGenerationFloor then None else Some (RaiseFailed generation e)), d)
        | Inr got \<Rightarrow>
            (case remember_floor J E i now \<lparr>fl_decided = True, fl_generation = kg_generation got,
                     fl_source = FromControlPlane, fl_confirmed_at = kg_raised_at got\<rparr> d of
               (Some e, d') \<Rightarrow> ((True, Some (RaiseNotRemembered e)), d') | (None, d') \<Rightarrow> ((True, None), d'))))"

section \<open>The anchor (cli/account.go)\<close>

record anchor =
  an_generation :: int
  an_recipient :: string
  an_account_key :: string
  an_floor :: keyring_floor

definition floor_anchor :: "string \<Rightarrow> keyring_floor \<Rightarrow> anchor" where
  "floor_anchor key floor = \<lparr>an_generation = 0, an_recipient = [], an_account_key = key, an_floor = floor\<rparr>"

definition anchor_from_account :: "account \<Rightarrow> keyring_floor \<Rightarrow> anchor" where
  "anchor_from_account a floor = \<lparr>an_generation = ac_key_generation a, an_recipient = ac_key_recipient a,
     an_account_key = ac_account_key a, an_floor = floor\<rparr>"

definition load_anchor ::
  "hop_json \<Rightarrow> account_json \<Rightarrow> home_env \<Rightarrow> nat \<Rightarrow> string \<Rightarrow> string option \<Rightarrow> (cli_error, device_token) result \<Rightarrow> http_reply
   \<Rightarrow> disk \<Rightarrow> (cli_error, anchor) result \<times> disk" where
  "load_anchor G J E i now storage session reply d =
     (case confirm_floor G J E i now storage session reply d of
        (Inl e, d') \<Rightarrow> (Inl e, d')
      | (Inr floor, d') \<Rightarrow>
          (case load_account J E d' of
             Inl e \<Rightarrow> if is_not_exist e then (Inr (floor_anchor [] floor), d')
                      else (Inl (CliError ExitConfig (AccountUnreadable e)), d')
           | Inr a \<Rightarrow> (Inr (anchor_from_account a floor), d')))"

definition check_floor :: "int \<Rightarrow> int \<Rightarrow> floor_source \<Rightarrow> string \<Rightarrow> anchor_error option" where
  "check_floor observed floor source at = (if observed < floor then Some (RolledBack observed floor source at) else None)"

definition check_anchor :: "key_lib \<Rightarrow> anchor \<Rightarrow> keyring \<Rightarrow> anchor_error option" where
  "check_anchor L a k =
     (case verify_generations L k (an_account_key a) of Some e \<Rightarrow> Some (AnchorKeyring e)
      | None \<Rightarrow>
        let f = an_floor a in
        if \<not> fl_decided f then Some FloorUndecided
        else (case check_floor (kr_current k) (fl_generation f) (fl_source f) (fl_confirmed_at f) of Some e \<Rightarrow> Some e
      | None \<Rightarrow>
        if an_generation a = 0 then None
        else if an_recipient a = [] \<or> an_account_key a = [] then
          Some (AnchorBroken (if an_account_key a = [] then ''account signing key'' else ''root-key recipient''))
        else (case check_floor (kr_current k) (an_generation a) FromLocalRecord [] of Some e \<Rightarrow> Some e
      | None \<Rightarrow>
        let found = generation_recipient k (an_generation a) in
        if found \<noteq> an_recipient a then Some (Rewritten (an_generation a) (an_recipient a) found) else None)))"

definition trust_keyring :: "key_lib \<Rightarrow> anchor \<Rightarrow> keyring \<Rightarrow> (keyring_error, 'a) result \<Rightarrow> (anchor_error, 'a) result" where
  "trust_keyring L a k unwrap =
     (case check_anchor L a k of Some e \<Rightarrow> Inl e | None \<Rightarrow> map_sum AnchorKeyring id unwrap)"

definition observe_keyring ::
  "key_lib \<Rightarrow> account_json \<Rightarrow> home_env \<Rightarrow> nat \<Rightarrow> keyring_floor \<Rightarrow> keyring \<Rightarrow> disk \<Rightarrow> cli_error option \<times> disk" where
  "observe_keyring L J E i floor k d =
     (case load_account J E d of
        Inl e \<Rightarrow> (if is_not_exist e then None else Some (CliError ExitConfig (AccountUnreadable e)), d)
      | Inr a \<Rightarrow>
        (case check_anchor L (anchor_from_account a floor) k of Some e \<Rightarrow> (Some (CliError ExitSafety (ObservedRefused e)), d)
      | None \<Rightarrow>
        let recipient = current_recipient k in
        if ac_key_generation a = kr_current k \<and> ac_key_recipient a = recipient then (None, d)
        else (case save_account J E i (a\<lparr>ac_key_generation := kr_current k, ac_key_recipient := recipient\<rparr>) d of
            (Some e, d') \<Rightarrow> (Some (CliError ExitConfig (SaveFailed e)), d')
          | (None, d') \<Rightarrow> (None, d'))))"

text \<open>The refusals that exit with the safety code, whichever way they reached the command.\<close>

definition refused_keyring :: "keyring_error \<Rightarrow> bool" where
  "refused_keyring e \<longleftrightarrow> e = AccountKeyMismatch \<or> is_unauthenticated e"

definition exit_for_refusal :: "anchor_error \<Rightarrow> cli_error option" where
  "exit_for_refusal e = (case e of
     AnchorKeyring ke \<Rightarrow> if refused_keyring ke then Some (CliError ExitSafety (KeyringRefused e)) else None
   | _ \<Rightarrow> Some (CliError ExitSafety (KeyringRefused e)))"

definition exit_for_store_refusal :: "store_error \<Rightarrow> cli_error option" where
  "exit_for_store_refusal e = (case e of
     KeyringRejected ke \<Rightarrow> if refused_keyring ke then Some (CliError ExitSafety (KeyringRefused (AnchorKeyring ke))) else None
   | KeyringTooLarge n m \<Rightarrow> Some (CliError ExitSafety (KeyringStoreFailed e))
   | _ \<Rightarrow> None)"

definition exit_for_recovery_wrap :: "keyring_error \<Rightarrow> string \<Rightarrow> cli_error option" where
  "exit_for_recovery_wrap e undone = (case e of
     RecoveryMalformed n \<Rightarrow> Some (CliError ExitSafety (RecoveryDamaged e undone))
   | RecoveryMismatch \<Rightarrow> Some (CliError ExitAuthStorage (RecoveryWrong undone))
   | _ \<Rightarrow> None)"


section \<open>What the anchor accepts\<close>

lemma check_floor_None [simp]: "check_floor n f src at = None \<longleftrightarrow> f \<le> n"
  by (auto simp: check_floor_def)

text \<open>The values of a record that pins a keyring.\<close>

definition pinned :: "anchor \<Rightarrow> keyring \<Rightarrow> bool" where
  "pinned a k \<longleftrightarrow> an_recipient a \<noteq> [] \<and> an_account_key a \<noteq> [] \<and> an_generation a \<le> kr_current k
     \<and> generation_recipient k (an_generation a) = an_recipient a"

lemma check_anchor_None:
  "check_anchor L a k = None \<longleftrightarrow>
     verify_generations L k (an_account_key a) = None \<and> fl_decided (an_floor a)
     \<and> fl_generation (an_floor a) \<le> kr_current k \<and> (an_generation a = 0 \<or> pinned a k)"
proof -
  have "(case check_floor n f src at of None \<Rightarrow> r | Some e \<Rightarrow> Some e) = None \<longleftrightarrow> f \<le> n \<and> r = None"
    for n f src at and r :: "anchor_error option"
    by (simp add: check_floor_def)
  then show ?thesis
    by (cases "verify_generations L k (an_account_key a)") (auto simp: check_anchor_def pinned_def Let_def)
qed

lemma trust_keyring_Inr:
  "trust_keyring L a k unwrap = Inr keys \<longleftrightarrow> check_anchor L a k = None \<and> unwrap = Inr keys"
  by (auto simp: trust_keyring_def map_sum_def split: option.splits sum.splits)

lemma verified_pins_key: "verify_generations L k key = None \<Longrightarrow> key \<noteq> [] \<Longrightarrow> kr_account_key k = key"
  by (auto simp: verify_generations_def split: sum.splits if_splits)

lemma loaded_account_valid: "load_account J E d = Inr a \<Longrightarrow> validate_account (Some a) = None"
  by (auto simp: load_account_Inr)

text \<open>Every value a command decides on is decided: no route reaches an undecided floor.\<close>

lemma confirm_floor_decided:
  assumes "confirm_floor G J E i now storage session reply d = (Inr floor, d')"
  shows "fl_decided floor"
  using assms
  by (auto simp: confirm_floor_def no_key_generation_floor_def last_confirmed_floor_def Let_def
      split: if_splits sum.splits prod.splits option.splits)

lemma load_anchor_floor:
  assumes "load_anchor G J E i now storage session reply d = (Inr a, d')"
  shows "confirm_floor G J E i now storage session reply d = (Inr (an_floor a), d')"
  using assms by (auto simp: load_anchor_def floor_anchor_def anchor_from_account_def split: if_splits sum.splits prod.splits)

section \<open>The record moves forward only\<close>

text \<open>
  The steps that touch the record of an enrolled device: confirming the floor, raising it, and
  observing a keyring, whatever the control plane and the store answer. A run lists the keyrings that
  were accepted. A temporary name is one that is not in use.
\<close>

inductive anchored_run ::
  "key_lib \<Rightarrow> hop_json \<Rightarrow> account_json \<Rightarrow> home_env \<Rightarrow> disk \<Rightarrow> keyring list \<Rightarrow> disk \<Rightarrow> bool"
  for L G J E where
  stop: "anchored_run L G J E d [] d"
| confirmed: "confirm_floor G J E i now storage session reply d = (r, d1) \<Longrightarrow> fresh_tmp E (account_path (he_home E)) i d
     \<Longrightarrow> anchored_run L G J E d1 ks d' \<Longrightarrow> anchored_run L G J E d ks d'"
| raised: "raise_account_floor G J E i now storage session reply n d = (r, d1) \<Longrightarrow> fresh_tmp E (account_path (he_home E)) i d
     \<Longrightarrow> anchored_run L G J E d1 ks d' \<Longrightarrow> anchored_run L G J E d ks d'"
| refused: "observe_keyring L J E i floor k d = (Some e, d1) \<Longrightarrow> fresh_tmp E (account_path (he_home E)) i d
     \<Longrightarrow> anchored_run L G J E d1 ks d' \<Longrightarrow> anchored_run L G J E d ks d'"
| accepted: "observe_keyring L J E i floor k d = (None, d1) \<Longrightarrow> fresh_tmp E (account_path (he_home E)) i d
     \<Longrightarrow> anchored_run L G J E d1 ks d' \<Longrightarrow> anchored_run L G J E d (k # ks) d'"

text \<open>The record before and after a step: the account key stays, neither number falls.\<close>

definition record_moves :: "account \<Rightarrow> account \<Rightarrow> bool" where
  "record_moves a a' \<longleftrightarrow> ac_account_key a' = ac_account_key a \<and> ac_profile_id a' = ac_profile_id a
     \<and> ac_device_id a' = ac_device_id a \<and> ac_key_generation a \<le> ac_key_generation a'
     \<and> ac_control_plane_key_generation a \<le> ac_control_plane_key_generation a'"

lemma record_moves_refl [simp]: "record_moves a a"
  and record_moves_trans: "record_moves a b \<Longrightarrow> record_moves b c \<Longrightarrow> record_moves a c"
  by (auto simp: record_moves_def)

lemma remember_floor_record:
  assumes run: "remember_floor J E i now floor d = (r, d')" and a: "load_account J E d = Inr a"
    and sound: "\<And>x. account_sound J x" and fresh: "fresh_tmp E (account_path (he_home E)) i d"
  shows "\<exists>a'. load_account J E d' = Inr a' \<and> record_moves a a'
    \<and> ac_key_generation a' = ac_key_generation a \<and> ac_key_recipient a' = ac_key_recipient a"
proof (cases "\<not> fl_decided floor \<or> fl_generation floor \<le> ac_control_plane_key_generation a \<or> fl_generation floor \<le> 0")
  case True
  with run a have "d' = d" by (auto simp: remember_floor_def split: if_splits)
  with a show ?thesis by (intro exI [of _ a]) simp
next
  case False
  let ?a = "a\<lparr>ac_control_plane_key_generation := fl_generation floor, ac_control_plane_confirmed_at := now\<rparr>"
  obtain err where save: "save_account J E i ?a d = (err, d')"
    using run a False by (auto simp: remember_floor_def split: prod.splits option.splits)
  note after = account_file.load_after_save [OF fresh save sound]
  show ?thesis
  proof (cases err)
    case None
    with after have "load_account J E d' = Inr ?a" by simp
    with False show ?thesis by (intro exI [of _ ?a]) (simp add: record_moves_def)
  next
    case (Some e)
    with after a have "load_account J E d' = Inr a" by simp
    then show ?thesis by (intro exI [of _ a]) simp
  qed
qed

lemma confirm_floor_disk:
  assumes "confirm_floor G J E i now storage session reply d = (r, d')"
  shows "d' = d \<or> (\<exists>floor e. remember_floor J E i now floor d = (e, d'))"
  using assms by (auto simp: confirm_floor_def Let_def split: if_splits sum.splits prod.splits option.splits)

lemma raise_account_floor_disk:
  assumes "raise_account_floor G J E i now storage session reply n d = (r, d')"
  shows "d' = d \<or> (\<exists>floor e. remember_floor J E i now floor d = (e, d'))"
  using assms by (auto simp: raise_account_floor_def split: if_splits sum.splits prod.splits option.splits)

lemma observe_refused_record:
  assumes run: "observe_keyring L J E i floor k d = (Some e, d')" and a: "load_account J E d = Inr a"
    and fresh: "fresh_tmp E (account_path (he_home E)) i d"
  shows "load_account J E d' = Inr a"
proof -
  have "d' = d \<or> (\<exists>x m. save_account J E i x d = (Some m, d'))"
    using run a by (auto simp: observe_keyring_def Let_def split: option.splits if_splits prod.splits)
  with a account_file.failed_keeps [OF fresh] show ?thesis by blast
qed

text \<open>An accepted keyring becomes the pin.\<close>

lemma observe_accepted_record:
  assumes run: "observe_keyring L J E i floor k d = (None, d')" and a: "load_account J E d = Inr a"
    and sound: "\<And>x. account_sound J x" and fresh: "fresh_tmp E (account_path (he_home E)) i d"
  shows "check_anchor L (anchor_from_account a floor) k = None
    \<and> (\<exists>a'. load_account J E d' = Inr a' \<and> record_moves a a' \<and> ac_key_generation a' = kr_current k
           \<and> ac_key_recipient a' = current_recipient k)"
proof -
  have ok: "check_anchor L (anchor_from_account a floor) k = None"
    using run a by (auto simp: observe_keyring_def split: option.splits)
  have "ac_key_generation a \<ge> 1" using loaded_account_valid [OF a] by (simp add: validate_account_None)
  with ok have up: "ac_key_generation a \<le> kr_current k"
    by (auto simp: check_anchor_None pinned_def anchor_from_account_def)
  let ?a = "a\<lparr>ac_key_generation := kr_current k, ac_key_recipient := current_recipient k\<rparr>"
  have "d' = d \<and> ?a = a \<or> save_account J E i ?a d = (None, d')"
    using run a ok by (auto simp: observe_keyring_def Let_def split: if_splits prod.splits option.splits)
  with a account_file.saved_loads [OF fresh sound] have "load_account J E d' = Inr ?a" by auto
  with ok up show ?thesis by (intro conjI exI [of _ ?a]) (simp_all add: record_moves_def)
qed

text \<open>The keyrings of a run: each continues the one before it, and the first the record.\<close>

fun chained :: "int \<Rightarrow> string \<Rightarrow> keyring list \<Rightarrow> bool" where
  "chained n recipient [] = True"
| "chained n recipient (k # ks) =
     (n \<le> kr_current k \<and> generation_recipient k n = recipient \<and> chained (kr_current k) (current_recipient k) ks)"

text \<open>
  C7. A device never goes back. Whatever the control plane answers and whatever keyrings the store
  serves, over any sequence of commands: every keyring an enrolled device accepts is signed under the
  account key it pinned at its enrolment, verifies as a whole, has a current generation at least that of
  every keyring it accepted before, and still names the root key of the generation it accepted last.
  The record's generation and its confirmed floor never fall.
\<close>
theorem device_never_goes_back:
  assumes "anchored_run L G J E d ks d'" and "load_account J E d = Inr a" and "\<And>x. account_sound J x"
  shows "chained (ac_key_generation a) (ac_key_recipient a) ks
    \<and> (\<forall>k \<in> set ks. kr_account_key k = ac_account_key a \<and> verify_generations L k (ac_account_key a) = None)
    \<and> (\<exists>a'. load_account J E d' = Inr a' \<and> record_moves a a')"
  using assms
proof (induction arbitrary: a rule: anchored_run.induct)
  case (confirmed i now storage session reply d r d1 ks d')
  then obtain b where "load_account J E d1 = Inr b" "record_moves a b"
      "ac_key_generation b = ac_key_generation a" "ac_key_recipient b = ac_key_recipient a"
    using confirm_floor_disk remember_floor_record by (metis record_moves_refl)
  with confirmed.IH [OF _ confirmed.prems(2)] show ?case by (auto simp: record_moves_def dest: order_trans)
next
  case (raised i now storage session reply n d r d1 ks d')
  then obtain b where "load_account J E d1 = Inr b" "record_moves a b"
      "ac_key_generation b = ac_key_generation a" "ac_key_recipient b = ac_key_recipient a"
    using raise_account_floor_disk remember_floor_record by (metis record_moves_refl)
  with raised.IH [OF _ raised.prems(2)] show ?case by (auto simp: record_moves_def dest: order_trans)
next
  case (refused i floor k d e d1 ks d')
  then have "load_account J E d1 = Inr a" using observe_refused_record by blast
  with refused.IH refused.prems(2) show ?case by blast
next
  case (accepted i floor k d d1 ks d')
  from observe_accepted_record [OF accepted.hyps(1) accepted.prems(1) accepted.prems(2) accepted.hyps(2)]
  obtain b where ok: "check_anchor L (anchor_from_account a floor) k = None" and b: "load_account J E d1 = Inr b" "record_moves a b"
      "ac_key_generation b = kr_current k" "ac_key_recipient b = current_recipient k" by blast
  have valid: "ac_key_generation a \<ge> 1" "ac_account_key a \<noteq> []"
    using loaded_account_valid [OF accepted.prems(1)] by (simp_all add: validate_account_None)
  with ok have k: "verify_generations L k (ac_account_key a) = None" "ac_key_generation a \<le> kr_current k"
      "generation_recipient k (ac_key_generation a) = ac_key_recipient a"
    by (auto simp: check_anchor_None pinned_def anchor_from_account_def)
  with valid have "kr_account_key k = ac_account_key a" using verified_pins_key by blast
  with accepted.IH [OF b(1) accepted.prems(2)] b k show ?case
    by (auto simp: record_moves_def dest: order_trans)
qed auto


section \<open>No key is used below the floor\<close>

lemma confirmed_floor_answer:
  assumes "confirm_floor G J E i now (Some StorageHop) session reply d = (Inr f, d')" "fl_generation f \<le> n"
  shows "case read_floor G reply of Inr got \<Rightarrow> kg_generation got \<le> n
       | Inl e \<Rightarrow> e = NoKeyGenerationFloor
           \<and> (\<forall>acc. load_account J E d = Inr acc \<longrightarrow> ac_control_plane_key_generation acc \<le> n)"
  using assms
  by (auto simp: confirm_floor_def last_confirmed_floor_def Let_def split: if_splits sum.splits prod.splits option.splits)

text \<open>
  C8. No command uses a key of a keyring below the account's floor. On a Hop profile, if a command gets
  root keys through \<^verbatim>\<open>trustKeyring\<close>, then either the control plane answered and the keyring is at least
  at the generation it answered, or it has no such route and the keyring is at least at the last floor it
  confirmed to this device; no other answer lets the command go on. The keyring verifies under the
  account key of the record, is not older than the record, and still names the record's root key.
\<close>
theorem no_key_below_floor:
  assumes anchor: "load_anchor G J E i now (Some StorageHop) session reply d = (Inr a, d')"
    and trust: "trust_keyring L a k unwrap = Inr keys"
  shows "unwrap = Inr keys \<and> verify_generations L k (an_account_key a) = None
    \<and> (case read_floor G reply of Inr got \<Rightarrow> kg_generation got \<le> kr_current k
       | Inl e \<Rightarrow> e = NoKeyGenerationFloor
           \<and> (\<forall>acc. load_account J E d = Inr acc \<longrightarrow> ac_control_plane_key_generation acc \<le> kr_current k))
    \<and> (\<forall>acc. load_account J E d' = Inr acc \<longrightarrow> kr_account_key k = ac_account_key acc
         \<and> ac_key_generation acc \<le> kr_current k \<and> generation_recipient k (ac_key_generation acc) = ac_key_recipient acc)"
proof -
  from trust have u: "unwrap = Inr keys" and ok: "check_anchor L a k = None" by (simp_all add: trust_keyring_Inr)
  then have v: "verify_generations L k (an_account_key a) = None" "fl_generation (an_floor a) \<le> kr_current k"
    by (simp_all add: check_anchor_None)
  have floor: "confirm_floor G J E i now (Some StorageHop) session reply d = (Inr (an_floor a), d')"
    by (rule load_anchor_floor [OF anchor])
  have "case read_floor G reply of Inr got \<Rightarrow> kg_generation got \<le> kr_current k
       | Inl e \<Rightarrow> e = NoKeyGenerationFloor
           \<and> (\<forall>acc. load_account J E d = Inr acc \<longrightarrow> ac_control_plane_key_generation acc \<le> kr_current k)"
    by (rule confirmed_floor_answer [OF floor v(2)])
  moreover have "kr_account_key k = ac_account_key acc \<and> ac_key_generation acc \<le> kr_current k
      \<and> generation_recipient k (ac_key_generation acc) = ac_key_recipient acc" if acc: "load_account J E d' = Inr acc" for acc
  proof -
    have a: "a = anchor_from_account acc (an_floor a)"
      using anchor acc by (auto simp: load_anchor_def anchor_from_account_def split: if_splits sum.splits prod.splits)
    have "ac_key_generation acc \<ge> 1" "ac_account_key acc \<noteq> []"
      using loaded_account_valid [OF acc] by (simp_all add: validate_account_None)
    moreover have "an_generation a = ac_key_generation acc" "an_recipient a = ac_key_recipient acc" "an_account_key a = ac_account_key acc"
      by (subst a; simp add: anchor_from_account_def)+
    ultimately show ?thesis using ok v(1) verified_pins_key by (auto simp: check_anchor_None pinned_def)
  qed
  ultimately show ?thesis using u v(1) by blast
qed

text \<open>A route that never decided about the floor acts on no keyring.\<close>

lemma undecided_floor_refused: "check_anchor L (a\<lparr>an_floor := undecided_floor\<rparr>) k \<noteq> None"
  by (simp add: check_anchor_None undecided_floor_def)

text \<open>
  A live answer is the floor even where the record holds a higher one (the comment of
  \<^verbatim>\<open>confirmKeyGenerationFloor\<close> says the higher of the two is used), and a 2xx answer whose body does not
  decode counts as the live answer 0.
\<close>

lemma live_answer_wins:
  assumes "read_floor G reply = Inr got" "confirm_floor G J E i now (Some StorageHop) session reply d = (Inr floor, d')"
  shows "fl_generation floor = kg_generation got"
  using assms by (auto simp: confirm_floor_def Let_def split: sum.splits prod.splits option.splits)

lemma undecodable_answer_is_floor_zero:
  assumes "hj_floor G raw = no_answer" and "length raw \<le> maxReplyBytes"
  shows "confirm_floor G J E i now (Some StorageHop) (Inr device) (HttpReply 200 raw) d
    = (Inr \<lparr>fl_decided = True, fl_generation = 0, fl_source = FromControlPlane, fl_confirmed_at = []\<rparr>, d)"
  using assms by (simp add: confirm_floor_def read_floor_def hop_do_def remember_floor_def no_answer_def)

section \<open>A device and its record\<close>

text \<open>A small encoding of the record, in hexadecimal fields ended by commas, stands in for JSON.\<close>

definition int_text :: "int \<Rightarrow> string" where
  "int_text n = (if n < 0 then ''-'' else ''+'') @ nat_dec (nat \<bar>n\<bar>)"

definition text_int :: "string \<Rightarrow> int" where
  "text_int s = (if hd s = CHR ''-'' then - int (dec_nat (tl s)) else int (dec_nat (tl s)))"

lemma text_int_inverse [simp]: "text_int (int_text n) = n"
  by (simp add: text_int_def int_text_def dec_nat_inverse)

definition toy_account_json :: account_json where
  "toy_account_json = \<lparr>aj_decode = (\<lambda>b. case map hex_decode (butlast (split_on CHR '','' b)) of
       [Some a1, Some a2, Some a3, Some a4, Some a5, Some a6, Some a7, Some a8, Some a9, Some a10, Some a11] \<Rightarrow>
         Inr \<lparr>ac_schema_version = text_int a1, ac_profile_id = a2, ac_device_id = a3, ac_key_generation = text_int a4,
            ac_key_recipient = a5, ac_account_key = a6, ac_control_plane_key_generation = text_int a7,
            ac_control_plane_confirmed_at = a8, ac_recovery_code_confirmed = (a9 = ''1''), ac_enrolled_via = a10, ac_enrolled_at = a11\<rparr>
     | _ \<Rightarrow> Inl ''invalid''),
     aj_encode = (\<lambda>a. join_with '','' (map hex_encode
       [int_text (ac_schema_version a), ac_profile_id a, ac_device_id a, int_text (ac_key_generation a), ac_key_recipient a,
        ac_account_key a, int_text (ac_control_plane_key_generation a), ac_control_plane_confirmed_at a,
        (if ac_recovery_code_confirmed a then ''1'' else ''0''), ac_enrolled_via a, ac_enrolled_at a]) @ '','')\<rparr>"

lemma toy_account_sound: "account_sound toy_account_json a"
proof -
  have nl: "split_on CHR '','' [CHR 0x0A] = [[CHR 0x0A]]" by simp
  show ?thesis
    by (simp add: account_sound_def toy_account_json_def split_on_part hex_no_comma nl hex_decode_encode del: split_on.simps)
qed

definition toy_home :: home_env where
  "toy_home = \<lparr>he_home = ''/h'', he_fault = (\<lambda>_ _. None), he_tmp = (\<lambda>i. ''/h/.t'' @ nat_dec i)\<rparr>"

definition toy_record :: "keyring \<Rightarrow> account" where
  "toy_record k = \<lparr>ac_schema_version = AccountSchemaVersion, ac_profile_id = ''p'', ac_device_id = ''d'',
     ac_key_generation = 1, ac_key_recipient = generation_recipient k 1, ac_account_key = kr_account_key k,
     ac_control_plane_key_generation = 1, ac_control_plane_confirmed_at = ''t'', ac_recovery_code_confirmed = True,
     ac_enrolled_via = ''init'', ac_enrolled_at = ''t''\<rparr>"

definition toy_enrolled_disk :: "keyring \<Rightarrow> disk" where
  "toy_enrolled_disk k = [(account_path ''/h'', Some (aj_encode toy_account_json (toy_record k) @ [CHR 0x0A]))]"

definition toy_hop_json :: hop_json where
  "toy_hop_json = \<lparr>hj_error = (\<lambda>b. ([], [])), hj_login = (\<lambda>b. no_login), hj_poll = (\<lambda>b. no_poll), hj_identity = (\<lambda>b. (no_account, no_device)),
     hj_pairing = (\<lambda>b. no_pairing_request), hj_pairings = (\<lambda>b. []), hj_approved = (\<lambda>b. ([], 2)), hj_claim = (\<lambda>b. no_claim),
     hj_devices = (\<lambda>b. []), hj_revocation = (\<lambda>b. no_revocation), hj_revocations = (\<lambda>b. []), hj_confirmed = (\<lambda>b. no_confirmation),
     hj_locker = (\<lambda>b. no_locker), hj_credentials = (\<lambda>b. no_credentials), hj_first = (\<lambda>b. False), hj_reference = (\<lambda>b. no_reference),
     hj_floor = (\<lambda>b. no_answer)\<rparr>"

definition toy_token :: device_token where
  "toy_token = \<lparr>dt_token = ''t'', dt_url = ''u'', dt_account = ''a'', dt_device = ''d''\<rparr>"

lemma toy_enrolled:
  obtains k where "check_keyring toy_keys k = None" "toy_create toy_keys = Inr k" "kr_current k = 1"
    "load_account toy_account_json toy_home (toy_enrolled_disk k) = Inr (toy_record k)"
    "verify_generations toy_keys k (kr_account_key k) = None" "kr_account_key k \<noteq> []" "generation_recipient k 1 = current_recipient k"
    "fresh_tmp toy_home (account_path ''/h'') i (toy_enrolled_disk k)" "generation_recipient k 1 \<noteq> []"
proof -
  obtain k g where k: "toy_create toy_keys = Inr k" "check_keyring toy_keys k = None" "kr_current_generation k = Some g"
    "root_recipient toy_keys toy_root = Inr (gn_recipient g)" "kr_current k = 1" "kr_account_key k = b64_encode (sum_bytes 0)"
    by (rule toy_ring)
  have cur: "generation_recipient k 1 = gn_recipient g" "current_recipient k = gn_recipient g"
    using k(3,5) by (simp_all add: generation_recipient_def current_recipient_def kr_current_generation_def)
  obtain vs where "root_recipient toy_keys toy_root = Inr (''AGE-SECRET-KEY-1'' @ to_upper vs)"
    using toy_root_recipient [of toy_keys toy_root] by (auto simp: toy_root_def)
  with k(4) cur have rec: "generation_recipient k 1 \<noteq> []" by auto
  have "sum_bytes 0 \<noteq> []" using length_sum_bytes [of 0] by (metis list.size(3) zero_neq_numeral)
  then have key: "kr_account_key k \<noteq> []" using k(6) b64_nonempty by simp
  have "verify_generations toy_keys k [] = None" using k(2) unfolding check_keyring_None by blast
  then have v: "verify_generations toy_keys k (kr_account_key k) = None"
    by (auto simp: verify_generations_def split: sum.splits)
  have "validate_account (Some (toy_record k)) = None"
    using rec key by (simp add: validate_account_None toy_record_def)
  then have "load_account toy_account_json toy_home (toy_enrolled_disk k) = Inr (toy_record k)"
    using toy_account_sound [of "toy_record k"]
    by (simp add: load_account_def read_file_def toy_enrolled_disk_def toy_home_def account_sound_def)
  moreover have "''/h/.t'' @ nat_dec i \<noteq> account_path ''/h''"
  proof -
    have "account_path ''/h'' = ''/h/account.json''" by code_simp
    then show ?thesis by simp
  qed
  then have "fresh_tmp toy_home (account_path ''/h'') i (toy_enrolled_disk k)"
    by (auto simp: fresh_tmp_def toy_home_def toy_enrolled_disk_def)
  ultimately show thesis using that k(1,2,5) v key cur rec by metis
qed

lemma toy_accepts:
  obtains k where "load_account toy_account_json toy_home (toy_enrolled_disk k) = Inr (toy_record k)" "toy_create toy_keys = Inr k"
    "anchored_run toy_keys toy_hop_json toy_account_json toy_home (toy_enrolled_disk k) [k] (toy_enrolled_disk k)"
    "load_anchor toy_hop_json toy_account_json toy_home 0 ''n'' (Some StorageHop) (Inr toy_token) (HttpReply 404 []) (toy_enrolled_disk k)
      = (Inr (anchor_from_account (toy_record k) \<lparr>fl_decided = True, fl_generation = 1, fl_source = FromLastConfirmed, fl_confirmed_at = ''t''\<rparr>),
         toy_enrolled_disk k)"
    "check_anchor toy_keys (anchor_from_account (toy_record k)
        \<lparr>fl_decided = True, fl_generation = 1, fl_source = FromLastConfirmed, fl_confirmed_at = ''t''\<rparr>) k = None"
proof -
  obtain k where k: "toy_create toy_keys = Inr k" "kr_current k = 1"
    "load_account toy_account_json toy_home (toy_enrolled_disk k) = Inr (toy_record k)"
    "verify_generations toy_keys k (kr_account_key k) = None" "kr_account_key k \<noteq> []" "generation_recipient k 1 = current_recipient k"
    "fresh_tmp toy_home (account_path ''/h'') 0 (toy_enrolled_disk k)" "generation_recipient k 1 \<noteq> []"
    by (rule toy_enrolled)
  let ?f = "\<lparr>fl_decided = True, fl_generation = 1, fl_source = FromLastConfirmed, fl_confirmed_at = ''t''\<rparr>"
  let ?d = "toy_enrolled_disk k"
  have conf: "confirm_floor toy_hop_json toy_account_json toy_home 0 ''n'' (Some StorageHop) (Inr toy_token) (HttpReply 404 []) ?d = (Inr ?f, ?d)"
    using k(3) by (simp add: confirm_floor_def read_floor_def hop_do_def key_generation_error_def CodeKeyGenerationRange_def
        toy_hop_json_def last_confirmed_floor_def toy_record_def)
  have ok: "check_anchor toy_keys (anchor_from_account (toy_record k) ?f) k = None"
    using k by (simp add: check_anchor_None pinned_def anchor_from_account_def toy_record_def)
  have obs: "observe_keyring toy_keys toy_account_json toy_home 0 ?f k ?d = (None, ?d)"
    using ok k(2,3,6) by (simp add: observe_keyring_def) (simp add: toy_record_def)
  have home: "account_path (he_home toy_home) = account_path ''/h''" by (simp add: toy_home_def)
  have fresh: "fresh_tmp toy_home (account_path (he_home toy_home)) 0 ?d" unfolding home by (rule k(7))
  have "anchored_run toy_keys toy_hop_json toy_account_json toy_home ?d [k] ?d"
    by (rule anchored_run.confirmed [OF conf fresh anchored_run.accepted [OF obs fresh anchored_run.stop]])
  moreover have "load_anchor toy_hop_json toy_account_json toy_home 0 ''n'' (Some StorageHop) (Inr toy_token) (HttpReply 404 []) ?d
      = (Inr (anchor_from_account (toy_record k) ?f), ?d)"
    using conf k(3) by (simp add: load_anchor_def)
  ultimately show thesis using that k(1,3) ok by blast
qed

theorem device_never_goes_back_witness:
  "\<exists>k. toy_create toy_keys = Inr k \<and> chained 1 (generation_recipient k 1) [k] \<and> verify_generations toy_keys k (kr_account_key k) = None"
proof -
  obtain k where "load_account toy_account_json toy_home (toy_enrolled_disk k) = Inr (toy_record k)" "toy_create toy_keys = Inr k"
    "anchored_run toy_keys toy_hop_json toy_account_json toy_home (toy_enrolled_disk k) [k] (toy_enrolled_disk k)"
    by (rule toy_accepts)
  with device_never_goes_back [OF this(3,1) toy_account_sound] show ?thesis by (auto simp: toy_record_def)
qed

theorem no_key_below_floor_witness:
  "\<exists>k. toy_create toy_keys = Inr k \<and> verify_generations toy_keys k (kr_account_key k) = None \<and> 1 \<le> kr_current k"
proof -
  let ?f = "\<lparr>fl_decided = True, fl_generation = 1, fl_source = FromLastConfirmed, fl_confirmed_at = ''t''\<rparr>"
  obtain k where k: "load_account toy_account_json toy_home (toy_enrolled_disk k) = Inr (toy_record k)" "toy_create toy_keys = Inr k"
    "load_anchor toy_hop_json toy_account_json toy_home 0 ''n'' (Some StorageHop) (Inr toy_token) (HttpReply 404 []) (toy_enrolled_disk k)
      = (Inr (anchor_from_account (toy_record k) ?f), toy_enrolled_disk k)"
    "check_anchor toy_keys (anchor_from_account (toy_record k) ?f) k = None"
    by (rule toy_accepts)
  have "trust_keyring toy_keys (anchor_from_account (toy_record k) ?f) k (Inr ()) = Inr ()"
    using k(4) by (simp add: trust_keyring_Inr)
  with no_key_below_floor [OF k(3) this] k(1,2) show ?thesis by (auto simp: toy_record_def anchor_from_account_def)
qed

end
