(* ===== verification/Account_Commands.thy ===== *)
theory Account_Commands
  imports Keyring_Enrol Keyring_Anchor
begin

text \<open>
  The commands that give a device its place in the account (\<^verbatim>\<open>cli/account.go\<close>): \<^verbatim>\<open>account init\<close>,
  \<^verbatim>\<open>account recover\<close>, \<^verbatim>\<open>account status\<close>, and the root keys every push and pull starts from. A command is a
  function on the world: the local disk, the remote store and the secret store. What it prints is left
  out; what it reads from a person, the control plane, the clock and the random source is in \<open>command_env\<close>.
\<close>

section \<open>The world of a command\<close>

record ('s, 'k) world =
  wd_disk :: disk
  wd_store :: 's
  wd_secrets :: 'k

text \<open>
  \<open>ce_others\<close> is what other devices do to the store before its \<open>j\<close>-th call, \<open>ce_seed\<close> the randomness of an
  attempt for a generation. \<open>ce_disk_store\<close>, \<open>ce_hosted\<close> and \<open>ce_s3\<close> open the three kinds of storage.
\<close>

record ('s, 'k) command_env =
  ce_keys :: key_lib
  ce_ring :: keyring_json
  ce_toml :: toml_lib
  ce_account :: account_json
  ce_hop :: hop_json
  ce_files :: home_env
  ce_home_var :: bytes
  ce_user_home :: "(string, string) result"
  ce_secrets :: "'k secret_ops"
  ce_memory :: bool
  ce_disk_store :: "string \<Rightarrow> (string, 's backend) result"
  ce_hosted :: "(cli_error, 's backend) result"
  ce_resolve :: "string \<Rightarrow> (cred_error, storage_credentials) result"
  ce_s3 :: "storage_config \<Rightarrow> storage_credentials \<Rightarrow> (string, 's backend) result"
  ce_token :: "(cred_error, device_token) result"
  ce_others :: "nat \<Rightarrow> 's \<Rightarrow> 's"
  ce_now :: string
  ce_stamp :: string
  ce_new_root :: "(string, bytes) result"
  ce_new_code :: "(string, bytes) result"
  ce_new_device :: "(string, string) result"
  ce_seed :: "nat \<Rightarrow> int \<Rightarrow> nat"
  ce_salt :: bytes
  ce_nonce :: bytes
  ce_typed :: "(string, bytes) result"
  ce_floor_reply :: http_reply
  ce_last_error :: "hop_problem option"
  ce_state :: state_json
  ce_cached :: bytes
  ce_passphrase :: "(string, bytes) result"

definition config_load_exit :: "config_error \<Rightarrow> cli_error" where
  "config_load_exit e = CliError ExitConfig (if is_not_exist e then ConfigMissing else ConfigRefused e)"

definition load_account_home :: "('s, 'k) command_env \<Rightarrow> disk \<Rightarrow> (cli_error, home_env \<times> config) result" where
  "load_account_home C d =
     (case config_home (ce_home_var C) (ce_user_home C) of Inl e \<Rightarrow> Inl (CliError ExitConfig (HomeUnknown e))
      | Inr h \<Rightarrow>
        let E = (ce_files C)\<lparr>he_home := h\<rparr> in
        (case load_config (ce_toml C) E d of Inl e \<Rightarrow> Inl (config_load_exit e) | Inr cfg \<Rightarrow> Inr (E, cfg)))"

text \<open>\<^verbatim>\<open>openBackend\<close>: the disk-backed store of a test, the hosted locker, or S3 with its own keys.\<close>

definition open_backend :: "('s, 'k) command_env \<Rightarrow> home_env \<Rightarrow> config \<Rightarrow> (cli_error, 's backend \<times> string) result" where
  "open_backend C E cfg =
     (if ce_memory C then
        (case ce_disk_store C (he_home E) of Inl m \<Rightarrow> Inl (CliError ExitRuntime (BackendFailed m))
         | Inr B \<Rightarrow> Inr (B, st_prefix (cf_storage cfg)))
      else if st_type (cf_storage cfg) = StorageHop then
        (case ce_hosted C of Inl e \<Rightarrow> Inl e | Inr B \<Rightarrow> Inr (B, []))
      else case ce_resolve C (st_credential_ref (cf_storage cfg)) of Inl e \<Rightarrow> Inl (CliError ExitAuthStorage (CredentialsFailed e))
      | Inr creds \<Rightarrow>
        (case ce_s3 C (cf_storage cfg) creds of Inl m \<Rightarrow> Inl (CliError ExitAuthStorage (BackendFailed m))
         | Inr B \<Rightarrow> Inr (B, [])))"

text \<open>A home that already carries an enrolment record is refused.\<close>

definition refuse_enrolled :: "('s, 'k) command_env \<Rightarrow> home_env \<Rightarrow> disk \<Rightarrow> cli_error option" where
  "refuse_enrolled C E d =
     (case load_account (ce_account C) E d of
        Inr a \<Rightarrow> Some (CliError ExitSafety AlreadyEnrolledHere)
      | Inl e \<Rightarrow> if is_not_exist e then None else Some (CliError ExitConfig (AccountUnreadable e)))"

definition store_exit :: "store_error \<Rightarrow> cli_error" where
  "store_exit e = (case exit_for_store_refusal e of Some x \<Rightarrow> x | None \<Rightarrow> CliError ExitAuthStorage (KeyringStoreFailed e))"

definition anchor_exit :: "anchor_error \<Rightarrow> cli_error" where
  "anchor_exit e = (case exit_for_refusal e of Some x \<Rightarrow> x | None \<Rightarrow> CliError ExitAuthStorage (KeyringUnusable e))"

definition floor_of :: "('s, 'k) command_env \<Rightarrow> home_env \<Rightarrow> nat \<Rightarrow> config \<Rightarrow> disk \<Rightarrow> (cli_error, keyring_floor) result \<times> disk" where
  "floor_of C E i cfg d = confirm_floor (ce_hop C) (ce_account C) E i (ce_stamp C) (Some (st_type (cf_storage cfg)))
     (hosted_session (ce_token C)) (ce_floor_reply C) d"

definition anchor_of :: "('s, 'k) command_env \<Rightarrow> home_env \<Rightarrow> nat \<Rightarrow> config \<Rightarrow> disk \<Rightarrow> (cli_error, anchor) result \<times> disk" where
  "anchor_of C E i cfg d = load_anchor (ce_hop C) (ce_account C) E i (ce_stamp C) (Some (st_type (cf_storage cfg)))
     (hosted_session (ce_token C)) (ce_floor_reply C) d"

section \<open>Keeping the enrolment\<close>

definition enrolment_record :: "config \<Rightarrow> string \<Rightarrow> keyring \<Rightarrow> string \<Rightarrow> bool \<Rightarrow> account" where
  "enrolment_record cfg now ring via confirmed =
     \<lparr>ac_schema_version = AccountSchemaVersion, ac_profile_id = cf_profile_id cfg, ac_device_id = cf_device_id cfg,
      ac_key_generation = kr_current ring, ac_key_recipient = current_recipient ring, ac_account_key = kr_account_key ring,
      ac_control_plane_key_generation = 0, ac_control_plane_confirmed_at = [], ac_recovery_code_confirmed = confirmed,
      ac_enrolled_via = via, ac_enrolled_at = now\<rparr>"

text \<open>The configuration first, so that a crash in between leaves a key model that matches the keyring.\<close>

definition save_enrolment_confirmed ::
  "('s, 'k) command_env \<Rightarrow> home_env \<Rightarrow> nat \<Rightarrow> config \<Rightarrow> keyring \<Rightarrow> string \<Rightarrow> bool \<Rightarrow> disk \<Rightarrow> cli_error option \<times> disk" where
  "save_enrolment_confirmed C E i cfg ring via confirmed d =
     (case save_config (ce_toml C) E i (cfg\<lparr>cf_encryption_type := EncryptionRootKey\<rparr>) d of
        (Some e, d1) \<Rightarrow> (Some (CliError ExitConfig (SaveFailed e)), d1)
      | (None, d1) \<Rightarrow>
        (case save_account (ce_account C) E (Suc i) (enrolment_record cfg (ce_now C) ring via confirmed) d1 of
          (Some e, d2) \<Rightarrow> (Some (CliError ExitConfig (SaveFailed e)), d2)
        | (None, d2) \<Rightarrow> (None, d2)))"

definition save_enrolment :: "('s, 'k) command_env \<Rightarrow> home_env \<Rightarrow> nat \<Rightarrow> config \<Rightarrow> keyring \<Rightarrow> string \<Rightarrow> disk \<Rightarrow> cli_error option \<times> disk" where
  "save_enrolment C E i cfg ring via d = save_enrolment_confirmed C E i cfg ring via True d"

definition load_device_key :: "('s, 'k) command_env \<Rightarrow> string \<Rightarrow> 'k \<Rightarrow> (cli_error, string option) result" where
  "load_device_key C ref k =
     (case se_get (ce_secrets C) ref k of
        Inl e \<Rightarrow> if e = SecretNotFound then Inr None else Inl (CliError ExitAuthStorage (SecretsFailed e))
      | Inr secret \<Rightarrow>
        (case ag_parse (kl_age (ce_keys C)) (trim_space secret) of
          Inl m \<Rightarrow> Inl (CliError ExitSafety (SecretMalformed ref))
        | Inr i \<Rightarrow> Inr (Some i)))"

definition refuse_existing_secret :: "('s, 'k) command_env \<Rightarrow> string \<Rightarrow> 'k \<Rightarrow> cli_error option" where
  "refuse_existing_secret C ref k =
     (case se_get (ce_secrets C) ref k of
        Inl e \<Rightarrow> if e = SecretNotFound then None else Some (CliError ExitAuthStorage (SecretsFailed e))
      | Inr secret \<Rightarrow> Some (CliError ExitSafety (SecretExists ref)))"

section \<open>account init\<close>

text \<open>The last part, once the code was confirmed: keep the device key, create the keyring, record it.\<close>

definition init_commit ::
  "('s, 'k) command_env \<Rightarrow> home_env \<Rightarrow> config \<Rightarrow> 's backend \<Rightarrow> string \<Rightarrow> keyring \<Rightarrow> string \<Rightarrow> ('s, 'k) world \<Rightarrow> cli_error option \<times> ('s, 'k) world" where
  "init_commit C E cfg B key ring device w =
     (let ref = device_secret_ref (cf_profile_id cfg) (cf_device_id cfg) in
      case refuse_existing_secret C ref (wd_secrets w) of Some e \<Rightarrow> (Some e, w)
      | None \<Rightarrow>
        (case se_set (ce_secrets C) ref device (wd_secrets w) of
          (Some e, k1) \<Rightarrow> (Some (CliError ExitAuthStorage (SecretsFailed e)), w\<lparr>wd_secrets := k1\<rparr>)
        | (None, k1) \<Rightarrow>
          (case create_keyring (ce_ring C) B key ring (ce_others C 0 (wd_store w)) of
            (Inl e, s1) \<Rightarrow> (Some (store_exit e), w\<lparr>wd_store := s1, wd_secrets := snd (se_delete (ce_secrets C) ref k1)\<rparr>)
          | (Inr _, s1) \<Rightarrow>
            (case save_enrolment C E 0 cfg ring ''init'' (wd_disk w) of
              (r, d1) \<Rightarrow> (r, \<lparr>wd_disk = d1, wd_store = s1, wd_secrets = k1\<rparr>)))))"

definition run_account_init :: "('s, 'k) command_env \<Rightarrow> ('s, 'k) world \<Rightarrow> cli_error option \<times> ('s, 'k) world" where
  "run_account_init C w =
     (case load_account_home C (wd_disk w) of Inl e \<Rightarrow> (Some e, w)
      | Inr (E, cfg) \<Rightarrow>
      (case refuse_enrolled C E (wd_disk w) of Some e \<Rightarrow> (Some e, w)
      | None \<Rightarrow>
      (case open_backend C E cfg of Inl e \<Rightarrow> (Some e, w)
      | Inr (B, prefix) \<Rightarrow>
      let key = keyring_object_key prefix in
      (case load_keyring (ce_keys C) (ce_ring C) B key (wd_store w) of
        Inr _ \<Rightarrow> (Some (CliError ExitSafety KeyringExists), w)
      | Inl e0 \<Rightarrow>
      if e0 \<noteq> KeyringNotFound then (Some (store_exit e0), w)
      else (case ce_new_root C of Inl m \<Rightarrow> (Some (CliError ExitRuntime (RandomFailed m)), w)
      | Inr root \<Rightarrow>
      (case ce_new_code C of Inl m \<Rightarrow> (Some (CliError ExitRuntime (RandomFailed m)), w)
      | Inr raw \<Rightarrow>
      (case ce_new_device C of Inl m \<Rightarrow> (Some (CliError ExitRuntime (RandomFailed m)), w)
      | Inr device \<Rightarrow>
      let code = generate_recovery_code (kl_sha (ce_keys C)) raw in
      (case ce_typed C of Inl m \<Rightarrow> (Some (CliError ExitUsage (PromptFailed m)), w)
      | Inr typed \<Rightarrow>
      if normalize_recovery_code (kl_sha (ce_keys C)) typed \<noteq> Inr code then (Some (CliError ExitSafety ConfirmationMismatch), w)
      else (case new_keyring (ce_keys C) (ce_seed C 0 1) (ce_salt C) (ce_nonce C) (cf_profile_id cfg) root code (cf_device_id cfg)
                 (Some device) (ce_now C) of Inl e \<Rightarrow> (Some (CliError ExitRuntime (RingRejected e)), w)
      | Inr ring \<Rightarrow> init_commit C E cfg B key ring device w)))))))))"

section \<open>account recover\<close>

text \<open>A keyring of this account, from the store, for the profile of this home.\<close>

definition load_profile_ring :: "('s, 'k) command_env \<Rightarrow> config \<Rightarrow> 's backend \<Rightarrow> string \<Rightarrow> 's \<Rightarrow> (cli_error, keyring) result" where
  "load_profile_ring C cfg B key s =
     (case load_keyring (ce_keys C) (ce_ring C) B key s of
        Inl e \<Rightarrow> Inl (if e = KeyringNotFound then CliError ExitAuthStorage KeyringMissing else store_exit e)
      | Inr (ring, etag) \<Rightarrow>
          if kr_profile ring \<noteq> cf_profile_id cfg then Inl (CliError ExitConfig (NotThisProfile (kr_profile ring) (cf_profile_id cfg)))
          else Inr ring)"

text \<open>On a hosted profile the signed-in device must be the one this home names.\<close>

definition recover_identity :: "('s, 'k) command_env \<Rightarrow> config \<Rightarrow> cli_error option" where
  "recover_identity C cfg =
     (if st_type (cf_storage cfg) \<noteq> StorageHop then None
      else case hosted_session (ce_token C) of Inl e \<Rightarrow> Some e
      | Inr t \<Rightarrow>
          if dt_device t = [] then Some (CliError ExitConfig NoDeviceInToken)
          else if dt_device t \<noteq> cf_device_id cfg then Some (CliError ExitConfig (NotThisDevice (cf_device_id cfg) (dt_device t)))
          else None)"

text \<open>The code: it must open the keyring's recovery wrap, and it derives the account key to pin.\<close>

definition recover_code :: "('s, 'k) command_env \<Rightarrow> config \<Rightarrow> keyring \<Rightarrow> (cli_error, string \<times> account_key) result" where
  "recover_code C cfg ring =
     (case ce_typed C of Inl m \<Rightarrow> Inl (CliError ExitUsage (PromptFailed m))
      | Inr typed \<Rightarrow>
      (case normalize_recovery_code (kl_sha (ce_keys C)) typed of Inl e \<Rightarrow> Inl (CliError ExitUsage (CodeRejected e))
      | Inr code \<Rightarrow>
      (case unwrap_generations_with_recovery_code (ce_keys C) ring code of
        Inl e \<Rightarrow> Inl (case exit_for_recovery_wrap e ''written'' of Some x \<Rightarrow> x | None \<Rightarrow> CliError ExitAuthStorage (RingRejected e))
      | Inr keys \<Rightarrow>
      (case derive_account_key (ce_keys C) (cf_profile_id cfg) code of Inl e \<Rightarrow> Inl (CliError ExitUsage (RingRejected e))
      | Inr account \<Rightarrow> Inr (code, account)))))"

text \<open>The record, and the floor that had nowhere to be written before it existed.\<close>

definition record_enrolment ::
  "('s, 'k) command_env \<Rightarrow> home_env \<Rightarrow> nat \<Rightarrow> config \<Rightarrow> keyring \<Rightarrow> string \<Rightarrow> bool \<Rightarrow> keyring_floor \<Rightarrow> disk \<Rightarrow> cli_error option \<times> disk" where
  "record_enrolment C E i cfg ring via confirmed floor d =
     (case save_enrolment_confirmed C E i cfg ring via confirmed d of (Some e, d1) \<Rightarrow> (Some e, d1)
      | (None, d1) \<Rightarrow> remember_floor (ce_account C) E (i + 2) (ce_stamp C) floor d1)"

text \<open>What the update's closure does to each keyring it is handed.\<close>

definition recover_mutate ::
  "('s, 'k) command_env \<Rightarrow> config \<Rightarrow> anchor \<Rightarrow> string \<Rightarrow> string \<Rightarrow> nat \<Rightarrow> keyring \<Rightarrow> (anchor_error, keyring \<times> unit) result" where
  "recover_mutate C cfg a code device i k =
     (case trust_keyring (ce_keys C) a k (unwrap_generations_with_recovery_code (ce_keys C) k code) of Inl e \<Rightarrow> Inl e
      | Inr keys \<Rightarrow>
          let ((err, appended), k') = enrol_all (ce_keys C) (ce_seed C i) keys (cf_device_id cfg)
                (Some (ag_recipient (kl_age (ce_keys C)) device)) (ce_now C) k in
          (case err of Some e \<Rightarrow> Inl (AnchorKeyring e) | None \<Rightarrow> Inr (k', ())))"

definition recover_exit :: "anchor_error update_error \<Rightarrow> cli_error" where
  "recover_exit e = (case e of
     StoreFailed s \<Rightarrow> store_exit s
   | MutateFailed x \<Rightarrow>
       (case exit_for_refusal x of Some y \<Rightarrow> y
        | None \<Rightarrow> (case x of
            AnchorKeyring ke \<Rightarrow> (case exit_for_recovery_wrap ke ''written'' of Some y \<Rightarrow> y
               | None \<Rightarrow> CliError ExitAuthStorage (KeyringUnusable x))
          | _ \<Rightarrow> CliError ExitAuthStorage (KeyringUnusable x))))"

text \<open>A fresh key, kept before the keyring lists it; a failed update puts the previous entry back.\<close>

definition recover_enrol ::
  "('s, 'k) command_env \<Rightarrow> home_env \<Rightarrow> config \<Rightarrow> 's backend \<Rightarrow> string \<Rightarrow> anchor \<Rightarrow> string \<Rightarrow> string option \<Rightarrow> ('s, 'k) world
   \<Rightarrow> cli_error option \<times> ('s, 'k) world" where
  "recover_enrol C E cfg B key a code existing w =
     (let ref = device_secret_ref (cf_profile_id cfg) (cf_device_id cfg) in
      case ce_new_device C of Inl m \<Rightarrow> (Some (CliError ExitRuntime (RandomFailed m)), w)
      | Inr device \<Rightarrow>
      (case se_set (ce_secrets C) ref device (wd_secrets w) of
        (Some e, k1) \<Rightarrow> (Some (CliError ExitAuthStorage (SecretsFailed e)), w\<lparr>wd_secrets := k1\<rparr>)
      | (None, k1) \<Rightarrow>
      (case update_keyring (ce_keys C) (ce_ring C) B key (ce_others C) (recover_mutate C cfg a code device) (wd_store w) of
        (Inl e, s1) \<Rightarrow>
          let k2 = snd (case existing of Some i \<Rightarrow> se_set (ce_secrets C) ref i k1 | None \<Rightarrow> se_delete (ce_secrets C) ref k1) in
          (Some (recover_exit e), w\<lparr>wd_store := s1, wd_secrets := k2\<rparr>)
      | (Inr (updated, _), s1) \<Rightarrow>
          (case record_enrolment C E 1 cfg updated ''recover'' True (an_floor a) (wd_disk w) of
            (r, d1) \<Rightarrow> (r, \<lparr>wd_disk = d1, wd_store = s1, wd_secrets = k1\<rparr>)))))"

text \<open>What the keyring says about this device decides: attach again, refuse, or enrol.\<close>

definition recover_decide ::
  "('s, 'k) command_env \<Rightarrow> home_env \<Rightarrow> config \<Rightarrow> 's backend \<Rightarrow> string \<Rightarrow> anchor \<Rightarrow> string \<Rightarrow> keyring \<Rightarrow> ('s, 'k) world
   \<Rightarrow> cli_error option \<times> ('s, 'k) world" where
  "recover_decide C E cfg B key a code ring w =
     (let device = cf_device_id cfg in
      case load_device_key C (device_secret_ref (cf_profile_id cfg) device) (wd_secrets w) of Inl e \<Rightarrow> (Some e, w)
      | Inr existing \<Rightarrow>
      (case device_membership (ce_keys C) ring device existing of
        Enrolled \<Rightarrow>
          (case unwrap_for_device (ce_keys C) ring device (the existing) of
             Inl e \<Rightarrow> (Some (CliError ExitSafety (ListedWrapBroken device e)), w)
           | Inr _ \<Rightarrow>
             (case record_enrolment C E 1 cfg ring ''recover'' True (an_floor a) (wd_disk w) of (r, d1) \<Rightarrow> (r, w\<lparr>wd_disk := d1\<rparr>)))
      | KeyMismatch \<Rightarrow> (Some (CliError ExitSafety (ListedOtherKey device)), w)
      | KeyGone \<Rightarrow> (Some (CliError ExitSafety (ListedWithoutKey device)), w)
      | NotListed \<Rightarrow>
          if existing \<noteq> None \<and> \<not> revoked_device ring device then (Some (CliError ExitSafety (UnlistedKeyHere device)), w)
          else recover_enrol C E cfg B key a code existing w))"

definition run_account_recover :: "('s, 'k) command_env \<Rightarrow> ('s, 'k) world \<Rightarrow> cli_error option \<times> ('s, 'k) world" where
  "run_account_recover C w =
     (case load_account_home C (wd_disk w) of Inl e \<Rightarrow> (Some e, w)
      | Inr (E, cfg) \<Rightarrow>
      (case refuse_enrolled C E (wd_disk w) of Some e \<Rightarrow> (Some e, w)
      | None \<Rightarrow>
      (case recover_identity C cfg of Some e \<Rightarrow> (Some e, w)
      | None \<Rightarrow>
      (case open_backend C E cfg of Inl e \<Rightarrow> (Some e, w)
      | Inr (B, prefix) \<Rightarrow>
      let key = keyring_object_key prefix in
      (case load_profile_ring C cfg B key (wd_store w) of Inl e \<Rightarrow> (Some e, w)
      | Inr ring \<Rightarrow>
      (case recover_code C cfg ring of Inl e \<Rightarrow> (Some e, w)
      | Inr (code, account) \<Rightarrow>
      (case floor_of C E 0 cfg (wd_disk w) of
        (Inl e, d0) \<Rightarrow> (Some e, w\<lparr>wd_disk := d0\<rparr>)
      | (Inr floor, d0) \<Rightarrow>
      let a = floor_anchor (ak_public account) floor in
      (case check_anchor (ce_keys C) a ring of Some e \<Rightarrow> (Some (anchor_exit e), w\<lparr>wd_disk := d0\<rparr>)
      | None \<Rightarrow> recover_decide C E cfg B key a code ring (w\<lparr>wd_disk := d0\<rparr>)))))))))"

section \<open>The root keys of a push or a pull\<close>

definition not_enrolled_exit :: cli_error where
  "not_enrolled_exit = CliError ExitConfig NotEnrolledHere"

definition root_keys_from_config ::
  "('s, 'k) command_env \<Rightarrow> home_env \<Rightarrow> config \<Rightarrow> 's backend \<Rightarrow> string \<Rightarrow> ('s, 'k) world \<Rightarrow> (cli_error, root_key_provider) result \<times> disk" where
  "root_keys_from_config C E cfg B prefix w =
     (case load_account (ce_account C) E (wd_disk w) of
        Inl e \<Rightarrow> (Inl (if is_not_exist e then not_enrolled_exit else CliError ExitConfig (AccountUnreadable e)), wd_disk w)
      | Inr _ \<Rightarrow>
      (case se_get (ce_secrets C) (device_secret_ref (cf_profile_id cfg) (cf_device_id cfg)) (wd_secrets w) of
        Inl e \<Rightarrow> (Inl (if e = SecretNotFound then CliError ExitConfig DeviceKeyMissing else CliError ExitAuthStorage (SecretsFailed e)), wd_disk w)
      | Inr secret \<Rightarrow>
      (case ag_parse (kl_age (ce_keys C)) (trim_space secret) of Inl m \<Rightarrow> (Inl (CliError ExitConfig DeviceKeyMalformed), wd_disk w)
      | Inr device \<Rightarrow>
      (case load_keyring (ce_keys C) (ce_ring C) B (keyring_object_key prefix) (wd_store w) of
        Inl e \<Rightarrow> (Inl (if e = KeyringNotFound then CliError ExitAuthStorage KeyringMissing else store_exit e), wd_disk w)
      | Inr (ring, etag) \<Rightarrow>
      (case anchor_of C E 0 cfg (wd_disk w) of (Inl e, d1) \<Rightarrow> (Inl e, d1)
      | (Inr a, d1) \<Rightarrow>
      (case trust_keyring (ce_keys C) a ring (unwrap_generations (ce_keys C) ring (cf_device_id cfg) device) of
        Inl e \<Rightarrow> (Inl (case exit_for_refusal e of Some x \<Rightarrow> x
                   | None \<Rightarrow> (case e of
                       AnchorKeyring ke \<Rightarrow> if is_not_enrolled ke then CliError ExitAuthStorage (DeviceNotInGeneration (kr_current ring))
                                          else CliError ExitAuthStorage (KeyringUnusable e)
                     | _ \<Rightarrow> CliError ExitAuthStorage (KeyringUnusable e))), d1)
      | Inr keys \<Rightarrow>
      (case observe_keyring (ce_keys C) (ce_account C) E 1 (an_floor a) ring d1 of (Some e, d2) \<Rightarrow> (Inl e, d2)
      | (None, d2) \<Rightarrow>
      let current = (case map_of keys (kr_current ring) of None \<Rightarrow> [] | Some key \<Rightarrow> key);
          earlier = map snd (filter (\<lambda>p. fst p \<noteq> kr_current ring) keys) in
      (case new_root_key_provider (kl_age (ce_keys C)) current earlier of
        Inl e \<Rightarrow> (Inl (CliError ExitRuntime (ProviderFailed e)), d2)
      | Inr p \<Rightarrow> (Inr p, d2)))))))))"

section \<open>The engine of a push or a pull (cli/commands_impl.go)\<close>

datatype key_provider = RootKeys root_key_provider | PassphraseKey bytes

record 's opened_engine =
  oe_home :: home_env
  oe_config :: config
  oe_backend :: "'s backend"
  oe_prefix :: string
  oe_keys :: key_provider
  oe_require_manifest :: bool

text \<open>\<open>ce_last_error\<close> is the refusal the hosted source recorded, if any: it replaces the storage layer's error.\<close>

definition hosted_error :: "('s, 'k) command_env \<Rightarrow> bool \<Rightarrow> cli_error \<Rightarrow> cli_error" where
  "hosted_error C hosted e = (if \<not> hosted then e else case ce_last_error C of Some p \<Rightarrow> hop_exit_error p | None \<Rightarrow> e)"

definition hosted_not_enrolled :: "('s, 'k) command_env \<Rightarrow> 's backend \<Rightarrow> string \<Rightarrow> 's \<Rightarrow> cli_error" where
  "hosted_not_enrolled C B prefix s =
     (case load_keyring (ce_keys C) (ce_ring C) B (keyring_object_key prefix) s of
        Inr _ \<Rightarrow> CliError ExitConfig NotEnrolledHere
      | Inl e \<Rightarrow> if exit_for_store_refusal e \<noteq> None then the (exit_for_store_refusal e)
                 else if e = KeyringNotFound then CliError ExitConfig NoAccountKey
                 else CliError ExitAuthStorage (KeyringStoreFailed e))"

definition engine_from_config :: "('s, 'k) command_env \<Rightarrow> bytes \<Rightarrow> ('s, 'k) world \<Rightarrow> (cli_error, 's opened_engine) result \<times> disk" where
  "engine_from_config C passphrase w =
     (case load_account_home C (wd_disk w) of Inl e \<Rightarrow> (Inl e, wd_disk w)
      | Inr (E, cfg) \<Rightarrow>
      let require = cf_remote_profile_required cfg \<or> (case load_state (ce_state C) E (wd_disk w) of
            Inr st \<Rightarrow> ls_last_manifest_rev st \<noteq> [] \<or> (case ls_sessions st of Some ss \<Rightarrow> ss \<noteq> [] | None \<Rightarrow> False) | Inl e \<Rightarrow> False) in
      (case open_backend C E cfg of Inl e \<Rightarrow> (Inl e, wd_disk w)
      | Inr (B, prefix) \<Rightarrow>
      let hosted = (\<not> ce_memory C \<and> st_type (cf_storage cfg) = StorageHop);
          opened = (\<lambda>keys. \<lparr>oe_home = E, oe_config = cfg, oe_backend = B, oe_prefix = prefix, oe_keys = keys, oe_require_manifest = require\<rparr>) in
      if cf_encryption_type cfg = EncryptionRootKey then
        (case root_keys_from_config C E cfg B prefix w of
           (Inl e, d1) \<Rightarrow> (Inl (hosted_error C hosted e), d1) | (Inr p, d1) \<Rightarrow> (Inr (opened (RootKeys p)), d1))
      else if hosted then (Inl (hosted_error C hosted (hosted_not_enrolled C B prefix (wd_store w))), wd_disk w)
      else let phrase = (if passphrase = [] then ce_cached C else passphrase) in
        if phrase \<noteq> [] then (Inr (opened (PassphraseKey phrase)), wd_disk w)
        else (case ce_passphrase C of Inl m \<Rightarrow> (Inl (CliError ExitUsage (PromptFailed m)), wd_disk w)
        | Inr secret \<Rightarrow> (Inr (opened (PassphraseKey secret)), wd_disk w))))"

section \<open>account status\<close>

text \<open>The report, as far as it is decided here; the error is kept as what was refused.\<close>

datatype status_error = StatusAnchor cli_error | StatusRefused anchor_error | StatusBackend cli_error | StatusStore store_error

record account_report =
  rp_enrolled :: bool
  rp_via :: string
  rp_confirmed :: bool
  rp_key_present :: bool
  rp_ring_present :: bool
  rp_ring_refused :: bool
  rp_generation :: int
  rp_devices :: nat
  rp_listed :: bool
  rp_error :: "status_error option"

definition account_status :: "('s, 'k) command_env \<Rightarrow> ('s, 'k) world \<Rightarrow> (cli_error, account_report) result \<times> disk" where
  "account_status C w =
     (case load_account_home C (wd_disk w) of Inl e \<Rightarrow> (Inl e, wd_disk w)
      | Inr (E, cfg) \<Rightarrow>
      let acc = load_account (ce_account C) E (wd_disk w);
          r0 = \<lparr>rp_enrolled = (case acc of Inr a \<Rightarrow> True | Inl e \<Rightarrow> False), rp_via = (case acc of Inr a \<Rightarrow> ac_enrolled_via a | Inl e \<Rightarrow> []),
                rp_confirmed = (case acc of Inr a \<Rightarrow> ac_recovery_code_confirmed a | Inl e \<Rightarrow> False),
                rp_key_present = (case se_get (ce_secrets C) (device_secret_ref (cf_profile_id cfg) (cf_device_id cfg)) (wd_secrets w) of
                    Inr b \<Rightarrow> True | Inl e \<Rightarrow> False),
                rp_ring_present = False, rp_ring_refused = False,
                rp_generation = (case acc of Inr a \<Rightarrow> ac_key_generation a | Inl e \<Rightarrow> 0), rp_devices = 0, rp_listed = False, rp_error = None\<rparr>;
          (anchor, d1) = anchor_of C E 0 cfg (wd_disk w);
          r1 = (case open_backend C E cfg of Inl e \<Rightarrow> r0\<lparr>rp_error := Some (StatusBackend e)\<rparr>
            | Inr (B, prefix) \<Rightarrow>
              (case load_keyring (ce_keys C) (ce_ring C) B (keyring_object_key prefix) (wd_store w) of
                Inr (ring, etag) \<Rightarrow>
                  r0\<lparr>rp_ring_present := True, rp_generation := kr_current ring, rp_devices := device_count ring,
                     rp_listed := has_device ring (cf_device_id cfg),
                     rp_error := (case anchor of Inl e \<Rightarrow> Some (StatusAnchor e) | Inr a \<Rightarrow> map_option StatusRefused (check_anchor (ce_keys C) a ring))\<rparr>
              | Inl e \<Rightarrow> if e = KeyringNotFound then r0
                  else r0\<lparr>rp_error := Some (StatusStore e), rp_ring_refused := (exit_for_store_refusal e \<noteq> None)\<rparr>)) in
      (Inr (if rp_error r1 \<noteq> None \<and> rp_ring_present r1 then r1\<lparr>rp_ring_refused := True\<rparr> else r1), d1))"

end
