(* ===== verification/Keyring_Unwrap.thy ===== *)
theory Keyring_Unwrap
  imports Keyring_Enrol
begin

text \<open>
  What a device gets out of a keyring: that the keys \<^verbatim>\<open>UnwrapGenerations\<close> returns are the keys of the
  generations, that every one of them makes an identity, and that a device which was just enrolled with
  a fresh key opens the keyring. The commands of the account rest on this.
\<close>

lemma unwrap_earlier_recipients:
  "unwrap_earlier L k device i ns = Inr ks \<Longrightarrow> key \<in> set ks \<Longrightarrow> \<exists>g \<in> set (kr_generations k). root_recipient L key = Inr (gn_recipient g)"
proof (induction ns arbitrary: ks)
  case (Cons n ns)
  show ?case
  proof (cases "n = kr_current k")
    case True
    with Cons show ?thesis by simp
  next
    case False
    with Cons.prems obtain g where g: "kr_generation k n = Some g" by (auto split: option.splits)
    show ?thesis
    proof (cases "unwrap_device L g device i (binding_for k g)")
      case (Inl e)
      with Cons False g show ?thesis by (auto split: if_splits)
    next
      case (Inr key')
      with Cons.prems False g obtain ks' where "unwrap_earlier L k device i ns = Inr ks'" "ks = key' # ks'"
        by (auto split: sum.splits)
      with Cons unwrap_device_Inr [OF Inr] kr_generation_Some [OF g] show ?thesis by auto
    qed
  qed
qed simp

lemma generation_of_recipient:
  assumes "generation_of L k key = n" "n \<noteq> 0"
  shows "\<exists>g \<in> set (kr_generations k). gn_number g = n \<and> root_recipient L key = Inr (gn_recipient g)"
  using assms by (auto simp: generation_of_def find_Some_iff split: sum.splits option.splits)

text \<open>The pairs of \<^verbatim>\<open>UnwrapGenerations\<close>, for any later entry: each key belongs to its generation.\<close>

definition keys_fit :: "key_lib \<Rightarrow> keyring \<Rightarrow> keys \<Rightarrow> bool" where
  "keys_fit L k ks \<longleftrightarrow> (\<forall>(n, key) \<in> set ks. \<exists>g \<in> set (kr_generations k). gn_number g = n \<and> root_recipient L key = Inr (gn_recipient g))"

lemma keys_fit_update:
  assumes "keys_fit L k ks" "g \<in> set (kr_generations k)" "gn_number g = n" "root_recipient L key = Inr (gn_recipient g)"
  shows "keys_fit L k (AList.update n key ks)"
proof -
  have "set (AList.update n key ks) \<subseteq> insert (n, key) (set ks)" by (induction ks) auto
  with assms show ?thesis by (auto simp: keys_fit_def)
qed

lemma unwrap_generations_fit:
  assumes "unwrap_for_device L k device i = Inr (root, earlier)"
  shows "\<exists>ks key. unwrap_generations L k device i = Inr ks \<and> keys_fit L k ks \<and> map_of ks (kr_current k) = Some key"
proof -
  obtain g where g: "kr_current_generation k = Some g" "unwrap_device L g device i (binding_for k g) = Inr root"
    "unwrap_earlier L k device i (rev (generation_numbers k)) = Inr earlier"
    using assms by (auto simp: unwrap_for_device_def split: option.splits sum.splits)
  let ?step = "\<lambda>ks key. let n = generation_of L k key in if n = 0 then ks else AList.update n key ks"
  have "keys_fit L k (foldl ?step ks xs) \<and> map_of (foldl ?step ks xs) (kr_current k) \<noteq> None"
    if "keys_fit L k ks" "map_of ks (kr_current k) \<noteq> None" for ks xs
    using that
  proof (induction xs arbitrary: ks)
    case (Cons key xs)
    have "keys_fit L k (?step ks key) \<and> map_of (?step ks key) (kr_current k) \<noteq> None"
    proof (cases "generation_of L k key = 0")
      case False
      from generation_of_recipient [OF refl False] obtain h where
        "h \<in> set (kr_generations k)" "gn_number h = generation_of L k key" "root_recipient L key = Inr (gn_recipient h)" by blast
      from keys_fit_update [OF Cons.prems(1) this] False Cons.prems(2) show ?thesis
        by (simp add: Let_def update_conv')
    qed (use Cons.prems in simp)
    then show ?case using Cons.IH by simp
  qed simp
  moreover have "keys_fit L k [(kr_current k, root)]"
    using unwrap_device_Inr [OF g(2)] kr_generation_Some [of k "kr_current k" g] g(1)
    by (auto simp: keys_fit_def kr_current_generation_def)
  ultimately have "keys_fit L k (foldl ?step [(kr_current k, root)] earlier)"
    "map_of (foldl ?step [(kr_current k, root)] earlier) (kr_current k) \<noteq> None" by simp_all
  then show ?thesis using assms by (auto simp: unwrap_generations_def)
qed

text \<open>The provider built from them: its identity is the current generation's.\<close>

lemma earlier_identities_total:
  "\<forall>key \<in> set ks. \<exists>i. root_key_identity A key = Inr i \<Longrightarrow> \<exists>is. earlier_identities A ks = Inr is"
proof (induction ks)
  case (Cons key ks)
  then obtain i "is" where "root_key_identity A key = Inr i" "earlier_identities A ks = Inr is" by auto
  then show ?case by simp
qed simp

lemma root_recipient_identity:
  "root_recipient L key = Inr r \<Longrightarrow> \<exists>i. root_key_identity (kl_age L) key = Inr i \<and> ag_recipient (kl_age L) i = r"
  by (cases "root_key_identity (kl_age L) key") (simp_all add: root_recipient_def)

lemma provider_of_keys:
  assumes "keys_fit L k ks" "map_of ks (kr_current k) = Some key" "distinct (map gn_number (kr_generations k))"
  shows "\<exists>p. new_root_key_provider (kl_age L) key (map snd (filter (\<lambda>p. fst p \<noteq> kr_current k) ks)) = Inr p
    \<and> provider_recipient (kl_age L) (Some p) = current_recipient k"
proof -
  have id: "\<exists>g i. g \<in> set (kr_generations k) \<and> gn_number g = n \<and> root_key_identity (kl_age L) x = Inr i \<and> ag_recipient (kl_age L) i = gn_recipient g"
    if "(n, x) \<in> set ks" for n x
    using that assms(1) root_recipient_identity by (fastforce simp: keys_fit_def)
  from id [OF map_of_SomeD [OF assms(2)]] obtain g i where g: "g \<in> set (kr_generations k)" "gn_number g = kr_current k"
    "root_key_identity (kl_age L) key = Inr i" "ag_recipient (kl_age L) i = gn_recipient g" by blast
  have "kr_generation k (kr_current k) = Some g" using kr_generation_in [OF assms(3) g(1)] g(2) by simp
  then have cur: "current_recipient k = gn_recipient g" by (simp add: current_recipient_def kr_current_generation_def)
  obtain "is" where "earlier_identities (kl_age L) (map snd (filter (\<lambda>p. fst p \<noteq> kr_current k) ks)) = Inr is"
    using earlier_identities_total [of "map snd (filter (\<lambda>p. fst p \<noteq> kr_current k) ks)" "kl_age L"] id by fastforce
  with g(3,4) cur show ?thesis by (simp add: new_root_key_provider_def provider_recipient_def)
qed

text \<open>A device opens a keyring that opens for it now and, before, either opens for it or does not list its key.\<close>

lemma unwrap_earlier_total:
  assumes "\<And>n. n \<in> set ns \<Longrightarrow> n \<noteq> kr_current k \<Longrightarrow> \<exists>g. kr_generation k n = Some g
      \<and> ((\<exists>key. unwrap_device L g device i (binding_for k g) = Inr key) \<or> (\<forall>d \<in> set (gn_devices g). dw_device d = device \<longrightarrow> dw_public d \<noteq> ag_recipient (kl_age L) i))"
  shows "\<exists>ks. unwrap_earlier L k device i ns = Inr ks"
  using assms
proof (induction ns)
  case (Cons n ns)
  then obtain ks where ks: "unwrap_earlier L k device i ns = Inr ks" by auto
  show ?case
  proof (cases "n = kr_current k")
    case False
    with Cons.prems [of n] obtain g where g: "kr_generation k n = Some g"
      "(\<exists>key. unwrap_device L g device i (binding_for k g) = Inr key) \<or> (\<forall>d \<in> set (gn_devices g). dw_device d = device \<longrightarrow> dw_public d \<noteq> ag_recipient (kl_age L) i)"
      by auto
    show ?thesis
    proof (cases "unwrap_device L g device i (binding_for k g)")
      case (Inl e)
      with g(2) have "\<forall>d \<in> set (gn_devices g). dw_device d = device \<longrightarrow> dw_public d \<noteq> ag_recipient (kl_age L) i" by simp
      then have "e = NotEnrolled \<or> e = DeviceKeyMismatch"
        using Inl by (auto simp: unwrap_device_def find_Some_iff split: option.splits)
      with False g(1) Inl ks show ?thesis by auto
    qed (use False g(1) ks in simp)
  qed (use ks in simp)
qed simp

lemma enrolled_device_opens:
  assumes "crypto_laws L" "check_keyring L k = None"
    and run: "enrol_all L seed keys device (Some (ag_recipient (kl_age L) i)) now k = ((None, app), k')"
    and fresh: "\<And>g d. g \<in> set (kr_generations k) \<Longrightarrow> d \<in> set (gn_devices g) \<Longrightarrow> dw_public d \<noteq> ag_recipient (kl_age L) i"
  shows "\<exists>root earlier. unwrap_for_device L k' device i = Inr (root, earlier)"
proof -
  let ?r = "ag_recipient (kl_age L) i"
  define W where W: "W = (\<lambda>n. wrap_for_device L (seed n) (the (map_of keys n)) device ?r now (kr_profile k, n))"
  have d: "distinct (map gn_number (kr_generations k))" using check_keyring_None [THEN iffD1, OF assms(2)] by blast
  note f = enrol_all_put [OF d run W]
  note e = enrol_all_correct [OF assms(1,2) run]
  have opens: "\<exists>g'. kr_generation k' n = Some g' \<and> (\<exists>root. unwrap_device L g' device i (binding_for k' g') = Inr root)"
    if "n \<in> fst ` set keys" for n
  proof -
    from that obtain root where "map_of keys n = Some root" by (metis (no_types, lifting) image_iff map_of_eq_None_iff not_None_eq)
    with e obtain g g' where g: "kr_generation k n = Some g" "kr_generation k' n = Some g'"
      "unwrap_device L g' device i (binding_for k' g') = Inr root \<or> (\<exists>d \<in> set (gn_devices g). dw_device d = device \<and> dw_public d = ?r)" by blast
    with fresh kr_generation_Some [OF g(1)] show ?thesis by blast
  qed
  have cur: "kr_current k' = kr_current k" "kr_current k \<in> fst ` set keys" using e f by blast+
  then obtain g' root where g': "kr_current_generation k' = Some g'" "unwrap_device L g' device i (binding_for k' g') = Inr root"
    using opens [of "kr_current k"] by (auto simp: kr_current_generation_def)
  have "\<exists>ks. unwrap_earlier L k' device i (rev (generation_numbers k')) = Inr ks"
  proof (rule unwrap_earlier_total)
    fix n assume "n \<in> set (rev (generation_numbers k'))"
    moreover have "map gn_number (kr_generations k') = map gn_number (kr_generations k)" using f by simp
    ultimately have "n \<in> set (map gn_number (kr_generations k))" by (simp add: generation_numbers_def del: set_map)
    then obtain g where g: "kr_generation k n = Some g" using kr_generation_None [of k n] by auto
    show "\<exists>g. kr_generation k' n = Some g \<and> ((\<exists>key. unwrap_device L g device i (binding_for k' g) = Inr key)
        \<or> (\<forall>d \<in> set (gn_devices g). dw_device d = device \<longrightarrow> dw_public d \<noteq> ?r))"
    proof (cases "n \<in> fst ` set keys")
      case True
      with opens show ?thesis by blast
    next
      case False
      with f g have "kr_generation k' n = Some g" by (simp add: wraps_put_generation)
      with fresh kr_generation_Some [OF g] show ?thesis by blast
    qed
  qed
  with g' show ?thesis by (auto simp: unwrap_for_device_def)
qed

end
