(* ===== verification/Concrete_Codecs.thy ===== *)
theory Concrete_Codecs
  imports Keyring_Anchor
begin

text \<open>
  A concrete encoding of keyrings that reads back whatever was written: every field in hexadecimal,
  ended by a comma, nested records as fields. It shows that the law the theorems ask of the JSON library
  (what was encoded decodes to itself) can hold for every keyring.
\<close>

section \<open>Lists of strings as one string\<close>

definition enc_list :: "string list \<Rightarrow> string" where
  "enc_list xs = concat (map (\<lambda>x. hex_encode x @ '','') xs)"

definition dec_list :: "string \<Rightarrow> string list" where
  "dec_list s = map (\<lambda>x. case hex_decode x of Some y \<Rightarrow> y | None \<Rightarrow> []) (butlast (split_on CHR '','' s))"

lemma split_enc_list: "split_on CHR '','' (enc_list xs) = map hex_encode xs @ [[]]"
  by (induction xs) (simp_all add: enc_list_def split_on_part hex_no_comma del: split_on.simps(2))

lemma dec_enc_list [simp]: "dec_list (enc_list xs) = xs"
  by (simp add: dec_list_def split_enc_list hex_decode_encode comp_def)

section \<open>Keyrings\<close>

definition enc_recovery :: "recovery_wrap \<Rightarrow> string" where
  "enc_recovery r = enc_list [rw_kdf r, nat_dec (unat (rw_time r)), nat_dec (unat (rw_memory r)), nat_dec (unat (rw_threads r)),
     rw_salt r, rw_wrap r, int_text (rw_format r)]"

definition dec_recovery :: "string \<Rightarrow> recovery_wrap" where
  "dec_recovery s = (let f = dec_list s in
     \<lparr>rw_kdf = f ! 0, rw_time = of_nat (dec_nat (f ! 1)), rw_memory = of_nat (dec_nat (f ! 2)), rw_threads = of_nat (dec_nat (f ! 3)),
      rw_salt = f ! 4, rw_wrap = f ! 5, rw_format = text_int (f ! 6)\<rparr>)"

definition enc_device :: "device_wrap \<Rightarrow> string" where
  "enc_device d = enc_list [dw_device d, dw_public d, dw_enrolled_at d, dw_wrap d, int_text (dw_format d)]"

definition dec_device :: "string \<Rightarrow> device_wrap" where
  "dec_device s = (let f = dec_list s in
     \<lparr>dw_device = f ! 0, dw_public = f ! 1, dw_enrolled_at = f ! 2, dw_wrap = f ! 3, dw_format = text_int (f ! 4)\<rparr>)"

definition enc_revoked :: "revocation \<Rightarrow> string" where
  "enc_revoked r = enc_list [rv_device r, rv_at r, rv_by r]"

definition dec_revoked :: "string \<Rightarrow> revocation" where
  "dec_revoked s = (let f = dec_list s in \<lparr>rv_device = f ! 0, rv_at = f ! 1, rv_by = f ! 2\<rparr>)"

definition enc_generation :: "generation \<Rightarrow> string" where
  "enc_generation g = enc_list [int_text (gn_number g), gn_created_at g, gn_recipient g, enc_recovery (gn_recovery g),
     enc_list (map enc_device (gn_devices g)), enc_list (map enc_revoked (gn_revoked g)), gn_signature g]"

definition dec_generation :: "string \<Rightarrow> generation" where
  "dec_generation s = (let f = dec_list s in
     \<lparr>gn_number = text_int (f ! 0), gn_created_at = f ! 1, gn_recipient = f ! 2, gn_recovery = dec_recovery (f ! 3),
      gn_devices = map dec_device (dec_list (f ! 4)), gn_revoked = map dec_revoked (dec_list (f ! 5)), gn_signature = f ! 6\<rparr>)"

definition enc_keyring :: "keyring \<Rightarrow> string" where
  "enc_keyring k = enc_list [int_text (kr_schema k), kr_profile k, int_text (kr_current k), kr_account_key k,
     enc_list (map enc_generation (kr_generations k))]"

definition dec_keyring :: "string \<Rightarrow> keyring" where
  "dec_keyring s = (let f = dec_list s in
     \<lparr>kr_schema = text_int (f ! 0), kr_profile = f ! 1, kr_current = text_int (f ! 2), kr_account_key = f ! 3,
      kr_generations = map dec_generation (dec_list (f ! 4))\<rparr>)"

lemma dec_enc_recovery [simp]: "dec_recovery (enc_recovery r) = r"
  by (simp add: dec_recovery_def enc_recovery_def dec_nat_inverse)

lemma dec_enc_device [simp]: "dec_device (enc_device d) = d"
  by (simp add: dec_device_def enc_device_def)

lemma dec_enc_revoked [simp]: "dec_revoked (enc_revoked r) = r"
  by (simp add: dec_revoked_def enc_revoked_def)

lemma dec_enc_generation [simp]: "dec_generation (enc_generation g) = g"
  by (simp add: dec_generation_def enc_generation_def comp_def)

lemma dec_enc_keyring [simp]: "dec_keyring (enc_keyring k) = k"
  by (simp add: dec_keyring_def enc_keyring_def comp_def)

text \<open>The object is the encoding with the newline \<^verbatim>\<open>Marshal\<close> puts behind it.\<close>

definition hex_ring_json :: keyring_json where
  "hex_ring_json = \<lparr>kj_encode = enc_keyring, kj_decode = (\<lambda>d. Inr (dec_keyring (butlast d)))\<rparr>"

lemma hex_ring_law: "json_law hex_ring_json k"
  by (simp add: json_law_def hex_ring_json_def)

text \<open>The same, with two keyrings given a short form: their objects stay below every size limit.\<close>

definition short_ring_json :: "keyring \<Rightarrow> keyring \<Rightarrow> keyring_json" where
  "short_ring_json k0 k1 = \<lparr>kj_encode = (\<lambda>k. if k = k0 then ''0'' else if k = k1 then ''1'' else CHR ''x'' # enc_keyring k),
     kj_decode = (\<lambda>d. case d of [] \<Rightarrow> Inl ''empty''
       | c # r \<Rightarrow> if c = CHR ''0'' then Inr k0 else if c = CHR ''1'' then Inr k1 else Inr (dec_keyring (butlast r)))\<rparr>"

lemma short_ring_law: "json_law (short_ring_json k0 k1) k"
  by (simp add: json_law_def short_ring_json_def)

lemma short_ring_length:
  assumes "k \<in> {k0, k1}" "kr_schema k = keyring_schema_version"
  shows "length (marshal_keyring (short_ring_json k0 k1) k) = 2"
proof -
  have "k\<lparr>kr_schema := keyring_schema_version\<rparr> = k" using assms(2) by (cases k) simp
  with assms(1) show ?thesis by (auto simp: marshal_keyring_def short_ring_json_def)
qed

end
