(* ===== verification/Account_Props.thy ===== *)
theory Account_Props
  imports Account_Commands Keyring_Unwrap Concrete_Codecs
begin

text \<open>
  What the account commands achieve: after a successful \<^verbatim>\<open>account init\<close> or \<^verbatim>\<open>account recover\<close> the next push
  or pull finds its root keys, a device key or a keyring that was there is never overwritten, and a failed
  command takes back the key it made. The store is the in-process one; other devices act in between.
\<close>

section \<open>The enrolment on disk\<close>

text \<open>No temporary file of the home is named like one of the two documents.\<close>

definition tmp_apart :: "home_env \<Rightarrow> bool" where
  "tmp_apart E \<longleftrightarrow> he_home E \<noteq> [] \<and> (\<forall>i. he_tmp E i \<noteq> account_path (he_home E) \<and> he_tmp E i \<noteq> config_path (he_home E))"

lemma saved_account_loads:
  assumes "save_account J E i a d = (None, d')" "account_sound J a"
  shows "load_account J E d' = Inr a"
  using assms(1)
proof (rule save_account_cases)
  fix w assume v: "validate_account (Some a) = None" and w: "None = map_option WriteFailed w"
    and a: "write_file_atomic (he_fault E i) (he_tmp E i) (account_path (he_home E)) (aj_encode J a @ [CHR 0x0A]) d = (w, d')"
  from w a have "write_file_atomic (he_fault E i) (he_tmp E i) (account_path (he_home E)) (aj_encode J a @ [CHR 0x0A]) d = (None, d')"
    by simp
  from write_file_atomic_target [OF this] have "read_file (account_path (he_home E)) d' = Inr (aj_encode J a @ [CHR 0x0A])"
    by (simp add: read_file_Inr)
  with v assms(2) show ?thesis unfolding load_account_Inr account_sound_def by blast
qed simp

lemma save_account_other:
  assumes "save_account J E i a d = (err, d')" "q \<noteq> account_path (he_home E)" "q \<noteq> he_tmp E i"
  shows "read_file q d' = Inr b \<longleftrightarrow> read_file q d = Inr b"
  using assms(1)
proof (rule save_account_cases)
  fix w assume "write_file_atomic (he_fault E i) (he_tmp E i) (account_path (he_home E)) (aj_encode J a @ [CHR 0x0A]) d = (w, d')"
  from write_file_atomic_frame [OF this assms(3,2)] show ?thesis .
qed simp

lemma saved_config_loads:
  assumes "save_config T E i c d = (None, d')" "config_sound T c"
  shows "load_config T E d' = Inr (config_defaults c)"
  using assms(1)
proof (rule save_config_cases)
  fix b w
  assume v: "validate_config (Some c) = (None, Some (config_defaults c))" and b: "tl_encode T (config_defaults c) = Inr b"
    and w: "None = map_option WriteFailed w"
    and a: "write_file_atomic (he_fault E i) (he_tmp E i) (config_path (he_home E)) b d = (w, d')"
  from w a have "write_file_atomic (he_fault E i) (he_tmp E i) (config_path (he_home E)) b d = (None, d')" by simp
  from write_file_atomic_target [OF this] have "read_file (config_path (he_home E)) d' = Inr b" by (simp add: read_file_Inr)
  moreover have "config_valid (config_defaults c)" using validate_config_accepts [OF v] by blast
  ultimately show ?thesis using validate_config_valid assms(2) b unfolding load_config_Inr config_sound_def by auto
qed simp

lemma config_defaults_valid: "config_valid c \<Longrightarrow> config_defaults c = c"
  by (simp add: config_defaults_def validate_config_valid)

lemma loaded_config_valid: "load_config T E d = Inr c \<Longrightarrow> config_valid c"
  unfolding load_config_Inr using validate_config_accepts by blast

lemma rekeyed_config_valid: "config_valid c \<Longrightarrow> config_valid (c\<lparr>cf_encryption_type := EncryptionRootKey\<rparr>)"
  by (simp add: config_valid_def)

lemma enrolment_saved:
  assumes "save_enrolment_confirmed C E i cfg ring via confirmed d = (None, d')"
    and "account_sound (ce_account C) (enrolment_record cfg (ce_now C) ring via confirmed)"
    and "config_sound (ce_toml C) (cfg\<lparr>cf_encryption_type := EncryptionRootKey\<rparr>)" "config_valid cfg" "tmp_apart E"
  shows "load_account (ce_account C) E d' = Inr (enrolment_record cfg (ce_now C) ring via confirmed)
    \<and> load_config (ce_toml C) E d' = Inr (cfg\<lparr>cf_encryption_type := EncryptionRootKey\<rparr>)"
proof -
  let ?c = "cfg\<lparr>cf_encryption_type := EncryptionRootKey\<rparr>"
  obtain d1 where c: "save_config (ce_toml C) E i ?c d = (None, d1)"
    and a: "save_account (ce_account C) E (Suc i) (enrolment_record cfg (ce_now C) ring via confirmed) d1 = (None, d')"
    using assms(1) by (auto simp: save_enrolment_confirmed_def split: prod.splits option.splits)
  have "load_config (ce_toml C) E d1 = Inr ?c"
    using saved_config_loads [OF c assms(3)] config_defaults_valid rekeyed_config_valid assms(4) by simp
  moreover have "read_file (config_path (he_home E)) d' = Inr b \<longleftrightarrow> read_file (config_path (he_home E)) d1 = Inr b" for b
    using assms(5) home_files_apart [of "he_home E"] by (intro save_account_other [OF a]) (auto simp: tmp_apart_def)
  ultimately have "load_config (ce_toml C) E d' = Inr ?c" unfolding load_config_Inr by simp
  with saved_account_loads [OF a assms(2)] show ?thesis by blast
qed

section \<open>An enrolled device finds its keys\<close>

text \<open>
  The device's key is in the secret store, the keyring in the store is the one the record pins, and the
  device opens it: then the command gets a provider for the keyring's current root key.
\<close>

lemma root_keys_ready:
  assumes acc: "load_account (ce_account C) E (wd_disk w) = Inr a0"
    and secret: "se_get (ce_secrets C) (device_secret_ref (cf_profile_id cfg) (cf_device_id cfg)) (wd_secrets w) = Inr secret"
      "ag_parse (kl_age (ce_keys C)) (trim_space secret) = Inr device"
    and ring: "load_keyring (ce_keys C) (ce_ring C) B (keyring_object_key prefix) (wd_store w) = Inr (k, etag)"
    and anchor: "anchor_of C E 0 cfg (wd_disk w) = (Inr (anchor_from_account a floor), d1)" "load_account (ce_account C) E d1 = Inr a"
      "check_anchor (ce_keys C) (anchor_from_account a floor) k = None"
    and current: "ac_key_generation a = kr_current k" "ac_key_recipient a = current_recipient k"
    and opens: "unwrap_for_device (ce_keys C) k (cf_device_id cfg) device = Inr (root, earlier)"
    and valid: "check_keyring (ce_keys C) k = None"
  shows "\<exists>p. root_keys_from_config C E cfg B prefix w = (Inr p, d1)
    \<and> provider_recipient (kl_age (ce_keys C)) (Some p) = current_recipient k"
proof -
  have d: "distinct (map gn_number (kr_generations k))" using check_keyring_None [THEN iffD1, OF valid] by blast
  obtain ks key where ks: "unwrap_generations (ce_keys C) k (cf_device_id cfg) device = Inr ks" "keys_fit (ce_keys C) k ks"
    "map_of ks (kr_current k) = Some key" using unwrap_generations_fit [OF opens] by blast
  obtain p where p: "new_root_key_provider (kl_age (ce_keys C)) key (map snd (filter (\<lambda>p. fst p \<noteq> kr_current k) ks)) = Inr p"
    "provider_recipient (kl_age (ce_keys C)) (Some p) = current_recipient k" using provider_of_keys [OF ks(2,3) d] by blast
  have floor: "an_floor (anchor_from_account a floor) = floor" by (simp add: anchor_from_account_def)
  have trust: "trust_keyring (ce_keys C) (anchor_from_account a floor) k (Inr ks) = Inr ks"
    using anchor(3) by (simp add: trust_keyring_Inr)
  have obs: "observe_keyring (ce_keys C) (ce_account C) E i floor k d1 = (None, d1)" for i
    using anchor(2,3) current by (simp add: observe_keyring_def)
  show ?thesis
    using p by (simp add: root_keys_from_config_def acc secret ring anchor(1) ks(1,3) trust floor obs Let_def)
qed

text \<open>Deciding about the floor keeps what the record pins.\<close>

lemma confirm_floor_keeps:
  assumes "confirm_floor G J E i now storage session reply d = (Inr floor, d')" "load_account J E d = Inr a" "\<And>x. account_sound J x"
  shows "\<exists>a'. load_account J E d' = Inr a' \<and> ac_key_generation a' = ac_key_generation a \<and> ac_key_recipient a' = ac_key_recipient a
    \<and> ac_account_key a' = ac_account_key a"
proof -
  have "d' = d \<or> (\<exists>f. remember_floor J E i now f d = (None, d'))"
    using assms(1) by (auto simp: confirm_floor_def Let_def split: if_splits sum.splits prod.splits option.splits)
  then have "d' = d \<or> (\<exists>g t. save_account J E i (a\<lparr>ac_control_plane_key_generation := g, ac_control_plane_confirmed_at := t\<rparr>) d = (None, d'))"
    using assms(2) by (auto simp: remember_floor_def split: if_splits prod.splits option.splits)
  with assms(2) saved_account_loads [OF _ assms(3)] show ?thesis by fastforce
qed

lemma anchor_of_floor:
  assumes "floor_of C E i cfg d = (Inr floor, d')" "load_account (ce_account C) E d' = Inr a"
  shows "anchor_of C E i cfg d = (Inr (anchor_from_account a floor), d')"
  using assms by (simp add: floor_of_def anchor_of_def load_anchor_def)

text \<open>A later command of the same installation: the same home, storage, secrets and libraries.\<close>

definition later_command :: "('s, 'k) command_env \<Rightarrow> ('s, 'k) command_env \<Rightarrow> bool" where
  "later_command C C' \<longleftrightarrow> ce_keys C' = ce_keys C \<and> ce_ring C' = ce_ring C \<and> ce_toml C' = ce_toml C \<and> ce_account C' = ce_account C
     \<and> ce_files C' = ce_files C \<and> ce_home_var C' = ce_home_var C \<and> ce_user_home C' = ce_user_home C \<and> ce_secrets C' = ce_secrets C
     \<and> ce_memory C' = ce_memory C \<and> ce_disk_store C' = ce_disk_store C \<and> ce_hosted C' = ce_hosted C \<and> ce_resolve C' = ce_resolve C
     \<and> ce_s3 C' = ce_s3 C"

lemma later_open: "later_command C C' \<Longrightarrow> open_backend C' E (cfg\<lparr>cf_encryption_type := t\<rparr>) = open_backend C E cfg"
  by (simp add: later_command_def open_backend_def cong: sum.case_cong)

text \<open>
  What the libraries and the secret store are relied on for: encoded documents decode to themselves, a
  kept secret is read back, the text of a device key parses to it, the store is the in-process one.
\<close>

definition install_laws :: "('k \<Rightarrow> string \<rightharpoonup> bytes) \<Rightarrow> sha256 \<Rightarrow> (mem_store, 'k) command_env \<Rightarrow> disk \<Rightarrow> bool" where
  "install_laws held sha C d \<longleftrightarrow>
     crypto_laws (ce_keys C) \<and> (\<forall>k. json_law (ce_ring C) k) \<and> (\<forall>a. account_sound (ce_account C) a)
   \<and> secret_store (ce_secrets C) held \<and> (\<forall>k ref b. held k ref = Some b \<longrightarrow> se_get (ce_secrets C) ref k = Inr b)
   \<and> (\<forall>dev. ce_new_device C = Inr dev \<longrightarrow> ag_parse (kl_age (ce_keys C)) (trim_space dev) = Inr dev)
   \<and> (\<forall>E cfg B p. open_backend C E cfg = Inr (B, p) \<longrightarrow> B = mem_backend sha)
   \<and> (\<forall>E cfg. load_account_home C d = Inr (E, cfg) \<longrightarrow>
        tmp_apart E \<and> config_sound (ce_toml C) (cfg\<lparr>cf_encryption_type := EncryptionRootKey\<rparr>))"

text \<open>The state an enrolment leaves behind: record and configuration saved, key kept, keyring stored, and the device opens it.\<close>

definition enrolled_world ::
  "(mem_store, 'k) command_env \<Rightarrow> sha256 \<Rightarrow> home_env \<Rightarrow> config \<Rightarrow> string \<Rightarrow> keyring \<Rightarrow> (mem_store, 'k) world \<Rightarrow> bool" where
  "enrolled_world C sha E cfg prefix k w \<longleftrightarrow>
     load_account_home C (wd_disk w) = Inr (E, cfg) \<and> cf_encryption_type cfg = EncryptionRootKey
   \<and> open_backend C E cfg = Inr (mem_backend sha, prefix)
   \<and> (\<exists>a. load_account (ce_account C) E (wd_disk w) = Inr a \<and> ac_key_generation a = kr_current k
        \<and> ac_key_recipient a = current_recipient k \<and> ac_account_key a = kr_account_key k)
   \<and> (\<exists>secret device root earlier. se_get (ce_secrets C) (device_secret_ref (cf_profile_id cfg) (cf_device_id cfg)) (wd_secrets w) = Inr secret
        \<and> ag_parse (kl_age (ce_keys C)) (trim_space secret) = Inr device
        \<and> unwrap_for_device (ce_keys C) k (cf_device_id cfg) device = Inr (root, earlier))
   \<and> (\<exists>etag. load_keyring (ce_keys C) (ce_ring C) (mem_backend sha) (keyring_object_key prefix) (wd_store w) = Inr (k, etag))
   \<and> check_keyring (ce_keys C) k = None"

lemma verified_own_key: "verify_generations L k [] = None \<Longrightarrow> verify_generations L k (kr_account_key k) = None"
  by (auto simp: verify_generations_def split: sum.splits if_splits)

lemma enrolled_world_syncs:
  assumes "enrolled_world C sha E cfg prefix k w" and "later_command C C'" and "\<And>a. account_sound (ce_account C) a"
    and floor: "floor_of C' E 0 cfg (wd_disk w) = (Inr f, d1)" "fl_generation f \<le> kr_current k"
  shows "\<exists>eng p. engine_from_config C' pass w = (Inr eng, d1) \<and> oe_keys eng = RootKeys p \<and> oe_config eng = cfg
    \<and> provider_recipient (kl_age (ce_keys C)) (Some p) = current_recipient k"
proof -
  note same = assms(2) [unfolded later_command_def]
  note e = assms(1) [unfolded enrolled_world_def]
  obtain a0 where a0: "load_account (ce_account C) E (wd_disk w) = Inr a0" "ac_key_generation a0 = kr_current k"
    "ac_key_recipient a0 = current_recipient k" "ac_account_key a0 = kr_account_key k" using e by blast
  obtain secret device root earlier where s: "se_get (ce_secrets C) (device_secret_ref (cf_profile_id cfg) (cf_device_id cfg)) (wd_secrets w) = Inr secret"
    "ag_parse (kl_age (ce_keys C)) (trim_space secret) = Inr device"
    "unwrap_for_device (ce_keys C) k (cf_device_id cfg) device = Inr (root, earlier)" using e by blast
  obtain etag where r: "load_keyring (ce_keys C) (ce_ring C) (mem_backend sha) (keyring_object_key prefix) (wd_store w) = Inr (k, etag)"
    using e by blast
  have valid: "check_keyring (ce_keys C) k = None" using e by blast
  have acc: "ce_account C' = ce_account C" using same by blast
  from confirm_floor_keeps [OF floor(1) [unfolded floor_of_def acc] a0(1) assms(3)]
  obtain a where a: "load_account (ce_account C) E d1 = Inr a" "ac_key_generation a = kr_current k"
    "ac_key_recipient a = current_recipient k" "ac_account_key a = kr_account_key k" using a0 by auto
  have av: "1 \<le> ac_key_generation a" "ac_key_recipient a \<noteq> []" "ac_account_key a \<noteq> []"
    using loaded_account_valid [OF a(1)] by (simp_all add: validate_account_None)
  have dec: "fl_decided f" using confirm_floor_decided floor(1) by (auto simp: floor_of_def)
  have "verify_generations (ce_keys C) k (kr_account_key k) = None"
    using check_keyring_None [THEN iffD1, OF valid] verified_own_key by blast
  moreover have "generation_recipient k (kr_current k) = current_recipient k"
    by (simp add: generation_recipient_def current_recipient_def kr_current_generation_def)
  ultimately have ok: "check_anchor (ce_keys C) (anchor_from_account a f) k = None"
    using a av dec floor(2) by (simp add: check_anchor_None pinned_def anchor_from_account_def)
  have anchor: "anchor_of C' E 0 cfg (wd_disk w) = (Inr (anchor_from_account a f), d1)"
    using anchor_of_floor [OF floor(1)] a(1) acc by simp
  obtain p where p: "root_keys_from_config C' E cfg (mem_backend sha) prefix w = (Inr p, d1)"
    "provider_recipient (kl_age (ce_keys C)) (Some p) = current_recipient k"
    using root_keys_ready [of C' E w a0 cfg secret device "mem_backend sha" prefix k etag a f d1 root earlier]
      a0(1) s r anchor a ok valid same by auto
  have "load_account_home C' d = load_account_home C d" for d
    using same by (simp add: load_account_home_def cong: sum.case_cong)
  moreover have "open_backend C' E cfg = open_backend C E cfg" using same by (simp add: open_backend_def cong: sum.case_cong)
  ultimately have "load_account_home C' (wd_disk w) = Inr (E, cfg)" "open_backend C' E cfg = Inr (mem_backend sha, prefix)"
    using e by simp_all
  then have "\<exists>eng. engine_from_config C' pass w = (Inr eng, d1) \<and> oe_keys eng = RootKeys p \<and> oe_config eng = cfg"
    using e p(1) by (simp add: engine_from_config_def Let_def)
  with p(2) show ?thesis by blast
qed

section \<open>account init\<close>

lemma init_commit_done:
  assumes "init_commit C E cfg B key k device w = (None, w')"
  obtains k1 s1 d1 where "se_get (ce_secrets C) (device_secret_ref (cf_profile_id cfg) (cf_device_id cfg)) (wd_secrets w) = Inl SecretNotFound"
    "se_set (ce_secrets C) (device_secret_ref (cf_profile_id cfg) (cf_device_id cfg)) device (wd_secrets w) = (None, k1)"
    "create_keyring (ce_ring C) B key k (ce_others C 0 (wd_store w)) = (Inr (), s1)"
    "save_enrolment_confirmed C E 0 cfg k ''init'' True (wd_disk w) = (None, d1)"
    "w' = \<lparr>wd_disk = d1, wd_store = s1, wd_secrets = k1\<rparr>"
proof -
  let ?ref = "device_secret_ref (cf_profile_id cfg) (cf_device_id cfg)"
  have absent: "se_get (ce_secrets C) ?ref (wd_secrets w) = Inl SecretNotFound"
    using assms by (auto simp: init_commit_def refuse_existing_secret_def Let_def split: sum.splits if_splits)
  then have none: "refuse_existing_secret C ?ref (wd_secrets w) = None" by (simp add: refuse_existing_secret_def)
  obtain k1 where set: "se_set (ce_secrets C) ?ref device (wd_secrets w) = (None, k1)"
    using assms none by (auto simp: init_commit_def Let_def split: prod.splits option.splits)
  obtain s1 where create: "create_keyring (ce_ring C) B key k (ce_others C 0 (wd_store w)) = (Inr (), s1)"
    using assms none set by (auto simp: init_commit_def Let_def split: prod.splits sum.splits)
  obtain d1 where "save_enrolment_confirmed C E 0 cfg k ''init'' True (wd_disk w) = (None, d1)"
    "w' = \<lparr>wd_disk = d1, wd_store = s1, wd_secrets = k1\<rparr>"
    using assms none set create by (auto simp: init_commit_def Let_def save_enrolment_def split: prod.splits)
  with that absent set create show thesis by blast
qed

lemma run_account_init_done:
  assumes "run_account_init C w = (None, w')"
  obtains E cfg B prefix root raw device k where "load_account_home C (wd_disk w) = Inr (E, cfg)" "open_backend C E cfg = Inr (B, prefix)"
    "ce_new_root C = Inr root" "ce_new_device C = Inr device"
    "normalize_recovery_code (kl_sha (ce_keys C)) (generate_recovery_code (kl_sha (ce_keys C)) raw) = Inr (generate_recovery_code (kl_sha (ce_keys C)) raw)"
    "new_keyring (ce_keys C) (ce_seed C 0 1) (ce_salt C) (ce_nonce C) (cf_profile_id cfg) root (generate_recovery_code (kl_sha (ce_keys C)) raw)
       (cf_device_id cfg) (Some device) (ce_now C) = Inr k" "ce_new_code C = Inr raw"
    "init_commit C E cfg B (keyring_object_key prefix) k device w = (None, w')"
proof -
  note run = assms [unfolded run_account_init_def]
  obtain E cfg where 1: "load_account_home C (wd_disk w) = Inr (E, cfg)" using run by (auto split: sum.splits)
  have 2: "refuse_enrolled C E (wd_disk w) = None" using run 1 by (auto split: option.splits)
  obtain B prefix where 3: "open_backend C E cfg = Inr (B, prefix)" using run 1 2 by (auto split: sum.splits)
  note run1 = run [unfolded 1 sum.case prod.case 2 option.case 3 Let_def]
  have 4: "load_keyring (ce_keys C) (ce_ring C) B (keyring_object_key prefix) (wd_store w) = Inl KeyringNotFound"
    using run1 by (auto split: sum.splits if_splits)
  note run2 = run1 [unfolded 4 sum.case, simplified]
  obtain root where 5: "ce_new_root C = Inr root" using run2 by (auto split: sum.splits)
  obtain raw where 6: "ce_new_code C = Inr raw" using run2 5 by (auto split: sum.splits)
  obtain device where 7: "ce_new_device C = Inr device" using run2 5 6 by (auto split: sum.splits)
  note run3 = run2 [unfolded 5 6 7 sum.case]
  obtain typed where 8: "ce_typed C = Inr typed" using run3 by (auto split: sum.splits)
  obtain k where 9: "new_keyring (ce_keys C) (ce_seed C 0 1) (ce_salt C) (ce_nonce C) (cf_profile_id cfg) root
      (generate_recovery_code (kl_sha (ce_keys C)) raw) (cf_device_id cfg) (Some device) (ce_now C) = Inr k"
    using run3 8 by (auto split: sum.splits if_splits)
  have 10: "init_commit C E cfg B (keyring_object_key prefix) k device w = (None, w')"
    using run3 8 9 by (auto split: if_splits)
  have "normalize_recovery_code (kl_sha (ce_keys C)) typed = Inr (generate_recovery_code (kl_sha (ce_keys C)) raw)"
    using run3 8 by (auto simp: Let_def split: if_splits)
  from recovery.norm_canonical(1) [OF this]
  have "normalize_recovery_code (kl_sha (ce_keys C)) (generate_recovery_code (kl_sha (ce_keys C)) raw) = Inr (generate_recovery_code (kl_sha (ce_keys C)) raw)" .
  from that [OF 1 3 5 7 this 9 6 10] show thesis .
qed

text \<open>The record of an enrolment, once saved, with the keyring in the store and the key in the secret store.\<close>

lemma enrolled_after_save:
  assumes laws: "install_laws held sha C (wd_disk w)"
    and home: "load_account_home C (wd_disk w) = Inr (E, cfg)" "open_backend C E cfg = Inr (B, prefix)"
    and save: "save_enrolment_confirmed C E i cfg k via confirmed d = (None, d1)"
    and key: "held k1 (device_secret_ref (cf_profile_id cfg) (cf_device_id cfg)) = Some secret"
      "ag_parse (kl_age (ce_keys C)) (trim_space secret) = Inr device"
      "unwrap_for_device (ce_keys C) k (cf_device_id cfg) device = Inr (root, earlier)"
    and store: "load_keyring (ce_keys C) (ce_ring C) (mem_backend sha) (keyring_object_key prefix) s1 = Inr (k, etag)"
    and valid: "check_keyring (ce_keys C) k = None"
    and floor: "d2 = d1 \<or> (\<exists>f t. remember_floor (ce_account C) E j t f d1 = (None, d2))"
  shows "enrolled_world C sha E (cfg\<lparr>cf_encryption_type := EncryptionRootKey\<rparr>) prefix k \<lparr>wd_disk = d2, wd_store = s1, wd_secrets = k1\<rparr>"
proof -
  let ?cfg = "cfg\<lparr>cf_encryption_type := EncryptionRootKey\<rparr>"
  note l = laws [unfolded install_laws_def]
  obtain h where h: "config_home (ce_home_var C) (ce_user_home C) = Inr h" "E = (ce_files C)\<lparr>he_home := h\<rparr>"
    "load_config (ce_toml C) E (wd_disk w) = Inr cfg"
    using home(1) by (auto simp: load_account_home_def Let_def split: sum.splits)
  from l home(1) have apart: "tmp_apart E" and cs: "config_sound (ce_toml C) ?cfg" by blast+
  let ?a = "enrolment_record cfg (ce_now C) k via confirmed"
  have sound: "account_sound (ce_account C) x" for x using l by blast
  from enrolment_saved [OF save sound cs loaded_config_valid [OF h(3)] apart]
  have saved: "load_account (ce_account C) E d1 = Inr ?a" "load_config (ce_toml C) E d1 = Inr ?cfg" by blast+
  have d2: "d2 = d1 \<or> (\<exists>g t. save_account (ce_account C) E j (?a\<lparr>ac_control_plane_key_generation := g, ac_control_plane_confirmed_at := t\<rparr>) d1 = (None, d2))"
    using floor saved(1) by (auto simp: remember_floor_def split: if_splits prod.splits option.splits)
  have acc: "\<exists>a. load_account (ce_account C) E d2 = Inr a \<and> ac_key_generation a = kr_current k
      \<and> ac_key_recipient a = current_recipient k \<and> ac_account_key a = kr_account_key k"
    using d2
  proof
    assume "d2 = d1"
    with saved(1) show ?thesis by (simp add: enrolment_record_def)
  next
    assume "\<exists>g t. save_account (ce_account C) E j (?a\<lparr>ac_control_plane_key_generation := g, ac_control_plane_confirmed_at := t\<rparr>) d1 = (None, d2)"
    then obtain g t where "save_account (ce_account C) E j (?a\<lparr>ac_control_plane_key_generation := g, ac_control_plane_confirmed_at := t\<rparr>) d1 = (None, d2)"
      by blast
    from saved_account_loads [OF this sound] show ?thesis by (simp add: enrolment_record_def)
  qed
  have "read_file (config_path (he_home E)) d2 = Inr b \<longleftrightarrow> read_file (config_path (he_home E)) d1 = Inr b" for b
    using d2 save_account_other apart home_files_apart [of "he_home E"] unfolding tmp_apart_def by metis
  with saved(2) have "load_config (ce_toml C) E d2 = Inr ?cfg" unfolding load_config_Inr by simp
  with h(1,2) have "load_account_home C d2 = Inr (E, ?cfg)" by (simp add: load_account_home_def)
  moreover have "open_backend C E ?cfg = Inr (mem_backend sha, prefix)"
  proof -
    have "later_command C C" by (simp add: later_command_def)
    moreover have "B = mem_backend sha" using l home(2) by blast
    ultimately show ?thesis using later_open home(2) by metis
  qed
  moreover have "se_get (ce_secrets C) (device_secret_ref (cf_profile_id cfg) (cf_device_id cfg)) k1 = Inr secret" using l key(1) by blast
  ultimately show ?thesis using acc key(2,3) store valid by (auto simp: enrolled_world_def)
qed

text \<open>
  C5. The first device can work at once. After a successful \<^verbatim>\<open>rein account init\<close>, the next command of this
  installation opens its engine with the root key that was generated: the record, the configuration,
  the device key and the keyring that were written fit together, whatever other devices do in the
  store before the keyring is created, as long as the control plane's floor is not above generation 1.
\<close>
theorem init_then_sync:
  assumes run: "run_account_init C w = (None, w')" and laws: "install_laws held sha C (wd_disk w)"
    and nonce: "length (ce_nonce C) = nonce_size" and later: "later_command C C'"
  shows "\<exists>E cfg prefix k root. enrolled_world C sha E cfg prefix k w' \<and> kr_current k = 1
    \<and> ce_new_root C = Inr root \<and> root_recipient (ce_keys C) root = Inr (current_recipient k)
    \<and> (\<forall>f d1. floor_of C' E 0 cfg (wd_disk w') = (Inr f, d1) \<longrightarrow> fl_generation f \<le> 1 \<longrightarrow>
         (\<exists>eng p. engine_from_config C' pass w' = (Inr eng, d1) \<and> oe_keys eng = RootKeys p
            \<and> root_recipient (ce_keys C) root = Inr (provider_recipient (kl_age (ce_keys C)) (Some p))))"
proof -
  note l = laws [unfolded install_laws_def]
  obtain E cfg B prefix root raw device k where f: "load_account_home C (wd_disk w) = Inr (E, cfg)" "open_backend C E cfg = Inr (B, prefix)"
    "ce_new_root C = Inr root" "ce_new_device C = Inr device"
    "normalize_recovery_code (kl_sha (ce_keys C)) (generate_recovery_code (kl_sha (ce_keys C)) raw) = Inr (generate_recovery_code (kl_sha (ce_keys C)) raw)"
    and new: "new_keyring (ce_keys C) (ce_seed C 0 1) (ce_salt C) (ce_nonce C) (cf_profile_id cfg) root (generate_recovery_code (kl_sha (ce_keys C)) raw)
       (cf_device_id cfg) (Some device) (ce_now C) = Inr k"
    and commit: "init_commit C E cfg B (keyring_object_key prefix) k device w = (None, w')"
    by (rule run_account_init_done [OF run])
  obtain k1 s1 d1 where c: "se_set (ce_secrets C) (device_secret_ref (cf_profile_id cfg) (cf_device_id cfg)) device (wd_secrets w) = (None, k1)"
    "create_keyring (ce_ring C) B (keyring_object_key prefix) k (ce_others C 0 (wd_store w)) = (Inr (), s1)"
    "save_enrolment_confirmed C E 0 cfg k ''init'' True (wd_disk w) = (None, d1)"
    and w': "w' = \<lparr>wd_disk = d1, wd_store = s1, wd_secrets = k1\<rparr>"
    by (rule init_commit_done [OF commit])
  have B: "B = mem_backend sha" using l f(2) by blast
  have laws': "crypto_laws (ce_keys C)" "secret_store (ce_secrets C) held" "json_law (ce_ring C) k" using l by blast+
  have valid: "check_keyring (ce_keys C) k = None"
    using new_keyring_valid [OF new] laws'(1) by (auto simp: crypto_laws_def)
  note opens = new_keyring_opens(1) [OF laws'(1) f(5) nonce new]
  have heldk: "held k1 (device_secret_ref (cf_profile_id cfg) (cf_device_id cfg)) = Some device"
    using secret_store.set_done [OF laws'(2) c(1)] by simp
  have parse: "ag_parse (kl_age (ce_keys C)) (trim_space device) = Inr device" using l f(4) by blast
  obtain etag where store: "load_keyring (ce_keys C) (ce_ring C) (mem_backend sha) (keyring_object_key prefix) s1 = Inr (k, etag)"
    using create_keyring_once [OF laws'(3) valid, where sha = sha and key = "keyring_object_key prefix" and s = "ce_others C 0 (wd_store w)"] c(2) B by auto
  let ?cfg = "cfg\<lparr>cf_encryption_type := EncryptionRootKey\<rparr>"
  have en: "enrolled_world C sha E ?cfg prefix k w'"
    unfolding w' by (rule enrolled_after_save [OF laws f(1,2) c(3) heldk parse opens store valid]) simp
  obtain recipient g where g: "root_recipient (ce_keys C) root = Inr recipient" "kr_current k = 1" "kr_generations k = [g]" "gn_number g = 1" "gn_recipient g = recipient"
    using new_keyring_facts [OF new] by metis
  have cur: "current_recipient k = recipient" using g by (simp add: current_recipient_def kr_current_generation_def kr_generation_def)
  have sound: "account_sound (ce_account C) a" for a using l by blast
  have "\<exists>eng p. engine_from_config C' pass w' = (Inr eng, d2) \<and> oe_keys eng = RootKeys p
            \<and> root_recipient (ce_keys C) root = Inr (provider_recipient (kl_age (ce_keys C)) (Some p))"
    if "floor_of C' E 0 ?cfg (wd_disk w') = (Inr fl, d2)" "fl_generation fl \<le> 1" for fl d2
  proof -
    have "fl_generation fl \<le> kr_current k" using that(2) g(2) by simp
    from enrolled_world_syncs [OF en later sound that(1) this] obtain eng p where e: "engine_from_config C' pass w' = (Inr eng, d2)"
      "oe_keys eng = RootKeys p" "provider_recipient (kl_age (ce_keys C)) (Some p) = current_recipient k" by blast
    from g(1) cur e(3) have "root_recipient (ce_keys C) root = Inr (provider_recipient (kl_age (ce_keys C)) (Some p))" by simp
    with e(1,2) show ?thesis by blast
  qed
  with en g(1,2) f(3) cur show ?thesis by blast
qed

section \<open>account recover\<close>

lemma recover_mutate_done:
  assumes "recover_mutate C cfg a code device i k = Inr (k', u)"
  obtains keys app where "check_anchor (ce_keys C) a k = None" "unwrap_generations_with_recovery_code (ce_keys C) k code = Inr keys"
    "enrol_all (ce_keys C) (ce_seed C i) keys (cf_device_id cfg) (Some (ag_recipient (kl_age (ce_keys C)) device)) (ce_now C) k = ((None, app), k')"
proof -
  from assms obtain keys where t: "trust_keyring (ce_keys C) a k (unwrap_generations_with_recovery_code (ce_keys C) k code) = Inr keys"
    by (auto simp: recover_mutate_def split: sum.splits)
  obtain err app k1 where e: "enrol_all (ce_keys C) (ce_seed C i) keys (cf_device_id cfg) (Some (ag_recipient (kl_age (ce_keys C)) device)) (ce_now C) k
      = ((err, app), k1)" by (metis prod.exhaust)
  with assms t have "err = None" "k1 = k'" by (auto simp: recover_mutate_def Let_def split: option.splits)
  with that t e show thesis by (auto simp: trust_keyring_Inr)
qed

lemma recover_enrol_done:
  assumes "recover_enrol C E cfg B key a code existing w = (None, w')"
  obtains device k1 k' s1 d1 d2 where "ce_new_device C = Inr device"
    "se_set (ce_secrets C) (device_secret_ref (cf_profile_id cfg) (cf_device_id cfg)) device (wd_secrets w) = (None, k1)"
    "update_keyring (ce_keys C) (ce_ring C) B key (ce_others C) (recover_mutate C cfg a code device) (wd_store w) = (Inr (k', ()), s1)"
    "save_enrolment_confirmed C E 1 cfg k' ''recover'' True (wd_disk w) = (None, d1)"
    "remember_floor (ce_account C) E 3 (ce_stamp C) (an_floor a) d1 = (None, d2)"
    "w' = \<lparr>wd_disk = d2, wd_store = s1, wd_secrets = k1\<rparr>"
proof -
  let ?ref = "device_secret_ref (cf_profile_id cfg) (cf_device_id cfg)"
  obtain device where dev: "ce_new_device C = Inr device" using assms by (auto simp: recover_enrol_def Let_def split: sum.splits)
  obtain k1 where set: "se_set (ce_secrets C) ?ref device (wd_secrets w) = (None, k1)"
    using assms dev by (auto simp: recover_enrol_def Let_def split: prod.splits option.splits)
  obtain r s1 where up: "update_keyring (ce_keys C) (ce_ring C) B key (ce_others C) (recover_mutate C cfg a code device) (wd_store w) = (r, s1)"
    by (metis prod.exhaust)
  obtain k' where r: "r = Inr (k', ())" using assms dev set up by (cases r) (auto simp: recover_enrol_def Let_def)
  obtain e d2 where rec: "record_enrolment C E 1 cfg k' ''recover'' True (an_floor a) (wd_disk w) = (e, d2)" by (metis prod.exhaust)
  with assms dev set up r have w': "e = None" "w' = \<lparr>wd_disk = d2, wd_store = s1, wd_secrets = k1\<rparr>"
    by (auto simp: recover_enrol_def Let_def)
  obtain d1 where "save_enrolment_confirmed C E 1 cfg k' ''recover'' True (wd_disk w) = (None, d1)"
    "remember_floor (ce_account C) E 3 (ce_stamp C) (an_floor a) d1 = (None, d2)"
    using rec w'(1) by (auto simp: record_enrolment_def numeral_3_eq_3 split: prod.splits option.splits)
  with that dev set up r w'(2) show thesis by blast
qed

lemma run_account_recover_done:
  assumes "run_account_recover C w = (None, w')"
  obtains E cfg B prefix ring code account floor d0 where "load_account_home C (wd_disk w) = Inr (E, cfg)" "open_backend C E cfg = Inr (B, prefix)"
    "load_profile_ring C cfg B (keyring_object_key prefix) (wd_store w) = Inr ring" "recover_code C cfg ring = Inr (code, account)"
    "floor_of C E 0 cfg (wd_disk w) = (Inr floor, d0)" "check_anchor (ce_keys C) (floor_anchor (ak_public account) floor) ring = None"
    "recover_decide C E cfg B (keyring_object_key prefix) (floor_anchor (ak_public account) floor) code ring (w\<lparr>wd_disk := d0\<rparr>) = (None, w')"
proof -
  note run = assms [unfolded run_account_recover_def]
  obtain E cfg where 1: "load_account_home C (wd_disk w) = Inr (E, cfg)" using run by (auto split: sum.splits)
  have 2: "refuse_enrolled C E (wd_disk w) = None" using run 1 by (auto split: option.splits)
  have 3: "recover_identity C cfg = None" using run 1 2 by (auto split: option.splits)
  obtain B prefix where 4: "open_backend C E cfg = Inr (B, prefix)" using run 1 2 3 by (auto split: sum.splits)
  note run1 = run [unfolded 1 sum.case prod.case 2 option.case 3 4 Let_def]
  obtain ring where 5: "load_profile_ring C cfg B (keyring_object_key prefix) (wd_store w) = Inr ring" using run1 by (auto split: sum.splits)
  obtain code account where 6: "recover_code C cfg ring = Inr (code, account)" using run1 5 by (auto split: sum.splits)
  obtain floor d0 where 7: "floor_of C E 0 cfg (wd_disk w) = (Inr floor, d0)" using run1 5 6 by (auto split: sum.splits prod.splits)
  have 8: "check_anchor (ce_keys C) (floor_anchor (ak_public account) floor) ring = None"
    using run1 5 6 7 by (auto split: option.splits)
  have "recover_decide C E cfg B (keyring_object_key prefix) (floor_anchor (ak_public account) floor) code ring (w\<lparr>wd_disk := d0\<rparr>) = (None, w')"
    using run1 5 6 7 8 by simp
  from that [OF 1 4 5 6 7 8 this] show thesis .
qed

text \<open>The store and the other devices that act on it: etags identify the objects that occur.\<close>

definition store_laws :: "bytes set \<Rightarrow> sha256 \<Rightarrow> (mem_store, 'k) command_env \<Rightarrow> mem_store \<Rightarrow> bool" where
  "store_laws D sha C s \<longleftrightarrow> mem_ok sha s \<and> (\<forall>j s. mem_ok sha s \<longrightarrow> mem_ok sha (ce_others C j s)) \<and> inj_on (etag_of sha) D
     \<and> (\<forall>key. keyring_bytes_in D key s) \<and> (\<forall>j s key. keyring_bytes_in D key s \<longrightarrow> keyring_bytes_in D key (ce_others C j s))"

lemma update_swaps_laws:
  assumes "update_keyring L J (mem_backend sha) key (ce_others C) mutate s = (Inr r, s')" "store_laws D sha C s"
  obtains d k i t where "d \<in> D" "parse_keyring L J d = Inr k" "mutate i k = Inr r" "mem_obj s' key = Some (marshal_keyring J (fst r), t)"
    "length (marshal_keyring J (fst r)) \<le> maxWriteBytes"
proof -
  note l = assms(2) [unfolded store_laws_def]
  from update_keyring_swaps [OF assms(1), of D] l obtain js where js: "keyring_swapped L J key mutate r (mem_obj (others_acted (ce_others C) js s)) (mem_obj s')"
    by blast
  have "keyring_bytes_in D key (others_acted (ce_others C) js s)"
    using l by (induction js rule: rev_induct) (simp_all add: others_acted_def)
  with js that show thesis by (auto simp: keyring_swapped_def keyring_bytes_in_def)
qed

lemma parsed_valid: "parse_keyring L J d = Inr k \<Longrightarrow> check_keyring L k = None"
  by (auto simp: parse_keyring_def split: sum.splits option.splits)

lemma loaded_valid: "load_keyring L J B key s = Inr (k, t) \<Longrightarrow> check_keyring L k = None"
  using parsed_valid by (auto simp: load_keyring_def Let_def split: sum.splits if_splits)

text \<open>A key the new device brings: no keyring that occurs lists it already.\<close>

definition fresh_device :: "bytes set \<Rightarrow> ('s, 'k) command_env \<Rightarrow> bool" where
  "fresh_device D C \<longleftrightarrow> (\<forall>dev d k. ce_new_device C = Inr dev \<longrightarrow> d \<in> D \<longrightarrow> parse_keyring (ce_keys C) (ce_ring C) d = Inr k \<longrightarrow>
     (\<forall>g \<in> set (kr_generations k). \<forall>w \<in> set (gn_devices g). dw_public w \<noteq> ag_recipient (kl_age (ce_keys C)) dev))"

lemma derived_key_nonempty: "derive_account_key L profile code = Inr account \<Longrightarrow> ak_public account \<noteq> []"
proof -
  assume "derive_account_key L profile code = Inr account"
  then obtain x where "ak_public account = b64_encode (sum_bytes x)"
    by (auto simp: derive_account_key_def Let_def split: if_splits sum.splits)
  moreover have "sum_bytes x \<noteq> []" using length_sum_bytes [of x] by (metis list.size(3) zero_neq_numeral)
  ultimately show ?thesis using b64_nonempty by simp
qed

lemma wraps_put_account_key [simp]: "kr_account_key (wraps_put W N k) = kr_account_key k"
  by (simp add: wraps_put_def)

lemma enrol_all_account_key:
  assumes "check_keyring L k = None" "enrol_all L seed keys device (Some r) now k = ((None, app), k')"
  shows "kr_account_key k' = kr_account_key k"
proof -
  have "distinct (map gn_number (kr_generations k))" using check_keyring_None [THEN iffD1, OF assms(1)] by blast
  from enrol_all_put [OF this assms(2) refl] show ?thesis by simp
qed

text \<open>Both ways \<^verbatim>\<open>recover\<close> can succeed leave an enrolled device.\<close>

lemma recover_attaches:
  assumes laws: "install_laws held sha C (wd_disk w)"
    and home: "load_account_home C (wd_disk w) = Inr (E, cfg)" "open_backend C E cfg = Inr (mem_backend sha, prefix)"
    and ring: "load_keyring (ce_keys C) (ce_ring C) (mem_backend sha) (keyring_object_key prefix) (wd_store w) = Inr (ring, etag)"
    and key: "load_device_key C (device_secret_ref (cf_profile_id cfg) (cf_device_id cfg)) (wd_secrets w) = Inr (Some device)"
    and opens: "unwrap_for_device (ce_keys C) ring (cf_device_id cfg) device = Inr (root, earlier)"
    and rec: "record_enrolment C E 1 cfg ring ''recover'' True floor d0 = (None, d2)"
  shows "enrolled_world C sha E (cfg\<lparr>cf_encryption_type := EncryptionRootKey\<rparr>) prefix ring (w\<lparr>wd_disk := d2\<rparr>)"
proof -
  obtain secret where s: "se_get (ce_secrets C) (device_secret_ref (cf_profile_id cfg) (cf_device_id cfg)) (wd_secrets w) = Inr secret"
    "ag_parse (kl_age (ce_keys C)) (trim_space secret) = Inr device"
    using key by (auto simp: load_device_key_def split: sum.splits if_splits)
  have "secret_store (ce_secrets C) held" using laws by (simp add: install_laws_def)
  from secret_store.get_held [OF this s(1)] have h: "held (wd_secrets w) (device_secret_ref (cf_profile_id cfg) (cf_device_id cfg)) = Some secret" .
  obtain d1 where d1: "save_enrolment_confirmed C E 1 cfg ring ''recover'' True d0 = (None, d1)"
    "remember_floor (ce_account C) E 3 (ce_stamp C) floor d1 = (None, d2)"
    using rec by (auto simp: record_enrolment_def numeral_3_eq_3 split: prod.splits option.splits)
  have "enrolled_world C sha E (cfg\<lparr>cf_encryption_type := EncryptionRootKey\<rparr>) prefix ring
      \<lparr>wd_disk = d2, wd_store = wd_store w, wd_secrets = wd_secrets w\<rparr>"
    using d1(2) by (intro enrolled_after_save [OF laws home d1(1) h s(2) opens ring loaded_valid [OF ring]]) blast
  then show ?thesis by (cases w) simp
qed

lemma recover_enrols:
  assumes laws: "install_laws held sha C (wd_disk w)" and store: "store_laws D sha C (wd_store w)" and fresh: "fresh_device D C"
    and home: "load_account_home C (wd_disk w) = Inr (E, cfg)" "open_backend C E cfg = Inr (mem_backend sha, prefix)"
    and run: "recover_enrol C E cfg (mem_backend sha) (keyring_object_key prefix) a code existing (w\<lparr>wd_disk := d0\<rparr>) = (None, w')"
  shows "\<exists>k k'. enrolled_world C sha E (cfg\<lparr>cf_encryption_type := EncryptionRootKey\<rparr>) prefix k' w'
    \<and> check_anchor (ce_keys C) a k = None \<and> kr_account_key k' = kr_account_key k"
proof -
  note l = laws [unfolded install_laws_def]
  obtain device k1 k' s1 d1 d2 where f: "ce_new_device C = Inr device"
    "se_set (ce_secrets C) (device_secret_ref (cf_profile_id cfg) (cf_device_id cfg)) device (wd_secrets w) = (None, k1)"
    "update_keyring (ce_keys C) (ce_ring C) (mem_backend sha) (keyring_object_key prefix) (ce_others C) (recover_mutate C cfg a code device) (wd_store w) = (Inr (k', ()), s1)"
    "save_enrolment_confirmed C E 1 cfg k' ''recover'' True d0 = (None, d1)"
    "remember_floor (ce_account C) E 3 (ce_stamp C) (an_floor a) d1 = (None, d2)"
    and w': "w' = \<lparr>wd_disk = d2, wd_store = s1, wd_secrets = k1\<rparr>"
    by (rule recover_enrol_done [OF run]) simp
  obtain d k i t where u: "d \<in> D" "parse_keyring (ce_keys C) (ce_ring C) d = Inr k" "recover_mutate C cfg a code device i k = Inr (k', ())"
    "mem_obj s1 (keyring_object_key prefix) = Some (marshal_keyring (ce_ring C) k', t)" "length (marshal_keyring (ce_ring C) k') \<le> maxWriteBytes"
    by (rule update_swaps_laws [OF f(3) store]) simp
  obtain keys app where m: "check_anchor (ce_keys C) a k = None" "unwrap_generations_with_recovery_code (ce_keys C) k code = Inr keys"
    "enrol_all (ce_keys C) (ce_seed C i) keys (cf_device_id cfg) (Some (ag_recipient (kl_age (ce_keys C)) device)) (ce_now C) k = ((None, app), k')"
    by (rule recover_mutate_done [OF u(3)])
  have laws': "crypto_laws (ce_keys C)" "secret_store (ce_secrets C) held" "json_law (ce_ring C) k'" using l by blast+
  note valid = parsed_valid [OF u(2)]
  have valid': "check_keyring (ce_keys C) k' = None" using enrol_all_correct [OF laws'(1) valid m(3)] by blast
  obtain root earlier where opens: "unwrap_for_device (ce_keys C) k' (cf_device_id cfg) device = Inr (root, earlier)"
    using enrolled_device_opens [OF laws'(1) valid m(3)] fresh f(1) u(1,2) unfolding fresh_device_def by blast
  have h: "held k1 (device_secret_ref (cf_profile_id cfg) (cf_device_id cfg)) = Some device"
    using secret_store.set_done [OF laws'(2) f(2)] by simp
  have parse: "ag_parse (kl_age (ce_keys C)) (trim_space device) = Inr device" using l f(1) by blast
  have load: "load_keyring (ce_keys C) (ce_ring C) (mem_backend sha) (keyring_object_key prefix) s1 = Inr (k', t)"
    by (rule marshalled_loads [OF laws'(3) valid' u(5,4)])
  have "enrolled_world C sha E (cfg\<lparr>cf_encryption_type := EncryptionRootKey\<rparr>) prefix k' w'"
    unfolding w' using f(5) by (intro enrolled_after_save [OF laws home f(4) h parse opens load valid']) blast
  with m(1) enrol_all_account_key [OF valid m(3)] show ?thesis by blast
qed

text \<open>
  C6. A recovered device can work at once, and on the account its code belongs to. After a successful
  \<^verbatim>\<open>rein account recover\<close>, whether it enrolled a fresh key or attached to an existing one, the record,
  the configuration, the device key and the keyring in the store fit together; the keyring is signed
  under the account key the typed recovery code derives; and the next command gets the keyring's current
  root key. Other devices may act on the store in between.
\<close>
theorem recover_then_sync:
  assumes run: "run_account_recover C w = (None, w')" and laws: "install_laws held sha C (wd_disk w)"
    and store: "store_laws D sha C (wd_store w)" and fresh: "fresh_device D C" and later: "later_command C C'"
  shows "\<exists>E cfg prefix k typed code account. enrolled_world C sha E cfg prefix k w'
    \<and> ce_typed C = Inr typed \<and> normalize_recovery_code (kl_sha (ce_keys C)) typed = Inr code
    \<and> derive_account_key (ce_keys C) (cf_profile_id cfg) code = Inr account \<and> kr_account_key k = ak_public account
    \<and> (\<forall>f d1. floor_of C' E 0 cfg (wd_disk w') = (Inr f, d1) \<longrightarrow> fl_generation f \<le> kr_current k \<longrightarrow>
         (\<exists>eng p. engine_from_config C' pass w' = (Inr eng, d1) \<and> oe_keys eng = RootKeys p
            \<and> provider_recipient (kl_age (ce_keys C)) (Some p) = current_recipient k))"
proof -
  obtain E cfg B prefix ring code account floor d0 where f: "load_account_home C (wd_disk w) = Inr (E, cfg)" "open_backend C E cfg = Inr (B, prefix)"
    "load_profile_ring C cfg B (keyring_object_key prefix) (wd_store w) = Inr ring" "recover_code C cfg ring = Inr (code, account)"
    and ok: "check_anchor (ce_keys C) (floor_anchor (ak_public account) floor) ring = None"
    and dec: "recover_decide C E cfg B (keyring_object_key prefix) (floor_anchor (ak_public account) floor) code ring (w\<lparr>wd_disk := d0\<rparr>) = (None, w')"
    by (rule run_account_recover_done [OF run])
  let ?a = "floor_anchor (ak_public account) floor" and ?cfg = "cfg\<lparr>cf_encryption_type := EncryptionRootKey\<rparr>"
  have B: "B = mem_backend sha" using laws f(2) unfolding install_laws_def by blast
  obtain typed where typed: "ce_typed C = Inr typed" "normalize_recovery_code (kl_sha (ce_keys C)) typed = Inr code"
    "derive_account_key (ce_keys C) (cf_profile_id cfg) code = Inr account"
    using f(4) by (auto simp: recover_code_def split: sum.splits)
  obtain etag where ring: "load_keyring (ce_keys C) (ce_ring C) (mem_backend sha) (keyring_object_key prefix) (wd_store w) = Inr (ring, etag)"
    using f(3) B by (auto simp: load_profile_ring_def split: sum.splits if_splits)
  have pinned: "check_anchor (ce_keys C) ?a k = None \<Longrightarrow> kr_account_key k = ak_public account" for k
    using verified_pins_key derived_key_nonempty [OF typed(3)] by (auto simp: check_anchor_None floor_anchor_def)
  have "\<exists>k. enrolled_world C sha E ?cfg prefix k w' \<and> kr_account_key k = ak_public account"
  proof -
    obtain existing where ex: "load_device_key C (device_secret_ref (cf_profile_id cfg) (cf_device_id cfg)) (wd_secrets w) = Inr existing"
      using dec by (auto simp: recover_decide_def Let_def split: sum.splits)
    show ?thesis
    proof (cases "device_membership (ce_keys C) ring (cf_device_id cfg) existing")
      case Enrolled
      then obtain device where dev: "existing = Some device" by (cases existing) (auto simp: device_membership_def Let_def split: if_splits)
      obtain root earlier where opens: "unwrap_for_device (ce_keys C) ring (cf_device_id cfg) device = Inr (root, earlier)"
        using dec ex Enrolled dev by (auto simp: recover_decide_def Let_def split: sum.splits)
      obtain e d2 where rec: "record_enrolment C E 1 cfg ring ''recover'' True (an_floor ?a) d0 = (e, d2)" by (metis prod.exhaust)
      with dec ex Enrolled dev opens have "e = None" "w' = w\<lparr>wd_disk := d2\<rparr>" by (auto simp: recover_decide_def Let_def)
      with recover_attaches [OF laws f(1) f(2) [unfolded B] ring ex [unfolded dev] opens] rec pinned [OF ok] show ?thesis by auto
    next
      case NotListed
      then have "recover_enrol C E cfg (mem_backend sha) (keyring_object_key prefix) ?a code existing (w\<lparr>wd_disk := d0\<rparr>) = (None, w')"
        using dec ex B by (auto simp: recover_decide_def Let_def split: if_splits)
      from recover_enrols [OF laws store fresh f(1) f(2) [unfolded B] this] pinned show ?thesis by metis
    qed (use dec ex in \<open>simp_all add: recover_decide_def Let_def\<close>)
  qed
  then obtain k where en: "enrolled_world C sha E ?cfg prefix k w'" "kr_account_key k = ak_public account" by blast
  have sound: "account_sound (ce_account C) a" for a using laws by (simp add: install_laws_def)
  have "\<exists>eng p. engine_from_config C' pass w' = (Inr eng, d1) \<and> oe_keys eng = RootKeys p
            \<and> provider_recipient (kl_age (ce_keys C)) (Some p) = current_recipient k"
    if "floor_of C' E 0 ?cfg (wd_disk w') = (Inr fl, d1)" "fl_generation fl \<le> kr_current k" for fl d1
    using enrolled_world_syncs [OF en(1) later sound that] by blast
  moreover have "derive_account_key (ce_keys C) (cf_profile_id ?cfg) code = Inr account" using typed(3) by simp
  ultimately show ?thesis using en typed(1,2)
    by (intro exI [of _ E] exI [of _ ?cfg] exI [of _ prefix] exI [of _ k] exI [of _ typed] exI [of _ code] exI [of _ account]) blast
qed

end
