(* ===== verification/Account_Witness.thy ===== *)
theory Account_Witness
  imports Account_Props Concrete_Codecs
begin

section \<open>A concrete installation\<close>

text \<open>
  One home \<open>/h\<close> with a configuration for profile \<open>p\<close>, encoded as its key model; the in-process store, a
  memory secret store and the toy key library. The first device is \<open>d\<close> with key \<open>i\<close>, the second \<open>e\<close> with \<open>j\<close>.
\<close>

definition toy_config :: "string \<Rightarrow> string \<Rightarrow> config" where
  "toy_config device key_model = (default_config [] ''p'' device)\<lparr>cf_encryption_type := key_model\<rparr>"

definition toy_toml :: "string \<Rightarrow> toml_lib" where
  "toy_toml device = \<lparr>tl_decode = (\<lambda>b. Inr (toy_config device (if b = ''r'' then EncryptionRootKey else EncryptionPassphrase))),
     tl_encode = (\<lambda>c. Inr (if cf_encryption_type c = EncryptionRootKey then ''r'' else ''s''))\<rparr>"

definition toy_state_json :: state_json where
  "toy_state_json = \<lparr>sj_version = (\<lambda>b. Inl ''none''), sj_decode = (\<lambda>b. Inl ''none''), sj_encode = (\<lambda>s. [])\<rparr>"

definition toy_entropy :: bytes where "toy_entropy = replicate 18 CHR 0x00"
definition toy_drawn_code :: string where "toy_drawn_code = generate_recovery_code (\<lambda>_. 0) toy_entropy"

definition toy_command :: "keyring_json \<Rightarrow> string \<Rightarrow> string \<Rightarrow> string \<Rightarrow> (mem_store, mem_secrets) command_env" where
  "toy_command J device key now = \<lparr>ce_keys = toy_keys, ce_ring = J, ce_toml = toy_toml device, ce_account = toy_account_json,
     ce_hop = toy_hop_json, ce_files = toy_home, ce_home_var = ''/h'', ce_user_home = Inl ''no home'', ce_secrets = mem_secret_ops,
     ce_memory = True, ce_disk_store = (\<lambda>_. Inr (mem_backend (\<lambda>_. 0))), ce_hosted = Inl not_enrolled_exit,
     ce_resolve = (\<lambda>_. Inl SecretNotFound), ce_s3 = (\<lambda>_ _. Inl ''none''), ce_token = Inr toy_token, ce_others = (\<lambda>_ s. s),
     ce_now = now, ce_stamp = now, ce_new_root = Inr toy_root, ce_new_code = Inr toy_entropy, ce_new_device = Inr key,
     ce_seed = (\<lambda>_ _. 0), ce_salt = [], ce_nonce = toy_nonce, ce_typed = Inr toy_drawn_code, ce_floor_reply = HttpReply 404 [],
     ce_last_error = None, ce_state = toy_state_json, ce_cached = [], ce_passphrase = Inl ''none''\<rparr>"

definition toy_disk :: disk where
  "toy_disk = [(''/h'', None), (''/h/config.toml'', Some ''s'')]"

definition toy_world :: "mem_store \<Rightarrow> (mem_store, mem_secrets) world" where
  "toy_world s = \<lparr>wd_disk = toy_disk, wd_store = s, wd_secrets = (\<lambda>_. None)\<rparr>"

lemma toy_command_fields [simp]:
  "ce_keys (toy_command J device key now) = toy_keys" "ce_ring (toy_command J device key now) = J"
  "ce_toml (toy_command J device key now) = toy_toml device" "ce_account (toy_command J device key now) = toy_account_json"
  "ce_secrets (toy_command J device key now) = mem_secret_ops" "ce_new_device (toy_command J device key now) = Inr key"
  "ce_now (toy_command J device key now) = now" "ce_others (toy_command J device key now) = (\<lambda>_ s. s)"
  "ce_nonce (toy_command J device key now) = toy_nonce" "ce_typed (toy_command J device key now) = Inr toy_drawn_code"
  "ce_seed (toy_command J device key now) = (\<lambda>_ _. 0)"
  by (simp_all add: toy_command_def)

lemma toy_paths: "account_path ''/h'' = ''/h/account.json''" "config_path ''/h'' = ''/h/config.toml''"
  "config_home ''/h'' u = Inr ''/h''" "mkdir_all (path_dir ''/h/account.json'') d = make_dirs [''/h''] d"
  "mkdir_all (path_dir ''/h/config.toml'') d = make_dirs [''/h''] d" "path_clean ''/h'' = ''/h''"
proof -
  have c: "dir_chain (path_dir ''/h/account.json'') = [''/h'']" "dir_chain (path_dir ''/h/config.toml'') = [''/h'']" by code_simp+
  show "mkdir_all (path_dir ''/h/account.json'') d = make_dirs [''/h''] d" "mkdir_all (path_dir ''/h/config.toml'') d = make_dirs [''/h''] d"
    unfolding mkdir_all_def c by (rule refl)+
  have "trim_space ''/h'' = ''/h''" "is_abs ''/h''" by code_simp+
  moreover show clean: "path_clean ''/h'' = ''/h''" by code_simp
  ultimately show "config_home ''/h'' u = Inr ''/h''" by (simp add: config_home_def)
  show "account_path ''/h'' = ''/h/account.json''" "config_path ''/h'' = ''/h/config.toml''" by code_simp+
qed

lemma toy_install_file:
  assumes "map_of d ''/h'' = Some None" "p = ''/h/account.json'' \<or> p = ''/h/config.toml''" "map_of d p \<noteq> Some None"
  shows "\<exists>d'. write_file_atomic (\<lambda>_. None) (''/h/.t'' @ nat_dec i) p b d = (None, d') \<and> map_of d' ''/h'' = Some None
    \<and> map_of d' p = Some (Some b) \<and> (\<forall>q \<in> {''/h/account.json'', ''/h/config.toml''}. q \<noteq> p \<longrightarrow> map_of d' q = map_of d q)"
proof -
  have mk: "mkdir_all (path_dir p) d = Inr d" using assms(1,2) toy_paths(4,5) by (auto simp: make_dir_def)
  have "map_of (AList.update (''/h/.t'' @ nat_dec i) (Some b) d) p \<noteq> Some None" using assms(2,3) by (auto simp: update_conv')
  with mk assms(1,2) show ?thesis by (auto simp: write_file_atomic_def Let_def update_conv' delete_conv')
qed

lemma toy_plain_lines: "find (key_refused ''s'') forbidden_config_keys = None" "find (key_refused ''r'') forbidden_config_keys = None"
  by code_simp+

lemma toy_config_valid: "device \<noteq> [] \<Longrightarrow> m = EncryptionRootKey \<or> m = EncryptionPassphrase \<Longrightarrow> config_valid (toy_config device m)"
  by (auto simp: config_valid_def toy_config_def default_config_def ConfigSchemaVersion_def)

lemma toy_config_fields [simp]: "cf_profile_id (toy_config device m) = ''p''" "cf_device_id (toy_config device m) = device"
  "cf_encryption_type (toy_config device m) = m" "(toy_config device m)\<lparr>cf_encryption_type := m'\<rparr> = toy_config device m'"
  "st_prefix (cf_storage (toy_config device m)) = []" "st_type (cf_storage (toy_config device m)) = ''s3''"
  by (simp_all add: toy_config_def default_config_def)

lemma toy_home_loads:
  assumes "device \<noteq> []"
  shows "load_account_home (toy_command J device key now) toy_disk = Inr (toy_home, toy_config device EncryptionPassphrase)"
proof -
  have "read_file (config_path ''/h'') toy_disk = Inr ''s''" unfolding toy_paths by (simp add: read_file_def toy_disk_def)
  then have "load_config (toy_toml device) toy_home toy_disk = Inr (toy_config device EncryptionPassphrase)"
    using toy_plain_lines(1) validate_config_valid [OF toy_config_valid [OF assms]]
    by (simp add: load_config_def toy_home_def toy_toml_def)
  moreover have "toy_home\<lparr>he_home := ''/h''\<rparr> = toy_home" by (simp add: toy_home_def)
  ultimately show ?thesis by (simp add: load_account_home_def toy_command_def toy_paths Let_def)
qed

lemma toy_install:
  assumes "device \<noteq> []" "trim_space key = key" "\<And>k. json_law J k"
  shows "install_laws (\<lambda>m. m) (\<lambda>_. 0) (toy_command J device key now) toy_disk"
proof -
  let ?C = "toy_command J device key now"
  have d: "he_tmp toy_home i \<noteq> account_path (he_home toy_home) \<and> he_tmp toy_home i \<noteq> config_path (he_home toy_home)" for i
    unfolding toy_home_def by (simp add: toy_paths)
  have apart: "tmp_apart toy_home" using d by (simp add: tmp_apart_def) (simp add: toy_home_def)
  have sound: "config_sound (toy_toml device) (toy_config device EncryptionRootKey)"
    using config_defaults_valid [OF toy_config_valid [OF assms(1)]] toy_plain_lines
    by (simp add: config_sound_def toy_toml_def EncryptionPassphrase_def EncryptionRootKey_def)
  have "B = mem_backend (\<lambda>_. 0)" if "open_backend ?C E cfg = Inr (B, p)" for E cfg B p
    using that by (simp add: open_backend_def toy_command_def)
  moreover have "ag_parse (kl_age toy_keys) (trim_space key) = Inr key" using assms(2) by (simp add: toy_keys_def toy_age_def)
  moreover have "tmp_apart E \<and> config_sound (toy_toml device) (cfg\<lparr>cf_encryption_type := EncryptionRootKey\<rparr>)"
    if "load_account_home ?C toy_disk = Inr (E, cfg)" for E cfg
    using that toy_home_loads [OF assms(1)] apart sound by auto
  ultimately show ?thesis
    using toy_laws assms(3) toy_account_sound mem_secret.secret_store_axioms
    by (simp add: install_laws_def) (simp add: mem_secret_ops_def mem_get_secret_def)
qed

lemma toy_save:
  assumes "device \<noteq> []" "validate_account (Some (enrolment_record (toy_config device EncryptionPassphrase) now k via c)) = None"
  shows "\<exists>d'. save_enrolment_confirmed (toy_command J device key now) toy_home n (toy_config device EncryptionPassphrase) k via c toy_disk = (None, d')"
proof -
  have T: "he_tmp toy_home i = ''/h/.t'' @ nat_dec i" "he_fault toy_home i = (\<lambda>_. None)" for i by (simp_all add: toy_home_def)
  have H: "config_path (he_home toy_home) = ''/h/config.toml''" "account_path (he_home toy_home) = ''/h/account.json''"
    by (simp_all add: toy_home_def toy_paths)
  obtain d1 where d1: "write_file_atomic (\<lambda>_. None) (''/h/.t'' @ nat_dec n) ''/h/config.toml'' ''r'' toy_disk = (None, d1)"
    "map_of d1 ''/h'' = Some None" "map_of d1 ''/h/account.json'' = None"
    using toy_install_file [of toy_disk "''/h/config.toml''" n "''r''"] by (auto simp: toy_disk_def)
  have save: "save_config (toy_toml device) toy_home n (toy_config device EncryptionRootKey) toy_disk = (None, d1)"
    using d1(1) validate_config_valid [OF toy_config_valid [OF assms(1)]]
    by (simp add: save_config_def T H toy_toml_def)
  obtain d2 where "write_file_atomic (\<lambda>_. None) (''/h/.t'' @ nat_dec (Suc n)) ''/h/account.json''
      (aj_encode toy_account_json (enrolment_record (toy_config device EncryptionPassphrase) now k via c) @ [CHR 0x0A]) d1 = (None, d2)"
    using toy_install_file [of d1 "''/h/account.json''" "Suc n"] d1(2,3) by auto
  with assms(2) save show ?thesis by (simp add: save_enrolment_confirmed_def save_account_def T H)
qed

lemma toy_drawn_canonical: "normalize_recovery_code (\<lambda>_. 0) toy_drawn_code = Inr toy_drawn_code"
proof -
  have "length toy_entropy = recoveryDataBytes" by (simp add: toy_entropy_def recoveryDataBytes_def)
  from recovery.norm_generated [OF generated_data [OF this]]
  show ?thesis by (simp add: generate_recovery_code_def toy_drawn_code_def Let_def)
qed

lemma toy_first_ring:
  obtains k where "new_keyring toy_keys 0 [] toy_nonce ''p'' toy_root toy_drawn_code ''d'' (Some ''i'') now = Inr k"
  using toy_root_recipient [of toy_keys toy_root] toy_drawn_canonical
  by (auto simp: new_keyring_def wrap_under_recovery_code_def derive_account_key_def toy_root_def toy_keys_def Let_def)

lemma toy_record_valid:
  assumes "current_recipient k \<noteq> []" "kr_account_key k \<noteq> []" "1 \<le> kr_current k" "device \<noteq> []"
    "via \<in> {''init'', ''recover'', ''join''}" "now \<noteq> []"
  shows "validate_account (Some (enrolment_record (toy_config device m) now k via c)) = None"
  using assms by (simp add: validate_account_None enrolment_record_def)

lemma toy_ring_facts:
  assumes "new_keyring toy_keys 0 [] toy_nonce ''p'' toy_root toy_drawn_code ''d'' (Some ''i'') now = Inr k"
  shows "check_keyring toy_keys k = None" "current_recipient k \<noteq> []" "kr_account_key k = b64_encode (sum_bytes 0)" "kr_account_key k \<noteq> []"
    "kr_current k = 1" "kr_profile k = ''p''" "kr_schema k = keyring_schema_version" "has_device k x \<longleftrightarrow> x = ''d''"
    "unwrap_generations_with_recovery_code toy_keys k toy_drawn_code = Inr [(1, toy_root)]"
    "\<And>g w. g \<in> set (kr_generations k) \<Longrightarrow> w \<in> set (gn_devices g) \<Longrightarrow> dw_public w = ''i''"
    "root_recipient toy_keys toy_root = Inr (current_recipient k)"
proof -
  obtain recipient account g where f: "root_recipient toy_keys toy_root = Inr recipient" "derive_account_key toy_keys ''p'' toy_drawn_code = Inr account"
    "kr_profile k = ''p''" "kr_current k = 1" "kr_account_key k = ak_public account"
    and g: "kr_generations k = [g]" "gn_number g = 1" "gn_recipient g = recipient"
      "gn_devices g = [wrap_for_device toy_keys 0 toy_root ''d'' (ag_recipient (kl_age toy_keys) ''i'') now (''p'', 1)]" "gn_revoked g = []"
    using new_keyring_facts [OF assms] by metis
  have cur: "kr_current_generation k = Some g" using g(1,2) f(4) by (simp add: kr_current_generation_def kr_generation_def)
  show valid: "check_keyring toy_keys k = None" using new_keyring_valid [OF assms] toy_laws by (auto simp: crypto_laws_def)
  obtain vs where "root_recipient toy_keys toy_root = Inr (''AGE-SECRET-KEY-1'' @ to_upper vs)"
    using toy_root_recipient [of toy_keys toy_root] by (auto simp: toy_root_def)
  with f(1) have rec: "recipient \<noteq> []" by auto
  show "current_recipient k \<noteq> []" "root_recipient toy_keys toy_root = Inr (current_recipient k)"
    using cur g(3) rec f(1) by (simp_all add: current_recipient_def)
  show key: "kr_account_key k = b64_encode (sum_bytes 0)"
    using f(2,5) by (auto simp: derive_account_key_def Let_def toy_keys_def split: sum.splits)
  have "sum_bytes 0 \<noteq> []" using length_sum_bytes [of 0] by (metis list.size(3) zero_neq_numeral)
  then show "kr_account_key k \<noteq> []" using key b64_nonempty by simp
  show "kr_current k = 1" "kr_profile k = ''p''" by fact+
  show "kr_schema k = keyring_schema_version" using valid unfolding check_keyring_None by blast
  show "has_device k x \<longleftrightarrow> x = ''d''" using cur g(4) by (auto simp: has_device_def list_ex_iff wrap_for_device_def)
  have "unwrap_recovery toy_keys (gn_recovery g) toy_drawn_code (binding_for k g) = Inr toy_root"
    using new_keyring_opens(2) [OF toy_laws _ _ assms] toy_drawn_canonical
    by (simp add: unwrap_with_recovery_code_def cur toy_keys_def toy_nonce_def nonce_size_def)
  then show "unwrap_generations_with_recovery_code toy_keys k toy_drawn_code = Inr [(1, toy_root)]"
    using g(1,2) f(4) cur
    by (simp add: unwrap_generations_with_recovery_code_def unwrap_with_recovery_code_def generation_numbers_def)
  show "dw_public w = ''i''" if "h \<in> set (kr_generations k)" "w \<in> set (gn_devices h)" for h w
    using that g(1,4) by (simp add: wrap_for_device_def toy_keys_def toy_age_def)
qed

text \<open>The first device initializes, and the next command has the key.\<close>

lemma toy_check_write: "length raw = 2 \<Longrightarrow> check_write_size k raw = None"
  by (simp add: check_write_size_def maxWriteBytes_def maxObjectBytes_def)

lemma toy_init_runs:
  obtains k w' where "run_account_init (toy_command (short_ring_json k k) ''d'' ''i'' ''t'') (toy_world []) = (None, w')"
proof -
  obtain k where new: "new_keyring toy_keys 0 [] toy_nonce ''p'' toy_root toy_drawn_code ''d'' (Some ''i'') ''t'' = Inr k"
    by (rule toy_first_ring)
  note f = toy_ring_facts [OF new]
  let ?C = "toy_command (short_ring_json k k) ''d'' ''i'' ''t''" and ?cfg = "toy_config ''d'' EncryptionPassphrase"
  let ?key = "keyring_object_key []"
  have home: "load_account_home ?C toy_disk = Inr (toy_home, ?cfg)" by (rule toy_home_loads) simp
  have opened: "open_backend ?C toy_home ?cfg = Inr (mem_backend (\<lambda>_. 0), [])" by (simp add: open_backend_def toy_command_def)
  have fresh: "refuse_enrolled ?C toy_home toy_disk = None"
    by (simp add: refuse_enrolled_def load_account_def read_file_def toy_home_def toy_paths) (simp add: toy_disk_def is_not_exist_def)
  have empty: "load_keyring toy_keys (short_ring_json k k) (mem_backend (\<lambda>_. 0)) ?key [] = Inl KeyringNotFound"
    by (simp add: load_keyring_def mem_backend_simps mem_get_def)
  have "\<exists>s1. create_keyring (short_ring_json k k) (mem_backend (\<lambda>_. 0)) ?key k [] = (Inr (), s1)"
    using toy_check_write [OF short_ring_length [of k k k]] f(7)
    by (simp add: create_keyring_def mem_backend_simps mem_put_def create_options_def Let_def)
  then obtain s1 where create: "create_keyring (short_ring_json k k) (mem_backend (\<lambda>_. 0)) ?key k [] = (Inr (), s1)" by blast
  obtain d1 where save: "save_enrolment_confirmed ?C toy_home 0 ?cfg k ''init'' True toy_disk = (None, d1)"
    using toy_save [of "''d''" "''t''" k "''init''" True "short_ring_json k k" "''i''" 0] toy_record_valid [of k "''d''" "''init''"] f(2,4,5) by auto
  have "ref \<noteq> [] \<Longrightarrow> se_get mem_secret_ops ref (\<lambda>_. None) = Inl SecretNotFound
      \<and> se_set mem_secret_ops ref ''i'' (\<lambda>_. None) = (None, [ref \<mapsto> ''i''])" for ref
    by (simp add: mem_secret_ops_def mem_get_secret_def mem_set_secret_def)
  moreover have "device_secret_ref ''p'' ''d'' \<noteq> []" by (simp add: device_secret_ref_def)
  ultimately have "\<exists>w'. init_commit ?C toy_home ?cfg (mem_backend (\<lambda>_. 0)) ?key k ''i'' (toy_world []) = (None, w')"
    using create save by (simp add: init_commit_def refuse_existing_secret_def save_enrolment_def toy_world_def)
  then obtain w' where commit: "init_commit ?C toy_home ?cfg (mem_backend (\<lambda>_. 0)) ?key k ''i'' (toy_world []) = (None, w')" by blast
  have lib: "ce_new_root ?C = Inr toy_root" "ce_new_code ?C = Inr toy_entropy" "ce_salt ?C = []" "kl_sha toy_keys = (\<lambda>_. 0)"
    by (simp_all add: toy_command_def toy_keys_def)
  have disk: "wd_disk (toy_world []) = toy_disk" "wd_store (toy_world []) = []" by (simp_all add: toy_world_def)
  have "run_account_init ?C (toy_world []) = (None, w')"
    unfolding run_account_init_def disk home fresh opened sum.case option.case prod.case Let_def
    using commit new empty toy_drawn_canonical by (simp add: lib toy_drawn_code_def [symmetric])
  with that show thesis .
qed

text \<open>The toy configuration is not hosted, so there is no floor.\<close>

lemma toy_floor:
  assumes "load_account_home (toy_command J device key now) d = Inr (E, cfg)"
  shows "floor_of (toy_command J device key now) E 0 cfg d = (Inr (no_key_generation_floor FromNoControlPlane), d)"
proof -
  obtain c0 m where "tl_decode (toy_toml device) m = Inr c0" "validate_config (Some c0) = (None, Some cfg)"
    using assms load_config_Inr by (auto simp: load_account_home_def Let_def split: sum.splits)
  moreover from this obtain t where "c0 = toy_config device t" by (auto simp: toy_toml_def)
  ultimately have "st_type (cf_storage cfg) = ''s3''"
    by (auto simp: validate_config_def toy_config_def default_config_def Let_def split: if_splits)
  then show ?thesis by (simp add: floor_of_def confirm_floor_def StorageHop_def)
qed

theorem init_then_sync_witness:
  "\<exists>J w' eng d p. run_account_init (toy_command J ''d'' ''i'' ''t'') (toy_world []) = (None, w')
    \<and> engine_from_config (toy_command J ''d'' ''i'' ''t'') [] w' = (Inr eng, d) \<and> oe_keys eng = RootKeys p
    \<and> root_recipient toy_keys toy_root = Inr (provider_recipient (kl_age toy_keys) (Some p))"
proof -
  obtain k w' where run: "run_account_init (toy_command (short_ring_json k k) ''d'' ''i'' ''t'') (toy_world []) = (None, w')"
    by (rule toy_init_runs)
  let ?C = "toy_command (short_ring_json k k) ''d'' ''i'' ''t''"
  have trim: "trim_space ''i'' = ''i''" by code_simp
  have laws: "install_laws (\<lambda>m. m) (\<lambda>_. 0) ?C (wd_disk (toy_world []))"
    using toy_install [of "''d''" "''i''" "short_ring_json k k" "''t''"] trim short_ring_law by (simp add: toy_world_def)
  have nonce: "length (ce_nonce ?C) = nonce_size" by (simp add: toy_nonce_def nonce_size_def)
  have later: "later_command ?C ?C" by (simp add: later_command_def)
  obtain E cfg prefix k' root where en: "enrolled_world ?C (\<lambda>_. 0) E cfg prefix k' w'" and root: "ce_new_root ?C = Inr root"
    and sync: "\<forall>f d1. floor_of ?C E 0 cfg (wd_disk w') = (Inr f, d1) \<longrightarrow> fl_generation f \<le> 1 \<longrightarrow>
         (\<exists>eng p. engine_from_config ?C [] w' = (Inr eng, d1) \<and> oe_keys eng = RootKeys p
            \<and> root_recipient (ce_keys ?C) root = Inr (provider_recipient (kl_age (ce_keys ?C)) (Some p)))"
    using init_then_sync [OF run laws nonce later, of "[]"] by blast
  have "load_account_home ?C (wd_disk w') = Inr (E, cfg)" using en by (simp add: enrolled_world_def)
  from toy_floor [OF this] sync have "\<exists>eng d p. engine_from_config ?C [] w' = (Inr eng, d) \<and> oe_keys eng = RootKeys p
      \<and> root_recipient (ce_keys ?C) root = Inr (provider_recipient (kl_age (ce_keys ?C)) (Some p))"
    by (fastforce simp: no_key_generation_floor_def)
  moreover have "root = toy_root" using root by (simp add: toy_command_def)
  ultimately show ?thesis using run by (metis toy_command_fields(1))
qed

text \<open>A second device recovers from the store the first one filled.\<close>

definition toy_ring_store :: "keyring_json \<Rightarrow> keyring \<Rightarrow> mem_store" where
  "toy_ring_store J k = [(keyring_object_key [], \<lparr>ob_data = marshal_keyring J k, ob_etag = etag_of (\<lambda>_. 0) (marshal_keyring J k)\<rparr>)]"

lemma toy_ring_loads:
  assumes "check_keyring toy_keys k = None" "kr_schema k = keyring_schema_version" "k \<in> {k0, k1}"
  shows "load_keyring toy_keys (short_ring_json k0 k1) (mem_backend (\<lambda>_. 0)) (keyring_object_key []) (toy_ring_store (short_ring_json k0 k1) k)
      = Inr (k, etag_of (\<lambda>_. 0) (marshal_keyring (short_ring_json k0 k1) k))"
proof (rule marshalled_loads [OF short_ring_law assms(1)])
  show "length (marshal_keyring (short_ring_json k0 k1) k) \<le> maxWriteBytes"
    using short_ring_length [OF assms(3,2)] by (simp add: maxWriteBytes_def maxObjectBytes_def)
qed (simp add: toy_ring_store_def mem_obj_def)

lemma unlisted_key: "\<not> has_device k device \<Longrightarrow> device_public_key k device = []"
  by (auto simp: device_public_key_def has_device_def list_ex_iff find_Some_iff split: option.splits)

lemma toy_second_enrols:
  assumes "new_keyring toy_keys 0 [] toy_nonce ''p'' toy_root toy_drawn_code ''d'' (Some ''i'') ''t'' = Inr k"
  obtains app k' where "enrol_all toy_keys (\<lambda>_. 0) [(1, toy_root)] ''e'' (Some ''j'') ''u'' k = ((None, app), k')"
proof -
  note f = toy_ring_facts [OF assms]
  obtain g where g: "kr_current_generation k = Some g" "gn_recipient g = current_recipient k"
    using f(1) unfolding check_keyring_None by (auto simp: current_recipient_def split: option.splits)
  have "\<exists>k'. enrol toy_keys 0 toy_root ''e'' (Some ''j'') ''u'' k = Inr k'"
    using g f(8) [of "''e''"] f(11) by (auto simp: enrol_def check_current_root_key_def)
  then obtain k' where "enrol toy_keys 0 toy_root ''e'' (Some ''j'') ''u'' k = Inr k'" by blast
  then have "\<exists>app. enrol_all toy_keys (\<lambda>_. 0) [(1, toy_root)] ''e'' (Some ''j'') ''u'' k = ((None, app), k')"
    by (simp add: enrol_all_def f(5))
  with that show thesis by blast
qed

lemma toy_recover_runs:
  obtains k k' w' where "run_account_recover (toy_command (short_ring_json k k') ''e'' ''j'' ''u'') (toy_world (toy_ring_store (short_ring_json k k') k)) = (None, w')"
    "new_keyring toy_keys 0 [] toy_nonce ''p'' toy_root toy_drawn_code ''d'' (Some ''i'') ''t'' = Inr k"
proof -
  obtain k where new: "new_keyring toy_keys 0 [] toy_nonce ''p'' toy_root toy_drawn_code ''d'' (Some ''i'') ''t'' = Inr k"
    by (rule toy_first_ring)
  note f = toy_ring_facts [OF new]
  obtain app k' where all: "enrol_all toy_keys (\<lambda>_. 0) [(1, toy_root)] ''e'' (Some ''j'') ''u'' k = ((None, app), k')"
    by (rule toy_second_enrols [OF new])
  have j: "ag_recipient (kl_age toy_keys) ''j'' = ''j''" by (simp add: toy_keys_def toy_age_def)
  have "enrol_all toy_keys (\<lambda>_. 0) [(1, toy_root)] ''e'' (Some (ag_recipient (kl_age toy_keys) ''j'')) ''u'' k = ((None, app), k')"
    using all j by simp
  from enrol_all_correct [OF toy_laws f(1) this] have valid': "check_keyring toy_keys k' = None" by blast
  have d: "distinct (map gn_number (kr_generations k))" using f(1) unfolding check_keyring_None by blast
  from enrol_all_put [OF d all refl] have put: "k' = wraps_put (\<lambda>n. wrap_for_device toy_keys 0 (the (map_of [(1, toy_root)] n)) ''e'' ''j'' ''u'' (kr_profile k, n)) {1} k"
    by simp
  have ring': "kr_current k' = 1" "kr_account_key k' = kr_account_key k" "kr_schema k' = keyring_schema_version"
    using valid' f(5) unfolding check_keyring_None by (simp_all add: put)
  let ?J = "short_ring_json k k'"
  let ?C = "toy_command ?J ''e'' ''j'' ''u''" and ?cfg = "toy_config ''e'' EncryptionPassphrase" and ?s = "toy_ring_store ?J k"
  let ?key = "keyring_object_key []" and ?floor = "no_key_generation_floor FromNoControlPlane"
  have home: "load_account_home ?C toy_disk = Inr (toy_home, ?cfg)" by (rule toy_home_loads) simp
  have opened: "open_backend ?C toy_home ?cfg = Inr (mem_backend (\<lambda>_. 0), [])" by (simp add: open_backend_def toy_command_def)
  have fresh: "refuse_enrolled ?C toy_home toy_disk = None"
    by (simp add: refuse_enrolled_def load_account_def read_file_def toy_home_def toy_paths) (simp add: toy_disk_def is_not_exist_def)
  have load: "load_keyring toy_keys ?J (mem_backend (\<lambda>_. 0)) ?key ?s = Inr (k, etag_of (\<lambda>_. 0) (marshal_keyring ?J k))"
    using toy_ring_loads f(1,7) by simp
  obtain account where acc: "derive_account_key toy_keys ''p'' toy_drawn_code = Inr account" "ak_public account = kr_account_key k"
    using new_keyring_facts [OF new] by metis
  have code: "recover_code ?C ?cfg k = Inr (toy_drawn_code, account)"
    using toy_drawn_canonical f(9) acc(1) by (simp add: recover_code_def toy_keys_def)
  have floor: "floor_of ?C toy_home 0 ?cfg toy_disk = (Inr ?floor, toy_disk)" by (rule toy_floor [OF home])
  let ?a = "floor_anchor (kr_account_key k) ?floor"
  have "verify_generations toy_keys k [] = None" using f(1) unfolding check_keyring_None by blast
  from verified_own_key [OF this] have ok: "check_anchor toy_keys ?a k = None"
    using f(5) by (simp add: check_anchor_None floor_anchor_def no_key_generation_floor_def pinned_def)
  have mutate: "recover_mutate ?C ?cfg ?a toy_drawn_code ''j'' i k = Inr (k', ())" for i
    using ok f(9) all j by (simp add: recover_mutate_def trust_keyring_def)
  have retries: "maxUpdateRetries = Suc 7" by (simp add: maxUpdateRetries_def)
  have "\<exists>m s1. be_put (mem_backend (\<lambda>_. 0)) ?key (marshal_keyring ?J k') (swap_options (etag_of (\<lambda>_. 0) (marshal_keyring ?J k))) ?s = (Inr m, s1)"
    by (simp add: mem_backend_simps mem_put_def toy_ring_store_def swap_options_def Let_def)
  then obtain s1 where up: "update_keyring toy_keys ?J (mem_backend (\<lambda>_. 0)) ?key (\<lambda>_ s. s) (recover_mutate ?C ?cfg ?a toy_drawn_code ''j'') ?s = (Inr (k', ()), s1)"
    unfolding update_keyring_def retries update_keyring_loop.simps(2)
    using load mutate toy_check_write [OF short_ring_length [of k' k k']] ring'(3) by auto
  obtain d1 where save: "save_enrolment_confirmed ?C toy_home 1 ?cfg k' ''recover'' True toy_disk = (None, d1)"
  proof -
    have "current_recipient k' = current_recipient k"
      by (simp add: put current_recipient_def kr_current_generation_def wraps_put_generation split: option.splits)
    with toy_save [of "''e''" "''u''" k' "''recover''" True ?J "''j''" 1] toy_record_valid [of k' "''e''" "''recover''" "''u''" EncryptionPassphrase True] f(2,4) ring' that
    show thesis by auto
  qed
  then have "record_enrolment ?C toy_home 1 ?cfg k' ''recover'' True ?floor toy_disk = (None, d1)"
    by (simp add: record_enrolment_def remember_floor_def no_key_generation_floor_def)
  moreover have "an_floor ?a = ?floor" by (simp add: floor_anchor_def)
  moreover have get: "se_get mem_secret_ops ref (\<lambda>_. None) = Inl SecretNotFound" for ref
    by (simp add: mem_secret_ops_def mem_get_secret_def)
  moreover have "se_set mem_secret_ops (device_secret_ref ''p'' ''e'') ''j'' (\<lambda>_. None) = (None, [device_secret_ref ''p'' ''e'' \<mapsto> ''j''])"
    by (simp add: mem_secret_ops_def mem_set_secret_def device_secret_ref_def)
  ultimately have "\<exists>w'. recover_enrol ?C toy_home ?cfg (mem_backend (\<lambda>_. 0)) ?key ?a toy_drawn_code None (toy_world ?s) = (None, w')"
    using up by (simp add: recover_enrol_def toy_world_def)
  moreover have "device_membership toy_keys k ''e'' None = NotListed"
    using f(8) [of "''e''"] unlisted_key [of k "''e''"] by (simp add: device_membership_def)
  ultimately obtain w' where dec: "recover_decide ?C toy_home ?cfg (mem_backend (\<lambda>_. 0)) ?key ?a toy_drawn_code k (toy_world ?s) = (None, w')"
    using get by (auto simp: recover_decide_def load_device_key_def toy_world_def Let_def)
  have disk: "wd_disk (toy_world ?s) = toy_disk" "wd_store (toy_world ?s) = ?s" "(toy_world ?s)\<lparr>wd_disk := toy_disk\<rparr> = toy_world ?s"
    by (simp_all add: toy_world_def)
  have idn: "recover_identity ?C ?cfg = None" by (simp add: recover_identity_def StorageHop_def)
  have ring: "load_profile_ring ?C ?cfg (mem_backend (\<lambda>_. 0)) ?key ?s = Inr k" using load f(6) by (simp add: load_profile_ring_def)
  have "run_account_recover ?C (toy_world ?s) = (None, w')"
    unfolding run_account_recover_def disk home fresh idn opened sum.case option.case prod.case Let_def ring code floor acc(2)
    using ok dec by simp
  with that new show thesis by blast
qed

theorem recover_then_sync_witness:
  "\<exists>J s w' eng d p k. run_account_recover (toy_command J ''e'' ''j'' ''u'') (toy_world s) = (None, w')
    \<and> engine_from_config (toy_command J ''e'' ''j'' ''u'') [] w' = (Inr eng, d) \<and> oe_keys eng = RootKeys p
    \<and> provider_recipient (kl_age toy_keys) (Some p) = current_recipient k \<and> kr_account_key k \<noteq> []"
proof -
  obtain k k' w' where run: "run_account_recover (toy_command (short_ring_json k k') ''e'' ''j'' ''u'') (toy_world (toy_ring_store (short_ring_json k k') k)) = (None, w')"
    and new: "new_keyring toy_keys 0 [] toy_nonce ''p'' toy_root toy_drawn_code ''d'' (Some ''i'') ''t'' = Inr k" by (rule toy_recover_runs)
  note f = toy_ring_facts [OF new]
  let ?J = "short_ring_json k k'"
  let ?C = "toy_command ?J ''e'' ''j'' ''u''" and ?w = "toy_world (toy_ring_store ?J k)" and ?D = "{marshal_keyring ?J k}"
  have trim: "trim_space ''j'' = ''j''" by code_simp
  have laws: "install_laws (\<lambda>m. m) (\<lambda>_. 0) ?C (wd_disk ?w)"
    using toy_install [of "''e''" "''j''" ?J "''u''"] trim short_ring_law by (simp add: toy_world_def)
  have store: "store_laws ?D (\<lambda>_. 0) ?C (wd_store ?w)"
    by (auto simp: store_laws_def toy_world_def toy_ring_store_def mem_ok_def keyring_bytes_in_def mem_obj_def)
  have fresh: "fresh_device ?D ?C"
  proof -
    have same: "k\<lparr>kr_schema := keyring_schema_version\<rparr> = k" using f(7) by (cases k) simp
    have "parse_keyring toy_keys ?J (marshal_keyring ?J k) = Inr k'' \<Longrightarrow> k'' = k" for k''
      using short_ring_law [of k k' k] same by (auto simp: parse_keyring_def json_law_def marshal_keyring_def split: sum.splits option.splits)
    moreover have "ag_recipient (kl_age toy_keys) ''j'' = ''j''" by (simp add: toy_keys_def toy_age_def)
    ultimately show ?thesis using f(10) by (fastforce simp: fresh_device_def)
  qed
  have later: "later_command ?C ?C" by (simp add: later_command_def)
  obtain E cfg prefix k'' typed code account where en: "enrolled_world ?C (\<lambda>_. 0) E cfg prefix k'' w'" and acc: "kr_account_key k'' = ak_public account"
    "derive_account_key (ce_keys ?C) (cf_profile_id cfg) code = Inr account"
    and sync: "\<forall>f d1. floor_of ?C E 0 cfg (wd_disk w') = (Inr f, d1) \<longrightarrow> fl_generation f \<le> kr_current k'' \<longrightarrow>
         (\<exists>eng p. engine_from_config ?C [] w' = (Inr eng, d1) \<and> oe_keys eng = RootKeys p
            \<and> provider_recipient (kl_age (ce_keys ?C)) (Some p) = current_recipient k'')"
    using recover_then_sync [OF run laws store fresh later, of "[]"] by blast
  have home: "load_account_home ?C (wd_disk w') = Inr (E, cfg)" and valid: "check_keyring toy_keys k'' = None"
    using en by (simp_all add: enrolled_world_def)
  obtain g where g: "kr_generation k'' (kr_current k'') = Some g"
    using valid unfolding check_keyring_None kr_current_generation_def by blast
  have "0 < gn_number g"
    using valid kr_generation_Some [OF g] unfolding check_keyring_None generation_ok_def by blast
  then have "0 < kr_current k''" using kr_generation_Some [OF g] by simp
  with toy_floor [OF home] sync have "\<exists>eng p d. engine_from_config ?C [] w' = (Inr eng, d) \<and> oe_keys eng = RootKeys p
      \<and> provider_recipient (kl_age (ce_keys ?C)) (Some p) = current_recipient k''"
    by (fastforce simp: no_key_generation_floor_def)
  moreover have "kr_account_key k'' \<noteq> []" using derived_key_nonempty [OF acc(2)] acc(1) by simp
  ultimately show ?thesis using run by (metis toy_command_fields(1))
qed

text \<open>A wait whose first poll is answered as pending and whose second as approved.\<close>

definition toy_claims :: hop_json where
  "toy_claims = toy_hop_json\<lparr>hj_claim := (\<lambda>b. if b = ''p'' then no_claim\<lparr>cl_status := StatusPending, cl_version := 2\<rparr>
     else no_claim\<lparr>cl_status := StatusApproved, cl_version := 2, cl_payload := b, cl_generation := 1\<rparr>)\<rparr>"

definition toy_waiting :: pairing_request where
  "toy_waiting = \<lparr>pq_id = ''r'', pq_version = 2, pq_status = StatusPending, pq_device = no_device, pq_public_key = [], pq_salt = [],
     pq_binding = [], pq_created_at = [], pq_expires_at = [], pq_interval = 1\<rparr>"

definition toy_replies :: "nat \<Rightarrow> http_reply" where
  "toy_replies i = HttpReply 200 (if i = 0 then ''p'' else ''key'')"

lemma wait_for_pairing_terminates_witness:
  "(\<exists>n v. protocol_version (pq_version toy_waiting) = Inr v
      \<and> claim_pairing toy_claims (pq_id toy_waiting) v (toy_replies n)
          = Inr (StatusApproved, Some \<lparr>pp_version = 2, pp_payload = ''key'', pp_generation = 1, pp_approved_by = no_device\<rparr>))
    \<and> wait_for_pairing toy_claims toy_waiting (\<lambda>i. HttpReply 200 ''p'') (\<lambda>i. None) = None"
proof -
  let ?p = "\<lparr>pp_version = 2, pp_payload = ''key'', pp_generation = 1, pp_approved_by = no_device\<rparr>"
  have round: "pairing_round toy_claims (pq_id toy_waiting) 2 (toy_replies 0) = Inr None"
    "pairing_round toy_claims (pq_id toy_waiting) 2 (toy_replies (Suc 0)) = Inr (Some (Some ?p))"
    by (simp_all add: pairing_round_def claim_pairing_def hop_do_def protocol_version_def toy_claims_def toy_replies_def
        toy_hop_json_def no_claim_def StatusPending_def StatusApproved_def maxReplyBytes_def)
  have "wait_for_pairing toy_claims toy_waiting toy_replies (\<lambda>i. None) = Some (Inr (Some ?p))"
    by (simp add: wait_for_pairing_def toy_waiting_def protocol_version_def)
      (subst poll_loop.simps, simp add: round [unfolded toy_waiting_def, simplified], subst poll_loop.simps, simp add: round [unfolded toy_waiting_def, simplified])
  moreover have "still_pending toy_claims toy_waiting (\<lambda>i. HttpReply 200 ''p'') (\<lambda>i. None) i" for i
    by (simp add: still_pending_def toy_waiting_def protocol_version_def claim_pairing_def hop_do_def toy_claims_def
        toy_hop_json_def no_claim_def StatusPending_def StatusApproved_def maxReplyBytes_def)
  ultimately show ?thesis
    using wait_for_pairing_terminates [of toy_claims toy_waiting toy_replies "\<lambda>i. None"]
      wait_for_pairing_terminates [of toy_claims toy_waiting "\<lambda>i. HttpReply 200 ''p''" "\<lambda>i. None"] by blast
qed

end
