(* ===== verification/Device_Commands.thy ===== *)
theory Device_Commands
  imports Account_Commands Pairing
begin

text \<open>
  The commands by which one device lets in or shuts out another (\<^verbatim>\<open>cli/pairing.go\<close>): \<^verbatim>\<open>account join\<close>,
  \<^verbatim>\<open>devices\<close>, \<^verbatim>\<open>devices approve\<close> and \<^verbatim>\<open>devices revoke\<close>, on the world of the account commands. What the
  control plane answers to each call, and what is typed, is in \<open>device_env\<close>; the request a command sends is
  not checked by the model, so the answers may be any.
\<close>

section \<open>What these commands read\<close>

text \<open>
  \<open>de_instant\<close> reads a time stamp, \<open>de_clock\<close> is the device's clock on the same scale. \<open>de_rollback\<close> is what
  other devices do to the store while an approval is taken back, \<open>de_reload\<close> before a keyring is read again.
\<close>

record 's device_env =
  de_pairing :: pairing_lib
  de_drawn :: "(string, bytes \<times> bytes) result"
  de_created :: http_reply
  de_polls :: "nat \<Rightarrow> http_reply"
  de_sleeps :: "nat \<Rightarrow> transport option"
  de_typed :: "(string, bytes) result"
  de_instant :: "string \<Rightarrow> int option"
  de_clock :: int
  de_seal_seed :: nat
  de_seal_nonce :: bytes
  de_relayed :: http_reply
  de_pending :: http_reply
  de_devices :: http_reply
  de_revocations :: http_reply
  de_confirmed :: http_reply
  de_revoked :: http_reply
  de_raised :: http_reply
  de_rollback :: "nat \<Rightarrow> 's \<Rightarrow> 's"
  de_reload :: "'s \<Rightarrow> 's"
  de_fresh_root :: "nat \<Rightarrow> bytes"
  de_fresh_salt :: "nat \<Rightarrow> bytes"
  de_fresh_nonce :: "nat \<Rightarrow> bytes"
  de_rewrap_seed :: "nat \<Rightarrow> nat \<Rightarrow> nat"

section \<open>account join\<close>

text \<open>Both channels must agree: the root key the approver relayed, and the device's own wrap in the stored keyring.\<close>

definition verify_joined_keyring ::
  "('s, 'k) command_env \<Rightarrow> 's backend \<Rightarrow> string \<Rightarrow> string \<Rightarrow> string \<Rightarrow> bytes \<Rightarrow> int \<Rightarrow> keyring_floor \<Rightarrow> 's \<Rightarrow> (cli_error, keyring) result" where
  "verify_joined_keyring C B key device identity root generation floor s =
     (case load_keyring (ce_keys C) (ce_ring C) B key s of Inl e \<Rightarrow> Inl (store_exit e)
      | Inr (ring, etag) \<Rightarrow>
      if kr_current ring \<noteq> generation then Inl (CliError ExitSafety (ApprovalGeneration (kr_current ring) generation))
      else (case trust_keyring (ce_keys C) (floor_anchor [] floor) ring (unwrap_generations (ce_keys C) ring device identity) of
        Inl e \<Rightarrow> Inl (case exit_for_refusal e of Some x \<Rightarrow> x | None \<Rightarrow> CliError ExitSafety (NoWorkingWrap e))
      | Inr keys \<Rightarrow>
      (case root_key_identity (kl_age (ce_keys C)) root of Inl e \<Rightarrow> Inl (CliError ExitSafety (RelayedKeyInvalid e))
      | Inr relayed \<Rightarrow>
      if (case map_of keys (kr_current ring) of None \<Rightarrow> [] | Some k \<Rightarrow> k) \<noteq> root
         \<or> ag_recipient (kl_age (ce_keys C)) relayed \<noteq> current_recipient ring
      then Inl (CliError ExitSafety RelayedKeyMismatch) else Inr ring)))"

text \<open>
  How a join ends. \<open>JoinWaits\<close>: the control plane says pending for ever. \<open>JoinPanics\<close>: the wait returned no
  payload and no error, and the nil pointer is followed.
\<close>

datatype join_end = Joined | JoinRefused cli_error | JoinPanics | JoinWaits

text \<open>The key of this machine: a stored one is used again, unless the keyring lists the device under another.\<close>

definition join_device_key ::
  "('s, 'k) command_env \<Rightarrow> config \<Rightarrow> keyring \<Rightarrow> 'k \<Rightarrow> (cli_error, string) result \<times> 'k" where
  "join_device_key C cfg ring k =
     (let ref = device_secret_ref (cf_profile_id cfg) (cf_device_id cfg) in
      case load_device_key C ref k of Inl e \<Rightarrow> (Inl e, k)
      | Inr None \<Rightarrow>
          (case ce_new_device C of Inl m \<Rightarrow> (Inl (CliError ExitRuntime (RandomFailed m)), k)
           | Inr identity \<Rightarrow>
             (case se_set (ce_secrets C) ref identity k of
               (Some e, k1) \<Rightarrow> (Inl (CliError ExitAuthStorage (SecretsFailed e)), k1)
             | (None, k1) \<Rightarrow> (Inr identity, k1)))
      | Inr (Some identity) \<Rightarrow>
          let listed = device_public_key ring (cf_device_id cfg) in
          if listed \<noteq> [] \<and> listed \<noteq> ag_recipient (kl_age (ce_keys C)) identity
          then (Inl (CliError ExitSafety (ListedOtherKey (cf_device_id cfg))), k) else (Inr identity, k))"

text \<open>The second half, from the payload the wait returned.\<close>

definition join_finish ::
  "('s, 'k) command_env \<Rightarrow> 's device_env \<Rightarrow> home_env \<Rightarrow> config \<Rightarrow> 's backend \<Rightarrow> string \<Rightarrow> string \<Rightarrow> pairing \<Rightarrow> string \<Rightarrow> pairing_payload
   \<Rightarrow> ('s, 'k) world \<Rightarrow> join_end \<times> ('s, 'k) world" where
  "join_finish C D E cfg B key identity pairing request payload w =
     (case open_root_key (de_pairing D) pairing (pp_payload payload) request identity (pp_generation payload) of
        Inl e \<Rightarrow> (JoinRefused (CliError ExitSafety (PayloadRejected e)), w)
      | Inr root \<Rightarrow>
      (case floor_of C E 0 cfg (wd_disk w) of (Inl e, d0) \<Rightarrow> (JoinRefused e, w\<lparr>wd_disk := d0\<rparr>)
      | (Inr floor, d0) \<Rightarrow>
      let s1 = ce_others C 0 (wd_store w) in
      (case verify_joined_keyring C B key (cf_device_id cfg) identity root (pp_generation payload) floor s1 of
        Inl e \<Rightarrow> (JoinRefused e, w\<lparr>wd_disk := d0, wd_store := s1\<rparr>)
      | Inr ring \<Rightarrow>
      (case record_enrolment C E 1 cfg ring ''join'' False floor d0 of
        (Some e, d1) \<Rightarrow> (JoinRefused e, w\<lparr>wd_disk := d1, wd_store := s1\<rparr>)
      | (None, d1) \<Rightarrow> (Joined, w\<lparr>wd_disk := d1, wd_store := s1\<rparr>)))))"

text \<open>The request, and the wait for its approval.\<close>

definition join_pair ::
  "('s, 'k) command_env \<Rightarrow> 's device_env \<Rightarrow> home_env \<Rightarrow> config \<Rightarrow> 's backend \<Rightarrow> string \<Rightarrow> string \<Rightarrow> ('s, 'k) world \<Rightarrow> join_end \<times> ('s, 'k) world" where
  "join_pair C D E cfg B key identity w =
     (case de_drawn D of Inl m \<Rightarrow> (JoinRefused (CliError ExitRuntime (RandomFailed m)), w)
      | Inr (raw, salt) \<Rightarrow>
      (case create_pairing (ce_hop C) (de_created D) of Inl p \<Rightarrow> (JoinRefused (hop_exit_error p), w)
      | Inr req \<Rightarrow>
      (case wait_for_pairing (ce_hop C) req (de_polls D) (de_sleeps D) of None \<Rightarrow> (JoinWaits, w)
      | Some (Inl p) \<Rightarrow> (JoinRefused (if is_cancelled p then CliError ExitRuntime PairingCancelled else hop_exit_error p), w)
      | Some (Inr None) \<Rightarrow> (JoinPanics, w)
      | Some (Inr (Some payload)) \<Rightarrow>
          join_finish C D E cfg B key identity (new_pairing (de_pairing D) raw salt) (pq_id req) payload w)))"

definition run_account_join :: "('s, 'k) command_env \<Rightarrow> 's device_env \<Rightarrow> ('s, 'k) world \<Rightarrow> join_end \<times> ('s, 'k) world" where
  "run_account_join C D w =
     (case hosted_session (ce_token C) of Inl e \<Rightarrow> (JoinRefused e, w)
      | Inr tok \<Rightarrow>
      (case load_account_home C (wd_disk w) of Inl e \<Rightarrow> (JoinRefused e, w)
      | Inr (E, cfg) \<Rightarrow>
      (case refuse_enrolled C E (wd_disk w) of Some e \<Rightarrow> (JoinRefused e, w)
      | None \<Rightarrow>
      if dt_device tok \<noteq> [] \<and> dt_device tok \<noteq> cf_device_id cfg
      then (JoinRefused (CliError ExitConfig (NotThisDevice (cf_device_id cfg) (dt_device tok))), w)
      else (case open_backend C E cfg of Inl e \<Rightarrow> (JoinRefused e, w)
      | Inr (B, prefix) \<Rightarrow>
      (case load_profile_ring C cfg B (keyring_object_key prefix) (wd_store w) of Inl e \<Rightarrow> (JoinRefused e, w)
      | Inr ring \<Rightarrow>
        (let (identity, k1) = join_device_key C cfg ring (wd_secrets w); w1 = w\<lparr>wd_secrets := k1\<rparr> in
         case identity of Inl e \<Rightarrow> (JoinRefused e, w1)
         | Inr i \<Rightarrow> join_pair C D E cfg B (keyring_object_key prefix) i w1))))))"

section \<open>devices approve\<close>

definition load_enrolled_device_key :: "('s, 'k) command_env \<Rightarrow> home_env \<Rightarrow> config \<Rightarrow> ('s, 'k) world \<Rightarrow> (cli_error, string) result" where
  "load_enrolled_device_key C E cfg w =
     (case load_account (ce_account C) E (wd_disk w) of
        Inl e \<Rightarrow> Inl (if is_not_exist e then not_enrolled_exit else CliError ExitConfig (AccountUnreadable e))
      | Inr a \<Rightarrow>
      (case load_device_key C (device_secret_ref (cf_profile_id cfg) (cf_device_id cfg)) (wd_secrets w) of Inl e \<Rightarrow> Inl e
      | Inr None \<Rightarrow> Inl (CliError ExitConfig DeviceKeyMissing)
      | Inr (Some identity) \<Rightarrow> Inr identity))"

definition pairing_still_open :: "(string \<Rightarrow> int option) \<Rightarrow> int \<Rightarrow> pairing_request \<Rightarrow> cli_error option" where
  "pairing_still_open instant now req =
     (case instant (pq_expires_at req) of None \<Rightarrow> Some (CliError ExitSafety ExpiryMalformed)
      | Some expires \<Rightarrow> if \<not> now < expires then Some (CliError ExitUsage (RequestExpired (pq_id req))) else None)"

text \<open>What the code and the request must satisfy before anything is read or written: the pairing, the recipient, the version.\<close>

definition check_request ::
  "'s device_env \<Rightarrow> pairing_request \<Rightarrow> bytes \<Rightarrow> (cli_error, pairing \<times> string \<times> int) result" where
  "check_request D req typed =
     (case b64_decode (pq_salt req) of None \<Rightarrow> Inl (CliError ExitSafety SaltMalformed)
      | Some salt \<Rightarrow>
      (case protocol_version (pq_version req) of Inl p \<Rightarrow> Inl (CliError ExitSafety (VersionRefused p))
      | Inr version \<Rightarrow>
      (case pairing_from_code (de_pairing D) typed salt version of Inl e \<Rightarrow> Inl (CliError ExitUsage (PairingCodeRejected e))
      | Inr pairing \<Rightarrow>
      if \<not> verify_binding (de_pairing D) pairing (pq_public_key req) (pq_binding req) then Inl (CliError ExitSafety CodeNotForRequest)
      else (case ag_parse_recipient (kl_age (pb_keys (de_pairing D))) (pq_public_key req) of Inl m \<Rightarrow> Inl (CliError ExitSafety RequestKeyMalformed)
      | Inr recipient \<Rightarrow>
      (case pairing_still_open (de_instant D) (de_clock D) req of Some e \<Rightarrow> Inl e
      | None \<Rightarrow> Inr (pairing, recipient, version))))))"

datatype approve_error = ApproveRefused anchor_error | ListedElsewhere string

text \<open>The closure of the update: the wraps it appended and the current root key are its value.\<close>

definition approve_mutate ::
  "('s, 'k) command_env \<Rightarrow> config \<Rightarrow> anchor \<Rightarrow> string \<Rightarrow> pairing_request \<Rightarrow> string \<Rightarrow> nat \<Rightarrow> keyring
   \<Rightarrow> (approve_error, keyring \<times> appended \<times> bytes) result" where
  "approve_mutate C cfg a identity req recipient i k =
     (case trust_keyring (ce_keys C) a k (unwrap_generations (ce_keys C) k (cf_device_id cfg) identity) of Inl e \<Rightarrow> Inl (ApproveRefused e)
      | Inr keys \<Rightarrow>
        let root = (case map_of keys (kr_current k) of None \<Rightarrow> [] | Some key \<Rightarrow> key);
            device = hd_id (pq_device req); listed = device_public_key k device in
        if listed \<noteq> [] then
          (if listed = pq_public_key req then Inr (k, [], root) else Inl (ListedElsewhere device))
        else let ((err, appended), k') = enrol_all (ce_keys C) (ce_seed C i) keys device (Some recipient) (ce_now C) k in
          (case err of Some e \<Rightarrow> Inl (ApproveRefused (AnchorKeyring e)) | None \<Rightarrow> Inr (k', appended, root)))"

definition approve_exit :: "approve_error update_error \<Rightarrow> cli_error" where
  "approve_exit e = (case e of
     StoreFailed s \<Rightarrow> store_exit s
   | MutateFailed (ListedElsewhere d) \<Rightarrow> CliError ExitAuthStorage (ListedUnderOtherKey d)
   | MutateFailed (ApproveRefused x) \<Rightarrow>
       (case exit_for_refusal x of Some y \<Rightarrow> y
        | None \<Rightarrow> (case x of
            AnchorKeyring ke \<Rightarrow> if is_not_enrolled ke then CliError ExitAuthStorage (CannotOpenCurrent ke) else CliError ExitAuthStorage (KeyringUnusable x)
          | _ \<Rightarrow> CliError ExitAuthStorage (KeyringUnusable x))))"

text \<open>Exactly the wraps the approval wrote, under a compare-and-swap of its own.\<close>

definition roll_back_pairing_wrap ::
  "('s, 'k) command_env \<Rightarrow> 's device_env \<Rightarrow> 's backend \<Rightarrow> string \<Rightarrow> pairing_request \<Rightarrow> appended \<Rightarrow> 's
   \<Rightarrow> (unit update_error, keyring \<times> unit) result \<times> 's" where
  "roll_back_pairing_wrap C D B key req appended s =
     update_keyring (ce_keys C) (ce_ring C) B key (de_rollback D)
       (\<lambda>i k. Inr (snd (unenrol_appended (hd_id (pq_device req)) appended k), ())) s"

text \<open>The relay: what is sealed, and what happens when the control plane refuses it.\<close>

definition relay_root_key ::
  "('s, 'k) command_env \<Rightarrow> 's device_env \<Rightarrow> 's backend \<Rightarrow> string \<Rightarrow> pairing_request \<Rightarrow> pairing \<times> string \<times> int \<Rightarrow> keyring \<times> appended \<times> bytes \<Rightarrow> 's
   \<Rightarrow> (cli_error, int \<times> string) result \<times> 's" where
  "relay_root_key C D B key req checked done s =
     (let (pairing, recipient, version) = checked; (updated, appended, root) = done in
      case seal_root_key (de_pairing D) (de_seal_seed D) (de_seal_nonce D) pairing root (pq_id req) recipient (kr_current updated) of
        Inl e \<Rightarrow> (Inl (CliError ExitRuntime (SealFailed e)), s)
      | Inr payload \<Rightarrow>
        (case approve_pairing (ce_hop C) (pq_id req) version (de_relayed D) of
          None \<Rightarrow> (Inr (kr_current updated, payload), s)
        | Some p \<Rightarrow>
          if appended \<noteq> [] \<and> (p = PairingExpired \<or> p = PairingDecided) then
            (case roll_back_pairing_wrap C D B key req appended s of
               (Inl e, s1) \<Rightarrow> (Inl (CliError ExitAuthStorage (RelayRefusedAndKept p)), s1)
             | (Inr r, s1) \<Rightarrow> (Inl (CliError ExitAuthStorage (RelayRefused p)), s1))
          else (Inl (hop_exit_error p), s)))"

text \<open>
  The approving device, given the typed code. The result is the generation and, for the reader, the payload that
  was sent.
\<close>

definition approve_pairing_request ::
  "('s, 'k) command_env \<Rightarrow> 's device_env \<Rightarrow> pairing_request \<Rightarrow> bytes \<Rightarrow> ('s, 'k) world \<Rightarrow> (cli_error, int \<times> string) result \<times> ('s, 'k) world" where
  "approve_pairing_request C D req typed w =
     (case check_request D req typed of Inl e \<Rightarrow> (Inl e, w)
      | Inr (pairing, recipient, version) \<Rightarrow>
      (case load_account_home C (wd_disk w) of Inl e \<Rightarrow> (Inl e, w)
      | Inr (E, cfg) \<Rightarrow>
      if cf_encryption_type cfg \<noteq> EncryptionRootKey then (Inl (CliError ExitConfig NotRootKeyModel), w)
      else (case open_backend C E cfg of Inl e \<Rightarrow> (Inl e, w)
      | Inr (B, prefix) \<Rightarrow>
      (case load_enrolled_device_key C E cfg w of Inl e \<Rightarrow> (Inl e, w)
      | Inr identity \<Rightarrow>
      (case anchor_of C E 0 cfg (wd_disk w) of (Inl e, d0) \<Rightarrow> (Inl e, w\<lparr>wd_disk := d0\<rparr>)
      | (Inr a, d0) \<Rightarrow>
      let key = keyring_object_key prefix in
      (case update_keyring (ce_keys C) (ce_ring C) B key (ce_others C) (approve_mutate C cfg a identity req recipient) (wd_store w) of
        (Inl e, s1) \<Rightarrow> (Inl (approve_exit e), w\<lparr>wd_disk := d0, wd_store := s1\<rparr>)
      | (Inr (updated, appended, root), s1) \<Rightarrow>
      (case observe_keyring (ce_keys C) (ce_account C) E 1 (an_floor a) updated d0 of
        (Some e, d1) \<Rightarrow> (Inl e, w\<lparr>wd_disk := d1, wd_store := s1\<rparr>)
      | (None, d1) \<Rightarrow>
      (case relay_root_key C D B key req (pairing, recipient, version) (updated, appended, root) s1 of
        (r, s2) \<Rightarrow> (r, w\<lparr>wd_disk := d1, wd_store := s2\<rparr>)))))))))"

text \<open>Which request: the named one (the last with the name), or the only one.\<close>

definition choose_request :: "string \<Rightarrow> pairing_request list \<Rightarrow> (cli_error, pairing_request) result" where
  "choose_request request pending =
     (if request \<noteq> [] then
        (case find (\<lambda>q. pq_id q = request) (rev pending) of None \<Rightarrow> Inl (CliError ExitUsage (NoSuchRequest request)) | Some q \<Rightarrow> Inr q)
      else case pending of [] \<Rightarrow> Inl (CliError ExitUsage NoPendingRequest)
      | [q] \<Rightarrow> Inr q
      | _ \<Rightarrow> Inl (CliError ExitUsage (SeveralRequests (length pending))))"

definition run_devices_approve ::
  "('s, 'k) command_env \<Rightarrow> 's device_env \<Rightarrow> string \<Rightarrow> ('s, 'k) world \<Rightarrow> (cli_error, int \<times> string) result \<times> ('s, 'k) world" where
  "run_devices_approve C D request w =
     (case hosted_session (ce_token C) of Inl e \<Rightarrow> (Inl e, w)
      | Inr tok \<Rightarrow>
      (case pending_pairings (ce_hop C) (de_pending D) of Inl p \<Rightarrow> (Inl (hop_exit_error p), w)
      | Inr pending \<Rightarrow>
      (case choose_request request pending of Inl e \<Rightarrow> (Inl e, w)
      | Inr req \<Rightarrow>
      (case de_typed D of Inl m \<Rightarrow> (Inl (CliError ExitUsage (PromptFailed m)), w)
      | Inr typed \<Rightarrow> approve_pairing_request C D req typed w))))"

section \<open>devices revoke\<close>

definition resolve_device :: "hop_device list \<Rightarrow> string \<Rightarrow> (cli_error, hop_device) result" where
  "resolve_device devices target0 =
     (let target = trim_space target0 in
      if target = [] then Inl (CliError ExitUsage DeviceTargetEmpty)
      else case find (\<lambda>d. hd_id d = target) devices of Some d \<Rightarrow> Inr d
      | None \<Rightarrow>
        (case filter (\<lambda>d. equal_fold (hd_name d) target) devices of
          [] \<Rightarrow> Inl (CliError ExitUsage (NoSuchDevice target))
        | [d] \<Rightarrow> Inr d
        | ds \<Rightarrow> Inl (CliError ExitUsage (AmbiguousDevice (length ds)))))"

text \<open>The closure: the current root key of whatever keyring it is handed, and a new generation without the victim.\<close>

definition revoke_mutate ::
  "('s, 'k) command_env \<Rightarrow> 's device_env \<Rightarrow> config \<Rightarrow> anchor \<Rightarrow> string \<Rightarrow> string \<Rightarrow> string \<Rightarrow> nat \<Rightarrow> keyring
   \<Rightarrow> (anchor_error, keyring \<times> int) result" where
  "revoke_mutate C D cfg a identity code victim i k =
     (case trust_keyring (ce_keys C) a k (unwrap_generations (ce_keys C) k (cf_device_id cfg) identity) of Inl e \<Rightarrow> Inl e
      | Inr keys \<Rightarrow>
        let root = (case map_of keys (kr_current k) of None \<Rightarrow> [] | Some key \<Rightarrow> key) in
        (case rollover (ce_keys C) (de_rewrap_seed D i) (de_fresh_root D i) (de_fresh_salt D i) (de_fresh_nonce D i) root code [victim]
               (cf_device_id cfg) (ce_now C) k of
          Inl e \<Rightarrow> Inl (AnchorKeyring e)
        | Inr (next, k') \<Rightarrow> Inr (k', kr_current k')))"

definition is_already_revoked :: "keyring_error \<Rightarrow> bool" where
  "is_already_revoked e \<longleftrightarrow> (case e of AlreadyRevoked d \<Rightarrow> True | _ \<Rightarrow> False)"

text \<open>What a failed update means: a refusal, or that the victim has no wrap any more (\<open>None\<close>).\<close>

definition revoke_exit :: "anchor_error update_error \<Rightarrow> cli_error option" where
  "revoke_exit e = (case e of
     StoreFailed s \<Rightarrow> Some (store_exit s)
   | MutateFailed x \<Rightarrow>
       (case exit_for_refusal x of Some y \<Rightarrow> Some y
        | None \<Rightarrow> (case x of
            AnchorKeyring ke \<Rightarrow>
              (case exit_for_recovery_wrap ke ''revoked'' of Some y \<Rightarrow> Some y
               | None \<Rightarrow> if ke = SelfRevoke then Some (CliError ExitUsage (RevokesItself []))
                   else if is_not_enrolled ke \<and> \<not> is_already_revoked ke then Some (CliError ExitAuthStorage (CannotOpenCurrent ke))
                   else if is_already_revoked ke then None
                   else Some (CliError ExitAuthStorage (KeyringUnusable x)))
          | _ \<Rightarrow> Some (CliError ExitAuthStorage (KeyringUnusable x)))))"

text \<open>The keyring to go on with, its generation, and whether the victim was out of it already.\<close>

definition revoke_in_keyring ::
  "('s, 'k) command_env \<Rightarrow> 's device_env \<Rightarrow> config \<Rightarrow> 's backend \<Rightarrow> string \<Rightarrow> anchor \<Rightarrow> string \<Rightarrow> string \<Rightarrow> string \<Rightarrow> 's
   \<Rightarrow> (cli_error, keyring \<times> bool) result \<times> 's" where
  "revoke_in_keyring C D cfg B key a identity code victim s =
     (case update_keyring (ce_keys C) (ce_ring C) B key (ce_others C) (revoke_mutate C D cfg a identity code victim) s of
        (Inr (updated, generation), s1) \<Rightarrow> (Inr (updated, False), s1)
      | (Inl e, s1) \<Rightarrow>
        (case revoke_exit e of Some x \<Rightarrow> (Inl x, s1)
        | None \<Rightarrow>
          let s2 = de_reload D s1 in
          (case load_keyring (ce_keys C) (ce_ring C) B key s2 of Inl x \<Rightarrow> (Inl (store_exit x), s2)
          | Inr (ring, etag) \<Rightarrow> (Inr (ring, True), s2))))"

record revoke_report =
  rv_already :: bool
  rv_told :: bool
  rv_generation :: int
  rv_remaining :: nat
  rv_carried :: bool

text \<open>The control plane is told: a request made in the Console is confirmed, otherwise the device is revoked and the floor raised.\<close>

definition tell_revocation ::
  "('s, 'k) command_env \<Rightarrow> 's device_env \<Rightarrow> home_env \<Rightarrow> config \<Rightarrow> string option \<Rightarrow> bool \<Rightarrow> int \<Rightarrow> disk \<Rightarrow> (cli_error, bool \<times> bool) result \<times> disk" where
  "tell_revocation C D E cfg console already generation d =
     (case console of
        Some request \<Rightarrow>
          (case confirm_revocation (ce_hop C) (de_confirmed D) of
             Inl p \<Rightarrow> (Inl (CliError ExitAuthStorage (ConfirmationNotTold p)), d)
           | Inr confirmed \<Rightarrow> (Inr (True, True), d))
      | None \<Rightarrow>
          (case revoke_device (ce_hop C) (de_revoked D) of
             Inl p \<Rightarrow> (Inl (if already then hop_exit_error p else CliError ExitAuthStorage (RevocationNotTold p)), d)
           | Inr revocation \<Rightarrow>
             (case raise_account_floor (ce_hop C) (ce_account C) E 2 (ce_stamp C) (Some (st_type (cf_storage cfg)))
                     (hosted_session (ce_token C)) (de_raised D) generation d of
                ((carried, None), d1) \<Rightarrow> (Inr (hr_revoked revocation, carried), d1)
              | ((carried, Some e), d1) \<Rightarrow>
                  (Inl (CliError ExitAuthStorage (case e of
                     RaiseFailed g p \<Rightarrow> (case p of KeyGenerationRange m \<Rightarrow> FloorOutOfRange p | _ \<Rightarrow> FloorNotRaised p)
                   | RaiseSession x \<Rightarrow> FloorNotRemembered (ce_reason x)
                   | RaiseNotRemembered x \<Rightarrow> FloorNotRemembered (ce_reason x))), d1))))"

definition revoke_commit ::
  "('s, 'k) command_env \<Rightarrow> 's device_env \<Rightarrow> home_env \<Rightarrow> config \<Rightarrow> 's backend \<Rightarrow> string \<Rightarrow> string \<Rightarrow> string \<Rightarrow> hop_device \<Rightarrow> string option
   \<Rightarrow> ('s, 'k) world \<Rightarrow> (cli_error, revoke_report) result \<times> ('s, 'k) world" where
  "revoke_commit C D E cfg B key identity code victim console w =
     (case anchor_of C E 0 cfg (wd_disk w) of (Inl e, d0) \<Rightarrow> (Inl e, w\<lparr>wd_disk := d0\<rparr>)
      | (Inr a, d0) \<Rightarrow>
      (case revoke_in_keyring C D cfg B key a identity code (hd_id victim) (wd_store w) of
        (Inl e, s1) \<Rightarrow> (Inl e, w\<lparr>wd_disk := d0, wd_store := s1\<rparr>)
      | (Inr (updated, already), s1) \<Rightarrow>
      (case observe_keyring (ce_keys C) (ce_account C) E 1 (an_floor a) updated d0 of
        (Some e, d1) \<Rightarrow> (Inl e, w\<lparr>wd_disk := d1, wd_store := s1\<rparr>)
      | (None, d1) \<Rightarrow>
      (case tell_revocation C D E cfg console already (kr_current updated) d1 of
        (Inl e, d2) \<Rightarrow> (Inl e, w\<lparr>wd_disk := d2, wd_store := s1\<rparr>)
      | (Inr (told, carried), d2) \<Rightarrow>
        (Inr \<lparr>rv_already = already, rv_told = told, rv_generation = kr_current updated, rv_remaining = device_count updated,
              rv_carried = carried\<rparr>, w\<lparr>wd_disk := d2, wd_store := s1\<rparr>)))))"

definition run_devices_revoke ::
  "('s, 'k) command_env \<Rightarrow> 's device_env \<Rightarrow> string \<Rightarrow> ('s, 'k) world \<Rightarrow> (cli_error, revoke_report) result \<times> ('s, 'k) world" where
  "run_devices_revoke C D target w =
     (case hosted_session (ce_token C) of Inl e \<Rightarrow> (Inl e, w)
      | Inr tok \<Rightarrow>
      (case list_devices (ce_hop C) (de_devices D) of Inl p \<Rightarrow> (Inl (hop_exit_error p), w)
      | Inr devices \<Rightarrow>
      (case resolve_device devices target of Inl e \<Rightarrow> (Inl e, w)
      | Inr victim \<Rightarrow>
      (case pending_revocations (ce_hop C) (de_revocations D) of Inl p \<Rightarrow> (Inl (hop_exit_error p), w)
      | Inr requests \<Rightarrow>
      let console = (case find (\<lambda>r. hd_id (rr_target r) = hd_id victim) requests of
            None \<Rightarrow> None | Some r \<Rightarrow> if rr_id r = [] then None else Some (rr_id r)) in
      (case load_account_home C (wd_disk w) of Inl e \<Rightarrow> (Inl e, w)
      | Inr (E, cfg) \<Rightarrow>
      if hd_id victim = cf_device_id cfg \<or> hd_id victim = dt_device tok then (Inl (CliError ExitUsage (RevokesItself (hd_id victim))), w)
      else if cf_encryption_type cfg \<noteq> EncryptionRootKey then (Inl (CliError ExitConfig NotRootKeyModel), w)
      else (case open_backend C E cfg of Inl e \<Rightarrow> (Inl e, w)
      | Inr (B, prefix) \<Rightarrow>
      (case load_enrolled_device_key C E cfg w of Inl e \<Rightarrow> (Inl e, w)
      | Inr identity \<Rightarrow>
      (case ce_typed C of Inl m \<Rightarrow> (Inl (CliError ExitUsage (PromptFailed m)), w)
      | Inr typed \<Rightarrow>
      (case normalize_recovery_code (kl_sha (ce_keys C)) typed of Inl e \<Rightarrow> (Inl (CliError ExitUsage (CodeRejected e)), w)
      | Inr code \<Rightarrow> revoke_commit C D E cfg B (keyring_object_key prefix) identity code victim console w)))))))))"

section \<open>devices\<close>

text \<open>
  The control plane's list, with what this device's own reading of the keyring says about each entry: \<open>None\<close>
  where the keyring could not be read or is refused.
\<close>

record device_list =
  dl_rows :: "(hop_device \<times> bool option) list"
  dl_pending :: "pairing_request list"
  dl_revocations :: "revocation_request list"
  dl_generation :: "int option"
  dl_refused :: "status_error option"

text \<open>The keyring, if this device accepts it; a refusal; or nothing.\<close>

definition listed_keyring :: "('s, 'k) command_env \<Rightarrow> ('s, 'k) world \<Rightarrow> (status_error option, keyring) result \<times> disk" where
  "listed_keyring C w =
     (case load_account_home C (wd_disk w) of Inl e \<Rightarrow> (Inl None, wd_disk w)
      | Inr (E, cfg) \<Rightarrow>
      (case open_backend C E cfg of Inl e \<Rightarrow> (Inl None, wd_disk w)
      | Inr (B, prefix) \<Rightarrow>
      (case load_keyring (ce_keys C) (ce_ring C) B (keyring_object_key prefix) (wd_store w) of
        Inl e \<Rightarrow> (Inl (if exit_for_store_refusal e \<noteq> None then Some (StatusStore e) else None), wd_disk w)
      | Inr (ring, etag) \<Rightarrow>
        (case anchor_of C E 0 cfg (wd_disk w) of (Inl e, d1) \<Rightarrow> (Inl (Some (StatusAnchor e)), d1)
        | (Inr a, d1) \<Rightarrow>
          (case check_anchor (ce_keys C) a ring of Some e \<Rightarrow> (Inl (Some (StatusRefused e)), d1) | None \<Rightarrow> (Inr ring, d1))))))"

definition run_devices_list :: "('s, 'k) command_env \<Rightarrow> 's device_env \<Rightarrow> ('s, 'k) world \<Rightarrow> (cli_error, device_list) result \<times> disk" where
  "run_devices_list C D w =
     (case hosted_session (ce_token C) of Inl e \<Rightarrow> (Inl e, wd_disk w)
      | Inr tok \<Rightarrow>
      (case list_devices (ce_hop C) (de_devices D) of Inl p \<Rightarrow> (Inl (hop_exit_error p), wd_disk w)
      | Inr devices \<Rightarrow>
      (case pending_pairings (ce_hop C) (de_pending D) of Inl p \<Rightarrow> (Inl (hop_exit_error p), wd_disk w)
      | Inr pending \<Rightarrow>
      (case pending_revocations (ce_hop C) (de_revocations D) of Inl p \<Rightarrow> (Inl (hop_exit_error p), wd_disk w)
      | Inr revocations \<Rightarrow>
      let (seen, d1) = listed_keyring C w in
      (Inr \<lparr>dl_rows = map (\<lambda>d. (d, case seen of Inr ring \<Rightarrow> Some (has_device ring (hd_id d)) | Inl e \<Rightarrow> None)) devices,
            dl_pending = pending, dl_revocations = revocations,
            dl_generation = (case seen of Inr ring \<Rightarrow> Some (kr_current ring) | Inl e \<Rightarrow> None),
            dl_refused = (case seen of Inr ring \<Rightarrow> None | Inl e \<Rightarrow> e)\<rparr>, d1)))))"

end
