(* ===== verification/Verify_Endpoint.thy ===== *)
theory Verify_Endpoint
  imports Go_Unicode Config_Files
begin

text \<open>
  Endpoints as the verification compares them (\<^verbatim>\<open>verify.go\<close>: \<^verbatim>\<open>endpointURL\<close>), what the transport of the probe
  records (\<^verbatim>\<open>probe.go\<close>), and the judgement on those records (\<^verbatim>\<open>pinToResponse\<close>). What the code uses of
  \<^verbatim>\<open>net/url\<close> and \<^verbatim>\<open>net.ParseIP\<close> (Go 1.25) is written out first; lower case is that of ASCII letters.
\<close>

section \<open>URLs (net/url)\<close>

definition code_of :: "char \<Rightarrow> nat" where "code_of c = of_char c"

definition is_digit :: "char \<Rightarrow> bool" where "is_digit c \<longleftrightarrow> 48 \<le> code_of c \<and> code_of c \<le> 57"

definition is_letter :: "char \<Rightarrow> bool" where
  "is_letter c \<longleftrightarrow> 65 \<le> code_of c \<and> code_of c \<le> 90 \<or> 97 \<le> code_of c \<and> code_of c \<le> 122"

definition hex_digit :: "char \<Rightarrow> nat option" where "hex_digit c = hex_val (lower_char c)"

text \<open>\<^verbatim>\<open>strings.Cut\<close> at the first, and a cut at the last occurrence of a character.\<close>

definition cut_first :: "char \<Rightarrow> string \<Rightarrow> string \<times> string" where
  "cut_first c s = (takeWhile (\<lambda>x. x \<noteq> c) s, drop 1 (dropWhile (\<lambda>x. x \<noteq> c) s))"

definition cut_last :: "char \<Rightarrow> string \<Rightarrow> (string \<times> string) option" where
  "cut_last c s = (if c \<notin> set s then None
     else let (a, b) = cut_first c (rev s) in Some (rev b, rev a))"

text \<open>\<^verbatim>\<open>getScheme\<close>: scheme and rest, no scheme, or an error for a leading colon.\<close>

fun scheme_from :: "string \<Rightarrow> string \<Rightarrow> (string \<times> string) option" where
  "scheme_from acc [] = Some ([], rev acc)"
| "scheme_from acc (c # s) =
     (if is_letter c then scheme_from (c # acc) s
      else if is_digit c \<or> c \<in> set ''+-.'' then (if acc = [] then Some ([], c # s) else scheme_from (c # acc) s)
      else if c = CHR '':'' then (if acc = [] then None else Some (rev acc, s))
      else Some ([], rev acc @ c # s))"

datatype escape_mode = PlainPart | HostPart | ZonePart

definition host_char :: "char \<Rightarrow> bool" where
  "host_char c \<longleftrightarrow> is_letter c \<or> is_digit c \<or> c \<in> set ''!$&()*+,;=:[]<>-_.~'' \<or> c = CHR 0x27 \<or> c = CHR 0x22"

text \<open>\<^verbatim>\<open>unescape\<close>.\<close>

fun unescape :: "escape_mode \<Rightarrow> string \<Rightarrow> string option" where
  "unescape m [] = Some []"
| "unescape m (c # s) =
     (if c = CHR ''%'' then
        (case s of
           x # y # t \<Rightarrow>
             (case (hex_digit x, hex_digit y) of
                (Some a, Some b) \<Rightarrow>
                  if m = HostPart \<and> a < 8 \<and> take 2 s \<noteq> ''25'' then None
                  else if m = ZonePart \<and> take 2 s \<noteq> ''25'' \<and> 16 * a + b \<noteq> 32 \<and> \<not> host_char (byte_at (16 * a + b)) then None
                  else map_option (\<lambda>r. byte_at (16 * a + b) # r) (unescape m t)
              | _ \<Rightarrow> None)
         | _ \<Rightarrow> None)
      else if m \<noteq> PlainPart \<and> code_of c < 128 \<and> \<not> host_char c then None
      else map_option (\<lambda>r. c # r) (unescape m s))"

definition valid_optional_port :: "string \<Rightarrow> bool" where
  "valid_optional_port p = (case p of [] \<Rightarrow> True | c # s \<Rightarrow> c = CHR '':'' \<and> list_all is_digit s)"

text \<open>The host up to a zone, the zone, and the rest: \<^verbatim>\<open>strings.Index(host, "%25")\<close>.\<close>

fun cut_zone :: "string \<Rightarrow> (string \<times> string) option" where
  "cut_zone [] = None"
| "cut_zone (c # s) = (if has_prefix (c # s) ''%25'' then Some ([], c # s) else map_option (\<lambda>(a, b). (c # a, b)) (cut_zone s))"

definition parse_host :: "string \<Rightarrow> string option" where
  "parse_host host =
     (if has_prefix host ''['' then
        (case cut_last (CHR '']'') host of None \<Rightarrow> None
         | Some (inner, port) \<Rightarrow>
             if \<not> valid_optional_port port then None
             else (case cut_zone inner of
               Some (a, z) \<Rightarrow> (case (unescape HostPart a, unescape ZonePart z, unescape HostPart ('']'' @ port)) of
                   (Some x, Some y, Some w) \<Rightarrow> Some (x @ y @ w) | _ \<Rightarrow> None)
             | None \<Rightarrow> unescape HostPart host))
      else case cut_last (CHR '':'') host of
        Some (a, port) \<Rightarrow> if valid_optional_port ('':'' @ port) then unescape HostPart host else None
      | None \<Rightarrow> unescape HostPart host)"

definition valid_userinfo :: "string \<Rightarrow> bool" where
  "valid_userinfo s = list_all (\<lambda>c. is_letter c \<or> is_digit c \<or> c \<in> set ''-._:~!$&()*+,;=%@'' \<or> c = CHR 0x27) s"

definition parse_authority :: "string \<Rightarrow> string option" where
  "parse_authority a =
     (case cut_last (CHR ''@'') a of None \<Rightarrow> parse_host a
      | Some (user, host) \<Rightarrow>
          (case parse_host host of None \<Rightarrow> None
           | Some h \<Rightarrow>
               if valid_userinfo user \<and> unescape PlainPart (fst (cut_first (CHR '':'') user)) \<noteq> None
                  \<and> unescape PlainPart (snd (cut_first (CHR '':'') user)) \<noteq> None
               then Some h else None))"

text \<open>What \<^verbatim>\<open>url.Parse\<close> puts in \<open>Scheme\<close> and \<open>Host\<close>.\<close>

definition parse_rest :: "string \<Rightarrow> string \<Rightarrow> (string \<times> string) option" where
  "parse_rest scheme rest =
     (if \<not> has_prefix rest ''/'' \<and> scheme \<noteq> [] then Some (scheme, [])
      else if \<not> has_prefix rest ''/'' \<and> CHR '':'' \<in> set (fst (cut_first slash rest)) then None
      else if (scheme \<noteq> [] \<or> \<not> has_prefix rest ''///'') \<and> has_prefix rest ''//'' then
        let (a, p) = (takeWhile (\<lambda>x. x \<noteq> slash) (drop 2 rest), dropWhile (\<lambda>x. x \<noteq> slash) (drop 2 rest)) in
        (case parse_authority a of None \<Rightarrow> None
         | Some h \<Rightarrow> if unescape PlainPart p = None then None else Some (scheme, h))
      else if unescape PlainPart rest = None then None else Some (scheme, []))"

definition parse_url :: "string \<Rightarrow> (string \<times> string) option" where
  "parse_url raw =
     (let (u, frag) = cut_first (CHR ''#'') raw in
      if list_ex (\<lambda>c. code_of c < 32 \<or> code_of c = 127) u then None
      else if u = ''*'' then (if unescape PlainPart frag = None then None else Some ([], []))
      else case scheme_from [] u of None \<Rightarrow> None
      | Some (scheme, rest) \<Rightarrow>
          (case parse_rest (to_lower scheme) (fst (cut_first (CHR ''?'') rest)) of None \<Rightarrow> None
           | Some r \<Rightarrow> if unescape PlainPart frag = None then None else Some r))"

text \<open>\<^verbatim>\<open>URL.Hostname\<close> and \<^verbatim>\<open>URL.Port\<close>.\<close>

definition split_host_port :: "string \<Rightarrow> string \<times> string" where
  "split_host_port s =
     (let (host, port) = (case cut_last (CHR '':'') s of
            Some (a, p) \<Rightarrow> if valid_optional_port ('':'' @ p) then (a, p) else (s, [])
          | None \<Rightarrow> (s, [])) in
      (if has_prefix host ''['' \<and> has_suffix host '']'' then butlast (drop 1 host) else host, port))"

section \<open>Addresses (net.ParseIP)\<close>

text \<open>Four decimal fields without leading zeros.\<close>

definition ip4_field :: "string \<Rightarrow> nat option" where
  "ip4_field f =
     (if f \<noteq> [] \<and> length f \<le> 3 \<and> list_all is_digit f \<and> (length f > 1 \<longrightarrow> hd f \<noteq> CHR ''0'') \<and> dec_nat f \<le> 255
      then Some (dec_nat f) else None)"

definition parse_ip4 :: "string \<Rightarrow> nat list option" where
  "parse_ip4 s = (let fs = map ip4_field (split_on (CHR ''.'') s) in
     if length fs = 4 \<and> None \<notin> set fs then Some (map the fs) else None)"

definition hex_number :: "string \<Rightarrow> nat" where
  "hex_number s = foldl (\<lambda>n c. 16 * n + the (hex_digit c)) 0 s"

text \<open>
  The loop of \<^verbatim>\<open>parseIPv6\<close> with the bytes written so far, where the ellipsis stands among them, and the
  passes left: each writes two bytes (or four, and ends).
\<close>

fun ip6_groups :: "nat \<Rightarrow> nat list \<Rightarrow> nat option \<Rightarrow> string \<Rightarrow> (nat list \<times> nat option \<times> string) option" where
  "ip6_groups 0 ip gap s = Some (ip, gap, s)"
| "ip6_groups (Suc n) ip gap s =
     (let h = takeWhile (\<lambda>c. hex_digit c \<noteq> None) s; t = dropWhile (\<lambda>c. hex_digit c \<noteq> None) s in
      if h = [] \<or> length h > 4 then None
      else if has_prefix t ''.'' then
        (if gap = None \<and> length ip \<noteq> 12 \<or> length ip + 4 > 16 then None
         else case parse_ip4 s of None \<Rightarrow> None | Some q \<Rightarrow> Some (ip @ q, gap, []))
      else let ip' = ip @ [hex_number h div 256, hex_number h mod 256] in
        case t of
          [] \<Rightarrow> Some (ip', gap, [])
        | c # u \<Rightarrow>
            if c \<noteq> CHR '':'' \<or> u = [] then None
            else if hd u = CHR '':'' then
              (if gap \<noteq> None then None
               else if tl u = [] then Some (ip', Some (length ip'), [])
               else ip6_groups n ip' (Some (length ip')) (tl u))
            else ip6_groups n ip' gap u)"

definition parse_ip6 :: "string \<Rightarrow> nat list option" where
  "parse_ip6 s =
     (if s = ''::'' then Some (replicate 16 0)
      else case (if has_prefix s ''::'' then ip6_groups 8 [] (Some 0) (drop 2 s) else ip6_groups 8 [] None s) of
        None \<Rightarrow> None
      | Some (ip, gap, rest) \<Rightarrow>
          if rest \<noteq> [] then None
          else if length ip < 16 then
            (case gap of None \<Rightarrow> None | Some e \<Rightarrow> Some (take e ip @ replicate (16 - length ip) 0 @ drop e ip))
          else if gap \<noteq> None then None else Some ip)"

text \<open>The first dot, colon or percent sign decides; a zone is refused.\<close>

definition parse_ip :: "string \<Rightarrow> nat list option" where
  "parse_ip s =
     (case dropWhile (\<lambda>c. c \<notin> set ''.:%'') s of
        [] \<Rightarrow> None
      | c # t \<Rightarrow> if c = CHR ''.'' then parse_ip4 s
                 else if c = CHR '':'' \<and> CHR ''%'' \<notin> set s then parse_ip6 s else None)"

text \<open>\<^verbatim>\<open>IP.IsLoopback\<close>, on an IPv4 address, one mapped into IPv6, and an IPv6 address.\<close>

definition is_loopback_ip :: "nat list \<Rightarrow> bool" where
  "is_loopback_ip ip =
     (if length ip = 4 then hd ip = 127
      else if take 12 ip = replicate 10 0 @ [255, 255] then ip ! 12 = 127
      else ip = replicate 15 0 @ [1])"

section \<open>Endpoints\<close>

text \<open>\<^verbatim>\<open>TrimSpace\<close> leaves a string of visible ASCII characters alone.\<close>

definition visible_ascii :: "char \<Rightarrow> bool" where
  "visible_ascii c \<longleftrightarrow> 33 \<le> code_of c \<and> code_of c < 127"

lemma trim_visible:
  assumes "list_all visible_ascii s"
  shows "trim_space s = s"
proof -
  let ?p = "map (\<lambda>c. [c]) s"
  have split: "rune_split s = ?p" using assms by (induction s) (auto simp: utf8_first_ascii visible_ascii_def code_of_def)
  have "\<not> space_piece [c]" if "c \<in> set s" for c
    using assms that by (auto simp: list_all_iff space_piece_def utf8_first_ascii visible_ascii_def code_of_def is_space_rune_def)
  then have "\<forall>x \<in> set ?p. \<not> space_piece x" by auto
  then have "dropWhile space_piece ?p = ?p" "dropWhile space_piece (rev ?p) = rev ?p" by (simp_all only: no_drop set_rev)
  moreover have "concat ?p = s" by (induction s) auto
  ultimately show ?thesis by (simp add: trim_space_def split)
qed

record endpoint =
  ep_scheme :: string
  ep_host :: string
  ep_port :: string

definition parse_endpoint :: "bytes \<Rightarrow> endpoint option" where
  "parse_endpoint raw =
     (case parse_url (trim_space raw) of None \<Rightarrow> None
      | Some (scheme, host_port) \<Rightarrow>
          let e = \<lparr>ep_scheme = to_lower scheme, ep_host = trim_suffix (to_lower (fst (split_host_port host_port))) ''.'',
                   ep_port = snd (split_host_port host_port)\<rparr> in
          if ep_host e = [] then None
          else if ep_scheme e = ''https'' then Some (if ep_port e = [] then e\<lparr>ep_port := ''443''\<rparr> else e)
          else if ep_scheme e = ''http'' then Some (if ep_port e = [] then e\<lparr>ep_port := ''80''\<rparr> else e)
          else None)"

definition endpoint_string :: "endpoint \<Rightarrow> string" where
  "endpoint_string e =
     (let host = (if CHR '':'' \<in> set (ep_host e) then ''['' @ ep_host e @ '']'' else ep_host e) in
      ep_scheme e @ ''://'' @ host @ '':'' @ ep_port e)"

definition endpoint_plaintext :: "endpoint \<Rightarrow> bool" where
  "endpoint_plaintext e \<longleftrightarrow> ep_scheme e = ''http''"

definition endpoint_loopback :: "endpoint \<Rightarrow> bool" where
  "endpoint_loopback e \<longleftrightarrow> ep_host e = ''localhost''
     \<or> (case parse_ip (ep_host e) of None \<Rightarrow> False | Some ip \<Rightarrow> is_loopback_ip ip)"

definition same_bucket :: "bytes \<Rightarrow> bytes \<Rightarrow> bool" where
  "same_bucket a b \<longleftrightarrow> equal_fold (trim_space a) (trim_space b)"

definition or_none :: "string \<Rightarrow> string" where
  "or_none s = (if s = [] then ''(none)'' else s)"

section \<open>What the transport of the probe saw\<close>

record exchange =
  ex_scheme :: string
  ex_host :: string
  ex_status :: int
  ex_error_code :: string
  ex_redirected_to :: string

text \<open>A reply of the round tripper: status, the Location header, and a body that may break while it is read.\<close>

record probe_reply =
  rl_status :: int
  rl_location :: string
  rl_body :: "bytes option"
  rl_broken :: bool

definition maxErrorBodyBytes :: nat where "maxErrorBodyBytes = 2 ^ 20"

text \<open>\<open>xml\<close> decodes an S3 error document into its code; \<open>None\<close> when the bytes are not one.\<close>

definition s3_error_code :: "(bytes \<Rightarrow> string option) \<Rightarrow> bytes \<Rightarrow> string" where
  "s3_error_code xml body = (case xml body of None \<Rightarrow> [] | Some code \<Rightarrow> trim_space code)"

definition round_trip :: "(bytes \<Rightarrow> string option) \<Rightarrow> string \<Rightarrow> string \<Rightarrow> probe_reply option \<Rightarrow> exchange" where
  "round_trip xml scheme host reply =
     (let ex = \<lparr>ex_scheme = to_lower scheme, ex_host = to_lower host, ex_status = 0, ex_error_code = [], ex_redirected_to = []\<rparr> in
      case reply of None \<Rightarrow> ex
      | Some r \<Rightarrow>
        let ex1 = ex\<lparr>ex_status := rl_status r,
              ex_redirected_to := (if 300 \<le> rl_status r \<and> rl_status r < 400 then rl_location r else [])\<rparr> in
        (case rl_body r of
           None \<Rightarrow> ex1
         | Some body \<Rightarrow>
             if rl_status r \<ge> 400 \<and> (\<not> rl_broken r \<or> length body \<ge> maxErrorBodyBytes)
             then ex1\<lparr>ex_error_code := s3_error_code xml (take maxErrorBodyBytes body)\<rparr> else ex1))"

section \<open>The judgement on it\<close>

datatype verdict = Pass | Fail | NotApplicable

record pin_result =
  pin_placed :: bool
  pin_note :: string
  pin_verdict :: verdict

definition landed_at :: "exchange \<Rightarrow> endpoint option" where
  "landed_at ex = parse_endpoint (ex_scheme ex @ ''://'' @ ex_host ex)"

text \<open>The first loop: some exchange was answered, without a redirect, at the pinned endpoint.\<close>

fun placed_at :: "endpoint \<Rightarrow> exchange list \<Rightarrow> bool" where
  "placed_at pinned [] = False"
| "placed_at pinned (ex # exs) =
     (if ex_redirected_to ex \<noteq> [] then placed_at pinned exs
      else if landed_at ex = Some pinned then True else placed_at pinned exs)"

definition redirect_note :: "exchange \<Rightarrow> string" where
  "redirect_note ex = ''The reference locker answered with a redirect to '' @ ex_redirected_to ex
     @ '', which the probe refused to follow: a credential is only refused by a bucket if it was sent to that bucket, and this one was not, so nothing further about bucket scope was shown.''"

definition astray_note :: "endpoint \<Rightarrow> exchange \<Rightarrow> string" where
  "astray_note pinned ex = ''The reference probe's request went to '' @ or_none (trim_prefix (ex_scheme ex @ ''://'' @ ex_host ex) ''://'')
     @ '', not to the pinned endpoint '' @ endpoint_string pinned @ '', so nothing about this locker's credentials was shown.''"

text \<open>The second loop: the first exchange that was redirected or went elsewhere.\<close>

fun astray :: "endpoint \<Rightarrow> exchange list \<Rightarrow> string option" where
  "astray pinned [] = None"
| "astray pinned (ex # exs) =
     (if ex_redirected_to ex \<noteq> [] then Some (redirect_note ex)
      else if landed_at ex \<noteq> Some pinned then Some (astray_note pinned ex)
      else astray pinned exs)"

definition bare_note :: "endpoint \<Rightarrow> string" where
  "bare_note pinned = endpoint_string pinned
     @ '' answered 403 with no S3 error body. Any web server answers 403; only an S3 refusal naming its code shows a bucket refused this credential, so nothing about bucket scope was shown.''"

definition silent_note :: "endpoint \<Rightarrow> string" where
  "silent_note pinned = endpoint_string pinned @ '' never answered 403 to the probe, so no bucket was observed refusing this account's credentials.''"

text \<open>The third loop: \<open>None\<close> for a 403 without a code, else the refusals counted.\<close>

fun count_refusals :: "exchange list \<Rightarrow> nat option" where
  "count_refusals [] = Some 0"
| "count_refusals (ex # exs) =
     (if ex_status ex \<noteq> 403 then count_refusals exs
      else if ex_error_code ex = [] then None
      else map_option Suc (count_refusals exs))"

definition uninstrumented_note :: string where
  "uninstrumented_note = ''The reference probe's client was not instrumented, so where the request landed and what the endpoint answered could not be checked; nothing about bucket scope is claimed.''"

definition no_request_note :: string where
  "no_request_note = ''The reference probe made no request at all, so this account's credentials were never offered to another bucket and nothing about bucket scope was shown.''"

definition pin_to_response :: "endpoint \<Rightarrow> exchange list option \<Rightarrow> pin_result" where
  "pin_to_response pinned exchanges =
     (case exchanges of
        None \<Rightarrow> \<lparr>pin_placed = False, pin_note = uninstrumented_note, pin_verdict = NotApplicable\<rparr>
      | Some seen \<Rightarrow>
        if seen = [] then \<lparr>pin_placed = False, pin_note = no_request_note, pin_verdict = NotApplicable\<rparr>
        else (case astray pinned seen of
          Some note \<Rightarrow> \<lparr>pin_placed = placed_at pinned seen, pin_note = note, pin_verdict = Fail\<rparr>
        | None \<Rightarrow>
          (case count_refusals seen of
             None \<Rightarrow> \<lparr>pin_placed = True, pin_note = bare_note pinned, pin_verdict = NotApplicable\<rparr>
           | Some 0 \<Rightarrow> \<lparr>pin_placed = True, pin_note = silent_note pinned, pin_verdict = NotApplicable\<rparr>
           | Some (Suc n) \<Rightarrow> \<lparr>pin_placed = True, pin_note = [], pin_verdict = Pass\<rparr>)))"

lemma placed_at_iff: "placed_at pinned exs \<longleftrightarrow> (\<exists>ex \<in> set exs. ex_redirected_to ex = [] \<and> landed_at ex = Some pinned)"
  by (induction exs) auto

lemma astray_None: "astray pinned exs = None \<longleftrightarrow> (\<forall>ex \<in> set exs. ex_redirected_to ex = [] \<and> landed_at ex = Some pinned)"
  by (induction exs) auto

lemma count_refusals_None: "count_refusals exs = None \<longleftrightarrow> (\<exists>ex \<in> set exs. ex_status ex = 403 \<and> ex_error_code ex = [])"
  by (induction exs) auto

lemma count_refusals_0: "count_refusals exs = Some 0 \<longleftrightarrow> (\<forall>ex \<in> set exs. ex_status ex \<noteq> 403)"
  by (induction exs) auto

text \<open>The pin passes on a refusal with its code, all at the pinned endpoint; anything that went elsewhere fails it.\<close>

lemma pin_passes_iff:
  "(pin_verdict (pin_to_response pinned exchanges) = Pass \<longleftrightarrow>
      (\<exists>seen. exchanges = Some seen \<and> seen \<noteq> []
         \<and> list_all (\<lambda>ex. ex_redirected_to ex = [] \<and> landed_at ex = Some pinned) seen
         \<and> list_ex (\<lambda>ex. ex_status ex = 403) seen
         \<and> \<not> list_ex (\<lambda>ex. ex_status ex = 403 \<and> ex_error_code ex = []) seen))
   \<and> (pin_verdict (pin_to_response pinned exchanges) = Fail \<longleftrightarrow>
      (\<exists>seen. exchanges = Some seen \<and> list_ex (\<lambda>ex. ex_redirected_to ex \<noteq> [] \<or> landed_at ex \<noteq> Some pinned) seen))
   \<and> (pin_placed (pin_to_response pinned exchanges) \<longleftrightarrow>
      (\<exists>seen. exchanges = Some seen \<and> list_ex (\<lambda>ex. ex_redirected_to ex = [] \<and> landed_at ex = Some pinned) seen))"
proof (cases exchanges)
  case None
  then show ?thesis by (simp add: pin_to_response_def)
next
  case (Some seen)
  show ?thesis
  proof (cases "seen = [] \<or> astray pinned seen \<noteq> None")
    case True
    moreover have "astray pinned seen \<noteq> None \<longleftrightarrow> list_ex (\<lambda>ex. ex_redirected_to ex \<noteq> [] \<or> landed_at ex \<noteq> Some pinned) seen"
      unfolding astray_None by (auto simp: list_ex_iff)
    moreover have "astray pinned seen \<noteq> None \<Longrightarrow> \<not> list_all (\<lambda>ex. ex_redirected_to ex = [] \<and> landed_at ex = Some pinned) seen"
      unfolding astray_None by (auto simp: list_all_iff)
    ultimately show ?thesis using Some by (auto simp: pin_to_response_def placed_at_iff list_ex_iff)
  next
    case False
    then have at: "seen \<noteq> []" "\<forall>ex \<in> set seen. ex_redirected_to ex = [] \<and> landed_at ex = Some pinned" "astray pinned seen = None"
      using astray_None by auto
    then have p: "list_all (\<lambda>ex. ex_redirected_to ex = [] \<and> landed_at ex = Some pinned) seen"
      "list_ex (\<lambda>ex. ex_redirected_to ex = [] \<and> landed_at ex = Some pinned) seen"
      "\<not> list_ex (\<lambda>ex. ex_redirected_to ex \<noteq> [] \<or> landed_at ex \<noteq> Some pinned) seen"
      by (auto simp: list_all_iff list_ex_iff neq_Nil_conv)
    consider (bare) "count_refusals seen = None" | (silent) "count_refusals seen = Some 0" | (refused) n where "count_refusals seen = Some (Suc n)"
      by (metis not0_implies_Suc option.exhaust)
    then show ?thesis
    proof cases
      case bare
      with count_refusals_None [of seen] show ?thesis using Some at p by (simp add: pin_to_response_def list_ex_iff)
    next
      case silent
      with count_refusals_0 [of seen] show ?thesis using Some at p by (simp add: pin_to_response_def list_ex_iff)
    next
      case refused
      then have "count_refusals seen \<noteq> None" "count_refusals seen \<noteq> Some 0" by simp_all
      then have "list_ex (\<lambda>ex. ex_status ex = 403) seen" "\<not> list_ex (\<lambda>ex. ex_status ex = 403 \<and> ex_error_code ex = []) seen"
        unfolding count_refusals_None count_refusals_0 by (auto simp: list_ex_iff)
      with refused show ?thesis using Some at p by (simp add: pin_to_response_def)
    qed
  qed
qed

lemmas pin_passed = pin_passes_iff [THEN conjunct1, THEN iffD1]

end
