(* ===== verification/Verify_Report.thy ===== *)
theory Verify_Report
  imports Verify_Endpoint Hop_Client Sync_Engine "HOL-Library.List_Lexorder" "HOL-Library.Char_ord"
begin

text \<open>
  The verification report (\<^verbatim>\<open>verify.go\<close>) and the causes it names (\<^verbatim>\<open>explain.go\<close>): steps, the folding of
  their verdicts, the upload form, the summary, and the reports of runs that never began. The text of
  an error of the control plane, \<^verbatim>\<open>strconv.Quote\<close> and the regular expressions of \<^verbatim>\<open>doctor.RedactPath\<close> are
  parameters (\<open>report_texts\<close>).
\<close>

section \<open>Causes (explain.go)\<close>

datatype fetch_error = FetchBackend backend_error | ObjectTooLarge

fun refusal_in :: "backend_error \<Rightarrow> (string \<times> bool) option" where
  "refusal_in (Refusal c cr) = Some (c, cr)"
| "refusal_in (APIAnswer c (Some e)) = refusal_in e"
| "refusal_in e = None"

definition is_api_answer :: "backend_error \<Rightarrow> bool" where
  "is_api_answer e = (case e of APIAnswer c i \<Rightarrow> True | _ \<Rightarrow> False)"

definition answer_sentinels :: "backend_error list" where
  "answer_sentinels = [ErrUnauthorized, ErrAccessDenied, ErrCredentialRejected, ErrNotFound, ErrPrecondition, ErrAlreadyExists]"

definition answered :: "fetch_error \<Rightarrow> bool" where
  "answered err = (case err of
     ObjectTooLarge \<Rightarrow> True
   | FetchBackend e \<Rightarrow> refusal_in e \<noteq> None \<or> is_api_answer e \<or> list_ex (errors_is e) answer_sentinels)"

definition fetch_error_text :: "fetch_error \<Rightarrow> string" where
  "fetch_error_text err = (case err of ObjectTooLarge \<Rightarrow> ''object larger than the 64 MiB the check reads''
     | FetchBackend e \<Rightarrow> backend_error_text e)"

definition fetch_is :: "fetch_error \<Rightarrow> backend_error \<Rightarrow> bool" where
  "fetch_is err t = (case err of ObjectTooLarge \<Rightarrow> False | FetchBackend e \<Rightarrow> errors_is e t)"

definition refusal_cause :: "string \<Rightarrow> bool \<Rightarrow> string" where
  "refusal_cause code credential =
     (if code = ''InvalidAccessKeyId''
      then ''the storage endpoint does not recognise this access key id, so the credential has been withdrawn or has expired''
      else if code = ''SignatureDoesNotMatch''
      then ''the storage endpoint rejected the request signature, so the secret half of the credential is wrong or this machine's clock is far off''
      else if code = ''ExpiredToken'' \<or> code = ''TokenRefreshRequired''
      then ''the credential's session token has expired; locker credentials last at most an hour''
      else if code = ''InvalidToken''
      then ''the storage endpoint rejected the credential's session token as invalid or withdrawn''
      else if credential
      then ''the storage endpoint rejected the credential itself ('' @ code @ '') rather than the request''
      else ''the storage endpoint recognised the credential and refused the request anyway ('' @ code @ '')'')"

definition explain_backend_error :: "fetch_error \<Rightarrow> string" where
  "explain_backend_error err =
     (case (case err of FetchBackend e \<Rightarrow> refusal_in e | ObjectTooLarge \<Rightarrow> None) of
        Some (code, credential) \<Rightarrow> refusal_cause code credential
      | None \<Rightarrow>
        if fetch_is err ErrCredentialRejected then ''the storage endpoint rejected the credential itself rather than the request''
        else if fetch_is err ErrAccessDenied then ''the storage endpoint recognised the credential and refused the request anyway''
        else if fetch_is err ErrNotFound then ''the storage endpoint says there is no such object''
        else [])"

definition with_cause :: "string \<Rightarrow> string \<Rightarrow> string" where
  "with_cause cause text = (if cause = [] then text else cause @ '' ('' @ text @ '')'')"

text \<open>\<^verbatim>\<open>withCause(explainBackendError(err), err)\<close>, the form in every sentence.\<close>

definition caused :: "fetch_error \<Rightarrow> string" where
  "caused err = with_cause (explain_backend_error err) (fetch_error_text err)"

definition ageHeader :: bytes where "ageHeader = ''age-encryption.org/v1'' @ [CHR 0x0A]"

definition ReportHop :: string where "ReportHop = ''hop''"
definition ReportBYO :: string where "ReportBYO = ''byo''"

definition em_dash :: string where "em_dash = [CHR 0xE2, CHR 0x80, CHR 0x94]"
definition ellipsis :: string where "ellipsis = [CHR 0xE2, CHR 0x80, CHR 0xA6]"

definition explain_decrypt_error :: "string \<Rightarrow> bytes \<Rightarrow> string \<Rightarrow> string" where
  "explain_decrypt_error storage body text =
     (if \<not> has_prefix body ageHeader
      then ''it is not an age envelope at all '' @ em_dash @ '' it does not begin with the age v1 header, so these are unencrypted bytes and there is nothing to decrypt''
      else if contains_text text ''incorrect passphrase''
      then (if storage = ReportHop then ''the key held on this device does not open it: the object was sealed to a different root key''
            else ''the passphrase held on this device does not open it: the object was sealed under a different passphrase'')
      else if contains_text text ''no identity matched'' \<or> contains_text text ''identity did not match''
      then ''the key held on this device is not one of the object's recipients: it was sealed to a different key''
      else if contains_text text ''header MAC'' \<or> contains_text text ''bad header MAC''
      then ''the envelope's header has been altered since it was written''
      else ''the object did not open with the key held on this device'')"

text \<open>A path component that is an absolute path flattened into one name.\<close>

definition looks_flattened :: "string \<Rightarrow> bool" where
  "looks_flattened segment \<longleftrightarrow>
     length segment > 1 \<and> segment ! 0 = CHR ''-''
     \<or> length segment > 3 \<and> is_letter (segment ! 0) \<and> segment ! 1 = CHR ''-'' \<and> segment ! 2 = CHR ''-''"

definition RedactedPathToken :: string where "RedactedPathToken = ''[REDACTED_PATH]''"

record report_texts =
  rt_problem :: "hop_problem \<Rightarrow> string"
  rt_quote :: "bytes \<Rightarrow> string"
  rt_redact :: "string \<Rightarrow> string"

definition segment_text :: "string \<Rightarrow> string" where
  "segment_text segment = (if looks_flattened segment then RedactedPathToken else segment)"

text \<open>The loop over the characters: each maximal run without a separator is a segment.\<close>

fun redact_segments :: "string \<Rightarrow> string \<Rightarrow> string" where
  "redact_segments acc [] = segment_text (rev acc)"
| "redact_segments acc (c # s) =
     (if c = CHR ''/'' \<or> c = CHR 0x5C then segment_text (rev acc) @ c # redact_segments [] s
      else redact_segments (c # acc) s)"

definition redact_local_path :: "report_texts \<Rightarrow> string \<Rightarrow> string" where
  "redact_local_path T p = (if p = [] then p else rt_redact T (redact_segments [] p))"

section \<open>The report\<close>

record check_step =
  st_id :: string
  st_name :: string
  st_did :: string
  st_observed :: string
  st_status :: verdict
  st_detail :: "string list"

record locker_info =
  li_endpoint :: string
  li_bucket :: string
  li_prefix :: string

record report =
  rp_version :: int
  rp_generated_at :: string
  rp_client_version :: string
  rp_storage :: string
  rp_outcome :: verdict
  rp_steps :: "check_step list"
  rp_locker :: locker_info
  rp_summary :: string
  rp_checked :: "string list"
  rp_unopened :: string
  rp_plaintext :: bool
  rp_foreign_bucket :: bool
  rp_wrong_key :: bool
  rp_unreached :: string

record upload_step =
  us_id :: string
  us_name :: string
  us_did :: string
  us_observed :: string
  us_status :: verdict

record upload =
  up_version :: int
  up_generated_at :: string
  up_client_version :: string
  up_storage :: string
  up_outcome :: verdict
  up_steps :: "upload_step list"

definition for_upload :: "report \<Rightarrow> upload" where
  "for_upload r = \<lparr>up_version = rp_version r, up_generated_at = rp_generated_at r, up_client_version = rp_client_version r,
     up_storage = rp_storage r, up_outcome = rp_outcome r,
     up_steps = map (\<lambda>s. \<lparr>us_id = st_id s, us_name = st_name s, us_did = st_did s, us_observed = st_observed s, us_status = st_status s\<rparr>) (rp_steps r)\<rparr>"

definition StepList :: string where "StepList = ''list''"
definition StepCiphertext :: string where "StepCiphertext = ''ciphertext''"
definition StepDecrypt :: string where "StepDecrypt = ''decrypt''"
definition StepIsolation :: string where "StepIsolation = ''isolation''"

definition name_list :: string where "name_list = ''List the locker with this device's credentials''"
definition name_ciphertext :: string where "name_ciphertext = ''Fetch an object and check it is ciphertext''"
definition name_decrypt :: string where "name_decrypt = ''Decrypt the object locally''"
definition name_isolation :: string where "name_isolation = ''Prove this account's credentials are refused from another bucket''"

definition report_passed :: "report \<Rightarrow> bool" where "report_passed r \<longleftrightarrow> rp_outcome r = Pass"
definition report_failed :: "report \<Rightarrow> bool" where "report_failed r \<longleftrightarrow> rp_outcome r = Fail"
definition checked_phrase :: "report \<Rightarrow> string" where "checked_phrase r = join_with '' and '' (rp_checked r)"
definition not_verified :: "report \<Rightarrow> bool" where "not_verified r \<longleftrightarrow> rp_outcome r = NotApplicable \<and> rp_unreached r \<noteq> []"

definition isolation_checked :: "report \<Rightarrow> bool" where
  "isolation_checked r = (case find (\<lambda>s. st_id s = StepIsolation) (rp_steps r) of None \<Rightarrow> False | Some s \<Rightarrow> st_status s = Pass)"

text \<open>\<^verbatim>\<open>degrade\<close>: a verdict moves down only.\<close>

definition degrade :: "verdict \<Rightarrow> verdict \<Rightarrow> verdict" where
  "degrade old verdict = (if verdict = Fail \<or> verdict = NotApplicable \<and> old = Pass then verdict else old)"

text \<open>The loop of \<^verbatim>\<open>outcomeOf\<close>.\<close>

fun outcome_from :: "bool \<Rightarrow> check_step list \<Rightarrow> verdict" where
  "outcome_from held [] = (if held then Pass else NotApplicable)"
| "outcome_from held (s # ss) =
     (case st_status s of Fail \<Rightarrow> Fail | NotApplicable \<Rightarrow> outcome_from held ss | Pass \<Rightarrow> outcome_from True ss)"

definition outcome_of :: "check_step list \<Rightarrow> verdict" where "outcome_of steps = outcome_from False steps"

section \<open>The summary\<close>

definition alarm_text :: "report \<Rightarrow> string" where
  "alarm_text r =
     (if rp_plaintext r \<and> rp_foreign_bucket r
      then ''An object in the locker is not encrypted, and this account's credentials reached a bucket that is not its own.''
      else if rp_plaintext r
      then ''An object in the locker is not encrypted: something wrote readable bytes where only an age envelope belongs.''
      else ''This account's credentials reached a bucket that is not its own, so they are not scoped to this locker.'')"

definition hop_key_advice :: string where
  "hop_key_advice = ''the root key this device holds did not open them. The usual cause is a device enrolled against a different account, or one that never received the current key generation: run rein devices to see whether the keyring holds a wrap for this device, then rein account recover with your recovery code, or rein account join and approve it from an enrolled device. If this device has opened these objects before and nothing about the account has changed, keep this report and send it to security@reinstate.dev.''"

definition byo_key_advice :: string where
  "byo_key_advice = ''the passphrase this device used did not open them. The usual cause is a different passphrase than the one given at rein init '' @ em_dash @ '' it is never stored anywhere, so a typo or a second passphrase produces exactly this. Try again with the passphrase this profile was created with. If you are certain it is the right one, the objects may have been altered in the bucket; keep this report and send it to security@reinstate.dev.''"

definition key_advice :: "report \<Rightarrow> string" where
  "key_advice r = (if rp_storage r = ReportHop then hop_key_advice else byo_key_advice)"

definition not_verified_text :: "string \<Rightarrow> string" where
  "not_verified_text unreached = ''NOT VERIFIED. '' @ unreached @ '' Nothing was checked, so nothing here says anything about what the locker holds or where these credentials reach. Run rein sync verify again when the storage endpoint answers.''"

definition not_yet_text :: string where
  "not_yet_text = ''NOT YET VERIFIABLE. Nothing has been pushed from this profile yet, so the locker holds nothing to check. Run rein push, then rein sync verify again.''"

definition alarm_summary :: "report \<Rightarrow> string" where
  "alarm_summary r = ''FAIL. '' @ alarm_text r @ '' This is what these checks exist to catch. Keep this report; if the locker is a Hop locker, send it to security@reinstate.dev.''"

definition wrong_key_summary :: "report \<Rightarrow> string" where
  "wrong_key_summary r = ''FAIL. The objects in the locker are ciphertext, but '' @ key_advice r @ '' Nothing here says the locker holds anything it should not; it says this device cannot read it.''"

definition plain_fail_summary :: string where
  "plain_fail_summary = ''FAIL. At least one step did not hold. The failed step above names what was seen and what to do about it.''"

definition checked_text :: "report \<Rightarrow> string" where
  "checked_text r =
     (let names = (if rp_checked r = [] then [''the fetched objects''] else rp_checked r) in
      (if length names = 1 then ''The object checked ('' @ hd names @ '') is ciphertext this device can open.''
       else ''The objects checked ('' @ join_with '' and '' names @ '') are ciphertext this device can open.'')
      @ (if rp_unopened r \<noteq> [] then '' '' @ rp_unopened r else [])
      @ (if rp_unreached r \<noteq> [] then '' '' @ rp_unreached r @ '' That object was not checked; the steps above say why.'' else []))"

definition pass_summary :: "report \<Rightarrow> string" where
  "pass_summary r = ''PASS. '' @ checked_text r @
     (if isolation_checked r then '' This account's credentials are refused by a bucket that is not its own.''
      else '' Whether the credentials reach other buckets was not checked (step 4 above says why), so nothing is claimed about that.'')"

definition build_summary :: "report \<Rightarrow> string" where
  "build_summary r =
     (if rp_outcome r = NotApplicable \<and> rp_unreached r \<noteq> [] then not_verified_text (rp_unreached r)
      else if rp_outcome r = NotApplicable then not_yet_text
      else if rp_outcome r = Fail \<and> (rp_plaintext r \<or> rp_foreign_bucket r) then alarm_summary r
      else if rp_outcome r = Fail \<and> rp_wrong_key r then wrong_key_summary r
      else if rp_outcome r = Fail then plain_fail_summary
      else pass_summary r)"

section \<open>Runs that never began\<close>

definition with_reason :: "string \<Rightarrow> string option \<Rightarrow> string" where
  "with_reason sentence cause = (case cause of None \<Rightarrow> sentence | Some text \<Rightarrow> sentence @ '' ('' @ text @ '')'')"

definition isolation_for :: "string \<Rightarrow> string \<Rightarrow> string" where
  "isolation_for storage running =
     (if storage = ReportBYO
      then ''Not applicable: this profile stores to a bucket you configured yourself, so there is no control plane to name a reference locker and no operator-owned bucket to offer these credentials to. No request was made.''
      else running)"

definition not_started_step :: "string \<Rightarrow> string \<Rightarrow> string \<Rightarrow> check_step" where
  "not_started_step i name observed = \<lparr>st_id = i, st_name = name, st_did = ''Nothing: the check did not start.'',
     st_observed = observed, st_status = NotApplicable, st_detail = []\<rparr>"

definition not_started ::
  "string \<Rightarrow> string \<Rightarrow> string \<Rightarrow> locker_info \<Rightarrow> string \<Rightarrow> string \<Rightarrow> string \<Rightarrow> string \<Rightarrow> report" where
  "not_started now client storage locker because listed isolation retry =
     \<lparr>rp_version = 1, rp_generated_at = now, rp_client_version = client, rp_storage = storage, rp_outcome = NotApplicable,
      rp_steps = [not_started_step StepList name_list listed,
        not_started_step StepCiphertext name_ciphertext ''Could not run: no object could be fetched, because the locker could not be opened (see step 1).'',
        not_started_step StepDecrypt name_decrypt ''Could not run: no object was fetched (see step 2). The key this step would have used never leaves this device and was never involved.'',
        not_started_step StepIsolation name_isolation (isolation_for storage isolation)],
      rp_locker = locker,
      rp_summary = ''NOT VERIFIED. Nothing was checked, because '' @ because @ ''. No step failed and nothing here says anything about what the locker holds. '' @ retry,
      rp_checked = [], rp_unopened = [], rp_plaintext = False, rp_foreign_bucket = False, rp_wrong_key = False, rp_unreached = because\<rparr>"

definition not_run :: "string \<Rightarrow> string \<Rightarrow> string \<Rightarrow> locker_info \<Rightarrow> string option \<Rightarrow> report" where
  "not_run now client storage locker cause =
     (let because = with_reason ''the control plane could not be reached'' cause in
      not_started now client storage locker because
        (''Could not run: '' @ because @ '', and a Hop locker is listed with credentials the control plane mints for this device, so there were no credentials to list it with.'')
        (''Could not run: '' @ because @ '', so it could not say where its reference locker is.'')
        ''Run rein sync verify again when the control plane is reachable.'')"

definition not_reached :: "string \<Rightarrow> string \<Rightarrow> string \<Rightarrow> locker_info \<Rightarrow> string option \<Rightarrow> report" where
  "not_reached now client storage locker cause =
     (let because = with_reason ''the storage endpoint gave no answer'' cause in
      not_started now client storage locker because
        (''Could not run: '' @ because @ '', so the locker could not be opened or listed.'')
        ''Could not run: step 1 could not list this account's locker, so a refusal from another bucket would show nothing about bucket scope.''
        ''Run rein sync verify again when the storage endpoint answers.'')"

end
