(* ===== verification/Verify_Run.thy ===== *)
theory Verify_Run
  imports Verify_Report Exit_Codes "HOL-Library.AList"
begin

text \<open>
  The four checks of \<^verbatim>\<open>rein sync verify\<close> (\<^verbatim>\<open>verify.go\<close>: \<^verbatim>\<open>Run\<close>). The store is seen once per request: \<open>vo_store i\<close>
  is its state at the \<open>i\<close>-th one, so other devices may act in between. Decryption gives the plaintext
  that could be read and the error that ended the reading, if any. A body that breaks while it is read
  is an error of the read.
\<close>

section \<open>Options\<close>

type_synonym opened = "bytes \<times> string option"

record 'r probe =
  pb_backend :: "'r backend option"
  pb_store :: "nat \<Rightarrow> 'r"
  pb_access_key :: string
  pb_exchanges :: "exchange list option"

record ('s, 'r) verify_options =
  vo_backend :: "'s backend"
  vo_store :: "nat \<Rightarrow> 's"
  vo_prefix :: string
  vo_open :: "(bytes \<Rightarrow> (string, opened) result) option"
  vo_storage :: string
  vo_locker :: locker_info
  vo_reference :: "reference option"
  vo_reference_err :: "hop_problem option"
  vo_open_reference :: "(reference \<Rightarrow> (string, 'r probe) result) option"
  vo_credential_id :: "(string, string) result option"
  vo_client_version :: string
  vo_now :: string

definition maxCheckBytes :: nat where "maxCheckBytes = 67108864"
definition maxHeaderBytes :: nat where "maxHeaderBytes = 4096"

definition manifestObject :: string where "manifestObject = ''manifest.age''"
definition snapshotPrefix :: string where "snapshotPrefix = ''snapshots/''"

definition snapshot_object :: "string \<Rightarrow> string" where "snapshot_object i = snapshotPrefix @ i @ ''.age''"

definition access_key_note :: string where
  "access_key_note = ''(shown so steps 1 and 4 can be seen to name the same credential; an access key id is a public identifier, and the secret key and session token are never printed)''"

definition signed_with :: "string \<Rightarrow> string" where
  "signed_with akid = ''signed with access key id '' @ akid @ '' '' @ access_key_note"

definition object_key :: "string \<Rightarrow> string \<Rightarrow> string" where
  "object_key prefix relative = (let p = trim_char slash prefix in if p = [] then relative else p @ ''/'' @ relative)"

section \<open>Step 1: the listing\<close>

record inventory =
  iv_manifest :: bool
  iv_keyring :: bool
  iv_snapshots :: "string list"
  iv_other :: "string list"
  iv_total :: nat

definition is_snapshot_name :: "string \<Rightarrow> bool" where
  "is_snapshot_name k \<longleftrightarrow> has_prefix k snapshotPrefix \<and> has_suffix k ''.age''"

definition snapshot_id :: "string \<Rightarrow> string" where
  "snapshot_id k = trim_suffix (trim_prefix k snapshotPrefix) ''.age''"

definition sort_object :: "string \<Rightarrow> object_meta \<Rightarrow> inventory \<Rightarrow> inventory" where
  "sort_object prefix obj iv =
     (let k = trim_prefix (om_key obj) (trim_char slash prefix @ ''/'') in
      if k = manifestObject then iv\<lparr>iv_manifest := True\<rparr>
      else if k = keyring_object_name then iv\<lparr>iv_keyring := True\<rparr>
      else if is_snapshot_name k then iv\<lparr>iv_snapshots := iv_snapshots iv @ [snapshot_id k]\<rparr>
      else iv\<lparr>iv_other := iv_other iv @ [k]\<rparr>)"

definition take_inventory :: "string \<Rightarrow> object_meta list \<Rightarrow> inventory" where
  "take_inventory prefix objects =
     (let iv = fold (sort_object prefix) objects
            \<lparr>iv_manifest = False, iv_keyring = False, iv_snapshots = [], iv_other = [], iv_total = length objects\<rparr> in
      iv\<lparr>iv_snapshots := sort (iv_snapshots iv), iv_other := sort (iv_other iv)\<rparr>)"

definition did_list :: string where
  "did_list = ''Asked the storage endpoint for every object under this account's prefix (following every listing page), signed with the credentials this device uses to push.''"

definition nothing_pushed :: "nat \<Rightarrow> string" where
  "nothing_pushed n = itoa (int n) @ '' object(s) under this prefix, and no '' @ manifestObject @ '': nothing has been pushed from this profile yet, so there is nothing to check. Run rein push first, then rein sync verify again.''"

definition inventory_parts :: "inventory \<Rightarrow> string list" where
  "inventory_parts iv =
     (if iv_manifest iv then [manifestObject @ '' (the encrypted index)''] else [])
     @ (if iv_keyring iv then [keyring_object_name @ '' (the root key, wrapped per device; holds no usable key on its own)''] else [])
     @ (if iv_snapshots iv \<noteq> [] then [itoa (int (length (iv_snapshots iv))) @ '' snapshot(s) under '' @ snapshotPrefix @ '' named by opaque ids''] else [])
     @ (if iv_other iv \<noteq> [] then [itoa (int (length (iv_other iv))) @ '' other object(s)''] else [])"

definition listing_unanswered :: "fetch_error \<Rightarrow> string" where
  "listing_unanswered err = ''Could not run: the storage endpoint gave no answer to the listing '' @ em_dash @ '' '' @ caused err @ '' '' @ em_dash @ '' so nothing about this locker was shown either way.''"

definition credential_used :: "('s, 'r) verify_options \<Rightarrow> string" where
  "credential_used opts = (case vo_credential_id opts of Some (Inr i) \<Rightarrow> i | _ \<Rightarrow> [])"

text \<open>The step, what it found, and what it leaves in \<open>unreached\<close>.\<close>

definition list_step :: "('s, 'r) verify_options \<Rightarrow> check_step \<times> inventory option \<times> string" where
  "list_step opts =
     (let akid = credential_used opts;
          detail = (if akid = [] then [] else [signed_with akid]);
          step = (\<lambda>status observed more. \<lparr>st_id = StepList, st_name = name_list, st_did = did_list, st_observed = observed,
                    st_status = status, st_detail = detail @ more\<rparr>) in
      case be_list (vo_backend opts) (trim_char slash (vo_prefix opts)) (vo_store opts 0) of
        Inl e \<Rightarrow> (let err = FetchBackend e in
          if \<not> answered err
          then (step NotApplicable (listing_unanswered err) [], None, ''The locker could not be listed: '' @ caused err @ ''.'')
          else (step Fail (''The listing was refused or failed: '' @ caused err @ ''.'') [], None, []))
      | Inr objects \<Rightarrow>
          let iv = take_inventory (vo_prefix opts) objects;
              more = map snapshot_object (iv_snapshots iv) @ iv_other iv in
          if \<not> iv_manifest iv then (step NotApplicable (nothing_pushed (iv_total iv)) more, Some iv, [])
          else (step Pass (itoa (int (iv_total iv)) @ '' object(s): '' @ join_with ''; '' (inventory_parts iv) @ ''.'') more, Some iv, []))"

section \<open>Step 2: the raw bytes\<close>

record fetched =
  fe_name :: string
  fe_label :: string
  fe_body :: bytes

definition fetch :: "'s backend \<Rightarrow> string \<Rightarrow> 's \<Rightarrow> (fetch_error, bytes) result" where
  "fetch B k s = (case be_get B k s of
     Inl e \<Rightarrow> Inl (FetchBackend e)
   | Inr (data, meta) \<Rightarrow> if length data > maxCheckBytes then Inl ObjectTooLarge else Inr data)"

definition plaintextMarkers :: "bytes list" where
  "plaintextMarkers = map (\<lambda>m. CHR 0x22 # m @ [CHR 0x22])
     [''schema_version'', ''sessions'', ''snapshot_id'', ''session_id'', ''revision'', ''files'']"

definition recipient_kind :: "bytes \<Rightarrow> string" where
  "recipient_kind head = (if contains_text head ''-> X25519 '' then ''X25519 (root key)''
     else if contains_text head ''-> scrypt '' then ''scrypt (passphrase)'' else ''unknown'')"

definition inspect_ciphertext :: "bytes \<Rightarrow> string \<times> bool" where
  "inspect_ciphertext body =
     (if \<not> has_prefix body ageHeader
      then (''does NOT begin with the age v1 header; this object is not an age envelope.'', False)
      else let kind = recipient_kind (take maxHeaderBytes body) in
        case find (contains_text body) plaintextMarkers of
          Some m \<Rightarrow> (''begins with the age v1 header (recipient '' @ kind @ '') but the plaintext field '' @ m
              @ '' appears in the body; this object is NOT fully encrypted.'', False)
        | None \<Rightarrow> (''begins with the age v1 header (recipient '' @ kind @ ''); no plaintext field name appears anywhere in the body.'', True))"

text \<open>\<^verbatim>\<open>io.ReadAll(io.LimitReader(plain, n))\<close>.\<close>

definition read_limited :: "nat \<Rightarrow> opened \<Rightarrow> (string, bytes) result" where
  "read_limited n p = (if length (fst p) \<ge> n then Inr (take n (fst p))
     else case snd p of None \<Rightarrow> Inr (fst p) | Some e \<Rightarrow> Inl e)"

text \<open>
  \<^verbatim>\<open>newestSnapshot\<close>: the loop over the entries of the index in key order, and the last identifier in sort
  order when the index says nothing. \<open>instant\<close> parses an RFC 3339 instant.
\<close>

fun newest_loop :: "(string \<Rightarrow> int option) \<Rightarrow> string list \<Rightarrow> manifest_session list \<Rightarrow> (string \<times> int) option \<Rightarrow> string option" where
  "newest_loop instant listed [] best = map_option fst best"
| "newest_loop instant listed (s # ss) best =
     (if ms_snapshot_id s \<notin> set listed then newest_loop instant listed ss best
      else case instant (ms_updated_at s) of
        None \<Rightarrow> newest_loop instant listed ss best
      | Some at \<Rightarrow>
          if (case best of None \<Rightarrow> True | Some (i, t) \<Rightarrow> i = [] \<or> at > t)
          then newest_loop instant listed ss (Some (ms_snapshot_id s, at))
          else newest_loop instant listed ss best)"

definition index_entries :: "manifest \<Rightarrow> (string \<times> manifest_session) list" where
  "index_entries m = (let es = AList.clearjunk (mf_sessions m) in map (\<lambda>k. (k, the (map_of es k))) (sort (map fst es)))"

definition newest_snapshot ::
  "lib \<Rightarrow> (string \<Rightarrow> int option) \<Rightarrow> ('s, 'r) verify_options \<Rightarrow> inventory \<Rightarrow> bytes \<Rightarrow> string \<times> bool" where
  "newest_snapshot L instant opts iv body =
     (let fallback = (last (iv_snapshots iv), False) in
      if body = [] then fallback
      else case vo_open opts of None \<Rightarrow> fallback
      | Some decrypt \<Rightarrow>
        (case decrypt body of Inl e \<Rightarrow> fallback
         | Inr plain \<Rightarrow>
           (case read_limited maxCheckBytes plain of Inl e \<Rightarrow> fallback
           | Inr raw \<Rightarrow>
             (case lb_manifest_unjson L raw of Inl e \<Rightarrow> fallback
             | Inr m \<Rightarrow>
               (case newest_loop instant (iv_snapshots iv) (map snd (index_entries m)) None of
                 None \<Rightarrow> fallback
               | Some i \<Rightarrow> if i = [] then fallback else (i, True))))))"

text \<open>The variables the closure \<^verbatim>\<open>read\<close> of the step shares with it, and one call of it.\<close>

record reading =
  rd_status :: verdict
  rd_observed :: "string list"
  rd_detail :: "string list"
  rd_got :: "fetched list"
  rd_plaintext :: bool
  rd_unreached :: string

definition first_line_detail :: "string \<Rightarrow> bytes \<Rightarrow> string list" where
  "first_line_detail name body =
     (let head = takeWhile (\<lambda>c. c \<noteq> CHR 0x0A) body in
      if CHR 0x0A \<in> set body \<and> length head < 200 then [name @ '' first line: '' @ head] else [])"

definition fetch_unanswered :: "string \<Rightarrow> fetch_error \<Rightarrow> string" where
  "fetch_unanswered name err = ''Could not run: the storage endpoint gave no answer for '' @ name @ '' '' @ em_dash @ '' '' @ caused err
     @ '' '' @ em_dash @ '' so nothing about that object was shown.''"

definition not_fetched :: "string \<Rightarrow> fetch_error \<Rightarrow> string" where
  "not_fetched name err = name @ '' could not be fetched: '' @ caused err @ ''.''"

definition read_object :: "string \<Rightarrow> string \<Rightarrow> (fetch_error, bytes) result \<Rightarrow> reading \<Rightarrow> bytes \<times> reading" where
  "read_object name label answer rd =
     (case answer of
        Inl err \<Rightarrow>
          if \<not> answered err
          then ([], rd\<lparr>rd_status := degrade (rd_status rd) NotApplicable,
                  rd_observed := rd_observed rd @ [fetch_unanswered name err],
                  rd_unreached := (if rd_unreached rd = [] then not_fetched name err else rd_unreached rd)\<rparr>)
          else ([], rd\<lparr>rd_status := degrade (rd_status rd) Fail, rd_observed := rd_observed rd @ [not_fetched name err]\<rparr>)
      | Inr body \<Rightarrow>
          let (seen, ok) = inspect_ciphertext body in
          (body, rd\<lparr>rd_status := (if ok then rd_status rd else degrade (rd_status rd) Fail),
             rd_plaintext := (rd_plaintext rd \<or> \<not> ok),
             rd_got := rd_got rd @ [\<lparr>fe_name = name, fe_label = label, fe_body = body\<rparr>],
             rd_observed := rd_observed rd @ [name @ '' ('' @ itoa (int (length body)) @ '' bytes): '' @ seen],
             rd_detail := rd_detail rd @ first_line_detail name body\<rparr>))"

definition start_reading :: "string \<Rightarrow> reading" where
  "start_reading unreached = \<lparr>rd_status = Pass, rd_observed = [], rd_detail = [], rd_got = [], rd_plaintext = False, rd_unreached = unreached\<rparr>"

definition read_objects ::
  "lib \<Rightarrow> (string \<Rightarrow> int option) \<Rightarrow> ('s, 'r) verify_options \<Rightarrow> inventory \<Rightarrow> string \<Rightarrow> reading" where
  "read_objects L instant opts iv unreached =
     (let get = (\<lambda>i name. fetch (vo_backend opts) (object_key (vo_prefix opts) name) (vo_store opts i));
          (body, rd) = read_object manifestObject ''the index'' (get 1 manifestObject) (start_reading unreached) in
      if iv_snapshots iv = [] then rd
      else let (i, from_index) = newest_snapshot L instant opts iv body;
               label = (if from_index then ''the newest snapshot in the index'' else ''one snapshot'') in
        snd (read_object (snapshot_object i) label (get 2 (snapshot_object i)) rd))"

definition did_ciphertext :: string where
  "did_ciphertext = ''Downloaded the index object and, when the index names one, the snapshot it records as updated last, and looked at the raw bytes for the age encryption header and for any field name that appears in the plaintext.''"

definition nothing_to_read :: "string \<Rightarrow> reading" where
  "nothing_to_read unreached = (start_reading unreached)\<lparr>rd_status := NotApplicable\<rparr>"

text \<open>The step together with what the closure left behind.\<close>

definition ciphertext_step ::
  "lib \<Rightarrow> (string \<Rightarrow> int option) \<Rightarrow> ('s, 'r) verify_options \<Rightarrow> inventory option \<Rightarrow> string \<Rightarrow> check_step \<times> reading" where
  "ciphertext_step L instant opts iv unreached =
     (let step = (\<lambda>status observed detail. \<lparr>st_id = StepCiphertext, st_name = name_ciphertext, st_did = did_ciphertext,
            st_observed = observed, st_status = status, st_detail = detail\<rparr>) in
      case iv of
        None \<Rightarrow> (step NotApplicable ''Could not run: the locker could not be listed, so there was nothing to fetch (see step 1).'' [], nothing_to_read unreached)
      | Some v \<Rightarrow>
          if \<not> iv_manifest v
          then (step NotApplicable ''Not run: the locker holds no index yet, so there is no object to fetch (see step 1).'' [], nothing_to_read unreached)
          else let rd = read_objects L instant opts v unreached in
            (step (rd_status rd) (join_with '' '' (rd_observed rd)) (rd_detail rd), rd))"

section \<open>Step 3: decryption\<close>

definition agent_counts :: "manifest_session list \<Rightarrow> string list" where
  "agent_counts ss = map (\<lambda>a. a @ '' '' @ itoa (int (length (filter (\<lambda>s. ms_agent s = a) ss)))) (sort (remdups (map ms_agent ss)))"

definition index_text :: "manifest \<Rightarrow> string" where
  "index_text m = manifestObject @ '' decrypted into a schema v'' @ itoa (mf_schema_version m) @ '' index.''"

definition entry_text :: "string \<times> manifest_session \<Rightarrow> string" where
  "entry_text e = ''index entry '' @ fst e @ '' -> '' @ snapshotPrefix @ ms_snapshot_id (snd e) @ ''.age (updated '' @ ms_updated_at (snd e) @ '')''"

definition revision_text :: "manifest \<Rightarrow> string" where
  "revision_text m = ''index revision '' @ or_none (mf_revision m) @ '', '' @ itoa (int (length (index_entries m))) @ '' session(s)''
     @ (let cs = agent_counts (map snd (index_entries m)) in if cs = [] then [] else '' ('' @ join_with '', '' cs @ '')'')"

definition describe_manifest :: "lib \<Rightarrow> opened \<Rightarrow> (string, string \<times> string list) result" where
  "describe_manifest L plain =
     (case read_limited maxCheckBytes plain of Inl e \<Rightarrow> Inl e
      | Inr raw \<Rightarrow>
        (case lb_manifest_unjson L raw of Inl e \<Rightarrow> Inl (''the plaintext is not a manifest: '' @ e)
         | Inr m \<Rightarrow> Inr (index_text m, revision_text m # map entry_text (index_entries m))))"

definition short_text :: "string \<Rightarrow> string" where "short_text s = take 12 s"

definition mismatch_text :: "nat \<Rightarrow> string \<Rightarrow> envelope_file \<Rightarrow> string" where
  "mismatch_text n digest file = ''the payload ('' @ itoa (int n) @ '' bytes, sha256 '' @ take 12 digest @ ellipsis @ '') does not match the envelope (''
     @ itoa (ef_size file) @ '' bytes, sha256 '' @ short_text (ef_sha256 file) @ ellipsis @ '')''"

definition snapshot_detail :: "report_texts \<Rightarrow> string \<Rightarrow> envelope \<Rightarrow> nat \<Rightarrow> envelope_file \<Rightarrow> string" where
  "snapshot_detail T name env n file = name @ '': agent '' @ en_agent env @ '', session '' @ en_session_id env @ '', project ''
     @ redact_local_path T (en_project_id env) @ '', created '' @ en_created_at env @ '' on '' @ en_source_platform env @ '', ''
     @ itoa (int (length (en_files env))) @ '' file(s), payload '' @ itoa (int n) @ '' bytes, file '' @ redact_local_path T (ef_path file)"

text \<open>The metadata line without its newline and the bytes behind it, \<^verbatim>\<open>ReadBytes\<close>: an error counts before a newline only.\<close>

definition snapshot_line :: "opened \<Rightarrow> (string, bytes \<times> bytes) result" where
  "snapshot_line plain =
     (let line = takeWhile (\<lambda>c. c \<noteq> CHR 0x0A) (fst plain) in
      if CHR 0x0A \<in> set (fst plain) then Inr (line, drop (Suc (length line)) (fst plain))
      else case snd plain of None \<Rightarrow> Inr (line, []) | Some e \<Rightarrow> Inl e)"

definition describe_snapshot :: "lib \<Rightarrow> report_texts \<Rightarrow> string \<Rightarrow> opened \<Rightarrow> (string, string \<times> string list) result" where
  "describe_snapshot L T name plain =
     (case snapshot_line plain of Inl e \<Rightarrow> Inl e
      | Inr (line, rest) \<Rightarrow>
        (case lb_envelope_unjson L line of Inl e \<Rightarrow> Inl (''the plaintext does not start with a snapshot envelope: '' @ e)
         | Inr env \<Rightarrow>
           (case en_files env of [] \<Rightarrow> Inl ''the snapshot envelope lists no file''
            | file # files \<Rightarrow>
              (case read_limited maxCheckBytes (rest, snd plain) of Inl e \<Rightarrow> Inl e
               | Inr payload \<Rightarrow>
                 let digest = hex_encode (sum_bytes (lb_sha256 L payload)); n = length payload in
                 if int n \<noteq> ef_size file \<or> digest \<noteq> ef_sha256 file then Inl (mismatch_text n digest file)
                 else Inr (name @ '' decrypted into a snapshot envelope whose payload sha256 matches the envelope.'',
                    [snapshot_detail T name env n file])))))"

text \<open>One object of the loop: whether it opened, and the sentence and details or the failure.\<close>

definition open_object :: "lib \<Rightarrow> report_texts \<Rightarrow> string \<Rightarrow> (bytes \<Rightarrow> (string, opened) result) \<Rightarrow> fetched \<Rightarrow> bool \<times> (string, string \<times> string list) result" where
  "open_object L T storage decrypt f =
     (case decrypt (fe_body f) of
        Inl e \<Rightarrow> (False, Inl (fe_name f @ '' did not decrypt: '' @ with_cause (explain_decrypt_error storage (fe_body f) e) e @ ''.''))
      | Inr plain \<Rightarrow>
          (case (if fe_name f = manifestObject then describe_manifest L plain else describe_snapshot L T (fe_name f) plain) of
             Inl e \<Rightarrow> (True, Inl (fe_name f @ '' did not decrypt cleanly: '' @ e @ ''.''))
           | Inr d \<Rightarrow> (True, Inr d)))"

definition did_decrypt :: string where
  "did_decrypt = ''Opened the same bytes on this device with the key held here (the root key for Hop, the passphrase for BYO storage) and read what they contain. Nothing was sent anywhere.''"

definition observed_of :: "(string, string \<times> string list) result \<Rightarrow> string" where
  "observed_of r = (case r of Inl e \<Rightarrow> e | Inr d \<Rightarrow> fst d)"

definition details_of :: "(string, string \<times> string list) result \<Rightarrow> string list" where
  "details_of r = (case r of Inl e \<Rightarrow> [] | Inr d \<Rightarrow> snd d)"

definition decrypt_step :: "lib \<Rightarrow> report_texts \<Rightarrow> ('s, 'r) verify_options \<Rightarrow> fetched list \<Rightarrow> check_step \<times> bool" where
  "decrypt_step L T opts got =
     (let step = (\<lambda>status observed detail. \<lparr>st_id = StepDecrypt, st_name = name_decrypt, st_did = did_decrypt,
            st_observed = observed, st_status = status, st_detail = detail\<rparr>) in
      if got = [] then (step NotApplicable ''Not run: no object was fetched (see step 2).'' [], False)
      else case vo_open opts of
        None \<Rightarrow> (step Fail ''No key is available on this device to decrypt with.'' [], False)
      | Some decrypt \<Rightarrow>
          let rs = map (open_object L T (vo_storage opts) decrypt) got in
          (step (if list_all (\<lambda>r. case snd r of Inl e \<Rightarrow> False | Inr d \<Rightarrow> True) rs then Pass else Fail)
             (join_with '' '' (map (observed_of \<circ> snd) rs)) (concat (map (details_of \<circ> snd) rs)),
           list_all (\<lambda>r. \<not> fst r) rs))"

section \<open>Step 4: isolation\<close>

definition did_isolation :: string where
  "did_isolation = ''Asked the control plane for its reference locker (a bucket the operator owns, holding one probe object), checked that it names a different bucket at the same storage endpoint step 1 listed and that reaching it would not put this device's credentials on the wire unencrypted, then tried to list it and read the probe with the same credentials that just listed this account's locker, over a client that refuses to follow a redirect anywhere else.''"

definition did_nothing_byo :: string where
  "did_nothing_byo = ''Nothing. This profile stores to a bucket you configured yourself, so there is no control plane to name a reference locker and no operator-owned bucket to offer these credentials to. No request was made.''"

definition steps_stand_alone :: string where
  "steps_stand_alone = ''The first three steps above ran entirely against storage and the key on this device and stand on their own; run rein sync verify again later.''"

definition byo_observed :: string where
  "byo_observed = ''Not applicable: BYO storage has no control plane and no reference locker. Whether your credentials reach other buckets is decided by your own bucket policy.''"

definition no_control_plane_observed :: "string \<Rightarrow> string" where
  "no_control_plane_observed text = ''Could not run: the control plane could not be reached, so it could not say where its reference locker is and nothing about bucket scope was shown ('' @ text @ ''). '' @ steps_stand_alone"

definition no_reference_observed :: "string \<Rightarrow> string" where
  "no_reference_observed text = ''Could not run: the control plane did not say where its reference locker is'' @ text
     @ '', so nothing about bucket scope was shown. That is a fault on the control plane's side, not a finding about this locker. '' @ steps_stand_alone"

definition no_opener_observed :: string where
  "no_opener_observed = ''Could not run: no way to open the reference locker was configured on this device, so nothing was asked of it.''"

definition nothing_to_verify_observed :: string where
  "nothing_to_verify_observed = ''Not applicable: nothing has been pushed from this profile yet (see step 1), so there is nothing to verify. Run rein push, then rein sync verify again.''"

definition not_listed_observed :: string where
  "not_listed_observed = ''Not applicable: step 1 did not list this account's locker, so no locker was shown to accept these credentials and a refusal here would show nothing about bucket scope. Fix step 1 and verify again.''"

text \<open>The switch at the head of the step: why no reference locker is asked at all.\<close>

definition isolation_skipped :: "report_texts \<Rightarrow> ('s, 'r) verify_options \<Rightarrow> verdict \<Rightarrow> string option" where
  "isolation_skipped T opts listed =
     (if vo_storage opts = ReportBYO then Some byo_observed
      else case vo_reference opts of
        None \<Rightarrow>
          (case vo_reference_err opts of
             None \<Rightarrow> Some (no_reference_observed [])
           | Some e \<Rightarrow>
               if e = NoReference then Some (''Not applicable: '' @ rt_problem T e @ ''.'')
               else if unreachable e then Some (no_control_plane_observed (rt_problem T e))
               else Some (no_reference_observed ('' ('' @ rt_problem T e @ '')'')))
      | Some ref \<Rightarrow>
          if vo_open_reference opts = None then Some no_opener_observed
          else if listed = NotApplicable then Some nothing_to_verify_observed
          else if listed \<noteq> Pass then Some not_listed_observed
          else None)"

definition or_invalid :: "report_texts \<Rightarrow> bytes \<Rightarrow> string" where
  "or_invalid T s = (if trim_space s = [] then [] else '' ('' @ rt_quote T s @ '' is not an absolute http or https URL)'')"

definition unknown_endpoint_observed :: "report_texts \<Rightarrow> bytes \<Rightarrow> string" where
  "unknown_endpoint_observed T raw = ''Could not run: the storage endpoint this account's locker was listed at is not known here'' @ or_invalid T raw
     @ '', so the reference locker cannot be pinned to it and a refusal from it would show nothing about bucket scope.''"

definition unknown_bucket_observed :: string where
  "unknown_bucket_observed = ''Could not run: the bucket step 1 listed is not known here, so nothing could show that the reference locker is a different bucket from this account's.''"

definition own_bucket_observed :: "string \<Rightarrow> string" where
  "own_bucket_observed bucket = ''Could not run: the control plane named this account's own bucket ('' @ bucket
     @ '') as its reference locker. These credentials are supposed to reach that bucket, so nothing it answers says anything about other buckets. That is a fault on the control plane's side, not a finding about this locker. '' @ steps_stand_alone"

definition other_endpoint_observed :: "string \<Rightarrow> string \<Rightarrow> string" where
  "other_endpoint_observed there here = ''The control plane pointed this step at '' @ or_none there @ '', but step 1 listed this account's locker at '' @ here
     @ ''. A refusal from a different endpoint proves nothing about this locker's credentials, so nothing about bucket scope was shown.''"

definition plaintext_observed :: "string \<Rightarrow> string \<Rightarrow> string" where
  "plaintext_observed there here = ''The control plane pointed this step at '' @ there
     @ '', which is plaintext http. This step signs its request with the same temporary credentials this device pushes with '' @ em_dash
     @ '' a secret key and a session token '' @ em_dash @ '' and the only plaintext address it will send those to is this machine's own loopback, so no request was made and nothing about bucket scope was shown. That rule is this step's alone: step 1 listed this account's locker at ''
     @ here @ '', so those credentials are already travelling unencrypted on every push. Report this to the operator.''"

text \<open>The checks before any request: the endpoint to pin to, or the verdict and its sentence.\<close>

definition pin_reference :: "report_texts \<Rightarrow> locker_info \<Rightarrow> reference \<Rightarrow> (verdict \<times> string, endpoint) result" where
  "pin_reference T locker ref =
     (case parse_endpoint (li_endpoint locker) of
        None \<Rightarrow> Inl (NotApplicable, unknown_endpoint_observed T (li_endpoint locker))
      | Some here \<Rightarrow>
          if li_bucket locker = [] then Inl (NotApplicable, unknown_bucket_observed)
          else if same_bucket (rf_bucket ref) (li_bucket locker) then Inl (NotApplicable, own_bucket_observed (li_bucket locker))
          else (case parse_endpoint (rf_endpoint ref) of
            None \<Rightarrow> Inl (Fail, other_endpoint_observed (rf_endpoint ref) (li_endpoint locker))
          | Some pinned \<Rightarrow>
              if pinned \<noteq> here then Inl (Fail, other_endpoint_observed (rf_endpoint ref) (li_endpoint locker))
              else if endpoint_plaintext pinned \<and> \<not> endpoint_loopback pinned
              then Inl (Fail, plaintext_observed (rf_endpoint ref) (li_endpoint locker))
              else Inr pinned))"

definition credential_rejected_text :: "string \<Rightarrow> fetch_error \<Rightarrow> string" where
  "credential_rejected_text what err = ''Could not run: '' @ what @ '' failed because the credential itself was rejected '' @ em_dash @ '' ''
     @ caused err @ '' '' @ em_dash @ '' and a credential no bucket accepts is refused everywhere, so nothing about bucket scope was shown.''"

definition undecided_text :: "string \<Rightarrow> fetch_error \<Rightarrow> string" where
  "undecided_text what err = ''Could not run: '' @ what @ '' neither succeeded nor was refused as access denied: '' @ caused err @ ''.''"

text \<open>One of the two switches on an answer: what it does to the verdict, whether it is a success, and its sentence.\<close>

definition judge_answer ::
  "string \<Rightarrow> string \<Rightarrow> ('a \<Rightarrow> string) \<Rightarrow> (fetch_error, 'a) result \<Rightarrow> verdict \<times> bool \<times> string" where
  "judge_answer what refused success answer =
     (case answer of
        Inr x \<Rightarrow> (Fail, True, success x)
      | Inl err \<Rightarrow>
          if fetch_is err ErrAccessDenied then (Pass, False, refused)
          else if fetch_is err ErrCredentialRejected then (NotApplicable, False, credential_rejected_text what err)
          else (NotApplicable, False, undecided_text what err))"

definition concluded :: "bool \<Rightarrow> string \<Rightarrow> string" where
  "concluded placed clause = (if placed then '' '' @ clause
     else '' Where that request went could not be established (see below), so nothing is concluded from it about bucket scope.'')"

definition judge_listing :: "bool \<Rightarrow> (backend_error, object_meta list) result \<Rightarrow> verdict \<times> bool \<times> string" where
  "judge_listing placed answer =
     judge_answer ''listing the reference locker'' ''Listing the reference locker was refused as access denied.''
       (\<lambda>objects. ''Listing the reference locker SUCCEEDED and returned '' @ itoa (int (length objects)) @ '' object(s).''
          @ concluded placed ''This account's credentials reach a bucket that is not its own.'')
       (case answer of Inl e \<Rightarrow> Inl (FetchBackend e) | Inr x \<Rightarrow> Inr x)"

definition judge_reading :: "bool \<Rightarrow> (fetch_error, bytes) result \<Rightarrow> verdict \<times> bool \<times> string" where
  "judge_reading placed answer =
     judge_answer ''reading the probe object'' ''Reading the probe object was refused as access denied.''
       (\<lambda>body. ''Reading the probe object SUCCEEDED ('' @ itoa (int (length body)) @ '' bytes).''
          @ concluded placed ''This account's credentials can read another bucket's contents.'') answer"

definition changed_credential_text :: "string \<Rightarrow> string \<Rightarrow> string" where
  "changed_credential_text a b = ''Could not run: the locker credential changed between step 1 ('' @ a @ '') and this step ('' @ b
     @ ''), so a refusal here would not be about the credential the locker accepted. Run rein sync verify again.''"

text \<open>The probe and the verdict on it, with whether the alarm of a foreign bucket is raised.\<close>

definition judge_probe :: "endpoint \<Rightarrow> reference \<Rightarrow> string \<Rightarrow> 'r backend \<Rightarrow> 'r probe \<Rightarrow> verdict \<times> bool \<times> string list" where
  "judge_probe pinned ref locker_akid B probe =
     (let akid = pb_access_key probe;
          changed = locker_akid \<noteq> [] \<and> akid \<noteq> [] \<and> locker_akid \<noteq> akid;
          pin = pin_to_response pinned (pb_exchanges probe);
          (v1, reached1, text1) = judge_listing (pin_placed pin) (be_list B [] (pb_store probe 0));
          (v2, reached2, text2) = judge_reading (pin_placed pin) (fetch B (rf_key ref) (pb_store probe 1));
          status = degrade (degrade (degrade (if changed then degrade Pass NotApplicable else Pass) v1) v2) (pin_verdict pin) in
      (status, (reached1 \<or> reached2) \<and> pin_placed pin,
       (if changed then [changed_credential_text locker_akid akid] else []) @ [text1, text2]
       @ (if pin_verdict pin \<noteq> Pass then [pin_note pin] else [])))"

definition no_client_observed :: "string \<Rightarrow> string" where
  "no_client_observed e = ''Could not run: no client for the reference locker could be built ('' @ e @ ''), so nothing was asked of it.''"

definition null_client_observed :: string where
  "null_client_observed = ''Could not run: no client for the reference locker was returned, so nothing was asked of it.''"

definition reference_detail :: "reference \<Rightarrow> string" where
  "reference_detail ref = ''reference locker '' @ rf_bucket ref @ '' at '' @ rf_endpoint ref @ '', probe '' @ rf_key ref"

definition isolation_made :: "string \<Rightarrow> verdict \<Rightarrow> string \<Rightarrow> string list \<Rightarrow> check_step" where
  "isolation_made did status observed detail = \<lparr>st_id = StepIsolation, st_name = name_isolation, st_did = did, st_observed = observed,
     st_status = status, st_detail = detail\<rparr>"

text \<open>The step, and whether it raised the alarm.\<close>

definition isolation_probe :: "report_texts \<Rightarrow> ('s, 'r) verify_options \<Rightarrow> string \<Rightarrow> reference \<Rightarrow> (reference \<Rightarrow> (string, 'r probe) result) \<Rightarrow> check_step \<times> bool" where
  "isolation_probe T opts akid ref open_ref =
     (let detail = [reference_detail ref] in
      case pin_reference T (vo_locker opts) ref of
        Inl (status, observed) \<Rightarrow> (isolation_made did_isolation status observed detail, False)
      | Inr pinned \<Rightarrow>
        (case open_ref ref of
           Inl e \<Rightarrow> (isolation_made did_isolation NotApplicable (no_client_observed e) detail, False)
         | Inr probe \<Rightarrow>
           (case pb_backend probe of
              None \<Rightarrow> (isolation_made did_isolation NotApplicable null_client_observed detail, False)
            | Some B \<Rightarrow>
              let (status, foreign, observed) = judge_probe pinned ref akid B probe in
              (isolation_made did_isolation status (join_with '' '' observed)
                 (detail @ (if pb_access_key probe \<noteq> [] then [signed_with (pb_access_key probe)] else [])), foreign))))"

definition isolation_step :: "report_texts \<Rightarrow> ('s, 'r) verify_options \<Rightarrow> string \<Rightarrow> verdict \<Rightarrow> check_step \<times> bool" where
  "isolation_step T opts akid listed =
     (case isolation_skipped T opts listed of
        Some observed \<Rightarrow>
          (isolation_made (if vo_storage opts = ReportBYO then did_nothing_byo else did_isolation) NotApplicable observed [], False)
      | None \<Rightarrow> isolation_probe T opts akid (the (vo_reference opts)) (the (vo_open_reference opts)))"

section \<open>The run\<close>

definition describe_unopened :: "inventory option \<Rightarrow> fetched list \<Rightarrow> string" where
  "describe_unopened iv got =
     (case iv of None \<Rightarrow> [] | Some v \<Rightarrow>
        let n = length (filter (\<lambda>i. snapshot_object i \<notin> fe_name ` set got) (iv_snapshots v));
            parts = (if n > 0 then [itoa (int n) @ '' other age-named snapshot(s)''] else [])
              @ (if iv_keyring v then [''the wrapped keyring''] else [])
              @ (if iv_other v \<noteq> [] then [itoa (int (length (iv_other v))) @ '' unrecognised object(s)''] else []) in
        if parts = [] then ''No other object is in the locker.''
        else ''Not opened and judged by name only: '' @ join_with '', '' parts @ ''.'')"

definition run_steps ::
  "lib \<Rightarrow> report_texts \<Rightarrow> (string \<Rightarrow> int option) \<Rightarrow> ('s, 'r) verify_options \<Rightarrow> report" where
  "run_steps L T instant opts =
     (let (s1, iv, unreached1) = list_step opts;
          (s2, rd) = ciphertext_step L instant opts iv unreached1;
          (s3, wrong_key) = decrypt_step L T opts (rd_got rd);
          (s4, foreign) = isolation_step T opts (credential_used opts) (st_status s1);
          outcome = outcome_of [s1, s2, s3, s4];
          checked = map fe_label (rd_got rd) in
      \<lparr>rp_version = 1, rp_generated_at = vo_now opts, rp_client_version = vo_client_version opts, rp_storage = vo_storage opts,
       rp_outcome = (if outcome = Pass \<and> checked = [] then NotApplicable else outcome),
       rp_steps = [s1, s2, s3, s4], rp_locker = vo_locker opts, rp_summary = [], rp_checked = checked,
       rp_unopened = describe_unopened iv (rd_got rd), rp_plaintext = rd_plaintext rd, rp_foreign_bucket = foreign,
       rp_wrong_key = wrong_key, rp_unreached = rd_unreached rd\<rparr>)"

definition verify_run ::
  "lib \<Rightarrow> report_texts \<Rightarrow> (string \<Rightarrow> int option) \<Rightarrow> ('s, 'r) verify_options \<Rightarrow> report" where
  "verify_run L T instant opts = (let r = run_steps L T instant opts in r\<lparr>rp_summary := build_summary r\<rparr>)"

text \<open>The exit of \<^verbatim>\<open>rein sync verify\<close> after a run (\<^verbatim>\<open>cli/verify.go\<close>), and whether its steps are posted.\<close>

definition sync_verify_exit :: "report \<Rightarrow> int option" where
  "sync_verify_exit r = (if report_failed r then Some ExitSafety else if not_verified r then Some ExitRuntime else None)"

definition posts_report :: "bool \<Rightarrow> bool \<Rightarrow> report \<Rightarrow> bool" where
  "posts_report hosted post r \<longleftrightarrow> hosted \<and> post \<and> rp_outcome r \<noteq> NotApplicable"

end
