(* ===== verification/Verify_Props.thy ===== *)
theory Verify_Props
  imports Verify_Run
begin

text \<open>
  What a verification report means: a pass is backed by objects that were fetched, are ciphertext and
  opened; an alarm is backed by an observation; an outage is no finding; a passing isolation step is a
  refusal by another bucket at the same endpoint.
\<close>

section \<open>Verdicts\<close>

lemma degrade_Pass [simp]: "degrade old Pass = old"
  by (simp add: degrade_def)

lemma degrade_Fail_iff: "degrade old v = Fail \<longleftrightarrow> old = Fail \<or> v = Fail"
  by (cases old; cases v) (simp_all add: degrade_def)

lemma degrade_Pass_iff: "degrade old v = Pass \<longleftrightarrow> old = Pass \<and> v = Pass"
  by (cases old; cases v) (simp_all add: degrade_def)

lemma outcome_from_Fail: "outcome_from held ss = Fail \<longleftrightarrow> (\<exists>s \<in> set ss. st_status s = Fail)"
  by (induction ss arbitrary: held) (auto split: verdict.splits)

lemma outcome_from_Pass:
  "outcome_from held ss = Pass \<longleftrightarrow> (\<forall>s \<in> set ss. st_status s \<noteq> Fail) \<and> (held \<or> (\<exists>s \<in> set ss. st_status s = Pass))"
  by (induction ss arbitrary: held) (auto split: verdict.splits)

lemma outcome_of_Fail: "outcome_of ss = Fail \<longleftrightarrow> (\<exists>s \<in> set ss. st_status s = Fail)"
  by (simp add: outcome_of_def outcome_from_Fail)

lemma outcome_of_Pass: "outcome_of ss = Pass \<longleftrightarrow> (\<forall>s \<in> set ss. st_status s \<noteq> Fail) \<and> (\<exists>s \<in> set ss. st_status s = Pass)"
  by (simp add: outcome_of_def outcome_from_Pass)

lemma outcome_of_none: "list_all (\<lambda>s. st_status s = NotApplicable) ss \<Longrightarrow> outcome_of ss = NotApplicable"
  unfolding outcome_of_def by (induction ss) simp_all

section \<open>The listing and the fetched objects\<close>

text \<open>The listing of a run, and what it found.\<close>

definition run_listing :: "('s, 'r) verify_options \<Rightarrow> (backend_error, object_meta list) result" where
  "run_listing opts = be_list (vo_backend opts) (trim_char slash (vo_prefix opts)) (vo_store opts 0)"

lemma list_step_unanswered:
  assumes "run_listing opts = Inl e" "\<not> answered (FetchBackend e)"
  shows "list_step opts = (fst (list_step opts), None, ''The locker could not be listed: '' @ caused (FetchBackend e) @ ''.'')"
    and "st_status (fst (list_step opts)) = NotApplicable"
  using assms by (simp_all add: list_step_def run_listing_def Let_def)

lemma list_step_answered:
  assumes "run_listing opts = Inl e" "answered (FetchBackend e)"
  shows "list_step opts = (fst (list_step opts), None, [])" and "st_status (fst (list_step opts)) = Fail"
  using assms by (simp_all add: list_step_def run_listing_def Let_def)

lemma list_step_listed:
  assumes "run_listing opts = Inr objects"
  shows "list_step opts = (fst (list_step opts), Some (take_inventory (vo_prefix opts) objects), [])"
    and "st_status (fst (list_step opts)) = (if iv_manifest (take_inventory (vo_prefix opts) objects) then Pass else NotApplicable)"
  using assms by (simp_all add: list_step_def run_listing_def Let_def)

text \<open>What a reading keeps: every object it holds was fetched, and its verdict and alarm are those of the objects and errors met.\<close>

definition fetched_from :: "('s, 'r) verify_options \<Rightarrow> fetched \<Rightarrow> bool" where
  "fetched_from opts f \<longleftrightarrow> (\<exists>i. fetch (vo_backend opts) (object_key (vo_prefix opts) (fe_name f)) (vo_store opts i) = Inr (fe_body f))"

definition is_ciphertext :: "bytes \<Rightarrow> bool" where
  "is_ciphertext body \<longleftrightarrow> has_prefix body ageHeader \<and> list_all (\<lambda>m. \<not> contains_text body m) plaintextMarkers"

lemma inspect_ok: "snd (inspect_ciphertext body) \<longleftrightarrow> is_ciphertext body"
proof (cases "find (contains_text body) plaintextMarkers")
  case None
  then have "\<forall>m \<in> set plaintextMarkers. \<not> contains_text body m" by (auto simp: find_None_iff)
  with None show ?thesis by (auto simp: inspect_ciphertext_def is_ciphertext_def Let_def list_all_iff)
next
  case (Some m)
  then have "m \<in> set plaintextMarkers" "contains_text body m" by (auto simp: find_Some_iff)
  with Some show ?thesis by (auto simp: inspect_ciphertext_def is_ciphertext_def Let_def list_all_iff)
qed

definition reading_ok :: "('s, 'r) verify_options \<Rightarrow> reading \<Rightarrow> bool" where
  "reading_ok opts rd \<longleftrightarrow> (\<forall>f \<in> set (rd_got rd). fetched_from opts f)
     \<and> (rd_plaintext rd \<longleftrightarrow> (\<exists>f \<in> set (rd_got rd). \<not> is_ciphertext (fe_body f)))
     \<and> (rd_plaintext rd \<longrightarrow> rd_status rd = Fail)"

lemma start_reading_ok: "reading_ok opts (start_reading u)"
  by (simp add: reading_ok_def start_reading_def)

lemma read_object_ok:
  assumes "reading_ok opts rd"
  shows "reading_ok opts (snd (read_object name label (fetch (vo_backend opts) (object_key (vo_prefix opts) name) (vo_store opts i)) rd))"
proof (cases "fetch (vo_backend opts) (object_key (vo_prefix opts) name) (vo_store opts i)")
  case (Inl err)
  with assms show ?thesis by (auto simp: read_object_def reading_ok_def degrade_Fail_iff)
next
  case (Inr body)
  then have "fetched_from opts \<lparr>fe_name = name, fe_label = label, fe_body = body\<rparr>" by (auto simp: fetched_from_def)
  moreover obtain seen ok where io: "inspect_ciphertext body = (seen, ok)" by (cases "inspect_ciphertext body")
  moreover from io inspect_ok [of body] have "ok \<longleftrightarrow> is_ciphertext body" by simp
  ultimately show ?thesis using assms Inr by (auto simp: read_object_def reading_ok_def degrade_Fail_iff)
qed

lemma read_objects_ok: "reading_ok opts (read_objects L instant opts v u)"
  unfolding read_objects_def Let_def
  by (auto simp: split_beta intro: read_object_ok start_reading_ok)

text \<open>Of an empty reading something was said: a failure, or that nothing was answered.\<close>

lemma read_object_got:
  "rd_got (snd (read_object name label answer rd)) = [] \<Longrightarrow> rd_got rd = []
    \<and> (rd_status (snd (read_object name label answer rd)) = Fail \<or> rd_unreached (snd (read_object name label answer rd)) \<noteq> [])"
  by (auto simp: read_object_def not_fetched_def degrade_Fail_iff split: sum.splits prod.splits if_splits)

lemma read_objects_empty:
  assumes "rd_got (read_objects L instant opts v u) = []"
  shows "rd_status (read_objects L instant opts v u) = Fail \<or> rd_unreached (read_objects L instant opts v u) \<noteq> []"
  using assms unfolding read_objects_def Let_def
  by (auto simp: split_beta dest: read_object_got split: if_splits)

section \<open>The parts of a run\<close>

definition run_reading :: "lib \<Rightarrow> (string \<Rightarrow> int option) \<Rightarrow> ('s, 'r) verify_options \<Rightarrow> reading" where
  "run_reading L instant opts = snd (ciphertext_step L instant opts (fst (snd (list_step opts))) (snd (snd (list_step opts))))"

lemma build_summary_update: "build_summary (r\<lparr>rp_summary := x\<rparr>) = build_summary r"
  by (simp add: build_summary_def not_verified_text_def alarm_summary_def alarm_text_def wrong_key_summary_def key_advice_def
      pass_summary_def checked_text_def isolation_checked_def Let_def)

lemma verify_run_summary: "rp_summary (verify_run L T instant opts) = build_summary (verify_run L T instant opts)"
  by (simp add: verify_run_def Let_def build_summary_update)

lemma verify_run_fields:
  fixes opts :: "('s, 'r) verify_options" and L :: lib and T :: report_texts and instant :: "string \<Rightarrow> int option"
  defines "s1 \<equiv> fst (list_step opts)" and "rd \<equiv> run_reading L instant opts"
  defines "s2 \<equiv> fst (ciphertext_step L instant opts (fst (snd (list_step opts))) (snd (snd (list_step opts))))"
    and "s3 \<equiv> fst (decrypt_step L T opts (rd_got rd))" and "s4 \<equiv> fst (isolation_step T opts (credential_used opts) (st_status s1))"
  shows "rp_steps (verify_run L T instant opts) = [s1, s2, s3, s4]"
    and "rp_outcome (verify_run L T instant opts)
       = (if outcome_of [s1, s2, s3, s4] = Pass \<and> rd_got rd = [] then NotApplicable else outcome_of [s1, s2, s3, s4])"
    and "rp_checked (verify_run L T instant opts) = map fe_label (rd_got rd)"
    and "rp_plaintext (verify_run L T instant opts) = rd_plaintext rd"
    and "rp_foreign_bucket (verify_run L T instant opts) = snd (isolation_step T opts (credential_used opts) (st_status s1))"
    and "rp_unreached (verify_run L T instant opts) = rd_unreached rd"
  unfolding assms run_reading_def
  by (simp_all only: verify_run_def run_steps_def Let_def split_beta report.simps report.update_convs
      Nil_is_map_conv map_is_Nil_conv fst_conv snd_conv cong: if_weak_cong)

lemma run_fails_iff: "rp_outcome (verify_run L T instant opts) = Fail \<longleftrightarrow> (\<exists>s \<in> set (rp_steps (verify_run L T instant opts)). st_status s = Fail)"
proof -
  have "(if x = Pass \<and> c then NotApplicable else x) = Fail \<longleftrightarrow> x = Fail" for x c by (cases x) auto
  then show ?thesis by (simp only: verify_run_fields(1,2) outcome_of_Fail)
qed

lemma reading_of_listing:
  shows "run_listing opts = Inl e \<Longrightarrow> rd_got (run_reading L instant opts) = [] \<and> rd_plaintext (run_reading L instant opts) = False
      \<and> rd_unreached (run_reading L instant opts) = (if answered (FetchBackend e) then [] else ''The locker could not be listed: '' @ caused (FetchBackend e) @ ''.'')"
    and "run_listing opts = Inr objects \<Longrightarrow> \<not> iv_manifest (take_inventory (vo_prefix opts) objects) \<Longrightarrow>
      rd_got (run_reading L instant opts) = [] \<and> rd_plaintext (run_reading L instant opts) = False \<and> rd_unreached (run_reading L instant opts) = []"
    and "run_listing opts = Inr objects \<Longrightarrow> iv_manifest (take_inventory (vo_prefix opts) objects) \<Longrightarrow>
      run_reading L instant opts = read_objects L instant opts (take_inventory (vo_prefix opts) objects) []"
proof -
  show "rd_got (run_reading L instant opts) = [] \<and> rd_plaintext (run_reading L instant opts) = False
      \<and> rd_unreached (run_reading L instant opts) = (if answered (FetchBackend e) then [] else ''The locker could not be listed: '' @ caused (FetchBackend e) @ ''.'')"
    if "run_listing opts = Inl e"
    using that list_step_unanswered(1) [of opts e] list_step_answered(1) [of opts e]
    by (cases "answered (FetchBackend e)")
      (simp_all add: run_reading_def ciphertext_step_def nothing_to_read_def start_reading_def Let_def split_beta prod_eq_iff)
qed (use list_step_listed(1) [of opts objects] in
  \<open>simp_all add: run_reading_def ciphertext_step_def nothing_to_read_def start_reading_def Let_def split_beta prod_eq_iff\<close>)

section \<open>What a pass is worth\<close>

definition opens_cleanly :: "lib \<Rightarrow> (bytes \<Rightarrow> (string, opened) result) \<Rightarrow> fetched \<Rightarrow> bool" where
  "opens_cleanly L decrypt f \<longleftrightarrow> (\<exists>plain. decrypt (fe_body f) = Inr plain
     \<and> (if fe_name f = manifestObject
        then (\<exists>raw m. read_limited maxCheckBytes plain = Inr raw \<and> lb_manifest_unjson L raw = Inr m)
        else (\<exists>line rest env file files payload. snapshot_line plain = Inr (line, rest) \<and> lb_envelope_unjson L line = Inr env
           \<and> en_files env = file # files \<and> read_limited maxCheckBytes (rest, snd plain) = Inr payload
           \<and> int (length payload) = ef_size file \<and> hex_encode (sum_bytes (lb_sha256 L payload)) = ef_sha256 file)))"

lemma describe_snapshot_Inr:
  assumes "describe_snapshot L T name plain = Inr d"
  shows "\<exists>line rest env file files payload. snapshot_line plain = Inr (line, rest) \<and> lb_envelope_unjson L line = Inr env
     \<and> en_files env = file # files \<and> read_limited maxCheckBytes (rest, snd plain) = Inr payload
     \<and> int (length payload) = ef_size file \<and> hex_encode (sum_bytes (lb_sha256 L payload)) = ef_sha256 file"
  using assms unfolding describe_snapshot_def
  by (auto simp: Let_def split: sum.splits list.splits prod.splits if_splits)

lemma open_object_Inr:
  assumes "snd (open_object L T storage decrypt f) = Inr d"
  shows "opens_cleanly L decrypt f"
proof -
  from assms obtain plain where plain: "decrypt (fe_body f) = Inr plain" by (auto simp: open_object_def split: sum.splits)
  show ?thesis
  proof (cases "fe_name f = manifestObject")
    case True
    with assms plain obtain e where "describe_manifest L plain = Inr e" by (auto simp: open_object_def split: sum.splits)
    with True plain show ?thesis by (auto simp: opens_cleanly_def describe_manifest_def split: sum.splits)
  next
    case False
    with assms plain obtain e where "describe_snapshot L T (fe_name f) plain = Inr e" by (auto simp: open_object_def split: sum.splits)
    from describe_snapshot_Inr [OF this] False plain show ?thesis unfolding opens_cleanly_def by auto
  qed
qed

lemma decrypt_step_not_failed:
  assumes "st_status (fst (decrypt_step L T opts got)) \<noteq> Fail" "got \<noteq> []"
  shows "\<exists>decrypt. vo_open opts = Some decrypt \<and> (\<forall>f \<in> set got. opens_cleanly L decrypt f)"
proof -
  from assms obtain decrypt where d: "vo_open opts = Some decrypt" by (auto simp: decrypt_step_def Let_def split: option.splits)
  with assms have "\<forall>f \<in> set got. \<forall>e. snd (open_object L T (vo_storage opts) decrypt f) \<noteq> Inl e"
    by (auto simp: decrypt_step_def Let_def list_all_iff split: if_splits sum.splits)
  then have "\<forall>f \<in> set got. \<exists>x. snd (open_object L T (vo_storage opts) decrypt f) = Inr x" by (metis sum.exhaust)
  with d open_object_Inr show ?thesis by blast
qed

lemma decrypt_step_empty: "got = [] \<Longrightarrow> st_status (fst (decrypt_step L T opts got)) = NotApplicable"
  by (simp add: decrypt_step_def Let_def)

text \<open>
  C10. What a passing report is worth. The listing named an index, at least one object was fetched, and
  every object the report claims was served by the store under its own key, is an age envelope without a
  plaintext field name, and opened with the key of this device into an index or into a snapshot
  whose payload has the size and digest its envelope records.
\<close>
theorem passing_report_is_backed:
  assumes "rp_outcome (verify_run L T instant opts) = Pass"
  shows "\<exists>objects decrypt. run_listing opts = Inr objects \<and> iv_manifest (take_inventory (vo_prefix opts) objects)
    \<and> vo_open opts = Some decrypt
    \<and> rp_checked (verify_run L T instant opts) = map fe_label (rd_got (run_reading L instant opts)) \<and> rd_got (run_reading L instant opts) \<noteq> []
    \<and> list_all (\<lambda>f. fetched_from opts f \<and> is_ciphertext (fe_body f) \<and> opens_cleanly L decrypt f) (rd_got (run_reading L instant opts))"
proof -
  let ?rd = "run_reading L instant opts"
  note fields = verify_run_fields [where L = L and opts = opts and T = T and instant = instant]
  from assms have got: "rd_got ?rd \<noteq> []" unfolding fields(2) by (auto split: if_splits)
  from assms have none: "\<forall>s \<in> set (rp_steps (verify_run L T instant opts)). st_status s \<noteq> Fail"
    unfolding fields(1,2) outcome_of_Pass by (simp add: outcome_of_Pass split: if_splits)
  obtain objects where l: "run_listing opts = Inr objects" "iv_manifest (take_inventory (vo_prefix opts) objects)"
    using got reading_of_listing(1,2) [of opts] by (cases "run_listing opts") blast+
  then have rd: "?rd = read_objects L instant opts (take_inventory (vo_prefix opts) objects) []" by (rule reading_of_listing(3))
  have ok: "reading_ok opts ?rd" unfolding rd by (rule read_objects_ok)
  have "st_status (fst (ciphertext_step L instant opts (fst (snd (list_step opts))) (snd (snd (list_step opts))))) = rd_status ?rd"
    using l list_step_listed(1) [OF l(1)] by (simp add: run_reading_def ciphertext_step_def Let_def prod_eq_iff)
  with none ok have "\<forall>f \<in> set (rd_got ?rd). fetched_from opts f \<and> is_ciphertext (fe_body f)"
    unfolding fields(1) reading_ok_def by auto
  moreover from none have "st_status (fst (decrypt_step L T opts (rd_got ?rd))) \<noteq> Fail" unfolding fields(1) by simp
  from decrypt_step_not_failed [OF this got] obtain decrypt where "vo_open opts = Some decrypt" "\<forall>f \<in> set (rd_got ?rd). opens_cleanly L decrypt f" by blast
  ultimately show ?thesis using l got fields(3) by (auto simp: list_all_iff)
qed

section \<open>Isolation\<close>

lemma judge_answer_Pass: "fst (judge_answer what refused success answer) = Pass \<longleftrightarrow> (\<exists>err. answer = Inl err \<and> fetch_is err ErrAccessDenied)"
  by (auto simp: judge_answer_def split: sum.splits)

lemma judge_answer_reached: "fst (snd (judge_answer what refused success answer)) \<longleftrightarrow> (\<exists>x. answer = Inr x)"
  by (auto simp: judge_answer_def split: sum.splits)

lemma judge_answer_Fail: "fst (judge_answer what refused success answer) = Fail \<longleftrightarrow> (\<exists>x. answer = Inr x)"
  by (auto simp: judge_answer_def split: sum.splits)

lemmas judged = judge_listing_def judge_reading_def judge_answer_Pass judge_answer_reached judge_answer_Fail

lemma pin_reference_Inr:
  assumes "pin_reference T locker ref = Inr pinned"
  shows "parse_endpoint (li_endpoint locker) = Some pinned \<and> parse_endpoint (rf_endpoint ref) = Some pinned
    \<and> li_bucket locker \<noteq> [] \<and> \<not> same_bucket (rf_bucket ref) (li_bucket locker)
    \<and> (endpoint_plaintext pinned \<longrightarrow> endpoint_loopback pinned)"
  using assms by (auto simp: pin_reference_def split: option.splits if_splits)

text \<open>The probe that was made: what the step knew of it before asking, and the three judgements on the answers.\<close>

definition probed :: "report_texts \<Rightarrow> ('s, 'r) verify_options \<Rightarrow> verdict \<Rightarrow> reference \<Rightarrow> endpoint \<Rightarrow> 'r backend \<Rightarrow> 'r probe \<Rightarrow> bool" where
  "probed T opts listed ref pinned B probe \<longleftrightarrow> vo_storage opts \<noteq> ReportBYO \<and> vo_reference opts = Some ref \<and> listed = Pass
     \<and> (\<exists>open_ref. vo_open_reference opts = Some open_ref \<and> open_ref ref = Inr probe) \<and> pb_backend probe = Some B
     \<and> pin_reference T (vo_locker opts) ref = Inr pinned"

lemma isolation_skipped_None:
  assumes "isolation_skipped T opts listed = None"
  shows "vo_storage opts \<noteq> ReportBYO \<and> listed = Pass \<and> (\<exists>ref open_ref. vo_reference opts = Some ref \<and> vo_open_reference opts = Some open_ref)"
  using assms by (auto simp: isolation_skipped_def split: option.splits if_splits)

lemma isolation_probe_cases:
  assumes "vo_open_reference opts = Some open_ref"
  obtains (refused) status observed detail where "isolation_probe T opts akid ref open_ref = (isolation_made did_isolation status observed detail, False)"
      "status \<noteq> Pass"
  | (made) pinned B probe detail where "pin_reference T (vo_locker opts) ref = Inr pinned" "open_ref ref = Inr probe" "pb_backend probe = Some B"
      "isolation_probe T opts akid ref open_ref
        = (isolation_made did_isolation (fst (judge_probe pinned ref akid B probe))
             (join_with '' '' (snd (snd (judge_probe pinned ref akid B probe)))) detail, fst (snd (judge_probe pinned ref akid B probe)))"
proof (cases "pin_reference T (vo_locker opts) ref")
  case (Inl vt)
  then have "fst vt \<noteq> Pass" by (auto simp: pin_reference_def split: option.splits if_splits)
  then show ?thesis using refused Inl by (cases vt) (auto simp: isolation_probe_def)
next
  case (Inr pinned)
  show ?thesis
  proof (cases "open_ref ref")
    case (Inl e)
    then show ?thesis using refused Inr by (auto simp: isolation_probe_def Let_def)
  next
    case (Inr probe)
    show ?thesis
    proof (cases "pb_backend probe")
      case None
      then show ?thesis using refused \<open>pin_reference T (vo_locker opts) ref = Inr pinned\<close> Inr by (auto simp: isolation_probe_def Let_def)
    next
      case (Some B)
      show ?thesis
        by (rule made [of pinned probe B "[reference_detail ref] @ (if pb_access_key probe \<noteq> [] then [signed_with (pb_access_key probe)] else [])"])
          (simp_all add: isolation_probe_def Let_def split_beta Some Inr \<open>pin_reference T (vo_locker opts) ref = Inr pinned\<close>)
    qed
  qed
qed

lemma isolation_step_cases:
  obtains (skipped) observed where "isolation_step T opts akid listed
        = (isolation_made (if vo_storage opts = ReportBYO then did_nothing_byo else did_isolation) NotApplicable observed [], False)"
      "isolation_skipped T opts listed = Some observed"
  | (refused) status observed detail where "isolation_step T opts akid listed = (isolation_made did_isolation status observed detail, False)" "status \<noteq> Pass"
      "listed = Pass"
  | (made) ref pinned B probe detail where "probed T opts listed ref pinned B probe"
      "isolation_step T opts akid listed
        = (isolation_made did_isolation (fst (judge_probe pinned ref akid B probe))
             (join_with '' '' (snd (snd (judge_probe pinned ref akid B probe)))) detail, fst (snd (judge_probe pinned ref akid B probe)))"
proof (cases "isolation_skipped T opts listed")
  case (Some observed)
  then show ?thesis using skipped by (simp add: isolation_step_def)
next
  case None
  with isolation_skipped_None obtain ref open_ref where r: "vo_storage opts \<noteq> ReportBYO" "listed = Pass"
    "vo_reference opts = Some ref" "vo_open_reference opts = Some open_ref" by blast
  with None have step: "isolation_step T opts akid listed = isolation_probe T opts akid ref open_ref" by (simp add: isolation_step_def)
  show ?thesis
  proof (rule isolation_probe_cases [OF r(4), of T akid ref])
    fix status observed detail
    assume "isolation_probe T opts akid ref open_ref = (isolation_made did_isolation status observed detail, False)" "status \<noteq> Pass"
    then show ?thesis using refused step r(2) by simp
  next
    fix pinned B probe detail
    assume "pin_reference T (vo_locker opts) ref = Inr pinned" "open_ref ref = Inr probe" "pb_backend probe = Some B"
      "isolation_probe T opts akid ref open_ref
        = (isolation_made did_isolation (fst (judge_probe pinned ref akid B probe))
             (join_with '' '' (snd (snd (judge_probe pinned ref akid B probe)))) detail, fst (snd (judge_probe pinned ref akid B probe)))"
    then show ?thesis using made [of ref pinned B probe detail] r step by (simp add: probed_def)
  qed
qed

lemma judge_probe_Pass:
  assumes "fst (judge_probe pinned ref akid B probe) = Pass"
  shows "(\<exists>e. be_list B [] (pb_store probe 0) = Inl e \<and> errors_is e ErrAccessDenied)
    \<and> (\<exists>e. fetch B (rf_key ref) (pb_store probe 1) = Inl e \<and> fetch_is e ErrAccessDenied)
    \<and> pin_verdict (pin_to_response pinned (pb_exchanges probe)) = Pass
    \<and> (akid = [] \<or> pb_access_key probe = [] \<or> akid = pb_access_key probe)"
proof -
  let ?pin = "pin_to_response pinned (pb_exchanges probe)"
  from assms have "fst (judge_listing (pin_placed ?pin) (be_list B [] (pb_store probe 0))) = Pass"
    "fst (judge_reading (pin_placed ?pin) (fetch B (rf_key ref) (pb_store probe 1))) = Pass" "pin_verdict ?pin = Pass"
    "akid = [] \<or> pb_access_key probe = [] \<or> akid = pb_access_key probe"
    by (auto simp: judge_probe_def Let_def split_beta degrade_Pass_iff split: if_splits)
  then show ?thesis unfolding judged by (auto simp: fetch_is_def split: sum.splits)
qed

lemma judge_probe_foreign:
  assumes "fst (snd (judge_probe pinned ref akid B probe))"
  shows "((\<exists>x. be_list B [] (pb_store probe 0) = Inr x) \<or> (\<exists>x. fetch B (rf_key ref) (pb_store probe 1) = Inr x))
    \<and> pin_placed (pin_to_response pinned (pb_exchanges probe)) \<and> fst (judge_probe pinned ref akid B probe) = Fail"
proof -
  let ?pin = "pin_to_response pinned (pb_exchanges probe)"
  let ?a = "judge_listing (pin_placed ?pin) (be_list B [] (pb_store probe 0))"
    and ?b = "judge_reading (pin_placed ?pin) (fetch B (rf_key ref) (pb_store probe 1))"
  from assms have r: "fst (snd ?a) \<or> fst (snd ?b)" "pin_placed ?pin" by (auto simp: judge_probe_def Let_def split_beta)
  then have "fst ?a = Fail \<or> fst ?b = Fail" unfolding judged by blast
  then have "fst (judge_probe pinned ref akid B probe) = Fail"
    by (simp add: judge_probe_def Let_def split_beta degrade_Fail_iff)
  with r show ?thesis unfolding judged by (auto split: sum.splits)
qed

lemma step_ids:
  "st_id (fst (list_step opts)) = StepList" "st_id (fst (ciphertext_step L instant opts iv u)) = StepCiphertext"
  "st_id (fst (decrypt_step L T opts got)) = StepDecrypt" "st_id (fst (isolation_step T opts akid listed)) = StepIsolation"
proof -
  show "st_id (fst (list_step opts)) = StepList" by (simp add: list_step_def Let_def split: sum.splits)
  show "st_id (fst (ciphertext_step L instant opts iv u)) = StepCiphertext" by (simp add: ciphertext_step_def Let_def split: option.splits)
  show "st_id (fst (decrypt_step L T opts got)) = StepDecrypt" by (simp add: decrypt_step_def Let_def split: option.splits)
  show "st_id (fst (isolation_step T opts akid listed)) = StepIsolation"
    by (rule isolation_step_cases [of T opts akid listed]) (simp_all add: isolation_made_def)
qed

lemma isolation_checked_run:
  "isolation_checked (verify_run L T instant opts)
    \<longleftrightarrow> st_status (fst (isolation_step T opts (credential_used opts) (st_status (fst (list_step opts))))) = Pass"
  unfolding isolation_checked_def verify_run_fields(1)
  by (simp add: step_ids StepList_def StepCiphertext_def StepDecrypt_def StepIsolation_def)


section \<open>Alarms and outages\<close>


lemma isolation_not_listed:
  assumes "listed \<noteq> Pass"
  shows "st_status (fst (isolation_step T opts akid listed)) = NotApplicable" "\<not> snd (isolation_step T opts akid listed)"
proof -
  from assms isolation_skipped_None [of T opts listed] obtain observed where "isolation_skipped T opts listed = Some observed"
    by (cases "isolation_skipped T opts listed") auto
  then show "st_status (fst (isolation_step T opts akid listed)) = NotApplicable" "\<not> snd (isolation_step T opts akid listed)"
    by (simp_all add: isolation_step_def isolation_made_def)
qed

lemma no_step_ran:
  fixes opts :: "('s, 'r) verify_options"
  assumes "st_status (fst (list_step opts)) = NotApplicable" "rd_got (run_reading L instant opts) = []"
    and "st_status (fst (ciphertext_step L instant opts (fst (snd (list_step opts))) (snd (snd (list_step opts))))) = NotApplicable"
  shows "list_all (\<lambda>s. st_status s = NotApplicable) (rp_steps (verify_run L T instant opts))"
    and "rp_outcome (verify_run L T instant opts) = NotApplicable"
proof -
  let ?r = "verify_run L T instant opts"
  show all: "list_all (\<lambda>s. st_status s = NotApplicable) (rp_steps ?r)"
    unfolding verify_run_fields(1) using assms by (simp add: decrypt_step_empty isolation_not_listed(1))
  note none = outcome_of_none [OF this]
  then show "rp_outcome ?r = NotApplicable" unfolding verify_run_fields(1,2) by simp
qed

text \<open>
  C13. An outage is no finding. When the storage endpoint gives no answer to the listing, none of the
  four steps reaches a verdict, the report is neither a pass nor a failure and is not posted, its summary
  says that nothing was verified, with the cause, and the command exits as for any outage.
\<close>
theorem outage_is_no_finding:
  assumes "run_listing opts = Inl e" "\<not> answered (FetchBackend e)"
  shows "list_all (\<lambda>s. st_status s = NotApplicable) (rp_steps (verify_run L T instant opts))
    \<and> not_verified (verify_run L T instant opts) \<and> \<not> posts_report hosted post (verify_run L T instant opts)
    \<and> sync_verify_exit (verify_run L T instant opts) = Some ExitRuntime
    \<and> rp_summary (verify_run L T instant opts)
      = not_verified_text (''The locker could not be listed: '' @ caused (FetchBackend e) @ ''.'')"
proof -
  let ?r = "verify_run L T instant opts"
  note fields = verify_run_fields [where L = L and opts = opts and T = T and instant = instant]
  note ls = list_step_unanswered [OF assms]
  have "fst (snd (list_step opts)) = None" using ls(1) by (simp add: prod_eq_iff)
  then have two: "st_status (fst (ciphertext_step L instant opts (fst (snd (list_step opts))) (snd (snd (list_step opts))))) = NotApplicable"
    by (simp add: ciphertext_step_def)
  have rd: "rd_got (run_reading L instant opts) = []"
    "rd_unreached (run_reading L instant opts) = ''The locker could not be listed: '' @ caused (FetchBackend e) @ ''.''"
    using reading_of_listing(1) [OF assms(1), of L instant] assms(2) by simp_all
  note none = no_step_ran [OF ls(2) rd(1) two, of T]
  show ?thesis using none rd(2) unfolding verify_run_summary build_summary_def not_verified_def
    by (simp add: fields(6) posts_report_def sync_verify_exit_def report_failed_def not_verified_def)
qed

lemma summary_not_yet: "build_summary r = not_yet_text \<longleftrightarrow> rp_outcome r = NotApplicable \<and> rp_unreached r = []"
  by (cases "rp_outcome r") (simp_all add: build_summary_def not_verified_text_def not_yet_text_def alarm_summary_def wrong_key_summary_def
      plain_fail_summary_def pass_summary_def)


section \<open>The newest snapshot\<close>

text \<open>An entry of the index that counts: its snapshot is listed and its time is readable.\<close>

definition dated :: "(string \<Rightarrow> int option) \<Rightarrow> string list \<Rightarrow> manifest_session \<Rightarrow> int \<Rightarrow> bool" where
  "dated instant listed s t \<longleftrightarrow> ms_snapshot_id s \<in> set listed \<and> instant (ms_updated_at s) = Some t"

lemma newest_loop_spec:
  assumes "[] \<notin> set listed" "newest_loop instant listed ss best = Some i" "case best of None \<Rightarrow> True | Some (j, u) \<Rightarrow> j \<noteq> []"
  shows "\<exists>t. (best = Some (i, t) \<or> (\<exists>s \<in> set ss. ms_snapshot_id s = i \<and> dated instant listed s t))
    \<and> (\<forall>j u. best = Some (j, u) \<longrightarrow> u \<le> t) \<and> (\<forall>s \<in> set ss. \<forall>u. dated instant listed s u \<longrightarrow> u \<le> t)"
  using assms(2,3)
proof (induction ss arbitrary: best)
  case Nil
  then show ?case by (cases best) auto
next
  case (Cons s ss)
  consider (skip) "\<nexists>t. dated instant listed s t" | (take) t where "dated instant listed s t" by blast
  then show ?case
  proof cases
    case skip
    then have "newest_loop instant listed ss best = Some i" using Cons.prems(1) by (auto simp: dated_def split: option.splits)
    from Cons.IH [OF this Cons.prems(2)] skip show ?thesis by auto
  next
    case take
    have id: "ms_snapshot_id s \<noteq> []" using take assms(1) by (auto simp: dated_def)
    have only: "dated instant listed s u \<longleftrightarrow> u = t" for u using take by (auto simp: dated_def)
    show ?thesis
    proof (cases "\<exists>j u. best = Some (j, u) \<and> t \<le> u")
      case True
      then obtain j u where b: "best = Some (j, u)" "t \<le> u" by blast
      then have "newest_loop instant listed ss best = Some i" using Cons.prems take by (auto simp: dated_def)
      from Cons.IH [OF this Cons.prems(2)] obtain v where v:
        "best = Some (i, v) \<or> (\<exists>s \<in> set ss. ms_snapshot_id s = i \<and> dated instant listed s v)" "u \<le> v"
        "\<forall>s \<in> set ss. \<forall>w. dated instant listed s w \<longrightarrow> w \<le> v" using b(1) by blast
      with b only show ?thesis by (intro exI [of _ v]) auto
    next
      case False
      then have "newest_loop instant listed ss (Some (ms_snapshot_id s, t)) = Some i"
        using Cons.prems take by (cases best) (auto simp: dated_def)
      from Cons.IH [OF this] id obtain v where v:
        "i = ms_snapshot_id s \<and> v = t \<or> (\<exists>s \<in> set ss. ms_snapshot_id s = i \<and> dated instant listed s v)" "t \<le> v"
        "\<forall>s \<in> set ss. \<forall>w. dated instant listed s w \<longrightarrow> w \<le> v" by auto
      moreover have "u \<le> v" if "best = Some (j, u)" for j u using False that v(2) by force
      ultimately show ?thesis using only take by (intro exI [of _ v]) auto
    qed
  qed
qed


end
