(* ===== verification/Verify_Witness.thy ===== *)
theory Verify_Witness
  imports Verify_Props
begin

section \<open>A concrete run\<close>

text \<open>
  A locker with an index, one snapshot and a keyring; the reference locker \<open>r\<close> at the same endpoint
  refuses listing and reading.
\<close>

definition toy_meta :: "string \<Rightarrow> object_meta" where
  "toy_meta k = \<lparr>om_key = k, om_etag = ''e'', om_size = 1\<rparr>"

definition toy_locker :: "unit backend" where
  "toy_locker = \<lparr>be_put = (\<lambda>k d po s. (Inl ErrAccessDenied, s)),
     be_get = (\<lambda>k s. if k = ''manifest.age'' then Inr (ageHeader @ ''m'', toy_meta k) else if k = ''snapshots/a.age'' then Inr (ageHeader @ ''s'', toy_meta k) else Inl ErrNotFound),
     be_head = (\<lambda>k s. Inl ErrNotFound), be_delete = (\<lambda>k s. (Inl ErrAccessDenied, s)),
     be_list = (\<lambda>p s. Inr [toy_meta ''keyring.v1.json'', toy_meta ''manifest.age'', toy_meta ''snapshots/a.age''])\<rparr>"

definition toy_refusing :: "unit backend" where
  "toy_refusing = toy_locker\<lparr>be_get := (\<lambda>k s. Inl (Refusal ''AccessDenied'' False)), be_list := (\<lambda>p s. Inl (Refusal ''AccessDenied'' False))\<rparr>"

definition toy_entry :: manifest_session where
  "toy_entry = \<lparr>ms_agent = ''claude'', ms_session_id = ''x'', ms_snapshot_id = ''a'', ms_project_id = ''p'', ms_updated_at = ''t''\<rparr>"

definition toy_snapshot_envelope :: envelope where
  "toy_snapshot_envelope = \<lparr>en_schema_version = 1, en_kind = EnvelopeKind, en_snapshot_id = ''a'', en_parent_revision = [], en_agent = ''claude'',
     en_adapter_schema = 1, en_source_agent_ver = [], en_source_platform = ''linux'', en_project_id = ''p'', en_session_id = ''x'', en_created_at = ''t'',
     en_files = [\<lparr>ef_path = ''x.jsonl'', ef_mode = 0, ef_size = 2, ef_sha256 = hex_encode (sum_bytes 0)\<rparr>]\<rparr>"

definition toy_check_lib :: lib where
  "toy_check_lib = \<lparr>lb_sha256 = (\<lambda>b. 0), lb_manifest_json = (\<lambda>m. []),
     lb_manifest_unjson = (\<lambda>b. Inr ((new_manifest ''r'')\<lparr>mf_sessions := [(''claude:x'', toy_entry)]\<rparr>)),
     lb_envelope_json = (\<lambda>e. []), lb_envelope_unjson = (\<lambda>b. Inr toy_snapshot_envelope)\<rparr>"

definition toy_texts :: report_texts where
  "toy_texts = \<lparr>rt_problem = (\<lambda>p. ''no''), rt_quote = id, rt_redact = id\<rparr>"

definition toy_exchange :: exchange where
  "toy_exchange = \<lparr>ex_scheme = ''https'', ex_host = ''s.io'', ex_status = 403, ex_error_code = ''AccessDenied'', ex_redirected_to = []\<rparr>"

definition toy_options :: "(unit, unit) verify_options" where
  "toy_options = \<lparr>vo_backend = toy_locker, vo_store = (\<lambda>i. ()), vo_prefix = [],
     vo_open = Some (\<lambda>b. Inr (if b = ageHeader @ ''m'' then (''i'', None) else (''e'' @ [CHR 0x0A] @ ''ab'', None))),
     vo_storage = ReportHop, vo_locker = \<lparr>li_endpoint = ''https://s.io/'', li_bucket = ''l'', li_prefix = []\<rparr>,
     vo_reference = Some \<lparr>rf_endpoint = ''https://S.io:443'', rf_bucket = ''r'', rf_region = ''auto'', rf_key = ''probe''\<rparr>, vo_reference_err = None,
     vo_open_reference = Some (\<lambda>ref. Inr \<lparr>pb_backend = Some toy_refusing, pb_store = (\<lambda>i. ()), pb_access_key = ''K'', pb_exchanges = Some [toy_exchange, toy_exchange]\<rparr>),
     vo_credential_id = Some (Inr ''K''), vo_client_version = ''1'', vo_now = ''t''\<rparr>"

definition toy_instant :: "string \<Rightarrow> int option" where "toy_instant s = Some 7"


lemma toy_inventory: "take_inventory [] [toy_meta ''keyring.v1.json'', toy_meta ''manifest.age'', toy_meta ''snapshots/a.age'']
   = \<lparr>iv_manifest = True, iv_keyring = True, iv_snapshots = [''a''], iv_other = [], iv_total = 3\<rparr>"
  by code_simp

lemma toy_newest: "newest_snapshot toy_check_lib toy_instant toy_options \<lparr>iv_manifest = True, iv_keyring = True, iv_snapshots = [''a''], iv_other = [], iv_total = 3\<rparr> (ageHeader @ ''m'') = (''a'', True)"
  by (simp add: newest_snapshot_def toy_options_def read_limited_def maxCheckBytes_def toy_check_lib_def toy_entry_def index_entries_def
      new_manifest_def toy_instant_def)

lemma toy_inspect: "is_ciphertext (ageHeader @ ''m'') \<and> is_ciphertext (ageHeader @ ''s'')"
  by code_simp

lemma toy_manifest: "\<exists>d. describe_manifest toy_check_lib (''i'', None) = Inr d"
  by (simp add: describe_manifest_def read_limited_def maxCheckBytes_def toy_check_lib_def)

lemma toy_snap: "\<exists>d. describe_snapshot toy_check_lib toy_texts (snapshot_object ''a'') (''e'' @ [CHR 0x0A] @ ''ab'', None) = Inr d"
  by (simp add: describe_snapshot_def snapshot_line_def read_limited_def maxCheckBytes_def toy_check_lib_def toy_snapshot_envelope_def Let_def)

lemma toy_visible: "list_all visible_ascii ''https://s.io/''" "list_all visible_ascii ''https://S.io:443''" "list_all visible_ascii ''r''"
  "list_all visible_ascii ''l''"
  by (simp_all add: visible_ascii_def code_of_def)

lemma toy_urls: "parse_url ''https://s.io/'' = Some (''https'', ''s.io'')" "parse_url ''https://S.io:443'' = Some (''https'', ''S.io:443'')"
  "split_host_port ''s.io'' = (''s.io'', [])" "split_host_port ''S.io:443'' = (''S.io'', ''443'')"
  "to_lower ''s.io'' = ''s.io''" "to_lower ''S.io'' = ''s.io''" "to_lower ''https'' = ''https''" "to_lower ''r'' \<noteq> to_lower ''l''"
  "trim_suffix ''s.io'' ''.'' = ''s.io''"
  by code_simp+

lemma toy_endpoints:
  "parse_endpoint ''https://s.io/'' = Some \<lparr>ep_scheme = ''https'', ep_host = ''s.io'', ep_port = ''443''\<rparr>"
  "parse_endpoint ''https://S.io:443'' = Some \<lparr>ep_scheme = ''https'', ep_host = ''s.io'', ep_port = ''443''\<rparr>"
  "\<not> same_bucket ''r'' ''l''"
  unfolding parse_endpoint_def same_bucket_def equal_fold_def trim_visible [OF toy_visible(1)] trim_visible [OF toy_visible(2)]
    trim_visible [OF toy_visible(3)] trim_visible [OF toy_visible(4)]
  by (simp_all add: toy_urls)

lemma toy_pin: "pin_reference toy_texts (vo_locker toy_options) (the (vo_reference toy_options)) = Inr \<lparr>ep_scheme = ''https'', ep_host = ''s.io'', ep_port = ''443''\<rparr>"
  by (simp add: pin_reference_def toy_options_def toy_endpoints endpoint_plaintext_def)

lemma toy_landed: "landed_at toy_exchange = Some \<lparr>ep_scheme = ''https'', ep_host = ''s.io'', ep_port = ''443''\<rparr>"
proof -
  have "list_all visible_ascii ''https://s.io''" by (simp add: visible_ascii_def code_of_def)
  moreover have "parse_url ''https://s.io'' = Some (''https'', ''s.io'')" by code_simp
  ultimately show ?thesis by (simp add: landed_at_def toy_exchange_def parse_endpoint_def trim_visible toy_urls)
qed

lemma toy_seen: "pin_verdict (pin_to_response \<lparr>ep_scheme = ''https'', ep_host = ''s.io'', ep_port = ''443''\<rparr> (Some [toy_exchange, toy_exchange])) = Pass"
proof -
  have "ex_redirected_to toy_exchange = []" "ex_status toy_exchange = 403" "ex_error_code toy_exchange \<noteq> []" by (simp_all add: toy_exchange_def)
  then show ?thesis by (simp add: pin_to_response_def toy_landed)
qed

lemma toy_listing: "run_listing toy_options = Inr [toy_meta ''keyring.v1.json'', toy_meta ''manifest.age'', toy_meta ''snapshots/a.age'']"
  by (simp add: run_listing_def toy_options_def toy_locker_def)

lemma toy_fetch: "fetch (vo_backend toy_options) (object_key (vo_prefix toy_options) manifestObject) u = Inr (ageHeader @ ''m'')"
  "fetch (vo_backend toy_options) (object_key (vo_prefix toy_options) (snapshot_object ''a'')) u = Inr (ageHeader @ ''s'')"
  by (simp_all add: fetch_def object_key_def toy_options_def toy_locker_def trim_char_def manifestObject_def snapshot_object_def
      snapshotPrefix_def maxCheckBytes_def ageHeader_def)

lemma toy_reading:
  "rd_got (run_reading toy_check_lib toy_instant toy_options)
     = [\<lparr>fe_name = manifestObject, fe_label = ''the index'', fe_body = ageHeader @ ''m''\<rparr>,
        \<lparr>fe_name = snapshot_object ''a'', fe_label = ''the newest snapshot in the index'', fe_body = ageHeader @ ''s''\<rparr>]"
  "rd_status (run_reading toy_check_lib toy_instant toy_options) = Pass"
proof -
  have prefix: "vo_prefix toy_options = []" by (simp add: toy_options_def)
  have rd: "run_reading toy_check_lib toy_instant toy_options
      = read_objects toy_check_lib toy_instant toy_options (take_inventory (vo_prefix toy_options) [toy_meta ''keyring.v1.json'', toy_meta ''manifest.age'', toy_meta ''snapshots/a.age'']) []"
    by (rule reading_of_listing(3) [OF toy_listing]) (simp add: prefix toy_inventory)
  obtain seen1 where i1: "inspect_ciphertext (ageHeader @ ''m'') = (seen1, True)"
    using toy_inspect inspect_ok [of "ageHeader @ ''m''"] by (cases "inspect_ciphertext (ageHeader @ ''m'')") auto
  obtain seen2 where i2: "inspect_ciphertext (ageHeader @ ''s'') = (seen2, True)"
    using toy_inspect inspect_ok [of "ageHeader @ ''s''"] by (cases "inspect_ciphertext (ageHeader @ ''s'')") auto
  show "rd_got (run_reading toy_check_lib toy_instant toy_options)
     = [\<lparr>fe_name = manifestObject, fe_label = ''the index'', fe_body = ageHeader @ ''m''\<rparr>,
        \<lparr>fe_name = snapshot_object ''a'', fe_label = ''the newest snapshot in the index'', fe_body = ageHeader @ ''s''\<rparr>]"
    "rd_status (run_reading toy_check_lib toy_instant toy_options) = Pass"
    unfolding rd prefix toy_inventory read_objects_def Let_def toy_fetch [unfolded prefix]
    by (simp_all add: read_object_def i1 i2 toy_newest start_reading_def toy_fetch [unfolded prefix] prefix)
qed

lemma toy_statuses:
  "map st_status (rp_steps (verify_run toy_check_lib toy_texts toy_instant toy_options)) = [Pass, Pass, Pass, Pass]"
proof -
  have prefix: "vo_prefix toy_options = []" by (simp add: toy_options_def)
  have s1: "st_status (fst (list_step toy_options)) = Pass"
    unfolding list_step_listed(2) [OF toy_listing] prefix toy_inventory by simp
  have s2: "st_status (fst (ciphertext_step toy_check_lib toy_instant toy_options (fst (snd (list_step toy_options))) (snd (snd (list_step toy_options))))) = Pass"
    using toy_reading(2) list_step_listed(1) [OF toy_listing]
    by (simp add: run_reading_def ciphertext_step_def Let_def prod_eq_iff prefix toy_inventory)
  have open1: "vo_open toy_options = Some (\<lambda>b. Inr (if b = ageHeader @ ''m'' then (''i'', None) else (''e'' @ [CHR 0x0A] @ ''ab'', None)))"
    by (simp add: toy_options_def)
  have s3: "st_status (fst (decrypt_step toy_check_lib toy_texts toy_options (rd_got (run_reading toy_check_lib toy_instant toy_options)))) = Pass"
    using toy_manifest toy_snap
    by (auto simp: toy_reading(1) decrypt_step_def open1 Let_def open_object_def manifestObject_def snapshot_object_def snapshotPrefix_def)
  have s4: "st_status (fst (isolation_step toy_texts toy_options (credential_used toy_options) Pass)) = Pass"
    using toy_seen toy_pin
    by (simp add: isolation_step_def isolation_skipped_def isolation_probe_def isolation_made_def judge_probe_def Let_def split_beta
        toy_options_def ReportBYO_def ReportHop_def credential_used_def judge_listing_def judge_reading_def judge_answer_def
        toy_refusing_def toy_locker_def fetch_def fetch_is_def refusal_is_def)
  show ?thesis unfolding verify_run_fields(1) using s1 s2 s3 s4 by simp
qed

lemma passing_report_is_backed_witness:
  "list_all (\<lambda>f. fetched_from toy_options f \<and> is_ciphertext (fe_body f)) (rd_got (run_reading toy_check_lib toy_instant toy_options))
    \<and> rd_got (run_reading toy_check_lib toy_instant toy_options) \<noteq> []"
proof -
  have "outcome_of (rp_steps (verify_run toy_check_lib toy_texts toy_instant toy_options)) = Pass"
    using toy_statuses by (auto simp: map_eq_Cons_conv outcome_of_def)
  then have "rp_outcome (verify_run toy_check_lib toy_texts toy_instant toy_options) = Pass"
    unfolding verify_run_fields(1,2) by (simp add: toy_reading(1))
  from passing_report_is_backed [OF this] show ?thesis by (auto simp: list_all_iff)
qed


text \<open>The same locker after its index was replaced by readable bytes.\<close>

definition toy_leaking :: "(unit, unit) verify_options" where
  "toy_leaking = toy_options\<lparr>vo_backend := toy_locker\<lparr>be_get := (\<lambda>k s. Inr (''{}'', toy_meta k)), be_list := (\<lambda>p s. Inr [toy_meta ''manifest.age''])\<rparr>\<rparr>"


definition toy_silent :: "(unit, unit) verify_options" where
  "toy_silent = toy_options\<lparr>vo_backend := toy_locker\<lparr>be_list := (\<lambda>p s. Inl (BackendOther ''timeout''))\<rparr>\<rparr>"

lemma outage_is_no_finding_witness: "not_verified (verify_run toy_check_lib toy_texts toy_instant toy_silent)"
proof -
  have "run_listing toy_silent = Inl (BackendOther ''timeout'')" by (simp add: run_listing_def toy_silent_def)
  moreover have "\<not> answered (FetchBackend (BackendOther ''timeout''))" by (simp add: answered_def is_api_answer_def answer_sentinels_def)
  ultimately show ?thesis using outage_is_no_finding [of toy_silent "BackendOther ''timeout''" toy_check_lib toy_texts toy_instant True True] by blast
qed

text \<open>The outage of the listing is told by step 4 as a profile that has pushed nothing.\<close>

lemma outage_told_as_nothing_pushed:
  "st_observed (fst (isolation_step toy_texts toy_silent (credential_used toy_silent) (st_status (fst (list_step toy_silent))))) = nothing_to_verify_observed"
proof -
  have "run_listing toy_silent = Inl (BackendOther ''timeout'')" by (simp add: run_listing_def toy_silent_def)
  moreover have "\<not> answered (FetchBackend (BackendOther ''timeout''))" by (simp add: answered_def is_api_answer_def answer_sentinels_def)
  ultimately have s1: "st_status (fst (list_step toy_silent)) = NotApplicable" by (rule list_step_unanswered(2))
  have "isolation_skipped toy_texts toy_silent NotApplicable = Some nothing_to_verify_observed"
    by (simp add: isolation_skipped_def toy_silent_def toy_options_def ReportBYO_def ReportHop_def)
  then show ?thesis by (simp add: isolation_step_def isolation_made_def s1)
qed


end
