(* ===== verification/Spec2Isabelle.thy ===== *)
theory Spec2Isabelle
  imports Sync_Props Sync_Plan Sync_Pull Sync_Migrate_Run Daemon_Loop Preflight_Policy Capsule_Identity
    Pathmap Account_Witness Device_Commands Verify_Witness
begin

text \<open>
  \<^bold>\<open>A verification development of \<^verbatim>\<open>reinstate\<close>\<close>, the command line tool \<^verbatim>\<open>rein\<close> that carries coding-agent
  sessions between machines. It models the program's own logic in \<^verbatim>\<open>src/internal\<close> and proves what makes
  it correct. Functions keep the structure of the Go code: a struct is a record, an enumeration a
  datatype, a fallible function returns \<open>error + value\<close> (\<open>Inl\<close> the error), a Go string or byte slice
  is a list of bytes, a Go \<^verbatim>\<open>int\<close> an \<^typ>\<open>int\<close> unless its width matters (words and \<open>wrap64\<close> then), and
  every early return is a branch.

  \<^bold>\<open>Parts and theories.\<close>

  \<^item> Prelude. \<open>Go_Base\<close> (results, package \<^verbatim>\<open>strings\<close>, \<^verbatim>\<open>strconv\<close>, hexadecimal, base 64, digests),
    \<open>Go_Filepath\<close> (\<^verbatim>\<open>path.Clean\<close>, \<^verbatim>\<open>Base\<close>, \<^verbatim>\<open>Join\<close>), \<open>Go_Unicode\<close> (UTF-8, rune classes, \<^verbatim>\<open>TrimSpace\<close>).
  \<^item> Storage. \<open>Object_Store\<close> is \<^verbatim>\<open>backend\<close>: the interface as a record of operations, its errors with
    \<^verbatim>\<open>errors.Is\<close>, and the memory store. The locale \<open>object_store\<close> states what the clients need (what
    a read returns after a write, that a conditional write is a compare and swap, that a failed write
    changes nothing), \<open>mem\<close> interprets it on the memory store. \<open>Local_Files\<close> is the local disk with
    \<^verbatim>\<open>fsx.WriteFileAtomic\<close>; every system call may fail, by a fault function.
  \<^item> Data contracts. \<open>Schema\<close> is \<^verbatim>\<open>schema\<close>: configuration, account, manifest, envelope, state.
  \<^item> Synchronization. \<open>Sync_Engine\<close> is \<^verbatim>\<open>sync/push.go\<close> (push, pull, the manifest loop), \<open>Sync_Props\<close> and
    \<open>Sync_Pull\<close> hold its properties, \<open>Sync_Plan\<close> is \<^verbatim>\<open>plan.go\<close> and \<^verbatim>\<open>conflict.go\<close>, \<open>Sync_Migrate\<close> and
    \<open>Sync_Migrate_Run\<close> are \<^verbatim>\<open>migrate.go\<close>. Other devices act between any two calls of the store, as
    a function from the number of the call to a change of the store.
  \<^item> Keys. \<open>Recovery_Code\<close> (the Crockford codes; locale \<open>typed_code\<close>, interpreted for the recovery and
    for the pairing code), \<open>Root_Key\<close> (\<^verbatim>\<open>crypto/rootkey.go\<close> with Bech32), \<open>Keyring\<close> (the object and its
    signatures), \<open>Keyring_Ops\<close> (every operation of \<^verbatim>\<open>keyring.go\<close>), \<open>Keyring_Trust\<close> (what signatures buy),
    \<open>Keyring_Valid\<close> and \<open>Keyring_Create\<close> (operations keep validity), \<open>Keyring_Store\<close> (the object in the
    store), \<open>Pairing\<close> (the hand-over of the root key).
  \<^item> Daemon. \<open>Daemon_Loop\<close> is \<^verbatim>\<open>daemon/loop.go\<close> and \<^verbatim>\<open>status.go\<close>: one round of the select loop is one
    step, \<open>daemon_reach\<close> the reachable states.
  \<^item> Workspace and launch policy. \<open>Safetext\<close> (terminal text), \<open>Workspace_Compare\<close> (recorded against
    observed facts), \<open>Preflight_Policy\<close> (ordering, merging and aggregating checks, authorization).
  \<^item> Home directory. \<open>Exit_Codes\<close> is \<^verbatim>\<open>exitcode\<close>, \<open>Config_Files\<close> the documents of the home directory
    (\<^verbatim>\<open>config\<close>; locale \<open>saved_document\<close>: what a load returns after a save), \<open>Credentials\<close> the system
    keyring and the memory store (locale \<open>secret_store\<close>).
  \<^item> Control plane. \<open>Hop_Client\<close> is \<^verbatim>\<open>hop\<close>: each call on the reply it got (status and body), the two
    polling loops, the pairing session and the credential source.
  \<^item> Commands. \<open>Keyring_Anchor\<close> is \<^verbatim>\<open>cli/keyring_floor.go\<close> (the newest generation this device has seen
    and the floor below which it refuses a keyring), \<open>Keyring_Enrol\<close> and \<open>Keyring_Unwrap\<close> are the
    enrolment of one device in every generation and what it can then open, \<open>Account_Commands\<close> is
    \<^verbatim>\<open>cli/account.go\<close> (init, recover, status) with the engine a command starts from, \<open>Device_Commands\<close>
    is \<^verbatim>\<open>cli/pairing.go\<close> (join, approve, revoke, list). \<open>Account_Props\<close> composes them: after init or
    recover the next command finds its root key. \<open>Concrete_Codecs\<close> and \<open>Account_Witness\<close> hold the
    concrete codecs and the installation on which those theorems are applied.
  \<^item> Verification of the locker. \<open>Verify_Endpoint\<close> (endpoints, the parts of \<^verbatim>\<open>net/url\<close> and \<^verbatim>\<open>net\<close> they use, the
    pin to what the transport saw), \<open>Verify_Report\<close> (report, summary, causes), \<open>Verify_Run\<close> (the four steps of
    \<^verbatim>\<open>rein sync verify\<close>) and \<open>Verify_Props\<close>, with the run they are applied to in \<open>Verify_Witness\<close>.
  \<^item> Capsules. \<open>Pathmap\<close> (portable paths), \<open>Capsule_Json\<close> (canonical JSON), \<open>Capsule\<close> (records, document,
    identities, the path rule), \<open>Capsule_Check\<close> (validation, fidelity), \<open>Capsule_Identity\<close> (the bytes
    determine the content).

  \<^bold>\<open>What the lemmas show.\<close> Synchronization: a manifest or keyring update is one atomic swap of the version
  it was computed from, whatever other devices do, so no update is lost; a failed push or pull changes
  nothing it should not; a pulled session is byte for byte the pushed one; a migration copies
  everything, verifies it and overwrites nothing. Keys: enrolment and roll-over keep the keyring valid, a
  revoked device cannot open what a roll-over seals, a keyring that verifies is a prefix of what the
  account signed; the hand-over gives the root key to the holder of the spoken code only. Daemon: the
  schedule never dies, back-off is capped doubling, a request is announced once, the status file tells
  what happened. Policy: merging checks never hides a blocker, a launch needs exactly the current
  acknowledgements, an untrusted expectation never matches. Capsules: canonical bytes determine the
  content, validation accepts exactly the contract, portable paths read back.  Commands: what init or recover leaves behind (store, home directory, system keyring) is what the next
  command needs to obtain the current root key; a device accepts no keyring older than one it has
  accepted or than the confirmed floor; waiting for an approval ends. Verification: a pass, an isolation sentence and an
  alarm each rest on what was observed, and an outage is never a finding.

  \<^bold>\<open>Parameters.\<close> Code that is not in the repository is an argument: SHA-256, HKDF, HMAC, Ed25519, Argon2id,
  XChaCha20-Poly1305 and age, JSON and TOML of the stored documents, the replies of the control plane, the
  clock, random bytes (numbered seeds), the prompts and the operating system's faults. What a theorem needs of
  them is a named hypothesis (\<open>crypto_laws\<close>, injectivity of a digest on the values compared, a round trip
  of the codec), satisfied by a concrete instance in the witness beside it.

  \<^bold>\<open>Bounds.\<close> Retry loops have the code's own bounds (\<open>maxManifestRetries\<close>, \<open>maxUpdateRetries\<close>) as recursion
  on the attempts left, so they need no fuel. Recursion on byte strings ends because every decoded rune
  consumes a byte. The daemon's loop is a step function; its properties hold of every reachable state.
  Size limits (\<open>maxManifestBytes\<close>, \<open>maxObjectBytes\<close>, \<open>MaxCapsuleBytes\<close> and others) are the constants of the
  code.

  \<^bold>\<open>Not modelled.\<close> Argument parsing, prompts and rendering (the rest of \<^verbatim>\<open>cli\<close>, \<^verbatim>\<open>tui\<close>, \<^verbatim>\<open>ui\<close>), the readers
  and writers of the vendors' session formats (\<^verbatim>\<open>adapter\<close>, \<^verbatim>\<open>transcript\<close>, \<^verbatim>\<open>agents\<close>), the SQL session index,
  the request side of the control plane's HTTP calls, the S3 client, probes that run \<^verbatim>\<open>git\<close> or an agent,
  permission bits and access lists of files. They are input and output around the logic modelled here, or
  interpret formats the repository does not define.
\<close>

end
